(* ===== verification/Prelude.thy ===== *)
theory Prelude
  imports Main "HOL-Library.Char_ord" "HOL-Library.List_Lexorder" "HOL-Library.Product_Lexorder"
    "HOL-Library.AList" "HOL-Library.Multiset"
begin

text \<open>
  Shared vocabulary of the development: results (a raised exception is \<open>Inl\<close>), the fragment of
  Python's string and list library the sources use, dictionaries as association lists in insertion
  order, and the locale of invariant-preserving transition systems that the stateful components
  instantiate.

  A Python \<open>str\<close> is a \<^typ>\<open>string\<close> whose characters are code points below 256. On these the
  definitions of \<open>lower\<close>, \<open>strip\<close>, \<open>isdigit\<close> and \<open>int\<close> below are those of Python, and the
  lexicographic order of \<open>List_Lexorder\<close> over \<open>Char_ord\<close> is Python's order on strings.
\<close>

section \<open>Collections of simplification rules\<close>

named_theorems result_simps \<open>rules for the result type\<close>
named_theorems py_str_simps \<open>rules for the Python string operations\<close>

section \<open>Results\<close>

text \<open>Exceptions are values: \<open>Inl e\<close> is a raised \<open>e\<close>, \<open>Inr x\<close> a normal return.\<close>

fun rbind :: "'e + 'a \<Rightarrow> ('a \<Rightarrow> 'e + 'b) \<Rightarrow> 'e + 'b" where
  "rbind (Inl e) f = Inl e"
| "rbind (Inr x) f = f x"

definition rguard :: "bool \<Rightarrow> 'e \<Rightarrow> 'e + unit" where
  "rguard ok e = (if ok then Inr () else Inl e)"

text \<open>A \<open>for\<close> loop whose body may raise: the first exception ends it.\<close>

fun rfold :: "('a \<Rightarrow> 's \<Rightarrow> 'e + 's) \<Rightarrow> 'a list \<Rightarrow> 's \<Rightarrow> 'e + 's" where
  "rfold f [] s = Inr s"
| "rfold f (x # xs) s = rbind (f x s) (rfold f xs)"

fun rmap :: "('a \<Rightarrow> 'e + 'b) \<Rightarrow> 'a list \<Rightarrow> 'e + 'b list" where
  "rmap f [] = Inr []"
| "rmap f (x # xs) = rbind (f x) (\<lambda>y. rbind (rmap f xs) (\<lambda>ys. Inr (y # ys)))"

definition is_ok :: "'e + 'a \<Rightarrow> bool" where
  "is_ok r = (case r of Inl _ \<Rightarrow> False | Inr _ \<Rightarrow> True)"

lemma rbind_eq_Inr_iff [result_simps]: "rbind r f = Inr y \<longleftrightarrow> (\<exists>x. r = Inr x \<and> f x = Inr y)"
  by (cases r) auto

lemma rbind_eq_Inl_iff [result_simps]:
  "rbind r f = Inl e \<longleftrightarrow> r = Inl e \<or> (\<exists>x. r = Inr x \<and> f x = Inl e)"
  by (cases r) auto

lemma rguard_eq_Inr_iff [result_simps]: "rguard ok e = Inr u \<longleftrightarrow> ok"
  by (simp add: rguard_def)

lemma rguard_eq_Inl_iff [result_simps]: "rguard ok e = Inl e' \<longleftrightarrow> \<not> ok \<and> e' = e"
  by (auto simp: rguard_def)

lemma rbind_assoc: "rbind (rbind r f) g = rbind r (\<lambda>x. rbind (f x) g)"
  by (cases r) auto

lemma is_ok_simps [simp]: "is_ok (Inr x)" "\<not> is_ok (Inl e)"
  by (simp_all add: is_ok_def)

lemma is_ok_iff: "is_ok r \<longleftrightarrow> (\<exists>x. r = Inr x)"
  by (cases r) auto

lemma rfold_append: "rfold f (xs @ ys) s = rbind (rfold f xs s) (rfold f ys)"
proof (induction xs arbitrary: s)
  case Nil
  then show ?case by simp
next
  case (Cons x xs)
  then have "rfold f (xs @ ys) = (\<lambda>t. rbind (rfold f xs t) (rfold f ys))"
    by (intro ext)
  then show ?case by (simp add: rbind_assoc)
qed

text \<open>A property kept by every iteration holds of the loop's result.\<close>

lemma rfold_invariant:
  assumes "rfold f xs s = Inr s'" and "P s"
    and "\<And>x s s'. x \<in> set xs \<Longrightarrow> P s \<Longrightarrow> f x s = Inr s' \<Longrightarrow> P s'"
  shows "P s'"
  using assms
proof (induction xs arbitrary: s)
  case Nil
  then show ?case by simp
next
  case (Cons x xs)
  then obtain s1 where "f x s = Inr s1" "rfold f xs s1 = Inr s'"
    by (auto simp: result_simps)
  with Cons show ?case by (meson list.set_intros)
qed

lemma rmap_cong [fundef_cong]:
  "xs = ys \<Longrightarrow> (\<And>x. x \<in> set ys \<Longrightarrow> f x = g x) \<Longrightarrow> rmap f xs = rmap g ys"
proof (induction ys arbitrary: xs)
  case (Cons y ys)
  then have "rmap f ys = rmap g ys" "f y = g y" by auto
  with Cons.prems(1) show ?case by simp
qed simp

lemma rmap_eq_Inr_iff: "rmap f xs = Inr ys \<longleftrightarrow> list_all2 (\<lambda>x y. f x = Inr y) xs ys"
proof (induction xs arbitrary: ys)
  case Nil
  then show ?case by auto
next
  case (Cons x xs)
  then show ?case by (cases ys) (auto simp: result_simps)
qed

section \<open>Python strings\<close>

definition nat_of_char :: "char \<Rightarrow> nat" where
  "nat_of_char c = of_char c"

text \<open>\<open>str.lower\<close> on code points below 256.\<close>

definition lower_char :: "char \<Rightarrow> char" where
  "lower_char c = (let n = nat_of_char c in
     if (65 \<le> n \<and> n \<le> 90) \<or> (192 \<le> n \<and> n \<le> 222 \<and> n \<noteq> 215) then char_of (n + 32) else c)"

definition py_lower :: "string \<Rightarrow> string" where
  "py_lower s = map lower_char s"

text \<open>\<open>str.isspace\<close> on one character, the set \<open>str.strip\<close> removes.\<close>

definition is_space :: "char \<Rightarrow> bool" where
  "is_space c = (let n = nat_of_char c in
     n = 32 \<or> (9 \<le> n \<and> n \<le> 13) \<or> (28 \<le> n \<and> n \<le> 31) \<or> n = 133 \<or> n = 160)"

definition strip_by :: "('a \<Rightarrow> bool) \<Rightarrow> 'a list \<Rightarrow> 'a list" where
  "strip_by p s = rev (dropWhile p (rev (dropWhile p s)))"

definition py_strip :: "string \<Rightarrow> string" where
  "py_strip s = strip_by is_space s"

fun py_startswith :: "string \<Rightarrow> string \<Rightarrow> bool" where
  "py_startswith s [] = True"
| "py_startswith [] (p # ps) = False"
| "py_startswith (c # cs) (p # ps) = (c = p \<and> py_startswith cs ps)"

definition py_endswith :: "string \<Rightarrow> string \<Rightarrow> bool" where
  "py_endswith s p = py_startswith (rev s) (rev p)"

text \<open>\<open>sub in s\<close>.\<close>

fun py_contains :: "string \<Rightarrow> string \<Rightarrow> bool" where
  "py_contains [] p = (p = [])"
| "py_contains (c # cs) p = (py_startswith (c # cs) p \<or> py_contains cs p)"

text \<open>\<open>s.split(sep)\<close> for a one-character separator.\<close>

fun py_split :: "char \<Rightarrow> string \<Rightarrow> string list" where
  "py_split sep [] = [[]]"
| "py_split sep (c # cs) =
     (if c = sep then [] # py_split sep cs
      else case py_split sep cs of [] \<Rightarrow> [[c]] | w # ws \<Rightarrow> (c # w) # ws)"

definition py_replace_char :: "char \<Rightarrow> string \<Rightarrow> string \<Rightarrow> string" where
  "py_replace_char c r s = concat (map (\<lambda>x. if x = c then r else [x]) s)"

text \<open>\<open>sep.join(words)\<close>.\<close>

definition join_with :: "string \<Rightarrow> string list \<Rightarrow> string" where
  "join_with sep ws = (case ws of [] \<Rightarrow> [] | w # ws' \<Rightarrow> w @ concat (map (\<lambda>v. sep @ v) ws'))"

definition is_digit :: "char \<Rightarrow> bool" where
  "is_digit c = (48 \<le> nat_of_char c \<and> nat_of_char c \<le> 57)"

text \<open>\<open>str.isdigit\<close>: decimal digits and the three superscript digits of Latin-1.\<close>

definition py_isdigit :: "string \<Rightarrow> bool" where
  "py_isdigit s = (s \<noteq> [] \<and>
     list_all (\<lambda>c. is_digit c \<or> nat_of_char c \<in> {178, 179, 185}) s)"

lemma py_startswith_iff: "py_startswith s p \<longleftrightarrow> (\<exists>t. s = p @ t)"
  by (induction s p rule: py_startswith.induct) auto

lemma py_endswith_iff: "py_endswith s p \<longleftrightarrow> (\<exists>t. s = t @ p)"
  by (auto simp: py_endswith_def py_startswith_iff) (metis rev_append rev_rev_ident)+

lemma py_contains_iff: "py_contains s p \<longleftrightarrow> (\<exists>t u. s = t @ p @ u)"
proof (induction s)
  case Nil
  then show ?case by auto
next
  case (Cons c cs)
  have "py_contains (c # cs) p \<longleftrightarrow> (\<exists>u. c # cs = p @ u) \<or> (\<exists>t u. cs = t @ p @ u)"
    by (simp add: Cons py_startswith_iff)
  also have "\<dots> \<longleftrightarrow> (\<exists>t u. c # cs = t @ p @ u)"
    by (metis append_Cons append_Nil list.inject neq_Nil_conv)
  finally show ?case .
qed

lemma py_lower_append [py_str_simps]: "py_lower (s @ t) = py_lower s @ py_lower t"
  by (simp add: py_lower_def)

lemma length_py_lower [simp]: "length (py_lower s) = length s"
  by (simp add: py_lower_def)

lemma lower_char_idem [simp]: "lower_char (lower_char c) = lower_char c"
  by (auto simp: lower_char_def nat_of_char_def Let_def)

lemma py_lower_idem [simp]: "py_lower (py_lower s) = py_lower s"
  by (simp add: py_lower_def)

lemma length_strip_by: "length (strip_by p s) \<le> length s"
  unfolding strip_by_def
  by (metis le_trans length_dropWhile_le length_rev)

lemma dropWhile_strip_by [simp]: "dropWhile p (strip_by p s) = strip_by p s"
proof -
  define t where "t = dropWhile p s"
  have t: "t = [] \<or> \<not> p (hd t)"
    by (metis hd_dropWhile t_def)
  have "dropWhile p (rev (dropWhile p (rev t))) = rev (dropWhile p (rev t))"
  proof (cases "rev (dropWhile p (rev t))")
    case Nil
    then have "dropWhile p (rev t) = []" by (simp only: rev_is_Nil_conv)
    then show ?thesis by (simp only: rev.simps dropWhile.simps)
  next
    case (Cons x xs)
    then obtain ys where "t = x # ys"
      by (metis append_Cons rev_append rev_rev_ident takeWhile_dropWhile_id)
    with t Cons show ?thesis by simp
  qed
  then show ?thesis by (simp add: strip_by_def t_def)
qed

lemma strip_by_idem [simp]: "strip_by p (strip_by p s) = strip_by p s"
proof -
  have "dropWhile p (rev (strip_by p s)) = rev (strip_by p s)"
    unfolding strip_by_def by (simp add: dropWhile_idem)
  then show ?thesis
    by (simp add: strip_by_def [of p "strip_by p s"])
qed

lemma py_strip_idem [simp]: "py_strip (py_strip s) = py_strip s"
  by (simp add: py_strip_def)

lemma py_split_nonempty [simp]: "py_split sep s \<noteq> []"
  by (cases s) (auto split: list.splits)

section \<open>Decimal notation\<close>

text \<open>\<open>str(n)\<close> for an integer.\<close>

fun show_nat :: "nat \<Rightarrow> string" where
  "show_nat n = (if n < 10 then [char_of (48 + n)]
                 else show_nat (n div 10) @ [char_of (48 + n mod 10)])"

declare show_nat.simps [simp del]

definition show_int :: "int \<Rightarrow> string" where
  "show_int i = (if i < 0 then CHR ''-'' # show_nat (nat (- i)) else show_nat (nat i))"

text \<open>\<open>int(s)\<close>: surrounding whitespace, a sign, digits with single underscores between them, and
  at most 4300 digits.\<close>

fun digits_value :: "nat \<Rightarrow> string \<Rightarrow> nat" where
  "digits_value acc [] = acc"
| "digits_value acc (c # cs) = digits_value (10 * acc + (nat_of_char c - 48)) cs"

definition valid_digits :: "string \<Rightarrow> bool" where
  "valid_digits s = (list_all (\<lambda>w. w \<noteq> [] \<and> list_all is_digit w) (py_split CHR ''_'' s) \<and>
                     length (filter is_digit s) \<le> 4300)"

definition py_int :: "string \<Rightarrow> int option" where
  "py_int s = (let t = py_strip s;
                   sign = (if py_startswith t ''-'' then - 1 else 1);
                   ds = (if py_startswith t ''-'' \<or> py_startswith t ''+'' then tl t else t)
     in if valid_digits ds then Some (sign * int (digits_value 0 (filter is_digit ds))) else None)"

lemma show_nat_digits: "list_all is_digit (show_nat n)"
proof (induction n rule: show_nat.induct)
  case (1 n)
  have "is_digit (char_of (48 + k))" if "k < 10" for k :: nat
    using that by (simp add: is_digit_def nat_of_char_def)
  with 1 show ?case
    by (subst show_nat.simps) simp
qed

lemma show_nat_nonempty [simp]: "show_nat n \<noteq> []"
  by (subst show_nat.simps) simp

lemma digits_value_append: "digits_value acc (s @ t) = digits_value (digits_value acc s) t"
  by (induction s arbitrary: acc) auto

lemma digits_value_show_nat [simp]: "digits_value 0 (show_nat n) = n"
proof (induction n rule: show_nat.induct)
  case (1 n)
  show ?case
  proof (cases "n < 10")
    case True
    then show ?thesis by (subst show_nat.simps) (simp add: nat_of_char_def)
  next
    case False
    then have "digits_value 0 (show_nat n) = 10 * (n div 10) + n mod 10"
      using 1 by (subst show_nat.simps) (simp add: digits_value_append nat_of_char_def)
    then show ?thesis by simp
  qed
qed

section \<open>Lists and dictionaries\<close>

text \<open>\<open>list(dict.fromkeys(xs))\<close>: the distinct elements, each at its first occurrence.\<close>

definition fromkeys :: "'a list \<Rightarrow> 'a list" where
  "fromkeys xs = rev (remdups (rev xs))"

lemma set_fromkeys [simp]: "set (fromkeys xs) = set xs"
  by (simp add: fromkeys_def)

lemma distinct_fromkeys [simp]: "distinct (fromkeys xs)"
  by (simp add: fromkeys_def)

lemma fromkeys_Nil_iff [simp]: "fromkeys xs = [] \<longleftrightarrow> xs = []"
  by (simp add: fromkeys_def)

text \<open>A dictionary in insertion order: \<^const>\<open>map_of\<close> reads it, \<^const>\<open>AList.update\<close> stores into it.\<close>

type_synonym ('k, 'v) dict = "('k \<times> 'v) list"

definition dict_get :: "('k, 'v) dict \<Rightarrow> 'k \<Rightarrow> 'v \<Rightarrow> 'v" where
  "dict_get d k v = (case map_of d k of None \<Rightarrow> v | Some w \<Rightarrow> w)"

lemma set_update_subset: "set (AList.update k v d) \<subseteq> insert (k, v) (set d)"
  by (induction d) auto

lemma sort_key_eq_Nil_iff [simp]: "sort_key f xs = [] \<longleftrightarrow> xs = []"
  by (metis length_0_conv length_sort)

text \<open>Looking up a row by a unique key.\<close>

lemma find_SomeD: "find P xs = Some x \<Longrightarrow> x \<in> set xs \<and> P x"
  by (auto simp: find_Some_iff)

lemma find_unique: "distinct (map f xs) \<Longrightarrow> x \<in> set xs \<Longrightarrow> find (\<lambda>y. f y = f x) xs = Some x"
  by (induction xs) (auto simp: rev_image_eqI)

text \<open>\<open>sorted(xs, key=f)\<close> does not depend on the order of \<open>xs\<close> when no two elements share a key.\<close>

lemma sort_key_perm_eq:
  assumes "mset xs = mset ys" and "inj_on f (set xs)"
  shows "sort_key f xs = sort_key f ys"
  using assms by (intro sort_key_inj_key_eq) simp_all

section \<open>Transition systems with an invariant\<close>

text \<open>
  A stateful component is a set of events, a partial step function (\<open>None\<close> when the operation
  raises, leaving the state as it was) and an invariant. The obligations are that the initial states
  satisfy the invariant and that every successful step keeps it; the consequence is that every run
  does.
\<close>

fun run_events :: "('s \<Rightarrow> 'e \<Rightarrow> 's option) \<Rightarrow> 's \<Rightarrow> 'e list \<Rightarrow> 's" where
  "run_events step s [] = s"
| "run_events step s (e # es) =
     run_events step (case step s e of None \<Rightarrow> s | Some s' \<Rightarrow> s') es"

locale invariant_system =
  fixes step :: "'s \<Rightarrow> 'e \<Rightarrow> 's option"
    and inv :: "'s \<Rightarrow> bool"
  assumes step_inv: "inv s \<Longrightarrow> step s e = Some s' \<Longrightarrow> inv s'"
begin

lemma run_inv: "inv s \<Longrightarrow> inv (run_events step s es)"
proof (induction es arbitrary: s)
  case Nil
  then show ?case by simp
next
  case (Cons e es)
  then show ?case by (cases "step s e") (auto dest: step_inv)
qed

lemma run_append: "run_events step s (es @ fs) = run_events step (run_events step s es) fs"
  by (induction es arbitrary: s) auto

end

text \<open>
  A transition system with a relation every step stays inside, such as "the status never moves
  backwards": the relation is a preorder, so it also relates the ends of every run.
\<close>

locale monotone_system = invariant_system step inv
  for step :: "'s \<Rightarrow> 'e \<Rightarrow> 's option" and inv :: "'s \<Rightarrow> bool" +
  fixes rel :: "'s \<Rightarrow> 's \<Rightarrow> bool"
  assumes rel_refl: "rel s s"
    and rel_trans: "rel s t \<Longrightarrow> rel t u \<Longrightarrow> rel s u"
    and step_rel: "inv s \<Longrightarrow> step s e = Some s' \<Longrightarrow> rel s s'"
begin

lemma run_rel: "inv s \<Longrightarrow> rel s (run_events step s es)"
proof (induction es arbitrary: s)
  case Nil
  then show ?case by (simp add: rel_refl)
next
  case (Cons e es)
  show ?case
  proof (cases "step s e")
    case None
    with Cons show ?thesis by simp
  next
    case (Some s')
    with Cons.prems have "rel s s'" "inv s'" by (auto intro: step_rel step_inv)
    with Some Cons.IH show ?thesis by (auto intro: rel_trans)
  qed
qed

end

section \<open>Sessions\<close>

text \<open>
  A database session keeps the rows it has loaded: \<open>expire_on_commit\<close> is off, so a row is the one of the table in which it
  was read until the session rolls back. A commit writes the columns that differ from what was loaded, over whatever the
  row holds by then. A system whose transactions act on such copies is run over the history of its committed states,
  newest first; a transaction of age \<open>n\<close> loaded its rows \<open>n\<close> commits ago.
\<close>

definition dirty :: "'a \<Rightarrow> 'a \<Rightarrow> 'a \<Rightarrow> 'a" where
  "dirty old new cur = (if new = old then cur else new)"

lemma dirty_loaded [simp]: "dirty x y x = y" "dirty x x y = y"
  by (simp_all add: dirty_def)

definition seen_at :: "nat \<Rightarrow> 's list \<Rightarrow> 's" where
  "seen_at age hist = hist ! min age (length hist - 1)"

lemma seen_at_0 [simp]: "hist \<noteq> [] \<Longrightarrow> seen_at 0 hist = hd hist"
  by (simp add: seen_at_def hd_conv_nth)

end
