(* ===== verification/Binary64.thy ===== *)
theory Binary64
  imports Prelude Complex_Main "HOL-Library.Log_Nat"
begin

text \<open>
  Python's \<open>float\<close>: IEEE 754 binary64 with round-to-nearest-even. A finite float is the rational
  number it denotes and every arithmetic operation is the exact operation followed by \<open>fl\<close>, the
  rounding of a rational to 53 significant bits (subnormals included). \<open>fl\<close> is executable. The
  results of the modelled code stay far below \<open>2 ^ 1024\<close>, so overflow to infinity does not arise
  after the inputs; where the code reads a float from outside and tests it for infinity or NaN, the
  type \<open>pyfloat\<close> keeps these values apart.

  The locale \<open>float_rounding\<close> is the contract the engines rely on (monotone, exact on integers up to
  \<open>2 ^ 53\<close>, bounded error); \<open>fl\<close> interprets it, and the bounds on \<open>sum\<close>, \<open>clamp\<close> and \<open>round\<close> are
  proved once inside.
\<close>

section \<open>Rounding to integers\<close>

text \<open>\<open>round(x)\<close> with no digits: nearest integer, ties to even.\<close>

definition round_half_even :: "rat \<Rightarrow> int" where
  "round_half_even x = (let f = \<lfloor>x\<rfloor>; r = x - of_int f in
     if r < 1 / 2 then f else if 1 / 2 < r then f + 1 else if even f then f else f + 1)"

lemma round_half_even_of_int [simp]: "round_half_even (of_int n) = n"
  by (simp add: round_half_even_def)

lemma round_half_even_err: "\<bar>of_int (round_half_even x) - x\<bar> \<le> 1 / 2"
proof -
  define r where "r = x - of_int \<lfloor>x\<rfloor>"
  have "0 \<le> r" "r < 1"
    using floor_correct [of x] by (auto simp: r_def)
  then show ?thesis
    unfolding round_half_even_def Let_def r_def [symmetric]
    by (auto simp: abs_le_iff r_def; linarith)
qed

lemma round_half_even_mono:
  assumes "x \<le> y"
  shows "round_half_even x \<le> round_half_even y"
proof (rule ccontr)
  assume "\<not> ?thesis"
  then have lt: "round_half_even y + 1 \<le> round_half_even x" by simp
  then have "of_int (round_half_even y) + 1 \<le> (of_int (round_half_even x) :: rat)"
    by (metis of_int_1 of_int_add of_int_le_iff)
  moreover have "of_int (round_half_even x) - x \<le> 1 / 2" "y - of_int (round_half_even y) \<le> 1 / 2"
    using round_half_even_err [of x] round_half_even_err [of y] by linarith+
  ultimately have "x = y"
    using assms by simp
  with lt show False by simp
qed

lemma round_half_even_le: "x \<le> of_int n \<Longrightarrow> round_half_even x \<le> n"
  using round_half_even_mono [of x "of_int n"] by simp

lemma round_half_even_ge: "of_int n \<le> x \<Longrightarrow> n \<le> round_half_even x"
  using round_half_even_mono [of "of_int n" x] by simp

lemma round_half_even_unique:
  assumes "\<bar>of_int n - x\<bar> < 1 / 2"
  shows "round_half_even x = n"
proof -
  have "\<bar>of_int (round_half_even x) - (of_int n :: rat)\<bar> < 1"
    using round_half_even_err [of x] assms by linarith
  then show ?thesis by linarith
qed

lemma round_half_even_uminus: "round_half_even (- x) = - round_half_even x"
proof -
  define f where "f = \<lfloor>x\<rfloor>"
  define r where "r = x - of_int f"
  have r: "0 \<le> r" "r < 1" and x: "x = of_int f + r"
    using floor_correct [of x] by (auto simp: r_def f_def)
  show ?thesis
  proof (cases "r = 1 / 2")
    case True
    then have "- x = of_int (- f - 1) + 1 / 2" by (simp add: x)
    then have fm: "\<lfloor>- x\<rfloor> = - f - 1" by linarith
    have "- x - of_int (- f - 1) = 1 / 2" "x - of_int f = 1 / 2"
      using True by (simp_all add: x)
    then show ?thesis
      unfolding round_half_even_def Let_def fm f_def [symmetric] by simp
  next
    case False
    then consider "r < 1 / 2" | "1 / 2 < r" by linarith
    then show ?thesis
    proof cases
      case 1
      then have "round_half_even x = f" "round_half_even (- x) = - f"
        using r by (intro round_half_even_unique; simp add: x abs_if)+
      then show ?thesis by simp
    next
      case 2
      then have "round_half_even x = f + 1" "round_half_even (- x) = - f - 1"
        using r by (intro round_half_even_unique; simp add: x abs_if)+
      then show ?thesis by simp
    qed
  qed
qed

section \<open>Rounding to binary64\<close>

text \<open>\<open>\<lfloor>log\<^sub>2 x\<rfloor>\<close> for a positive rational, from the bit lengths of numerator and denominator.\<close>

definition ilog2 :: "rat \<Rightarrow> int" where
  "ilog2 x = (let (p, q) = quotient_of x; k = bitlen p - bitlen q
     in if 2 powi k \<le> x then k else k - 1)"

definition ulp_exp :: "rat \<Rightarrow> int" where
  "ulp_exp x = max (ilog2 \<bar>x\<bar> - 52) (- 1074)"

definition fl :: "rat \<Rightarrow> rat" where
  "fl x = (if x = 0 then 0
     else of_int (round_half_even (x / 2 powi ulp_exp x)) * 2 powi ulp_exp x)"

lemma powi_bitlen_bounds:
  assumes "0 < p"
  shows "(2 :: rat) powi (bitlen p - 1) \<le> of_int p \<and> (of_int p :: rat) < 2 powi bitlen p"
proof -
  have pos: "0 < bitlen p" using assms bitlen_nonneg [of p] by (simp add: bitlen_eq_zero_iff less_le)
  have "2 ^ nat (bitlen p - 1) \<le> p \<and> p < 2 ^ nat (bitlen p)"
    using bitlen_bounds [OF assms] .
  then have "(2 :: rat) ^ nat (bitlen p - 1) \<le> of_int p" "(of_int p :: rat) < 2 ^ nat (bitlen p)"
    by (metis of_int_le_iff of_int_numeral of_int_power, metis of_int_less_iff of_int_numeral of_int_power)
  with pos show ?thesis by (simp add: power_int_def)
qed

lemma ilog2_bounds:
  assumes "0 < x"
  shows "2 powi ilog2 x \<le> x \<and> x < 2 powi (ilog2 x + 1)"
proof -
  obtain p q where pq: "quotient_of x = (p, q)" by force
  then have x: "x = of_int p / of_int q" and q: "0 < q"
    by (auto intro: quotient_of_div quotient_of_denom_pos)
  with assms have p: "0 < p" by (simp add: zero_less_divide_iff)
  define k where "k = bitlen p - bitlen q"
  have P: "(2 :: rat) powi (bitlen p - 1) \<le> of_int p" "(of_int p :: rat) < 2 powi bitlen p"
    and Q: "(2 :: rat) powi (bitlen q - 1) \<le> of_int q" "(of_int q :: rat) < 2 powi bitlen q"
    using powi_bitlen_bounds [OF p] powi_bitlen_bounds [OF q] by auto
  have up: "x < 2 powi (k + 1)"
  proof -
    have "of_int p < (2 :: rat) powi (k + 1) * 2 powi (bitlen q - 1)"
      using P(2) by (simp add: k_def flip: power_int_add)
    also have "\<dots> \<le> 2 powi (k + 1) * of_int q"
      using Q(1) by (intro mult_left_mono) auto
    finally show ?thesis using q by (simp add: x field_simps)
  qed
  have low: "2 powi (k - 1) \<le> x"
  proof -
    have "(2 :: rat) powi (k - 1) * of_int q \<le> 2 powi (k - 1) * 2 powi bitlen q"
      using Q(2) by (intro mult_left_mono) auto
    also have "\<dots> = 2 powi (bitlen p - 1)"
      by (simp add: k_def flip: power_int_add)
    also have "\<dots> \<le> of_int p" by (rule P(1))
    finally show ?thesis using q by (simp add: x field_simps)
  qed
  from up low show ?thesis
    by (auto simp: ilog2_def pq Let_def k_def [symmetric])
qed

lemma powi2_less_iff: "(2 :: rat) powi a < 2 powi b \<longleftrightarrow> a < b"
  by (metis linorder_not_less numeral_One numeral_less_iff one_le_numeral one_less_numeral_iff
      power_int_increasing power_int_strict_increasing semiring_norm(76))

lemma ilog2_less:
  assumes "0 < x" and "x < 2 powi k"
  shows "ilog2 x < k"
  using ilog2_bounds [OF assms(1)] assms(2)
  by (metis le_less_trans powi2_less_iff)

lemma ilog2_mono:
  assumes "0 < x" and "x \<le> y"
  shows "ilog2 x \<le> ilog2 y"
proof -
  have "x < 2 powi (ilog2 y + 1)"
    using ilog2_bounds [of y] assms by auto
  from ilog2_less [OF assms(1) this] show ?thesis by simp
qed

lemma powi2_of_int: "0 \<le> k \<Longrightarrow> (2 :: rat) powi k = of_int (2 ^ nat k)"
  by (simp add: power_int_def)

lemma fl_0 [simp]: "fl 0 = 0"
  by (simp add: fl_def)

lemma fl_uminus: "fl (- x) = - fl x"
  by (auto simp: fl_def ulp_exp_def round_half_even_uminus)

lemma fl_err_ulp: "\<bar>fl x - x\<bar> \<le> 2 powi ulp_exp x / 2"
proof (cases "x = 0")
  case True
  then show ?thesis by simp
next
  case False
  define u where "u = (2 :: rat) powi ulp_exp x"
  have u: "0 < u" by (simp add: u_def)
  have "fl x - x = (of_int (round_half_even (x / u)) - x / u) * u"
    using False u by (simp add: fl_def u_def [symmetric] field_simps)
  then have "\<bar>fl x - x\<bar> = \<bar>of_int (round_half_even (x / u)) - x / u\<bar> * u"
    using u by (simp add: abs_mult)
  also have "\<dots> \<le> 1 / 2 * u"
    using u by (intro mult_right_mono round_half_even_err) auto
  finally show ?thesis by (simp add: u_def)
qed

lemma fl_exact:
  assumes "x = of_int n * 2 powi ulp_exp x"
  shows "fl x = x"
proof (cases "x = 0")
  case False
  have "x / 2 powi ulp_exp x = of_int n"
    using assms by (metis nonzero_mult_div_cancel_right power_int_not_zero zero_neq_numeral)
  with assms False show ?thesis by (simp add: fl_def)
qed simp

lemma fl_pow2_le:
  assumes "0 < x" and "x \<le> 2 powi k" and "ulp_exp x \<le> k"
  shows "fl x \<le> 2 powi k"
proof -
  define e where "e = ulp_exp x"
  have "x / 2 powi e \<le> 2 powi k / 2 powi e"
    using assms by (intro divide_right_mono) auto
  also have "\<dots> = (2 :: rat) powi (k - e)"
    by (simp add: power_int_diff)
  also have "\<dots> = of_int (2 ^ nat (k - e))"
    using assms(3) by (intro powi2_of_int) (simp add: e_def)
  finally have "round_half_even (x / 2 powi e) \<le> 2 ^ nat (k - e)"
    by (rule round_half_even_le)
  then have "(of_int (round_half_even (x / 2 powi e)) :: rat) \<le> 2 powi (k - e)"
    using assms(3) by (subst powi2_of_int) (simp_all only: e_def of_int_le_iff diff_ge_0_iff_ge)
  then have "of_int (round_half_even (x / 2 powi e)) * 2 powi e \<le> (2 :: rat) powi (k - e) * 2 powi e"
    by (intro mult_right_mono) auto
  then show ?thesis
    using assms(1) by (simp add: fl_def e_def flip: power_int_add)
qed

lemma fl_pow2_ge:
  assumes "0 < x" and "2 powi k \<le> x" and "ulp_exp x \<le> k"
  shows "2 powi k \<le> fl x"
proof -
  define e where "e = ulp_exp x"
  have "of_int (2 ^ nat (k - e)) = (2 :: rat) powi (k - e)"
    using assms(3) by (subst powi2_of_int) (simp_all add: e_def)
  also have "\<dots> = 2 powi k / 2 powi e"
    by (simp add: power_int_diff)
  also have "\<dots> \<le> x / 2 powi e"
    using assms by (intro divide_right_mono) auto
  finally have "2 ^ nat (k - e) \<le> round_half_even (x / 2 powi e)"
    by (rule round_half_even_ge)
  then have "(2 :: rat) powi (k - e) \<le> of_int (round_half_even (x / 2 powi e))"
    using assms(3) by (subst powi2_of_int) (simp_all only: e_def of_int_le_iff diff_ge_0_iff_ge)
  then have "(2 :: rat) powi (k - e) * 2 powi e \<le> of_int (round_half_even (x / 2 powi e)) * 2 powi e"
    by (intro mult_right_mono) auto
  then show ?thesis
    using assms(1) by (simp add: fl_def e_def flip: power_int_add)
qed

lemma fl_mono_pos:
  assumes "0 < x" and "x \<le> y"
  shows "fl x \<le> fl y"
proof (cases "ulp_exp x = ulp_exp y")
  case True
  have "round_half_even (x / 2 powi ulp_exp x) \<le> round_half_even (y / 2 powi ulp_exp x)"
    using assms by (intro round_half_even_mono divide_right_mono) auto
  with assms True show ?thesis by (auto simp: fl_def intro!: mult_right_mono)
next
  case False
  have le: "ilog2 x \<le> ilog2 y" using assms by (rule ilog2_mono)
  with False assms have lt: "ulp_exp x < ulp_exp y"
    by (simp add: ulp_exp_def max_def split: if_splits)
  then have ey: "ulp_exp y = ilog2 y - 52" and ex: "ilog2 x < ilog2 y"
    using assms by (auto simp: ulp_exp_def max_def split: if_splits)
  have "x < 2 powi (ilog2 x + 1)" using ilog2_bounds [OF assms(1)] by simp
  also have "\<dots> \<le> 2 powi ilog2 y" using ex by (intro power_int_increasing) auto
  finally have "fl x \<le> 2 powi ilog2 y"
    using assms lt ey by (intro fl_pow2_le) auto
  also have "\<dots> \<le> fl y"
    using assms ey ilog2_bounds [of y] by (intro fl_pow2_ge) auto
  finally show ?thesis .
qed

lemma fl_nonneg: "0 \<le> x \<Longrightarrow> 0 \<le> fl x"
  by (auto simp: fl_def intro!: mult_nonneg_nonneg round_half_even_ge [of 0, simplified])

lemma fl_mono:
  assumes "x \<le> y"
  shows "fl x \<le> fl y"
proof -
  consider "0 < x" | "x \<le> 0" "0 \<le> y" | "y < 0" by linarith
  then show ?thesis
  proof cases
    case 1
    then show ?thesis using assms by (rule fl_mono_pos)
  next
    case 2
    then have "0 \<le> fl (- x)" "0 \<le> fl y" by (auto intro: fl_nonneg)
    then show ?thesis by (simp add: fl_uminus)
  next
    case 3
    then have "fl (- y) \<le> fl (- x)" using assms by (intro fl_mono_pos) auto
    then show ?thesis by (simp add: fl_uminus)
  qed
qed

lemma fl_of_int:
  assumes "\<bar>n\<bar> \<le> 2 ^ 53"
  shows "fl (of_int n) = of_int n"
proof (cases "\<bar>n\<bar> < 2 ^ 53 \<and> n \<noteq> 0")
  case True
  then have "\<bar>of_int n :: rat\<bar> < of_int (2 ^ 53)"
    by (metis of_int_abs of_int_less_iff)
  then have "ilog2 \<bar>of_int n\<bar> < 53"
    using True by (intro ilog2_less) (simp_all add: power_int_def)
  then have e: "ulp_exp (of_int n) \<le> 0" by (simp add: ulp_exp_def)
  define k where "k = - ulp_exp (of_int n)"
  have "of_int n = (of_int n :: rat) * 2 powi k * 2 powi ulp_exp (of_int n)"
    by (simp add: k_def power_int_minus)
  also have "(of_int n :: rat) * 2 powi k = of_int (n * 2 ^ nat k)"
    using e by (simp add: powi2_of_int k_def)
  finally show ?thesis by (rule fl_exact)
next
  case False
  show ?thesis
  proof (cases "n = 0")
    case True
    then show ?thesis by simp
  next
    case nz: False
    have 53: "fl (2 powi 53) = 2 powi 53"
    proof -
      have "(2 :: rat) powi 53 < 2 powi (53 + 1)"
        by (simp add: power_int_def)
      then have "ilog2 (2 powi 53) < 53 + 1"
        by (intro ilog2_less) simp_all
      moreover have "53 \<le> ilog2 (2 powi 53)"
        using ilog2_bounds [of "2 powi 53"] powi2_less_iff [of 53 "ilog2 (2 powi 53) + 1"] by simp
      ultimately have "ulp_exp (2 powi 53) = 1" by (simp add: ulp_exp_def)
      then show ?thesis by (intro fl_exact [of _ "2 ^ 52"]) (simp add: power_int_def)
    qed
    from False nz assms have "n = 2 ^ 53 \<or> n = - (2 ^ 53)" by auto
    then have "(of_int n :: rat) = 2 powi 53 \<or> (of_int n :: rat) = - (2 powi 53)"
      by (auto simp: power_int_def)
    then show ?thesis using 53 by (auto simp: fl_uminus)
  qed
qed

lemma fl_err:
  assumes "\<bar>x\<bar> \<le> 2 ^ k"
  shows "\<bar>fl x - x\<bar> \<le> 2 ^ k / 2 ^ 53"
proof (cases "x = 0")
  case True
  then show ?thesis by simp
next
  case False
  have "(2 :: rat) powi ilog2 \<bar>x\<bar> \<le> 2 powi int k"
    using ilog2_bounds [of "\<bar>x\<bar>"] False assms by (simp add: power_int_of_nat)
  then have "ilog2 \<bar>x\<bar> \<le> int k"
    using powi2_less_iff [of "int k" "ilog2 \<bar>x\<bar>"] by linarith
  then have "ulp_exp x \<le> int k - 52" by (simp add: ulp_exp_def)
  then have "(2 :: rat) powi ulp_exp x \<le> 2 powi (int k - 52)"
    by (intro power_int_increasing) auto
  then have "2 powi ulp_exp x / 2 \<le> (2 :: rat) powi (int k - 52) / 2" by simp
  also have "\<dots> = 2 ^ k / 2 ^ 53"
    by (simp add: power_int_diff power_int_of_nat)
  finally show ?thesis using fl_err_ulp [of x] by linarith
qed

section \<open>The contract of a rounding, and compensated summation\<close>

text \<open>
  \<open>sum\<close> over floats (Python 3.12 and later) is Neumaier's compensated summation: \<open>hi\<close> is the running
  sum, \<open>lo\<close> the accumulated correction, added once at the end. It starts from the integer \<open>0\<close>, to
  which the first float is added exactly.
\<close>

fun neumaier :: "(rat \<Rightarrow> rat) \<Rightarrow> rat \<Rightarrow> rat \<Rightarrow> rat list \<Rightarrow> rat" where
  "neumaier rnd hi lo [] = (if lo \<noteq> 0 then rnd (hi + lo) else hi)"
| "neumaier rnd hi lo (x # xs) =
     (let t = rnd (hi + x);
          d = (if \<bar>x\<bar> \<le> \<bar>hi\<bar> then rnd (rnd (hi - t) + x) else rnd (rnd (x - t) + hi))
      in neumaier rnd t (rnd (lo + d)) xs)"

definition py_sum :: "rat list \<Rightarrow> rat" where
  "py_sum xs = (case xs of [] \<Rightarrow> 0 | x # ys \<Rightarrow> neumaier fl x 0 ys)"

locale float_rounding =
  fixes rnd :: "rat \<Rightarrow> rat"
  assumes rnd_mono: "x \<le> y \<Longrightarrow> rnd x \<le> rnd y"
    and rnd_int: "\<bar>n\<bar> \<le> 2 ^ 53 \<Longrightarrow> rnd (of_int n) = of_int n"
    and rnd_err: "\<bar>x\<bar> \<le> 2 ^ k \<Longrightarrow> \<bar>rnd x - x\<bar> \<le> 2 ^ k / 2 ^ 53"
begin

lemma rnd_le_int: "x \<le> of_int n \<Longrightarrow> \<bar>n\<bar> \<le> 2 ^ 53 \<Longrightarrow> rnd x \<le> of_int n"
  using rnd_mono [of x "of_int n"] rnd_int [of n] by simp

lemma rnd_ge_int: "of_int n \<le> x \<Longrightarrow> \<bar>n\<bar> \<le> 2 ^ 53 \<Longrightarrow> of_int n \<le> rnd x"
  using rnd_mono [of "of_int n" x] rnd_int [of n] by simp

lemma rnd_unit:
  assumes "0 \<le> x" and "x \<le> 1"
  shows "0 \<le> rnd x \<and> rnd x \<le> 1"
  using rnd_ge_int [of 0 x] rnd_le_int [of x 1] assms by simp

text \<open>One step of the summation: the pair still represents the exact sum, up to three roundings.\<close>

lemma neumaier_step:
  fixes hi lo x :: rat and k :: nat
  defines "eps \<equiv> 2 ^ k / 2 ^ 53"
  defines "t \<equiv> rnd (hi + x)"
  defines "d \<equiv> (if \<bar>x\<bar> \<le> \<bar>hi\<bar> then rnd (rnd (hi - t) + x) else rnd (rnd (x - t) + hi))"
  defines "lo' \<equiv> rnd (lo + d)"
  assumes bound: "\<bar>hi\<bar> + \<bar>lo\<bar> + \<bar>x\<bar> + 5 * eps \<le> 2 ^ k"
  shows "\<bar>(t + lo') - (hi + lo + x)\<bar> \<le> 3 * eps" and "\<bar>t\<bar> + \<bar>lo'\<bar> \<le> \<bar>hi\<bar> + \<bar>lo\<bar> + \<bar>x\<bar> + 5 * eps"
proof -
  have eps: "0 \<le> eps" by (simp add: eps_def)
  have err: "\<bar>rnd y - y\<bar> \<le> eps" if "\<bar>y\<bar> \<le> 2 ^ k" for y
    using rnd_err [OF that] by (simp add: eps_def)
  have t: "\<bar>t - (hi + x)\<bar> \<le> eps"
    unfolding t_def using bound eps by (intro err) linarith
  have two: "\<bar>rnd (rnd (a - t) + b) - (hi + x - t)\<bar> \<le> 2 * eps"
    if ab: "a + b = hi + x" and b: "\<bar>b\<bar> + \<bar>a\<bar> = \<bar>hi\<bar> + \<bar>x\<bar>" for a b
  proof -
    have "\<bar>a - t\<bar> \<le> \<bar>b\<bar> + eps" using t ab by linarith
    then have e1: "\<bar>rnd (a - t) - (a - t)\<bar> \<le> eps"
      using bound eps b by (intro err) linarith
    then have "\<bar>rnd (a - t) + b\<bar> \<le> 2 * eps" using t ab by linarith
    then have "\<bar>rnd (rnd (a - t) + b) - (rnd (a - t) + b)\<bar> \<le> eps"
      using bound eps by (intro err) linarith
    with e1 show ?thesis using ab by linarith
  qed
  have d: "\<bar>d - (hi + x - t)\<bar> \<le> 2 * eps"
    unfolding d_def using two [of hi x] two [of x hi] by (simp add: add.commute)
  then have "\<bar>d\<bar> \<le> 3 * eps" using t by linarith
  then have lo': "\<bar>lo' - (lo + d)\<bar> \<le> eps"
    unfolding lo'_def using bound eps by (intro err) linarith
  from d lo' show "\<bar>(t + lo') - (hi + lo + x)\<bar> \<le> 3 * eps" by linarith
  from lo' \<open>\<bar>d\<bar> \<le> 3 * eps\<close> t eps show "\<bar>t\<bar> + \<bar>lo'\<bar> \<le> \<bar>hi\<bar> + \<bar>lo\<bar> + \<bar>x\<bar> + 5 * eps" by linarith
qed

lemma neumaier_err:
  assumes "\<bar>hi\<bar> + \<bar>lo\<bar> + sum_list (map abs xs) + (5 * of_nat (length xs) + 5) * (2 ^ k / 2 ^ 53) \<le> 2 ^ k"
  shows "\<bar>neumaier rnd hi lo xs - (hi + lo + sum_list xs)\<bar>
           \<le> (3 * of_nat (length xs) + 1) * (2 ^ k / 2 ^ 53)"
  using assms
proof (induction xs arbitrary: hi lo)
  case Nil
  define eps :: rat where "eps = 2 ^ k / 2 ^ 53"
  have eps: "0 \<le> eps" by (simp add: eps_def)
  have "\<bar>hi\<bar> + \<bar>lo\<bar> + 5 * eps \<le> 2 ^ k"
    using Nil by (simp add: eps_def)
  then have "\<bar>hi + lo\<bar> \<le> 2 ^ k" using eps by linarith
  then have "\<bar>rnd (hi + lo) - (hi + lo)\<bar> \<le> eps"
    unfolding eps_def by (rule rnd_err)
  with eps show ?case unfolding eps_def by simp
next
  case (Cons x xs)
  define eps :: rat where "eps = 2 ^ k / 2 ^ 53"
  define t where "t = rnd (hi + x)"
  define lo' where "lo' = rnd (lo +
    (if \<bar>x\<bar> \<le> \<bar>hi\<bar> then rnd (rnd (hi - t) + x) else rnd (rnd (x - t) + hi)))"
  define n :: rat where "n = of_nat (length xs)"
  have nn: "0 \<le> eps" "0 \<le> n" "0 \<le> n * eps" "0 \<le> sum_list (map abs xs)"
    by (auto simp: eps_def n_def intro!: sum_list_nonneg mult_nonneg_nonneg)
  have prem: "\<bar>hi\<bar> + \<bar>lo\<bar> + \<bar>x\<bar> + sum_list (map abs xs) + 5 * (n * eps) + 10 * eps \<le> 2 ^ k"
    using Cons.prems unfolding eps_def [symmetric]
    by (simp add: n_def [symmetric] algebra_simps)
  then have b: "\<bar>hi\<bar> + \<bar>lo\<bar> + \<bar>x\<bar> + 5 * eps \<le> 2 ^ k" using nn by linarith
  note step = neumaier_step [OF b [unfolded eps_def], folded t_def, folded lo'_def eps_def]
  have "\<bar>t\<bar> + \<bar>lo'\<bar> + sum_list (map abs xs) + (5 * n + 5) * eps \<le> 2 ^ k"
    using step(2) prem by (simp add: algebra_simps)
  then have "\<bar>neumaier rnd t lo' xs - (t + lo' + sum_list xs)\<bar> \<le> (3 * n + 1) * eps"
    unfolding n_def eps_def by (rule Cons.IH)
  moreover have "neumaier rnd hi lo (x # xs) = neumaier rnd t lo' xs"
    by (simp add: Let_def t_def lo'_def)
  ultimately show ?case
    using step(1) unfolding eps_def [symmetric]
    by (simp add: n_def [symmetric] algebra_simps abs_le_iff)
qed

end

interpretation b64: float_rounding fl
  by unfold_locales (fact fl_mono fl_of_int fl_err)+

section \<open>The float operations of the sources\<close>

text \<open>\<open>clamp\<close> of \<open>engines.py\<close> is used with integer and with float arguments; both are rationals here.\<close>

definition clamp :: "rat \<Rightarrow> rat \<Rightarrow> rat \<Rightarrow> rat" where
  "clamp value minimum maximum = max minimum (min maximum value)"

text \<open>\<open>round(x, n)\<close>: the decimal nearest to the exact value, ties to even, read back as a float.\<close>

definition py_round :: "nat \<Rightarrow> rat \<Rightarrow> rat" where
  "py_round n x = fl (of_int (round_half_even (x * 10 ^ n)) / 10 ^ n)"

text \<open>Formatting with \<open>.nf\<close>, and with \<open>.n%\<close>, which multiplies by 100 in floating point first.\<close>

definition fmt_fixed :: "nat \<Rightarrow> rat \<Rightarrow> string" where
  "fmt_fixed p x = (let n = round_half_even (x * 10 ^ p); m = nat \<bar>n\<bar>; w = show_nat (m mod 10 ^ p)
     in (if x < 0 then ''-'' else []) @ show_nat (m div 10 ^ p) @
        (if p = 0 then [] else CHR ''.'' # replicate (p - length w) CHR ''0'' @ w))"

definition fmt_percent :: "nat \<Rightarrow> rat \<Rightarrow> string" where
  "fmt_percent p x = fmt_fixed p (fl (x * 100)) @ ''%''"

lemma clamp_bounds: "lo \<le> hi \<Longrightarrow> lo \<le> clamp x lo hi \<and> clamp x lo hi \<le> hi"
  by (simp add: clamp_def)

lemma clamp_mono: "x \<le> y \<Longrightarrow> clamp x lo hi \<le> clamp y lo hi"
  by (auto simp: clamp_def intro: max.mono min.mono)

lemma clamp_id: "lo \<le> x \<Longrightarrow> x \<le> hi \<Longrightarrow> clamp x lo hi = x"
  by (simp add: clamp_def)

lemma round_clamp_bounds:
  "lo \<le> hi \<Longrightarrow> lo \<le> round_half_even (clamp x (of_int lo) (of_int hi)) \<and>
               round_half_even (clamp x (of_int lo) (of_int hi)) \<le> hi"
  using clamp_bounds [of "of_int lo" "of_int hi" x]
  by (auto intro: round_half_even_ge round_half_even_le)

lemma py_round_unit:
  assumes "0 \<le> x" and "x \<le> 1"
  shows "0 \<le> py_round n x \<and> py_round n x \<le> 1"
proof -
  have "0 \<le> x * 10 ^ n" "x * 10 ^ n \<le> of_int (10 ^ n)"
    using assms by (simp_all add: mult_le_cancel_right1)
  then have "0 \<le> round_half_even (x * 10 ^ n)" "round_half_even (x * 10 ^ n) \<le> 10 ^ n"
    using round_half_even_ge [of 0 "x * 10 ^ n"] by (auto intro: round_half_even_le)
  then have "(0 :: rat) \<le> of_int (round_half_even (x * 10 ^ n))"
    "(of_int (round_half_even (x * 10 ^ n)) :: rat) \<le> 10 ^ n"
    by (simp, metis of_int_le_iff of_int_numeral of_int_power)
  then show ?thesis
    unfolding py_round_def by (intro b64.rnd_unit) auto
qed

lemma py_round_mono: "x \<le> y \<Longrightarrow> py_round n x \<le> py_round n y"
  unfolding py_round_def
  by (intro fl_mono divide_right_mono) (auto intro!: round_half_even_mono mult_right_mono)

section \<open>Floats read from outside\<close>

datatype pyfloat = Fin rat | PosInf | NegInf | NaN

fun is_finite :: "pyfloat \<Rightarrow> bool" where
  "is_finite (Fin _) = True"
| "is_finite _ = False"

text \<open>\<open>lo <= x <= hi\<close> for a float \<open>x\<close> and finite bounds: false for NaN.\<close>

fun in_closed :: "rat \<Rightarrow> rat \<Rightarrow> pyfloat \<Rightarrow> bool" where
  "in_closed lo hi (Fin x) = (lo \<le> x \<and> x \<le> hi)"
| "in_closed lo hi _ = False"

lemma in_closed_iff: "in_closed lo hi v \<longleftrightarrow> (\<exists>x. v = Fin x \<and> lo \<le> x \<and> x \<le> hi)"
  by (cases v) auto

end
