(* ===== verification/PyValue.thy ===== *)
theory PyValue
  imports Binary64
begin

text \<open>
  Dynamically typed Python values, as \<open>yaml.safe_load\<close> and \<open>json.loads\<close> produce them, and the dynamic
  operations the sources apply to them: key lookup, truth value, hashability, ordering of keys, and
  conversion to \<open>float\<close>. Also the Verify package's exceptions: which of them \<open>main\<close> of \<open>cli.py\<close> turns
  into the ERROR exit code is part of the model, so \<open>TypeError\<close> and its like are kept apart.
\<close>

datatype pyval =
    PNone
  | PBool bool
  | PInt int
  | PFloat pyfloat
  | PStr string
  | PList "pyval list"
  | PDict "(pyval \<times> pyval) list"
  | POther string bool \<comment> \<open>another type, by name: a YAML date, bytes, a set; whether it is hashable\<close>

type_synonym pydict = "(pyval \<times> pyval) list"

fun is_str :: "pyval \<Rightarrow> bool" where
  "is_str (PStr _) = True" | "is_str _ = False"

fun is_bool :: "pyval \<Rightarrow> bool" where
  "is_bool (PBool _) = True" | "is_bool _ = False"

fun is_list :: "pyval \<Rightarrow> bool" where
  "is_list (PList _) = True" | "is_list _ = False"

fun is_dict :: "pyval \<Rightarrow> bool" where
  "is_dict (PDict _) = True" | "is_dict _ = False"

fun is_number :: "pyval \<Rightarrow> bool" where
  "is_number (PInt _) = True"
| "is_number (PFloat _) = True"
| "is_number (PBool _) = True"
| "is_number _ = False"

fun as_dict :: "pyval \<Rightarrow> pydict" where
  "as_dict (PDict d) = d" | "as_dict _ = []"

fun as_list :: "pyval \<Rightarrow> pyval list" where
  "as_list (PList xs) = xs" | "as_list _ = []"

fun as_str :: "pyval \<Rightarrow> string" where
  "as_str (PStr s) = s" | "as_str _ = []"

text \<open>\<open>bool(v)\<close>.\<close>

fun truthy :: "pyval \<Rightarrow> bool" where
  "truthy PNone = False"
| "truthy (PBool b) = b"
| "truthy (PInt i) = (i \<noteq> 0)"
| "truthy (PFloat (Fin x)) = (x \<noteq> 0)"
| "truthy (PFloat _) = True"
| "truthy (PStr s) = (s \<noteq> [])"
| "truthy (PList xs) = (xs \<noteq> [])"
| "truthy (PDict d) = (d \<noteq> [])"
| "truthy (POther _ _) = True"

fun hashable :: "pyval \<Rightarrow> bool" where
  "hashable (PList _) = False"
| "hashable (PDict _) = False"
| "hashable (POther _ h) = h"
| "hashable _ = True"

definition dget :: "pydict \<Rightarrow> string \<Rightarrow> pyval option" where
  "dget d k = map_of d (PStr k)"

definition dget_or :: "pydict \<Rightarrow> string \<Rightarrow> pyval \<Rightarrow> pyval" where
  "dget_or d k v = (case dget d k of None \<Rightarrow> v | Some w \<Rightarrow> w)"

text \<open>The keys outside a set of allowed strings: \<open>set(d) - {...}\<close>, in the order of the dictionary.\<close>

definition unknown_keys :: "pydict \<Rightarrow> string list \<Rightarrow> pyval list" where
  "unknown_keys d allowed = filter (\<lambda>k. k \<notin> PStr ` set allowed) (map fst d)"

text \<open>Whether \<open>sorted\<close> can compare the elements: one element, all strings, all numbers, or all of one
  other type.\<close>

fun other_type :: "pyval \<Rightarrow> string option" where
  "other_type (POther t _) = Some t" | "other_type _ = None"

definition py_sortable :: "pyval list \<Rightarrow> bool" where
  "py_sortable vs = (length vs \<le> 1 \<or> list_all is_str vs \<or> list_all is_number vs \<or>
     (\<exists>t\<in>set (map other_type vs). t \<noteq> None \<and> list_all (\<lambda>v. other_type v = t) vs))"

section \<open>Exceptions of the Verify package\<close>

datatype policy_issue =
    PolicyNotObject
  | UnsupportedPolicyFields "pyval list"
  | BadPolicySchemaVersion
  | RequirementsNotObject
  | UnsupportedRequirements "pyval list"
  | RequirementNotBoolean string
  | UnsupportedRequirementFields string "pyval list"
  | SkipDocsNotBoolean
  | ThresholdNotNumeric
  | ThresholdOutOfRange
  | UnsupportedSeverity
  | PathRulesNotList
  | RuleWithoutId
  | UnsupportedRuleFields "pyval list"
  | DuplicateRuleId string
  | RuleWithoutPatterns string
  | RuleBadEvidence string
  | PolicyTooLarge
  | PolicyPathSymlink
  | PolicyPathEscapes

datatype artifact_issue =
    ArtifactSymlink
  | ArtifactTooLarge
  | ArtifactPatternEscapes
  | TooManyArtifacts
  | XmlEntities
  | InvalidXml
  | NotJUnit
  | InvalidLcovTotals
  | InvalidInteger
  | InvalidFloat
  | NotCobertura
  | InvalidLineRate
  | InvalidSarifJson
  | NotSarif
  | SarifRunsNotList
  | SarifRunNotObject
  | SarifNoDriver
  | SarifResultsNotList
  | BadEvidenceSha
  | OutputEscapes
  | InitTargetSymlink
  | InitTargetEscapes

datatype exn =
    PolicyValueError policy_issue
  | ArtifactValueError artifact_issue
  | UnicodeDecodeError \<comment> \<open>a subclass of \<open>ValueError\<close>\<close>
  | YAMLError
  | GitError string
  | OSError
  | TypeError
  | OverflowError
  | AttributeError
  | IndexError
  | TimeoutExpired \<comment> \<open>\<open>subprocess.TimeoutExpired\<close>\<close>

text \<open>\<open>except (GitError, OSError, ValueError, yaml.YAMLError)\<close>.\<close>

fun caught_by_main :: "exn \<Rightarrow> bool" where
  "caught_by_main (PolicyValueError _) = True"
| "caught_by_main (ArtifactValueError _) = True"
| "caught_by_main UnicodeDecodeError = True"
| "caught_by_main YAMLError = True"
| "caught_by_main (GitError _) = True"
| "caught_by_main OSError = True"
| "caught_by_main _ = False"

text \<open>\<open>x in {...}\<close> for a set of string literals: hashing an unhashable value raises.\<close>

definition in_str_set :: "pyval \<Rightarrow> string list \<Rightarrow> exn + bool" where
  "in_str_set v strs = (if hashable v then Inr (v \<in> PStr ` set strs) else Inl TypeError)"

text \<open>\<open>all(x in {...} for x in xs)\<close>: stops at the first element that is not a member.\<close>

fun all_in_str_set :: "pyval list \<Rightarrow> string list \<Rightarrow> exn + bool" where
  "all_in_str_set [] strs = Inr True"
| "all_in_str_set (v # vs) strs =
     rbind (in_str_set v strs) (\<lambda>b. if b then all_in_str_set vs strs else Inr False)"

text \<open>\<open>raise ValueError(f"... {sorted(keys)}")\<close>: building the message may itself raise.\<close>

definition raise_listing :: "(pyval list \<Rightarrow> policy_issue) \<Rightarrow> pyval list \<Rightarrow> exn" where
  "raise_listing issue ks = (if py_sortable ks then PolicyValueError (issue ks) else TypeError)"

text \<open>\<open>float(n)\<close> for an integer: correctly rounded, \<open>OverflowError\<close> beyond the largest float.\<close>

definition float_of_int :: "int \<Rightarrow> exn + rat" where
  "float_of_int n = (if \<bar>n\<bar> < 2 ^ 1024 - 2 ^ 970 then Inr (fl (of_int n)) else Inl OverflowError)"

lemma in_str_set_True: "in_str_set v strs = Inr True \<longleftrightarrow> (\<exists>s\<in>set strs. v = PStr s)"
  by (auto simp: in_str_set_def)

lemma all_in_str_set_True:
  "all_in_str_set vs strs = Inr True \<longleftrightarrow> (\<forall>v\<in>set vs. \<exists>s\<in>set strs. v = PStr s)"
proof (induction vs)
  case (Cons v vs)
  then show ?case by (auto simp: result_simps in_str_set_True split: if_splits)
qed simp

lemma dget_or_simps [simp]: "dget_or [] k v = v"
  by (simp add: dget_or_def dget_def)

lemma unknown_keys_Nil_iff:
  "unknown_keys d allowed = [] \<longleftrightarrow> (\<forall>k\<in>fst ` set d. \<exists>s\<in>set allowed. k = PStr s)"
  by (auto simp: unknown_keys_def filter_empty_conv)

end
