(* ===== verification/Glob.thy ===== *)
theory Glob
  imports Prelude
begin

text \<open>
  \<open>fnmatch.fnmatchcase\<close> of Python's standard library, which decides whether a changed path is covered
  by a policy path rule (\<open>matching_path_rules\<close> of \<open>policy.py\<close>). A pattern is parsed into tokens as
  \<open>fnmatch.translate\<close> does; \<open>*\<close> matches any string, slashes included.
\<close>

datatype glob_token = Star | AnyChar | Lit char | CharClass bool string

text \<open>Membership in the body of a bracket expression, read from left to right; \<open>a-b\<close> is a range.\<close>

fun class_member :: "string \<Rightarrow> char \<Rightarrow> bool" where
  "class_member [] c = False"
| "class_member (a # rest) c =
     (case rest of
        d # b # rest' \<Rightarrow>
          if d = CHR ''-'' then (a \<le> c \<and> c \<le> b) \<or> class_member rest' c
          else a = c \<or> class_member rest c
      | _ \<Rightarrow> a = c \<or> class_member rest c)"

text \<open>Splits the text after an opening bracket at the closing one; a \<open>]\<close> that comes first (after an
  optional \<open>!\<close>) is a member.\<close>

definition bracket_split :: "string \<Rightarrow> (string \<times> string) option" where
  "bracket_split s =
     (let bang = (if py_startswith s ''!'' then 1 else 0);
          skip = bang + (if py_startswith (drop bang s) '']'' then 1 else 0);
          body = takeWhile (\<lambda>c. c \<noteq> CHR '']'') (drop skip s);
          rest = dropWhile (\<lambda>c. c \<noteq> CHR '']'') (drop skip s)
      in case rest of [] \<Rightarrow> None | _ # rest' \<Rightarrow> Some (take skip s @ body, rest'))"

lemma bracket_split_length: "bracket_split s = Some (b, r) \<Longrightarrow> length r < length s"
proof -
  assume "bracket_split s = Some (b, r)"
  then obtain k c where "dropWhile (\<lambda>c. c \<noteq> CHR '']'') (drop k s) = c # r"
    by (auto simp: bracket_split_def Let_def split: list.splits)
  then have "Suc (length r) \<le> length (drop k s)"
    by (metis length_Cons length_dropWhile_le)
  then show ?thesis by simp
qed

function glob_parse :: "string \<Rightarrow> glob_token list" where
  "glob_parse [] = []"
| "glob_parse (c # cs) =
     (if c = CHR ''*'' then Star # glob_parse cs
      else if c = CHR ''?'' then AnyChar # glob_parse cs
      else if c = CHR ''['' then
        (case bracket_split cs of
           None \<Rightarrow> Lit c # glob_parse cs
         | Some (b, r) \<Rightarrow>
             (if py_startswith b ''!'' then CharClass True (tl b) else CharClass False b)
               # glob_parse r)
      else Lit c # glob_parse cs)"
  by pat_completeness auto
termination
  by (relation "measure length") (auto dest: bracket_split_length)

fun token_char :: "glob_token \<Rightarrow> char \<Rightarrow> bool" where
  "token_char Star c = False"
| "token_char AnyChar c = True"
| "token_char (Lit d) c = (c = d)"
| "token_char (CharClass neg b) c = (class_member b c \<noteq> neg)"

fun glob_match :: "glob_token list \<Rightarrow> string \<Rightarrow> bool" where
  "glob_match [] s = (s = [])"
| "glob_match (Star # ts) [] = glob_match ts []"
| "glob_match (Star # ts) (c # cs) = (glob_match ts (c # cs) \<or> glob_match (Star # ts) cs)"
| "glob_match (t # ts) [] = False"
| "glob_match (t # ts) (c # cs) = (token_char t c \<and> glob_match ts cs)"

definition fnmatchcase :: "string \<Rightarrow> string \<Rightarrow> bool" where
  "fnmatchcase name pat = glob_match (glob_parse pat) name"

section \<open>Declarative meaning\<close>

text \<open>The strings one token stands for.\<close>

fun token_matches :: "glob_token \<Rightarrow> string \<Rightarrow> bool" where
  "token_matches Star w = True"
| "token_matches t w = (\<exists>c. w = [c] \<and> token_char t c)"

lemma glob_match_Star: "glob_match (Star # ts) s \<longleftrightarrow> (\<exists>u v. s = u @ v \<and> glob_match ts v)"
proof (induction s)
  case Nil
  then show ?case by simp
next
  case (Cons c cs)
  then show ?case by (auto simp: Cons_eq_append_conv)
qed

lemma glob_match_char:
  "t \<noteq> Star \<Longrightarrow> glob_match (t # ts) s \<longleftrightarrow> (\<exists>c cs. s = c # cs \<and> token_char t c \<and> glob_match ts cs)"
  by (cases t; cases s) auto

lemma glob_match_iff: "glob_match ts s \<longleftrightarrow> (\<exists>ws. concat ws = s \<and> list_all2 token_matches ts ws)"
proof (induction ts arbitrary: s)
  case Nil
  then show ?case by auto
next
  case (Cons t ts)
  show ?case
  proof (cases "t = Star")
    case True
    have "(\<exists>u v. s = u @ v \<and> (\<exists>ws. concat ws = v \<and> list_all2 token_matches ts ws)) \<longleftrightarrow>
          (\<exists>u ws. concat (u # ws) = s \<and> list_all2 token_matches ts ws)"
      by auto
    with True show ?thesis
      unfolding list_all2_Cons1 by (simp only: glob_match_Star Cons token_matches.simps) blast
  next
    case False
    then have "token_matches t w \<longleftrightarrow> (\<exists>c. w = [c] \<and> token_char t c)" for w
      by (cases t) auto
    with False show ?thesis
      by (auto simp: glob_match_char Cons list_all2_Cons1) (metis append_Cons append_Nil concat.simps(2))
  qed
qed

lemma glob_parse_plain:
  "list_all (\<lambda>c. c \<notin> {CHR ''*'', CHR ''?'', CHR ''[''}) s \<Longrightarrow> glob_parse s = map Lit s"
  by (induction s) auto

lemma glob_parse_plain_append:
  "list_all (\<lambda>c. c \<notin> {CHR ''*'', CHR ''?'', CHR ''[''}) s \<Longrightarrow>
     glob_parse (s @ t) = map Lit s @ glob_parse t"
  by (induction s) auto

lemma glob_match_Lits: "glob_match (map Lit p @ ts) s \<longleftrightarrow> (\<exists>v. s = p @ v \<and> glob_match ts v)"
  by (induction p arbitrary: s) (auto simp: glob_match_char)

lemma glob_match_Star_end: "glob_match [Star] s"
  by (auto simp: glob_match_Star)

text \<open>The shapes of the built-in policy: a literal name, a literal prefix and everything below it, and
  a literal in the middle of two wildcards, which needs what the literal spells, slashes included.\<close>

lemma fnmatch_literal:
  "list_all (\<lambda>c. c \<notin> {CHR ''*'', CHR ''?'', CHR ''[''}) p \<Longrightarrow> fnmatchcase name p \<longleftrightarrow> name = p"
  using glob_match_Lits [of p "[]" name] by (simp add: fnmatchcase_def glob_parse_plain)

lemma fnmatch_prefix:
  "list_all (\<lambda>c. c \<notin> {CHR ''*'', CHR ''?'', CHR ''[''}) p \<Longrightarrow>
     fnmatchcase name (p @ ''**'') \<longleftrightarrow> py_startswith name p"
  by (auto simp: fnmatchcase_def glob_parse_plain_append glob_match_Lits glob_match_Star py_startswith_iff)

lemma fnmatch_infix:
  assumes "list_all (\<lambda>c. c \<notin> {CHR ''*'', CHR ''?'', CHR ''[''}) p"
  shows "fnmatchcase name (''**'' @ p @ ''**'') \<longleftrightarrow> py_contains name p"
proof -
  have "glob_parse (''**'' @ p @ ''**'') = Star # Star # map Lit p @ [Star, Star]"
    using assms by (simp add: glob_parse_plain_append)
  then have "fnmatchcase name (''**'' @ p @ ''**'') \<longleftrightarrow> glob_match (Star # Star # map Lit p @ [Star, Star]) name"
    by (simp add: fnmatchcase_def)
  also have "\<dots> \<longleftrightarrow> (\<exists>u v w x. name = u @ v @ w \<and> w = p @ x)"
    unfolding glob_match_Star [of "Star # map Lit p @ [Star, Star]"]
      glob_match_Star [of "map Lit p @ [Star, Star]"] glob_match_Lits
      glob_match_Star [of "[Star]"] using glob_match_Star_end by blast
  also have "\<dots> \<longleftrightarrow> (\<exists>t x. name = t @ p @ x)"
    by (metis append.assoc append_Nil)
  finally show ?thesis by (simp add: py_contains_iff)
qed

lemma fnmatch_suffix:
  assumes "list_all (\<lambda>c. c \<notin> {CHR ''*'', CHR ''?'', CHR ''[''}) p"
  shows "fnmatchcase name (''**'' @ p) \<longleftrightarrow> py_endswith name p"
proof -
  have "glob_parse (''**'' @ p) = Star # Star # map Lit p"
    using assms by (simp add: glob_parse_plain)
  moreover have "glob_match (map Lit p) v \<longleftrightarrow> v = p" for v
    using glob_match_Lits [of p "[]" v] by simp
  ultimately show ?thesis
    by (auto simp: fnmatchcase_def glob_match_Star py_endswith_iff)
qed

end
