(* ===== verification/Policy.thy ===== *)
theory Policy
  imports PyValue Glob
begin

text \<open>
  \<open>verify/deployguard_verify/policy.py\<close>: the built-in policy, the validation of a parsed policy
  document, loading, the canonical JSON the digests are taken over, and the selection of path rules.

  A policy document stays a dynamically typed value, as in the code; \<open>validate_policy_typed\<close> shows
  that after \<open>_validate_policy\<close> every read the engine makes meets a value of the type it expects.
  \<open>yaml.safe_load\<close> (PyYAML), SHA-256 and the shortest decimal notation of a float are parameters.
\<close>

section \<open>Constants\<close>

definition POLICY_SCHEMA_VERSION :: string where
  "POLICY_SCHEMA_VERSION = ''deployguard-policy/v0.1''"

definition MAX_POLICY_BYTES :: nat where
  "MAX_POLICY_BYTES = 256 * 1024"

definition supported_evidence :: "string list" where
  "supported_evidence = [''tests'', ''build'', ''coverage'', ''security'']"

definition supported_severities :: "string list" where
  "supported_severities = [''critical'', ''high'', ''medium'', ''low'', ''note'']"

definition DEFAULT_SEVERITIES :: "pyval list" where
  "DEFAULT_SEVERITIES = [PStr ''critical'', PStr ''high'']"

definition DEFAULT_POLICY :: pydict where
  "DEFAULT_POLICY =
     [(PStr ''schema_version'', PStr POLICY_SCHEMA_VERSION),
      (PStr ''requirements'', PDict
         [(PStr ''tests'', PDict [(PStr ''required'', PBool True), (PStr ''skip_for_docs_only'', PBool True)]),
          (PStr ''build'', PDict [(PStr ''required'', PBool False)]),
          (PStr ''coverage'', PDict [(PStr ''required'', PBool False),
                                     (PStr ''minimum_line_rate'', PFloat (Fin 0))]),
          (PStr ''security'', PDict [(PStr ''required'', PBool False),
                                     (PStr ''block_severities'', PList DEFAULT_SEVERITIES)])]),
      (PStr ''path_rules'', PList
         [PDict
            [(PStr ''id'', PStr ''security-sensitive-change''),
             (PStr ''patterns'', PList
                [PStr ''.github/workflows/**'', PStr ''**/auth/**'', PStr ''**/security/**'',
                 PStr ''**/migrations/**'', PStr ''**/Dockerfile'', PStr ''Dockerfile'']),
             (PStr ''required_evidence'', PList [PStr ''security''])]])]"

section \<open>Validation\<close>

definition allowed_requirement_fields :: "string \<Rightarrow> string list" where
  "allowed_requirement_fields kind =
     (if kind = ''tests'' then [''required'', ''skip_for_docs_only'']
      else if kind = ''build'' then [''required'']
      else if kind = ''coverage'' then [''required'', ''minimum_line_rate'']
      else if kind = ''security'' then [''required'', ''block_severities'']
      else [])"

text \<open>The body of \<open>for kind, config in requirements.items()\<close>.\<close>

definition validate_requirement :: "pyval \<times> pyval \<Rightarrow> exn + unit" where
  "validate_requirement kc = (case kc of (k, config) \<Rightarrow>
     let kind = as_str k in
     if \<not> is_dict config \<or> \<not> is_bool (dget_or (as_dict config) ''required'' (PBool False))
     then Inl (PolicyValueError (RequirementNotBoolean kind))
     else let unknown = unknown_keys (as_dict config) (allowed_requirement_fields kind) in
       if unknown \<noteq> [] then Inl (raise_listing (UnsupportedRequirementFields kind) unknown)
       else Inr ())"

definition validate_threshold :: "pyval \<Rightarrow> exn + unit" where
  "validate_threshold threshold =
     (case threshold of
        PInt n \<Rightarrow> rbind (float_of_int n) (\<lambda>x.
           rguard (0 \<le> x \<and> x \<le> 1) (PolicyValueError ThresholdOutOfRange))
      | PFloat x \<Rightarrow> rguard (in_closed 0 1 x) (PolicyValueError ThresholdOutOfRange)
      | _ \<Rightarrow> Inl (PolicyValueError ThresholdNotNumeric))"

definition validate_severities :: "pyval \<Rightarrow> exn + unit" where
  "validate_severities severities =
     (if \<not> is_list severities then Inl (PolicyValueError UnsupportedSeverity)
      else rbind (all_in_str_set (as_list severities) supported_severities) (\<lambda>ok.
        rguard ok (PolicyValueError UnsupportedSeverity)))"

definition valid_patterns :: "pyval option \<Rightarrow> bool" where
  "valid_patterns p = (case p of
     Some (PList ps) \<Rightarrow> ps \<noteq> [] \<and> list_all (\<lambda>v. is_str v \<and> truthy v) ps
   | _ \<Rightarrow> False)"

text \<open>The body of \<open>for rule in path_rules\<close>; the state is \<open>seen_ids\<close>.\<close>

definition validate_rule :: "pyval \<Rightarrow> string list \<Rightarrow> exn + string list" where
  "validate_rule rule seen_ids =
     (case rule of
        PDict d \<Rightarrow>
          (case dget d ''id'' of
             Some (PStr rid) \<Rightarrow>
               let unknown = unknown_keys d [''id'', ''patterns'', ''required_evidence''] in
               if unknown \<noteq> [] then Inl (raise_listing UnsupportedRuleFields unknown)
               else if rid \<in> set seen_ids then Inl (PolicyValueError (DuplicateRuleId rid))
               else if \<not> valid_patterns (dget d ''patterns'')
                 then Inl (PolicyValueError (RuleWithoutPatterns rid))
               else (case dget d ''required_evidence'' of
                   Some (PList items) \<Rightarrow>
                     rbind (all_in_str_set items supported_evidence) (\<lambda>ok.
                       if ok then Inr (seen_ids @ [rid])
                       else Inl (PolicyValueError (RuleBadEvidence rid)))
                 | _ \<Rightarrow> Inl (PolicyValueError (RuleBadEvidence rid)))
           | _ \<Rightarrow> Inl (PolicyValueError RuleWithoutId))
      | _ \<Rightarrow> Inl (PolicyValueError RuleWithoutId))"

definition requirement_config :: "pydict \<Rightarrow> string \<Rightarrow> pydict" where
  "requirement_config requirements kind = as_dict (dget_or requirements kind (PDict []))"

definition validate_requirements :: "pydict \<Rightarrow> exn + unit" where
  "validate_requirements requirements =
     (let unknown = unknown_keys requirements supported_evidence in
      if unknown \<noteq> [] then Inl (raise_listing UnsupportedRequirements unknown)
      else rbind (rfold (\<lambda>kc _. validate_requirement kc) requirements ()) (\<lambda>_.
           rbind (rguard (is_bool (dget_or (requirement_config requirements ''tests'')
                                     ''skip_for_docs_only'' (PBool False)))
                   (PolicyValueError SkipDocsNotBoolean)) (\<lambda>_.
           rbind (validate_threshold (dget_or (requirement_config requirements ''coverage'')
                                       ''minimum_line_rate'' (PFloat (Fin 0)))) (\<lambda>_.
           validate_severities (dget_or (requirement_config requirements ''security'')
                                  ''block_severities'' (PList DEFAULT_SEVERITIES))))))"

definition validate_path_rules :: "pyval \<Rightarrow> exn + unit" where
  "validate_path_rules path_rules =
     (if \<not> is_list path_rules then Inl (PolicyValueError PathRulesNotList)
      else rbind (rfold validate_rule (as_list path_rules) []) (\<lambda>_. Inr ()))"

definition validate_policy :: "pyval \<Rightarrow> exn + pydict" where
  "validate_policy payload =
     (case payload of
        PDict d \<Rightarrow>
          let unknown = unknown_keys d [''schema_version'', ''requirements'', ''path_rules''] in
          if unknown \<noteq> [] then Inl (raise_listing UnsupportedPolicyFields unknown)
          else if dget d ''schema_version'' \<noteq> Some (PStr POLICY_SCHEMA_VERSION)
            then Inl (PolicyValueError BadPolicySchemaVersion)
          else (case dget d ''requirements'' of
              Some (PDict requirements) \<Rightarrow>
                rbind (validate_requirements requirements) (\<lambda>_.
                rbind (validate_path_rules (dget_or d ''path_rules'' (PList []))) (\<lambda>_.
                Inr d))
            | _ \<Rightarrow> Inl (PolicyValueError RequirementsNotObject))
      | _ \<Rightarrow> Inl (PolicyValueError PolicyNotObject))"

section \<open>Canonical JSON\<close>

definition hex_digit :: "nat \<Rightarrow> char" where
  "hex_digit n = (if n < 10 then char_of (48 + n) else char_of (87 + n))"

text \<open>\<open>json.dumps\<close> of one character with \<open>ensure_ascii=False\<close>, encoded as UTF-8.\<close>

definition json_char :: "char \<Rightarrow> string" where
  "json_char c = (let n = nat_of_char c; bs = char_of (92 :: nat) in
     if n = 34 then [bs, c]
     else if n = 92 then [bs, bs]
     else if n = 10 then bs # ''n''
     else if n = 13 then bs # ''r''
     else if n = 9 then bs # ''t''
     else if n = 8 then bs # ''b''
     else if n = 12 then bs # ''f''
     else if n < 32 then bs # ''u00'' @ [hex_digit (n div 16), hex_digit (n mod 16)]
     else if n < 128 then [c]
     else [char_of (192 + n div 64), char_of (128 + n mod 64)])"

definition json_string :: "string \<Rightarrow> string" where
  "json_string s = (let q = char_of (34 :: nat) in q # concat (map json_char s) @ [q])"

text \<open>\<open>canonical_json_bytes\<close>: compact separators, sorted keys, no NaN. \<open>repr_float\<close> is the shortest
  decimal notation of a float. The documents it is applied to have string keys only.\<close>

function canonical_json :: "(rat \<Rightarrow> string) \<Rightarrow> pyval \<Rightarrow> exn + string" where
  "canonical_json repr_float PNone = Inr ''null''"
| "canonical_json repr_float (PBool b) = Inr (if b then ''true'' else ''false'')"
| "canonical_json repr_float (PInt i) = Inr (show_int i)"
| "canonical_json repr_float (PFloat x) =
     (case x of Fin r \<Rightarrow> Inr (repr_float r) | _ \<Rightarrow> Inl (ArtifactValueError InvalidFloat))"
| "canonical_json repr_float (PStr s) = Inr (json_string s)"
| "canonical_json repr_float (PList vs) =
     rbind (rmap (canonical_json repr_float) vs) (\<lambda>ws. Inr (''['' @ join_with '','' ws @ '']''))"
| "canonical_json repr_float (PDict d) =
     (if list_all (\<lambda>kv. is_str (fst kv)) d then
        rbind (rmap (\<lambda>kv. rbind (canonical_json repr_float (snd kv)) (\<lambda>w.
                  Inr (json_string (as_str (fst kv)) @ '':'' @ w)))
                (sort_key (\<lambda>kv. as_str (fst kv)) d))
              (\<lambda>ws. Inr (''{'' @ join_with '','' ws @ ''}''))
      else Inl TypeError)"
| "canonical_json repr_float (POther t h) = Inl TypeError"
  by pat_completeness auto
termination
proof (relation "measure (\<lambda>(_, v). size v)")
  fix repr_float :: "rat \<Rightarrow> string" and d :: pydict and kv
  assume "kv \<in> set (sort_key (\<lambda>kv. as_str (fst kv)) d)"
  then have "kv \<in> set d" by simp
  then have "size (snd kv) < size (PDict d)"
    by (induction d) (auto simp: prod.size_neq)
  then show "((repr_float, snd kv), (repr_float, PDict d)) \<in> measure (\<lambda>(_, v). size v)" by simp
qed (auto simp: less_Suc_eq_le intro: size_list_estimation' trans_le_add1)

section \<open>Loaded policies\<close>

record loaded_policy =
  data :: pydict
  lp_source :: string
  sha256 :: string

text \<open>\<open>parse_policy\<close>. \<open>yaml_load\<close> is \<open>yaml.safe_load\<close> of the decoded text; \<open>decode\<close> fails on bytes that
  are not UTF-8; \<open>digest\<close> is the hexadecimal SHA-256.\<close>

definition parse_policy ::
  "(string \<Rightarrow> string option) \<Rightarrow> (string \<Rightarrow> exn + pyval) \<Rightarrow> (rat \<Rightarrow> string) \<Rightarrow> (string \<Rightarrow> string) \<Rightarrow>
   string \<Rightarrow> string \<Rightarrow> exn + loaded_policy" where
  "parse_policy decode yaml_load repr_float digest raw src =
     (if length raw > MAX_POLICY_BYTES then Inl (PolicyValueError PolicyTooLarge)
      else case decode raw of
        None \<Rightarrow> Inl UnicodeDecodeError
      | Some txt \<Rightarrow>
          rbind (yaml_load txt) (\<lambda>parsed.
          rbind (validate_policy parsed) (\<lambda>policy.
          rbind (canonical_json repr_float (PDict policy)) (\<lambda>bytes.
          Inr \<lparr> data = policy, lp_source = src, sha256 = digest bytes \<rparr>))))"

text \<open>\<open>builtin_policy\<close>: \<open>json.loads\<close> of the canonical text is the document with sorted keys, which no
  lookup can tell from \<^const>\<open>DEFAULT_POLICY\<close>.\<close>

definition builtin_policy :: "(rat \<Rightarrow> string) \<Rightarrow> (string \<Rightarrow> string) \<Rightarrow> exn + loaded_policy" where
  "builtin_policy repr_float digest =
     rbind (canonical_json repr_float (PDict DEFAULT_POLICY)) (\<lambda>raw.
     Inr \<lparr> data = sort_key (\<lambda>kv. as_str (fst kv)) DEFAULT_POLICY,
           lp_source = ''builtin:deployguard-policy/v0.1'', sha256 = digest raw \<rparr>)"

definition path_rules_of :: "loaded_policy \<Rightarrow> pydict list" where
  "path_rules_of policy = map as_dict (as_list (dget_or (data policy) ''path_rules'' (PList [])))"

definition rule_patterns :: "pydict \<Rightarrow> string list" where
  "rule_patterns rule = map as_str (as_list (dget_or rule ''patterns'' (PList [])))"

definition matching_path_rules :: "loaded_policy \<Rightarrow> string list \<Rightarrow> pydict list" where
  "matching_path_rules policy paths =
     filter (\<lambda>rule. list_ex (\<lambda>path. list_ex (fnmatchcase path) (rule_patterns rule)) paths)
       (path_rules_of policy)"

section \<open>What validation guarantees\<close>

definition rule_id :: "pydict \<Rightarrow> string" where
  "rule_id rule = as_str (dget_or rule ''id'' PNone)"

definition rule_evidence :: "pydict \<Rightarrow> string list" where
  "rule_evidence rule = map as_str (as_list (dget_or rule ''required_evidence'' (PList [])))"

definition requirements_of :: "pydict \<Rightarrow> pydict" where
  "requirements_of d = as_dict (dget_or d ''requirements'' (PDict []))"

text \<open>\<open>float(...)\<close> of a value the validation accepts.\<close>

fun as_float :: "pyval \<Rightarrow> rat" where
  "as_float (PFloat (Fin x)) = x"
| "as_float (PInt n) = fl (of_int n)"
| "as_float _ = 0"

definition minimum_line_rate :: "pydict \<Rightarrow> rat" where
  "minimum_line_rate d = as_float (dget_or (requirement_config (requirements_of d) ''coverage'')
     ''minimum_line_rate'' (PFloat (Fin 0)))"

definition block_severities :: "pydict \<Rightarrow> string list" where
  "block_severities d = map as_str (as_list (dget_or (requirement_config (requirements_of d) ''security'')
     ''block_severities'' (PList DEFAULT_SEVERITIES)))"

definition rule_typed :: "pyval \<Rightarrow> bool" where
  "rule_typed v = (case v of
     PDict d \<Rightarrow> (\<exists>rid. dget d ''id'' = Some (PStr rid)) \<and>
       (\<exists>ps. dget d ''patterns'' = Some (PList ps) \<and> ps \<noteq> [] \<and> (\<forall>p\<in>set ps. \<exists>s. p = PStr s \<and> s \<noteq> [])) \<and>
       (\<exists>es. dget d ''required_evidence'' = Some (PList es) \<and>
             (\<forall>e\<in>set es. \<exists>s\<in>set supported_evidence. e = PStr s))
   | _ \<Rightarrow> False)"

definition requirement_typed :: "pyval \<times> pyval \<Rightarrow> bool" where
  "requirement_typed kc = ((\<exists>s\<in>set supported_evidence. fst kc = PStr s) \<and>
     (\<exists>c. snd kc = PDict c \<and> is_bool (dget_or c ''required'' (PBool False))))"

text \<open>Every read of a loaded policy's data in \<open>engine.py\<close> and \<open>matching_path_rules\<close> meets the type it
  expects, and the values lie in their ranges.\<close>

definition policy_typed :: "pydict \<Rightarrow> bool" where
  "policy_typed d \<longleftrightarrow>
     dget d ''schema_version'' = Some (PStr POLICY_SCHEMA_VERSION) \<and>
     (\<exists>req. dget d ''requirements'' = Some (PDict req) \<and>
        list_all requirement_typed req \<and>
        is_bool (dget_or (requirement_config req ''tests'') ''skip_for_docs_only'' (PBool False)) \<and>
        (\<exists>sevs. dget_or (requirement_config req ''security'') ''block_severities'' (PList DEFAULT_SEVERITIES)
             = PList sevs \<and> (\<forall>v\<in>set sevs. \<exists>s\<in>set supported_severities. v = PStr s))) \<and>
     0 \<le> minimum_line_rate d \<and> minimum_line_rate d \<le> 1 \<and>
     (\<exists>rules. dget_or d ''path_rules'' (PList []) = PList rules \<and> list_all rule_typed rules \<and>
        distinct (map (rule_id \<circ> as_dict) rules))"

lemma valid_patterns_iff:
  "valid_patterns p \<longleftrightarrow> (\<exists>ps. p = Some (PList ps) \<and> ps \<noteq> [] \<and> (\<forall>v\<in>set ps. \<exists>s. v = PStr s \<and> s \<noteq> []))"
proof -
  have "is_str v \<and> truthy v \<longleftrightarrow> (\<exists>s. v = PStr s \<and> s \<noteq> [])" for v
    by (cases v) auto
  then show ?thesis
    by (auto simp: valid_patterns_def list_all_iff split: option.splits pyval.splits)
qed

lemma validate_rule_ok:
  assumes "validate_rule rule seen = Inr seen'"
  shows "rule_typed rule \<and> rule_id (as_dict rule) \<notin> set seen \<and> seen' = seen @ [rule_id (as_dict rule)]"
  using assms
  by (auto simp: validate_rule_def rule_typed_def rule_id_def valid_patterns_iff dget_or_def Let_def
      result_simps all_in_str_set_True split: pyval.splits option.splits if_splits)

lemma validate_rules_ok:
  "rfold validate_rule rules seen = Inr seen' \<Longrightarrow>
     list_all rule_typed rules \<and> distinct (map (rule_id \<circ> as_dict) rules) \<and>
     set (map (rule_id \<circ> as_dict) rules) \<inter> set seen = {}"
proof (induction rules arbitrary: seen)
  case Nil
  then show ?case by simp
next
  case (Cons rule rules)
  then obtain seen1 where "validate_rule rule seen = Inr seen1" "rfold validate_rule rules seen1 = Inr seen'"
    by (auto simp: result_simps)
  with Cons.IH [of seen1] validate_rule_ok [of rule seen seen1] show ?case by auto
qed

lemma validate_requirement_loop:
  "rfold (\<lambda>kc _. validate_requirement kc) req u = Inr u' \<Longrightarrow>
     \<forall>kc\<in>set req. \<exists>c. snd kc = PDict c \<and> is_bool (dget_or c ''required'' (PBool False))"
proof (induction req arbitrary: u)
  case Nil
  then show ?case by simp
next
  case (Cons kc req)
  then have "validate_requirement kc = Inr ()" "rfold (\<lambda>kc _. validate_requirement kc) req () = Inr u'"
    by (auto simp: result_simps)
  moreover from this(1) have "\<exists>c. snd kc = PDict c \<and> is_bool (dget_or c ''required'' (PBool False))"
    by (auto simp: validate_requirement_def Let_def split: prod.splits if_splits elim: is_dict.elims)
  ultimately show ?case using Cons.IH by auto
qed

lemma validate_threshold_ok:
  "validate_threshold v = Inr u \<Longrightarrow> 0 \<le> as_float v \<and> as_float v \<le> 1"
  by (auto simp: validate_threshold_def result_simps float_of_int_def in_closed_iff
      split: pyval.splits if_splits)

lemma validate_severities_ok:
  "validate_severities v = Inr u \<Longrightarrow>
     \<exists>sevs. v = PList sevs \<and> (\<forall>w\<in>set sevs. \<exists>s\<in>set supported_severities. w = PStr s)"
  by (cases v) (auto simp: validate_severities_def result_simps all_in_str_set_True)

lemma validate_requirements_ok:
  assumes "validate_requirements req = Inr u"
  shows "list_all requirement_typed req"
    and "is_bool (dget_or (requirement_config req ''tests'') ''skip_for_docs_only'' (PBool False))"
    and "0 \<le> as_float (dget_or (requirement_config req ''coverage'') ''minimum_line_rate'' (PFloat (Fin 0)))"
    and "as_float (dget_or (requirement_config req ''coverage'') ''minimum_line_rate'' (PFloat (Fin 0))) \<le> 1"
    and "\<exists>sevs. dget_or (requirement_config req ''security'') ''block_severities'' (PList DEFAULT_SEVERITIES)
           = PList sevs \<and> (\<forall>v\<in>set sevs. \<exists>s\<in>set supported_severities. v = PStr s)"
proof -
  have keys: "\<forall>k\<in>fst ` set req. \<exists>s\<in>set supported_evidence. k = PStr s"
    unfolding unknown_keys_Nil_iff [symmetric]
    using assms by (auto simp: validate_requirements_def Let_def split: if_splits)
  have loop: "rfold (\<lambda>kc _. validate_requirement kc) req () = Inr ()"
    using assms by (auto simp: validate_requirements_def Let_def result_simps split: if_splits)
  show "list_all requirement_typed req"
    using keys validate_requirement_loop [OF loop] by (auto simp: list_all_iff requirement_typed_def)
  show "is_bool (dget_or (requirement_config req ''tests'') ''skip_for_docs_only'' (PBool False))"
    using assms by (auto simp: validate_requirements_def Let_def result_simps split: if_splits)
  obtain w where "validate_threshold (dget_or (requirement_config req ''coverage'')
      ''minimum_line_rate'' (PFloat (Fin 0))) = Inr w"
    using assms by (auto simp: validate_requirements_def Let_def result_simps split: if_splits)
  from validate_threshold_ok [OF this]
  show "0 \<le> as_float (dget_or (requirement_config req ''coverage'') ''minimum_line_rate'' (PFloat (Fin 0)))"
    and "as_float (dget_or (requirement_config req ''coverage'') ''minimum_line_rate'' (PFloat (Fin 0))) \<le> 1"
    by auto
  obtain w where "validate_severities (dget_or (requirement_config req ''security'')
      ''block_severities'' (PList DEFAULT_SEVERITIES)) = Inr w"
    using assms by (auto simp: validate_requirements_def Let_def result_simps split: if_splits)
  from validate_severities_ok [OF this]
  show "\<exists>sevs. dget_or (requirement_config req ''security'') ''block_severities'' (PList DEFAULT_SEVERITIES)
           = PList sevs \<and> (\<forall>v\<in>set sevs. \<exists>s\<in>set supported_severities. v = PStr s)" .
qed

lemma validate_policy_cases:
  assumes "validate_policy payload = Inr d"
  obtains req u v where "payload = PDict d" "dget d ''schema_version'' = Some (PStr POLICY_SCHEMA_VERSION)"
    "dget d ''requirements'' = Some (PDict req)" "validate_requirements req = Inr u"
    "validate_path_rules (dget_or d ''path_rules'' (PList [])) = Inr v"
  using assms
  by (auto simp: validate_policy_def Let_def result_simps split: pyval.splits option.splits if_splits)

lemma validate_policy_sound:
  assumes "validate_policy payload = Inr d"
  shows "policy_typed d"
proof -
  from assms obtain req u v where
    d: "dget d ''schema_version'' = Some (PStr POLICY_SCHEMA_VERSION)"
      "dget d ''requirements'' = Some (PDict req)"
    and req: "validate_requirements req = Inr u"
    and rules: "validate_path_rules (dget_or d ''path_rules'' (PList [])) = Inr v"
    by (rule validate_policy_cases)
  from rules obtain rs seen where rs: "dget_or d ''path_rules'' (PList []) = PList rs"
    "rfold validate_rule rs [] = Inr seen"
    by (auto simp: validate_path_rules_def result_simps split: if_splits elim: is_list.elims)
  have "requirements_of d = req" by (simp add: requirements_of_def dget_or_def d(2))
  then show ?thesis
    unfolding policy_typed_def minimum_line_rate_def
    using d rs validate_requirements_ok [OF req] validate_rules_ok [OF rs(2)] by auto
qed

lemma builtin_policy_valid: "validate_policy (PDict DEFAULT_POLICY) = Inr DEFAULT_POLICY"
  by code_simp

text \<open>\<open>sort_keys=True\<close> makes the canonical text independent of the insertion order of a dictionary.\<close>

lemma canonical_json_perm:
  assumes "mset d = mset d'" and "distinct (map (as_str \<circ> fst) d)"
  shows "canonical_json repr_float (PDict d) = canonical_json repr_float (PDict d')"
proof -
  have "inj_on (\<lambda>kv. as_str (fst kv)) (set d)"
    using assms(2) by (simp add: distinct_map comp_def)
  then have "sort_key (\<lambda>kv. as_str (fst kv)) d = sort_key (\<lambda>kv. as_str (fst kv)) d'"
    using assms(1) by (intro sort_key_perm_eq)
  moreover have "list_all (\<lambda>kv. is_str (fst kv)) d = list_all (\<lambda>kv. is_str (fst kv)) d'"
    using assms(1) by (metis list_all_iff set_mset_mset)
  ultimately show ?thesis by simp
qed

section \<open>Properties of policies\<close>

text \<open>
  C13. A policy that loads is well typed: its schema version is the supported one, every requirement is an
  object for a supported kind of evidence with a boolean \<open>required\<close>, the coverage threshold lies between
  0 and 1, blocked severities are supported ones, and path rules have distinct ids, non-empty pattern
  strings and supported evidence. Every later read of the policy meets the type it expects.
\<close>
theorem loaded_policy_typed:
  assumes "parse_policy decode yaml_load repr_float digest raw src = Inr p"
  shows "policy_typed (data p)"
proof -
  from assms obtain parsed where "validate_policy parsed = Inr (data p)"
    by (auto simp: parse_policy_def result_simps split: option.splits if_splits)
  then show ?thesis by (rule validate_policy_sound)
qed

definition no_float :: "rat \<Rightarrow> string" where
  "no_float r = ''0.0''"

lemma default_policy_parses:
  "\<exists>p. parse_policy Some (\<lambda>_. Inr (PDict DEFAULT_POLICY)) no_float (\<lambda>s. s) ''policy'' ''test'' = Inr p \<and>
       data p = DEFAULT_POLICY"
proof -
  have "is_ok (canonical_json no_float (PDict DEFAULT_POLICY))" by code_simp
  then obtain b where "canonical_json no_float (PDict DEFAULT_POLICY) = Inr b" by (auto simp: is_ok_iff)
  then show ?thesis
    using builtin_policy_valid by (simp add: parse_policy_def MAX_POLICY_BYTES_def del: canonical_json.simps)
qed

theorem loaded_policy_typed_witness: "policy_typed DEFAULT_POLICY"
  using default_policy_parses loaded_policy_typed by metis

text \<open>
  The canonical JSON a receipt or policy digest is taken of does not depend on the insertion order of
  a document's keys.
\<close>
theorem canonical_json_key_order:
  assumes "mset d = mset d'" and "distinct (map (as_str \<circ> fst) d)"
  shows "canonical_json repr_float (PDict d) = canonical_json repr_float (PDict d')"
  using assms by (rule canonical_json_perm)

theorem canonical_json_key_order_witness:
  "canonical_json no_float (PDict [(PStr ''b'', PInt 1), (PStr ''a'', PBool True)]) =
   canonical_json no_float (PDict [(PStr ''a'', PBool True), (PStr ''b'', PInt 1)])"
  by (rule canonical_json_key_order) simp_all

text \<open>
  The built-in rule for security-sensitive paths matches exactly these paths: those below
  \<open>.github/workflows/\<close>, those with \<open>/auth/\<close>, \<open>/security/\<close> or \<open>/migrations/\<close> inside them, and \<open>Dockerfile\<close> at
  the top or below a directory. A top-level directory such as \<open>auth/\<close> has no slash before its name and is
  not matched.
\<close>
theorem builtin_rule_paths:
  "list_ex (fnmatchcase path)
     (rule_patterns (as_dict (hd (as_list (dget_or DEFAULT_POLICY ''path_rules'' (PList [])))))) \<longleftrightarrow>
   py_startswith path ''.github/workflows/'' \<or> py_contains path ''/auth/'' \<or> py_contains path ''/security/'' \<or>
   py_contains path ''/migrations/'' \<or> py_endswith path ''/Dockerfile'' \<or> path = ''Dockerfile''"
proof -
  have "rule_patterns (as_dict (hd (as_list (dget_or DEFAULT_POLICY ''path_rules'' (PList []))))) =
      [''.github/workflows/'' @ ''**'', ''**'' @ ''/auth/'' @ ''**'', ''**'' @ ''/security/'' @ ''**'',
       ''**'' @ ''/migrations/'' @ ''**'', ''**'' @ ''/Dockerfile'', ''Dockerfile'']"
    by (simp add: rule_patterns_def DEFAULT_POLICY_def dget_or_def dget_def)
  moreover have "fnmatchcase path (''.github/workflows/'' @ ''**'') = py_startswith path ''.github/workflows/''"
    by (rule fnmatch_prefix) simp
  moreover have "fnmatchcase path (''**'' @ ''/auth/'' @ ''**'') = py_contains path ''/auth/''"
    "fnmatchcase path (''**'' @ ''/security/'' @ ''**'') = py_contains path ''/security/''"
    "fnmatchcase path (''**'' @ ''/migrations/'' @ ''**'') = py_contains path ''/migrations/''"
    by (rule fnmatch_infix, simp)+
  moreover have "fnmatchcase path (''**'' @ ''/Dockerfile'') = py_endswith path ''/Dockerfile''"
    by (rule fnmatch_suffix) simp
  moreover have "fnmatchcase path ''Dockerfile'' \<longleftrightarrow> path = ''Dockerfile''"
    by (rule fnmatch_literal) simp
  ultimately show ?thesis by (simp only: list_ex_iff list.set ball_simps bex_simps simp_thms)
qed

end
