(* ===== verification/VerifyEngine.thy ===== *)
theory VerifyEngine
  imports Policy
begin

text \<open>
  \<open>verify/deployguard_verify/models.py\<close> and \<open>engine.py\<close>: the data model of the Verify package and the
  decision engine. \<open>evaluate_decision\<close> collects blocking and reviewing findings in the order of the
  code and ranks them; \<open>verify_change\<close> sorts the evidence, evaluates, and binds everything into a
  receipt with the digest of its canonical JSON.

  The decision is shown equivalent to declarative conditions on the evidence (\<open>policy_satisfied\<close>,
  \<open>policy_violated\<close>), and the receipt to be independent of the order in which evidence arrives.
\<close>

section \<open>Data model\<close>

datatype decision = PASS | REVIEW | BLOCK | ERROR

fun decision_value :: "decision \<Rightarrow> string" where
  "decision_value PASS = ''pass''"
| "decision_value REVIEW = ''review''"
| "decision_value BLOCK = ''block''"
| "decision_value ERROR = ''error''"

datatype evidence_state = EvPASS | EvFAIL | EvUNKNOWN

fun state_value :: "evidence_state \<Rightarrow> string" where
  "state_value EvPASS = ''pass''"
| "state_value EvFAIL = ''fail''"
| "state_value EvUNKNOWN = ''unknown''"

record evidence_item =
  item_id :: string
  kind :: string
  state :: evidence_state
  item_source :: string
  source_sha :: "string option"
  artifact_sha256 :: "string option"
  summary :: string
  metrics :: "(string \<times> pyval) list"

fun opt_str :: "string option \<Rightarrow> pyval" where
  "opt_str None = PNone" | "opt_str (Some s) = PStr s"

definition item_to_dict :: "evidence_item \<Rightarrow> pyval" where
  "item_to_dict i = PDict
     [(PStr ''id'', PStr (item_id i)), (PStr ''kind'', PStr (kind i)),
      (PStr ''state'', PStr (state_value (state i))), (PStr ''source'', PStr (item_source i)),
      (PStr ''source_sha'', opt_str (source_sha i)),
      (PStr ''artifact_sha256'', opt_str (artifact_sha256 i)),
      (PStr ''summary'', PStr (summary i)),
      (PStr ''metrics'', PDict (map (\<lambda>(k, v). (PStr k, v)) (metrics i)))]"

record git_change =
  repository :: string
  base_sha :: string
  head_sha :: string
  merge_base_sha :: string
  generated_at :: string
  paths :: "string list"
  files_changed :: int
  lines_added :: int
  lines_deleted :: int
  flags :: "string list"

definition doc_path :: "string \<Rightarrow> bool" where
  "doc_path path = (list_ex (py_endswith (py_lower path)) [''.md'', ''.mdx'', ''.rst'', ''.txt''] \<or>
     py_startswith (py_lower path) ''docs/'')"

definition docs_only :: "git_change \<Rightarrow> bool" where
  "docs_only change = (paths change \<noteq> [] \<and> list_all doc_path (paths change))"

section \<open>The decision\<close>

type_synonym finding = "string \<times> string" \<comment> \<open>a reason code and its message\<close>

text \<open>\<open>_add_reason\<close>: the first message of a code wins.\<close>

definition add_reason :: "finding \<Rightarrow> string list \<times> string list \<Rightarrow> string list \<times> string list" where
  "add_reason f acc = (case f of (code, message) \<Rightarrow> case acc of (reason_codes, reasons) \<Rightarrow>
     if code \<notin> set reason_codes then (reason_codes @ [code], reasons @ [message]) else acc)"

definition add_reasons :: "finding list \<Rightarrow> string list \<times> string list" where
  "add_reasons fs = fold add_reason fs ([], [])"

definition required :: "loaded_policy \<Rightarrow> string \<Rightarrow> bool \<Rightarrow> bool" where
  "required policy knd docs =
     (let config = requirement_config (requirements_of (data policy)) knd in
      if knd = ''tests'' \<and> docs \<and> truthy (dget_or config ''skip_for_docs_only'' (PBool False)) then False
      else truthy (dget_or config ''required'' (PBool False)))"

text \<open>\<open>int(v or 0)\<close> for a metric value.\<close>

fun metric_int :: "pyval \<Rightarrow> int" where
  "metric_int (PInt n) = n"
| "metric_int (PBool b) = (if b then 1 else 0)"
| "metric_int (PFloat (Fin x)) = (if 0 \<le> x then \<lfloor>x\<rfloor> else \<lceil>x\<rceil>)"
| "metric_int _ = 0"

definition security_blocks :: "evidence_item \<Rightarrow> string list \<Rightarrow> bool" where
  "security_blocks item blocked_severities =
     list_ex (\<lambda>sev. metric_int (dict_get (metrics item) sev (PInt 0)) > 0) blocked_severities"

definition by_kind :: "evidence_item list \<Rightarrow> string \<Rightarrow> evidence_item list" where
  "by_kind evidence knd = filter (\<lambda>i. kind i = knd) evidence"

definition any_state :: "evidence_state \<Rightarrow> evidence_item list \<Rightarrow> bool" where
  "any_state st items = list_ex (\<lambda>i. state i = st) items"

text \<open>One round of the first loop: the required evidence of a kind is missing, failed or unknown.\<close>

definition requirement_blocks :: "git_change \<Rightarrow> loaded_policy \<Rightarrow> evidence_item list \<Rightarrow> string \<Rightarrow> finding list" where
  "requirement_blocks change policy evidence knd =
     (let items = by_kind evidence knd; is_required = required policy knd (docs_only change) in
      if is_required \<and> items = [] then []
      else if is_required \<and> items \<noteq> [] \<and> \<not> any_state EvPASS items then
        (if any_state EvFAIL items
         then [(''failed-'' @ knd @ ''-evidence'', ''Required '' @ knd @ '' evidence contains a failure.'')]
         else [])
      else [])"

definition requirement_reviews :: "git_change \<Rightarrow> loaded_policy \<Rightarrow> evidence_item list \<Rightarrow> string \<Rightarrow> finding list" where
  "requirement_reviews change policy evidence knd =
     (let items = by_kind evidence knd; is_required = required policy knd (docs_only change) in
      if is_required \<and> items = []
      then [(''missing-'' @ knd @ ''-evidence'', ''Required '' @ knd @ '' evidence was not provided.'')]
      else if is_required \<and> items \<noteq> [] \<and> \<not> any_state EvPASS items then
        (if any_state EvFAIL items then []
         else [(''unknown-'' @ knd @ ''-evidence'',
                ''Required '' @ knd @ '' evidence could not be verified for the head SHA.'')])
      else [])"

definition observed_failure_blocks :: "evidence_item list \<Rightarrow> string \<Rightarrow> finding list" where
  "observed_failure_blocks evidence knd =
     (if any_state EvFAIL (by_kind evidence knd)
      then [(''failed-'' @ knd @ ''-evidence'', ''Observed '' @ knd @ '' evidence contains a failure.'')]
      else [])"

definition coverage_rates :: "evidence_item list \<Rightarrow> rat list" where
  "coverage_rates evidence =
     map (\<lambda>i. as_float (dict_get (metrics i) ''line_rate'' PNone))
       (filter (\<lambda>i. state i \<noteq> EvUNKNOWN \<and> map_of (metrics i) ''line_rate'' \<noteq> None)
         (by_kind evidence ''coverage''))"

definition coverage_blocks :: "loaded_policy \<Rightarrow> evidence_item list \<Rightarrow> finding list" where
  "coverage_blocks policy evidence =
     (let threshold = minimum_line_rate (data policy); rates = coverage_rates evidence in
      if threshold > 0 \<and> rates \<noteq> [] \<and> Min (set rates) < threshold
      then [(''coverage-below-policy'',
             ''Observed line coverage is below the '' @ fmt_percent 1 threshold @ '' policy threshold.'')]
      else [])"

definition security_finding_blocks :: "loaded_policy \<Rightarrow> evidence_item list \<Rightarrow> finding list" where
  "security_finding_blocks policy evidence =
     (if list_ex (\<lambda>i. state i \<noteq> EvUNKNOWN \<and> security_blocks i (block_severities (data policy)))
           (by_kind evidence ''security'')
      then [(''security-finding-blocked'', ''SARIF contains a finding at a policy-blocking severity.'')]
      else [])"

definition rule_reviews :: "evidence_item list \<Rightarrow> pydict \<Rightarrow> finding list" where
  "rule_reviews evidence rule =
     concat (map (\<lambda>knd.
        if any_state EvPASS (by_kind evidence knd) then []
        else [(''path-rule-'' @ rule_id rule @ ''-'' @ knd,
               ''Path rule '' @ rule_id rule @ '' requires verified '' @ knd @ '' evidence.'')])
       (rule_evidence rule))"

definition blocks_of :: "git_change \<Rightarrow> loaded_policy \<Rightarrow> evidence_item list \<Rightarrow> finding list" where
  "blocks_of change policy evidence =
     concat (map (requirement_blocks change policy evidence) [''tests'', ''build'', ''coverage'', ''security''])
     @ concat (map (observed_failure_blocks evidence) [''tests'', ''build''])
     @ coverage_blocks policy evidence
     @ security_finding_blocks policy evidence"

definition reviews_of :: "git_change \<Rightarrow> loaded_policy \<Rightarrow> evidence_item list \<Rightarrow> finding list" where
  "reviews_of change policy evidence =
     (if paths change = []
      then [(''no-change'', ''The selected base and head contain no changed paths.'')] else [])
     @ concat (map (requirement_reviews change policy evidence) [''tests'', ''build'', ''coverage'', ''security''])
     @ concat (map (rule_reviews evidence) (matching_path_rules policy (paths change)))"

definition evaluate_decision ::
  "git_change \<Rightarrow> loaded_policy \<Rightarrow> evidence_item list \<Rightarrow> decision \<times> string list \<times> string list \<times> string list" where
  "evaluate_decision change policy evidence =
     (let blocks = blocks_of change policy evidence;
          reviews = reviews_of change policy evidence;
          matched_rules = map rule_id (matching_path_rules policy (paths change));
          (dec, (reason_codes, reasons)) =
            (if blocks \<noteq> [] then (BLOCK, add_reasons (sort blocks))
             else if reviews \<noteq> [] then (REVIEW, add_reasons (sort reviews))
             else (PASS, add_reasons [(''policy-satisfied'',
                    ''All required evidence is present, SHA-matched, and policy-compliant.'')]))
      in (dec, reason_codes, reasons, sort matched_rules))"

section \<open>The receipt\<close>

record verification_result =
  decision :: decision
  reason_codes :: "string list"
  reasons :: "string list"
  receipt :: pydict

definition RECEIPT_SCHEMA_VERSION :: string where
  "RECEIPT_SCHEMA_VERSION = ''deployguard-evidence-receipt/v0.1''"

definition VERIFY_ENGINE_VERSION :: string where
  "VERIFY_ENGINE_VERSION = ''deployguard-verify/0.1.0''"

definition evidence_key :: "evidence_item \<Rightarrow> string \<times> string \<times> string" where
  "evidence_key i = (kind i, item_source i, item_id i)"

definition receipt_body ::
  "git_change \<Rightarrow> loaded_policy \<Rightarrow> evidence_item list \<Rightarrow> decision \<Rightarrow> string list \<Rightarrow> string list \<Rightarrow> string list \<Rightarrow> pydict" where
  "receipt_body change policy evidence_items dec codes rsns matched_rules =
     [(PStr ''schema_version'', PStr RECEIPT_SCHEMA_VERSION),
      (PStr ''engine_version'', PStr VERIFY_ENGINE_VERSION),
      (PStr ''generated_at'', PStr (generated_at change)),
      (PStr ''repository'', PDict
         [(PStr ''name'', PStr (repository change)), (PStr ''base_sha'', PStr (base_sha change)),
          (PStr ''head_sha'', PStr (head_sha change)),
          (PStr ''merge_base_sha'', PStr (merge_base_sha change))]),
      (PStr ''policy'', PDict
         [(PStr ''schema_version'', dget_or (data policy) ''schema_version'' PNone),
          (PStr ''source'', PStr (lp_source policy)), (PStr ''sha256'', PStr (sha256 policy)),
          (PStr ''matched_path_rules'', PList (map PStr matched_rules))]),
      (PStr ''change'', PDict
         [(PStr ''files_changed'', PInt (files_changed change)),
          (PStr ''lines_added'', PInt (lines_added change)),
          (PStr ''lines_deleted'', PInt (lines_deleted change)),
          (PStr ''paths'', PList (map PStr (paths change))),
          (PStr ''flags'', PList (map PStr (flags change))),
          (PStr ''docs_only'', PBool (docs_only change))]),
      (PStr ''evidence'', PList (map item_to_dict evidence_items)),
      (PStr ''decision'', PDict
         [(PStr ''status'', PStr (decision_value dec)),
          (PStr ''reason_codes'', PList (map PStr codes)),
          (PStr ''reasons'', PList (map PStr rsns))])]"

definition verify_change ::
  "(rat \<Rightarrow> string) \<Rightarrow> (string \<Rightarrow> string) \<Rightarrow> git_change \<Rightarrow> loaded_policy \<Rightarrow> evidence_item list \<Rightarrow>
   exn + verification_result" where
  "verify_change repr_float digest change policy evidence =
     (let evidence_items = sort_key evidence_key evidence;
          (dec, codes, rsns, matched_rules) = evaluate_decision change policy evidence_items;
          body = receipt_body change policy evidence_items dec codes rsns matched_rules
      in rbind (canonical_json repr_float (PDict body)) (\<lambda>bytes.
         Inr \<lparr> decision = dec, reason_codes = codes, reasons = rsns,
               receipt = body @ [(PStr ''receipt_sha256'', PStr (digest bytes))] \<rparr>))"

section \<open>What a decision means\<close>

definition has_state :: "evidence_item list \<Rightarrow> string \<Rightarrow> evidence_state \<Rightarrow> bool" where
  "has_state evidence knd st \<longleftrightarrow> (\<exists>i\<in>set evidence. kind i = knd \<and> state i = st)"

text \<open>A reported line rate is below the policy's threshold; a scanner reported a finding at a blocked
  severity. Unverified evidence counts for neither.\<close>

definition coverage_below :: "loaded_policy \<Rightarrow> evidence_item list \<Rightarrow> bool" where
  "coverage_below policy evidence \<longleftrightarrow>
     (\<exists>i\<in>set evidence. \<exists>v. kind i = ''coverage'' \<and> state i \<noteq> EvUNKNOWN \<and>
        map_of (metrics i) ''line_rate'' = Some v \<and> 0 < minimum_line_rate (data policy) \<and>
        as_float v < minimum_line_rate (data policy))"

definition severity_blocked :: "loaded_policy \<Rightarrow> evidence_item list \<Rightarrow> bool" where
  "severity_blocked policy evidence \<longleftrightarrow>
     (\<exists>i\<in>set evidence. kind i = ''security'' \<and> state i \<noteq> EvUNKNOWN \<and>
        (\<exists>sev\<in>set (block_severities (data policy)). 0 < metric_int (dict_get (metrics i) sev (PInt 0))))"

text \<open>The policy is satisfied: something changed, every required kind and every kind a matching path
  rule asks for has verified evidence, and nothing observed violates a blocking rule.\<close>

definition policy_satisfied :: "git_change \<Rightarrow> loaded_policy \<Rightarrow> evidence_item list \<Rightarrow> bool" where
  "policy_satisfied change policy evidence \<longleftrightarrow>
     paths change \<noteq> [] \<and>
     (\<forall>knd\<in>set supported_evidence. required policy knd (docs_only change) \<longrightarrow> has_state evidence knd EvPASS) \<and>
     (\<forall>rule\<in>set (matching_path_rules policy (paths change)).
        \<forall>knd\<in>set (rule_evidence rule). has_state evidence knd EvPASS) \<and>
     \<not> has_state evidence ''tests'' EvFAIL \<and> \<not> has_state evidence ''build'' EvFAIL \<and>
     \<not> coverage_below policy evidence \<and> \<not> severity_blocked policy evidence"

text \<open>The policy is violated by what was observed.\<close>

definition policy_violated :: "git_change \<Rightarrow> loaded_policy \<Rightarrow> evidence_item list \<Rightarrow> bool" where
  "policy_violated change policy evidence \<longleftrightarrow>
     has_state evidence ''tests'' EvFAIL \<or> has_state evidence ''build'' EvFAIL \<or>
     (\<exists>knd\<in>set supported_evidence. required policy knd (docs_only change) \<and>
        has_state evidence knd EvFAIL \<and> \<not> has_state evidence knd EvPASS) \<or>
     coverage_below policy evidence \<or> severity_blocked policy evidence"

lemma any_state_by_kind [simp]: "any_state st (by_kind evidence knd) = has_state evidence knd st"
  by (auto simp: any_state_def by_kind_def has_state_def list_ex_iff)

lemma by_kind_Nil_iff: "by_kind evidence knd = [] \<longleftrightarrow> (\<forall>i\<in>set evidence. kind i \<noteq> knd)"
  by (auto simp: by_kind_def filter_empty_conv)

lemma has_state_by_kind: "has_state evidence knd st \<Longrightarrow> by_kind evidence knd \<noteq> []"
  by (auto simp: has_state_def by_kind_Nil_iff)

lemma requirement_blocks_Nil_iff:
  "requirement_blocks change policy evidence knd = [] \<longleftrightarrow>
     \<not> (required policy knd (docs_only change) \<and> has_state evidence knd EvFAIL \<and> \<not> has_state evidence knd EvPASS)"
  using has_state_by_kind [of evidence knd EvFAIL]
  by (auto simp: requirement_blocks_def Let_def)

lemma coverage_blocks_Nil_iff: "coverage_blocks policy evidence = [] \<longleftrightarrow> \<not> coverage_below policy evidence"
proof -
  have rates: "r \<in> set (coverage_rates evidence) \<longleftrightarrow> (\<exists>i\<in>set evidence. \<exists>v. kind i = ''coverage'' \<and>
      state i \<noteq> EvUNKNOWN \<and> map_of (metrics i) ''line_rate'' = Some v \<and> r = as_float v)" for r
    by (force simp: coverage_rates_def by_kind_def dict_get_def)
  have "coverage_blocks policy evidence \<noteq> [] \<longleftrightarrow> 0 < minimum_line_rate (data policy) \<and>
      (\<exists>r\<in>set (coverage_rates evidence). r < minimum_line_rate (data policy))"
    by (cases "coverage_rates evidence = []") (simp_all add: coverage_blocks_def Let_def Min_less_iff)
  also have "\<dots> \<longleftrightarrow> coverage_below policy evidence"
    unfolding coverage_below_def Bex_def rates by auto
  finally show ?thesis by blast
qed

lemma security_finding_blocks_Nil_iff:
  "security_finding_blocks policy evidence = [] \<longleftrightarrow> \<not> severity_blocked policy evidence"
  by (auto simp: security_finding_blocks_def security_blocks_def by_kind_def list_ex_iff severity_blocked_def)

lemma rule_reviews_Nil_iff:
  "rule_reviews evidence rule = [] \<longleftrightarrow> (\<forall>knd\<in>set (rule_evidence rule). has_state evidence knd EvPASS)"
  by (auto simp: rule_reviews_def)

lemma requirement_reviews_Nil_iff:
  "requirement_reviews change policy evidence knd = [] \<longleftrightarrow>
     (required policy knd (docs_only change) \<longrightarrow> has_state evidence knd EvPASS \<or> has_state evidence knd EvFAIL)"
  using has_state_by_kind [of evidence knd]
  by (auto simp: requirement_reviews_def Let_def)

lemma observed_failure_blocks_Nil_iff:
  "observed_failure_blocks evidence knd = [] \<longleftrightarrow> \<not> has_state evidence knd EvFAIL"
  by (simp add: observed_failure_blocks_def)

lemma blocks_of_conditions:
  "blocks_of change policy evidence = [] \<longleftrightarrow>
     (\<forall>knd\<in>set supported_evidence. \<not> (required policy knd (docs_only change) \<and>
        has_state evidence knd EvFAIL \<and> \<not> has_state evidence knd EvPASS)) \<and>
     \<not> has_state evidence ''tests'' EvFAIL \<and> \<not> has_state evidence ''build'' EvFAIL \<and>
     coverage_blocks policy evidence = [] \<and> security_finding_blocks policy evidence = []"
  unfolding blocks_of_def supported_evidence_def [symmetric]
  by (simp add: requirement_blocks_Nil_iff observed_failure_blocks_Nil_iff)

lemma reviews_of_conditions:
  "reviews_of change policy evidence = [] \<longleftrightarrow>
     paths change \<noteq> [] \<and>
     (\<forall>knd\<in>set supported_evidence. required policy knd (docs_only change) \<longrightarrow>
        has_state evidence knd EvPASS \<or> has_state evidence knd EvFAIL) \<and>
     (\<forall>rule\<in>set (matching_path_rules policy (paths change)).
        \<forall>knd\<in>set (rule_evidence rule). has_state evidence knd EvPASS)"
  unfolding reviews_of_def supported_evidence_def [symmetric]
  by (simp add: requirement_reviews_Nil_iff rule_reviews_Nil_iff)

lemma blocks_of_Nil_iff: "blocks_of change policy evidence = [] \<longleftrightarrow> \<not> policy_violated change policy evidence"
  unfolding blocks_of_conditions policy_violated_def coverage_blocks_Nil_iff security_finding_blocks_Nil_iff
  by blast

lemma policy_satisfied_iff:
  "policy_satisfied change policy evidence \<longleftrightarrow>
     blocks_of change policy evidence = [] \<and> reviews_of change policy evidence = []"
  unfolding blocks_of_conditions reviews_of_conditions policy_satisfied_def
    coverage_blocks_Nil_iff security_finding_blocks_Nil_iff
  by blast

lemma fst_evaluate_decision:
  "fst (evaluate_decision change policy evidence) =
     (if blocks_of change policy evidence \<noteq> [] then BLOCK
      else if reviews_of change policy evidence \<noteq> [] then REVIEW else PASS)"
  by (simp add: evaluate_decision_def Let_def split: prod.splits)

lemma decision_pass_iff:
  "fst (evaluate_decision change policy evidence) = PASS \<longleftrightarrow> policy_satisfied change policy evidence"
  by (simp add: fst_evaluate_decision policy_satisfied_iff)

lemma decision_block_iff:
  "fst (evaluate_decision change policy evidence) = BLOCK \<longleftrightarrow> policy_violated change policy evidence"
  using blocks_of_Nil_iff [of change policy evidence] by (simp add: fst_evaluate_decision)

section \<open>Reasons\<close>

lemma add_reason_inv:
  assumes "distinct (fst acc) \<and> length (fst acc) = length (snd acc)"
  shows "distinct (fst (add_reason f acc)) \<and> length (fst (add_reason f acc)) = length (snd (add_reason f acc))
         \<and> set (fst (add_reason f acc)) = insert (fst f) (set (fst acc))"
  using assms by (auto simp: add_reason_def split: prod.splits)

lemma add_reasons_inv:
  "distinct (fst (add_reasons fs)) \<and> length (fst (add_reasons fs)) = length (snd (add_reasons fs)) \<and>
     set (fst (add_reasons fs)) = fst ` set fs"
proof -
  have "distinct (fst (fold add_reason fs acc)) \<and>
      length (fst (fold add_reason fs acc)) = length (snd (fold add_reason fs acc)) \<and>
      set (fst (fold add_reason fs acc)) = set (fst acc) \<union> fst ` set fs"
    if "distinct (fst acc) \<and> length (fst acc) = length (snd acc)" for acc
    using that
  proof (induction fs arbitrary: acc)
    case (Cons f fs)
    with add_reason_inv [of acc f] show ?case by auto
  qed simp
  from this [of "([], [])"] show ?thesis by (simp add: add_reasons_def)
qed

text \<open>A code once recorded keeps its first message.\<close>

lemma add_reasons_first:
  assumes "fst (add_reasons fs) ! n = code" and "n < length (fst (add_reasons fs))"
  shows "(code, snd (add_reasons fs) ! n) \<in> set fs"
proof -
  have "\<forall>n < length (fst (fold add_reason fs acc)). (fst (fold add_reason fs acc) ! n, snd (fold add_reason fs acc) ! n)
      \<in> set fs \<union> set (zip (fst acc) (snd acc))"
    if "distinct (fst acc) \<and> length (fst acc) = length (snd acc)" for acc
    using that
  proof (induction fs arbitrary: acc)
    case Nil
    then show ?case by (auto simp: in_set_zip)
  next
    case (Cons f fs)
    have "set (zip (fst (add_reason f acc)) (snd (add_reason f acc))) \<subseteq> insert f (set (zip (fst acc) (snd acc)))"
      using Cons.prems by (auto simp: add_reason_def split: prod.splits if_splits)
    with Cons.IH [of "add_reason f acc"] add_reason_inv [OF Cons.prems, of f] show ?case by fastforce
  qed
  from this [of "([], [])"] assms show ?thesis by (auto simp: add_reasons_def)
qed

section \<open>Order of the evidence\<close>

lemma has_state_perm: "set evidence = set evidence' \<Longrightarrow> has_state evidence = has_state evidence'"
  by (auto simp: has_state_def fun_eq_iff)

lemma decision_set_cong:
  assumes "set evidence = set evidence'"
  shows "fst (evaluate_decision change policy evidence) = fst (evaluate_decision change policy evidence')"
proof -
  have "policy_satisfied change policy evidence = policy_satisfied change policy evidence'"
    "policy_violated change policy evidence = policy_violated change policy evidence'"
    using has_state_perm [OF assms] assms by (simp_all add: policy_satisfied_def policy_violated_def coverage_below_def severity_blocked_def)
  then show ?thesis
    by (metis decision_pass_iff decision_block_iff fst_evaluate_decision)
qed

lemma verify_change_perm:
  assumes "mset evidence = mset evidence'" and "distinct (map evidence_key evidence)"
  shows "verify_change repr_float digest change policy evidence
       = verify_change repr_float digest change policy evidence'"
proof -
  have "inj_on evidence_key (set evidence)"
    using assms(2) by (simp add: distinct_map)
  with assms(1) have "sort_key evidence_key evidence = sort_key evidence_key evidence'"
    by (rule sort_key_perm_eq)
  then show ?thesis by (simp add: verify_change_def)
qed

section \<open>Properties of the decision engine\<close>

text \<open>
  C2. The decision says exactly what the policy demands. It is PASS if and only if something changed,
  every required kind and every kind a matching path rule asks for has verified evidence, no test or
  build evidence failed, no reported coverage is below the threshold and no scanner reported a blocked
  severity; it is BLOCK if and only if the observed evidence violates the policy; it is never ERROR.
\<close>
theorem decision_characterised:
  "(fst (evaluate_decision change policy evidence) = PASS \<longleftrightarrow> policy_satisfied change policy evidence) \<and>
   (fst (evaluate_decision change policy evidence) = BLOCK \<longleftrightarrow> policy_violated change policy evidence) \<and>
   fst (evaluate_decision change policy evidence) \<noteq> ERROR"
  by (simp add: decision_pass_iff decision_block_iff) (simp add: fst_evaluate_decision)

lemma snd_evaluate_decision:
  "\<exists>fs. fs \<noteq> [] \<and> fst (snd (evaluate_decision change policy evidence)) = fst (add_reasons fs) \<and>
     fst (snd (snd (evaluate_decision change policy evidence))) = snd (add_reasons fs) \<and>
     (fst (evaluate_decision change policy evidence) = BLOCK \<longrightarrow> set fs = set (blocks_of change policy evidence)) \<and>
     (fst (evaluate_decision change policy evidence) = REVIEW \<longrightarrow> set fs = set (reviews_of change policy evidence))"
proof -
  consider "blocks_of change policy evidence \<noteq> []"
    | "blocks_of change policy evidence = []" "reviews_of change policy evidence \<noteq> []"
    | "blocks_of change policy evidence = []" "reviews_of change policy evidence = []"
    by blast
  then show ?thesis
  proof cases
    case 1
    then show ?thesis
      by (intro exI [of _ "sort (blocks_of change policy evidence)"])
        (simp add: evaluate_decision_def Let_def split: prod.splits)
  next
    case 2
    then show ?thesis
      by (intro exI [of _ "sort (reviews_of change policy evidence)"])
        (simp add: evaluate_decision_def Let_def split: prod.splits)
  next
    case 3
    then show ?thesis
      by (intro exI [of _ "[(''policy-satisfied'', ''All required evidence is present, SHA-matched, and policy-compliant.'')]"])
        (simp add: evaluate_decision_def Let_def split: prod.splits)
  qed
qed

text \<open>
  Every decision is explained: the reason codes are pairwise distinct and not empty, and each code has
  one message; a BLOCK lists exactly the codes of all blocking findings and a REVIEW those of all
  reviewing findings, so no reason is dropped when codes repeat.
\<close>
theorem decision_explained:
  "distinct (fst (snd (evaluate_decision change policy evidence))) \<and>
   fst (snd (evaluate_decision change policy evidence)) \<noteq> [] \<and>
   length (fst (snd (evaluate_decision change policy evidence))) =
     length (fst (snd (snd (evaluate_decision change policy evidence)))) \<and>
   set (fst (snd (evaluate_decision change policy evidence))) =
     (case fst (evaluate_decision change policy evidence) of
        BLOCK \<Rightarrow> fst ` set (blocks_of change policy evidence)
      | REVIEW \<Rightarrow> fst ` set (reviews_of change policy evidence)
      | _ \<Rightarrow> set (fst (snd (evaluate_decision change policy evidence))))"
proof -
  obtain fs where fs: "fs \<noteq> []" "fst (snd (evaluate_decision change policy evidence)) = fst (add_reasons fs)"
    "fst (snd (snd (evaluate_decision change policy evidence))) = snd (add_reasons fs)"
    "fst (evaluate_decision change policy evidence) = BLOCK \<longrightarrow> set fs = set (blocks_of change policy evidence)"
    "fst (evaluate_decision change policy evidence) = REVIEW \<longrightarrow> set fs = set (reviews_of change policy evidence)"
    using snd_evaluate_decision by blast
  have "fst (add_reasons fs) \<noteq> []"
    using fs(1) add_reasons_inv [of fs] by (metis image_is_empty set_empty)
  with fs add_reasons_inv [of fs] show ?thesis by (simp split: decision.splits)
qed

text \<open>
  C15. The receipt, its digest included, does not depend on the order in which the evidence was collected,
  for evidence with distinct kind, source and id.
\<close>
theorem receipt_order_independent:
  assumes "mset evidence = mset evidence'" and "distinct (map evidence_key evidence)"
  shows "verify_change repr_float digest change policy evidence
       = verify_change repr_float digest change policy evidence'"
  using assms by (rule verify_change_perm)

definition sample_item :: "string \<Rightarrow> evidence_item" where
  "sample_item knd = \<lparr> item_id = knd @ ''-1'', kind = knd, state = EvPASS, item_source = ''ci'', source_sha = None,
     artifact_sha256 = None, summary = [], metrics = [] \<rparr>"

definition sample_git_change :: git_change where
  "sample_git_change = \<lparr> repository = ''o/r'', base_sha = ''a'', head_sha = ''b'', merge_base_sha = ''a'',
     generated_at = ''2026-01-01T00:00:00Z'', paths = [''app.py''], files_changed = 1, lines_added = 1,
     lines_deleted = 0, flags = [] \<rparr>"

definition sample_policy :: loaded_policy where
  "sample_policy = \<lparr> data = DEFAULT_POLICY, lp_source = ''builtin'', sha256 = [] \<rparr>"

theorem receipt_order_independent_witness:
  "verify_change no_float (\<lambda>s. s) sample_git_change sample_policy [sample_item ''tests'', sample_item ''build''] =
   verify_change no_float (\<lambda>s. s) sample_git_change sample_policy [sample_item ''build'', sample_item ''tests'']"
  by (rule receipt_order_independent) (simp_all add: sample_item_def evidence_key_def)

end
