(* ===== verification/VerifyEvidence.thy ===== *)
theory VerifyEvidence
  imports VerifyEngine
begin

text \<open>
  \<open>verify/deployguard_verify/evidence.py\<close>: selection of artifact files, the JUnit, coverage and SARIF
  readers, and \<open>collect_artifacts\<close>.

  The file system is seen through records (\<open>artifact\<close>, \<open>fs_entry\<close>). Expat's XML parser, \<open>json.loads\<close>,
  the UTF-8 decoder with replacement, \<open>glob.iglob\<close>, SHA-256 and \<open>str\<close> of floats and containers are
  parameters; the element tree and the dynamic values they return are modelled and everything the
  sources do with them is.
\<close>

section \<open>Reading numbers\<close>

text \<open>\<open>float(s)\<close>: an optional sign, then \<open>inf\<close>, \<open>infinity\<close> or \<open>nan\<close> in any case, or a decimal with an
  optional fraction and exponent. Underscores are allowed between digits, as in \<^const>\<open>py_int\<close>.\<close>

definition split_at_first :: "(char \<Rightarrow> bool) \<Rightarrow> string \<Rightarrow> string \<times> string option" where
  "split_at_first p s = (takeWhile (\<lambda>c. \<not> p c) s,
     (case dropWhile (\<lambda>c. \<not> p c) s of [] \<Rightarrow> None | _ # r \<Rightarrow> Some r))"

definition digit_part :: "string \<Rightarrow> bool" where
  "digit_part s = list_all (\<lambda>w. w \<noteq> [] \<and> list_all is_digit w) (py_split CHR ''_'' s)"

definition digits_nat :: "string \<Rightarrow> nat" where
  "digits_nat s = digits_value 0 (filter is_digit s)"

definition parse_exponent :: "string option \<Rightarrow> int option" where
  "parse_exponent e = (case e of
     None \<Rightarrow> Some 0
   | Some s \<Rightarrow>
       let neg = py_startswith s ''-''; ds = (if neg \<or> py_startswith s ''+'' then tl s else s)
       in if digit_part ds then Some ((if neg then - 1 else 1) * int (digits_nat ds)) else None)"

definition parse_decimal :: "string \<Rightarrow> rat option" where
  "parse_decimal s =
     (let (mant, e) = split_at_first (\<lambda>c. c = CHR ''e'') s;
          (ip, fp) = split_at_first (\<lambda>c. c = CHR ''.'') mant;
          frac = (case fp of None \<Rightarrow> [] | Some f \<Rightarrow> f);
          ok = ((ip \<noteq> [] \<or> frac \<noteq> []) \<and> (ip = [] \<or> digit_part ip) \<and> (frac = [] \<or> digit_part frac))
      in if \<not> ok then None
         else map_option (\<lambda>k. (of_nat (digits_nat (ip @ frac)) /
                 10 ^ length (filter is_digit frac)) * (10 powi k)) (parse_exponent e))"

definition to_binary64 :: "rat \<Rightarrow> pyfloat" where
  "to_binary64 x = (if \<bar>x\<bar> < 2 ^ 1024 - 2 ^ 970 then Fin (fl x) else if x < 0 then NegInf else PosInf)"

definition py_float_of_str :: "string \<Rightarrow> pyfloat option" where
  "py_float_of_str s =
     (let t = py_lower (py_strip s); neg = py_startswith t ''-'';
          u = (if neg \<or> py_startswith t ''+'' then tl t else t)
      in if u = ''inf'' \<or> u = ''infinity'' then Some (if neg then NegInf else PosInf)
         else if u = ''nan'' then Some NaN
         else map_option (\<lambda>x. to_binary64 (if neg then - x else x)) (parse_decimal u))"

text \<open>\<open>a / b\<close> on integers, \<open>b\<close> not zero: the correctly rounded quotient.\<close>

definition py_truediv :: "int \<Rightarrow> int \<Rightarrow> exn + rat" where
  "py_truediv a b = (let q = of_int a / of_int b in
     if \<bar>q\<bar> < 2 ^ 1024 - 2 ^ 970 then Inr (fl q) else Inl OverflowError)"

text \<open>\<open>str.splitlines\<close>.\<close>

definition is_linebreak :: "char \<Rightarrow> bool" where
  "is_linebreak c = (let n = nat_of_char c in (10 \<le> n \<and> n \<le> 13) \<or> (28 \<le> n \<and> n \<le> 30) \<or> n = 133)"

fun splitlines_aux :: "string \<Rightarrow> string \<Rightarrow> string list" where
  "splitlines_aux acc [] = (if acc = [] then [] else [rev acc])"
| "splitlines_aux acc (c # cs) =
     (if nat_of_char c = 13 \<and> (case cs of [] \<Rightarrow> False | d # _ \<Rightarrow> nat_of_char d = 10)
      then rev acc # splitlines_aux [] (tl cs)
      else if is_linebreak c then rev acc # splitlines_aux [] cs
      else splitlines_aux (c # acc) cs)"

definition splitlines :: "string \<Rightarrow> string list" where
  "splitlines s = splitlines_aux [] s"

section \<open>Files\<close>

definition MAX_ARTIFACT_BYTES :: nat where
  "MAX_ARTIFACT_BYTES = 16 * 1024 * 1024"

definition MAX_ARTIFACT_FILES :: nat where
  "MAX_ARTIFACT_FILES = 100"

record artifact =
  a_symlink :: bool
  a_size :: nat \<comment> \<open>\<open>stat().st_size\<close>\<close>
  a_bytes :: string
  a_suffix :: string \<comment> \<open>\<open>path.suffix\<close>\<close>
  a_relative :: string \<comment> \<open>\<open>path.relative_to(repository_root).as_posix()\<close>\<close>

definition artifact_bytes :: "artifact \<Rightarrow> exn + string" where
  "artifact_bytes a =
     (if a_symlink a then Inl (ArtifactValueError ArtifactSymlink)
      else if a_size a > MAX_ARTIFACT_BYTES then Inl (ArtifactValueError ArtifactTooLarge)
      else Inr (a_bytes a))"

definition artifact_id :: "string \<Rightarrow> string \<Rightarrow> string" where
  "artifact_id knd digest = knd @ ''-'' @ take 16 digest"

text \<open>A match of \<open>glob.iglob\<close>: whether it is a link or a regular file, its resolved POSIX path, and the
  file there.\<close>

record fs_entry =
  fe_symlink :: bool
  fe_is_file :: bool
  fe_resolved :: string
  fe_artifact :: artifact

text \<open>\<open>Path.is_relative_to\<close> on resolved POSIX paths.\<close>

definition is_relative_to :: "string \<Rightarrow> string \<Rightarrow> bool" where
  "is_relative_to p root_dir = (p = root_dir \<or> py_startswith p (if py_endswith root_dir ''/'' then root_dir else root_dir @ ''/''))"

definition expand_entry :: "string \<Rightarrow> fs_entry \<Rightarrow> (string, artifact) dict \<Rightarrow> exn + (string, artifact) dict" where
  "expand_entry root_dir e matches =
     (if fe_symlink e \<or> \<not> fe_is_file e then Inr matches
      else if \<not> is_relative_to (fe_resolved e) root_dir then Inl (ArtifactValueError ArtifactPatternEscapes)
      else let matches' = AList.update (fe_resolved e) (fe_artifact e) matches in
        if length matches' > MAX_ARTIFACT_FILES then Inl (ArtifactValueError TooManyArtifacts)
        else Inr matches')"

definition expand_pattern ::
  "(string \<Rightarrow> fs_entry list) \<Rightarrow> string \<Rightarrow> string \<Rightarrow> (string, artifact) dict \<Rightarrow> exn + (string, artifact) dict" where
  "expand_pattern iglob root_dir pattern matches =
     (if pattern = [] then Inr matches else rfold (expand_entry root_dir) (iglob pattern) matches)"

definition expand_artifact_patterns ::
  "(string \<Rightarrow> fs_entry list) \<Rightarrow> string \<Rightarrow> string list \<Rightarrow> exn + artifact list" where
  "expand_artifact_patterns iglob root_dir patterns =
     rbind (rfold (expand_pattern iglob root_dir) patterns []) (\<lambda>matches.
     Inr (map snd (sort_key fst matches)))"

section \<open>JUnit\<close>

datatype xml = Elem (xml_tag: string) (xml_attrib: "(string \<times> string) list") (xml_children: "xml list")

text \<open>\<open>tag.rsplit("}", 1)[-1]\<close>.\<close>

definition local_name :: "string \<Rightarrow> string" where
  "local_name t = rev (takeWhile (\<lambda>c. c \<noteq> CHR ''}'') (rev t))"

text \<open>\<open>elem.iter(tag)\<close>: the element itself and all below it, in document order.\<close>

fun xml_iter :: "string \<Rightarrow> xml \<Rightarrow> xml list" where
  "xml_iter t (Elem g ats cs) = (if g = t then [Elem g ats cs] else []) @ concat (map (xml_iter t) cs)"

definition has_child :: "string \<Rightarrow> xml \<Rightarrow> bool" where
  "has_child t e = list_ex (\<lambda>c. xml_tag c = t) (xml_children e)"

text \<open>\<open>_parse_xml\<close>: document type and entity declarations in the first 4096 bytes are refused.\<close>

definition upper_byte :: "char \<Rightarrow> char" where
  "upper_byte c = (let n = nat_of_char c in if 97 \<le> n \<and> n \<le> 122 then char_of (n - 32) else c)"

definition parse_xml :: "(string \<Rightarrow> xml option) \<Rightarrow> string \<Rightarrow> exn + xml" where
  "parse_xml xml_parser raw =
     (let upper = map upper_byte (take 4096 raw) in
      if py_contains upper ''<!DOCTYPE'' \<or> py_contains upper ''<!ENTITY''
      then Inl (ArtifactValueError XmlEntities)
      else case xml_parser raw of
        None \<Rightarrow> Inl (ArtifactValueError InvalidXml)
      | Some elem \<Rightarrow> Inr elem)"

definition parse_junit ::
  "(string \<Rightarrow> xml option) \<Rightarrow> (string \<Rightarrow> string) \<Rightarrow> artifact \<Rightarrow> string option \<Rightarrow> string \<Rightarrow> exn + evidence_item" where
  "parse_junit xml_parser digest a src_sha expected_sha =
     rbind (artifact_bytes a) (\<lambda>raw.
     rbind (parse_xml xml_parser raw) (\<lambda>elem.
     if local_name (xml_tag elem) \<notin> {''testsuite'', ''testsuites''} then Inl (ArtifactValueError NotJUnit)
     else let cases = xml_iter ''testcase'' elem;
              tests = length cases;
              failures = length (filter (has_child ''failure'') cases);
              errors = length (filter (has_child ''error'') cases);
              skipped = length (filter (has_child ''skipped'') cases);
              (st, smry) =
                (if src_sha \<noteq> Some expected_sha
                 then (EvUNKNOWN, ''JUnit source SHA does not match the change head SHA.'')
                 else if tests = 0 then (EvUNKNOWN, ''JUnit report contains no test cases.'')
                 else if failures \<noteq> 0 \<or> errors \<noteq> 0
                 then (EvFAIL, show_nat (failures + errors) @ '' of '' @ show_nat tests @
                         '' tests failed or errored.'')
                 else (EvPASS, show_int (int tests - int skipped) @ '' tests passed; '' @
                         show_nat skipped @ '' skipped.''))
          in Inr \<lparr> item_id = artifact_id ''tests'' (digest raw), kind = ''tests'', state = st,
                   item_source = a_relative a, source_sha = src_sha,
                   artifact_sha256 = Some (digest raw), summary = smry,
                   metrics = [(''tests'', PInt (int tests)), (''failures'', PInt (int failures)),
                              (''errors'', PInt (int errors)), (''skipped'', PInt (int skipped))] \<rparr>))"

section \<open>Coverage\<close>

definition lcov_line :: "string \<Rightarrow> int \<times> int \<Rightarrow> exn + int \<times> int" where
  "lcov_line line acc = (case acc of (lines_found, lines_hit) \<Rightarrow>
     if py_startswith line ''LF:'' then
       (case py_int (drop 3 line) of None \<Rightarrow> Inl (ArtifactValueError InvalidInteger)
        | Some n \<Rightarrow> Inr (lines_found + n, lines_hit))
     else if py_startswith line ''LH:'' then
       (case py_int (drop 3 line) of None \<Rightarrow> Inl (ArtifactValueError InvalidInteger)
        | Some n \<Rightarrow> Inr (lines_found, lines_hit + n))
     else Inr acc)"

definition rate_of :: "int \<Rightarrow> int \<Rightarrow> exn + rat" where
  "rate_of lines_hit lines_found = (if lines_found \<noteq> 0 then py_truediv lines_hit lines_found else Inr 0)"

definition lcov_rate :: "string \<Rightarrow> exn + rat \<times> (string \<times> pyval) list" where
  "lcov_rate txt =
     rbind (rfold lcov_line (splitlines txt) (0, 0)) (\<lambda>(lines_found, lines_hit).
     rbind (rate_of lines_hit lines_found) (\<lambda>rate.
     if lines_found < 0 \<or> lines_hit < 0 \<or> lines_hit > lines_found
     then Inl (ArtifactValueError InvalidLcovTotals)
     else Inr (rate, [(''lines_found'', PInt lines_found), (''lines_hit'', PInt lines_hit)])))"

text \<open>\<open>sum(int(line.attrib.get("hits", "0")) > 0 for line in lines)\<close>.\<close>

definition count_hits :: "xml list \<Rightarrow> exn + int" where
  "count_hits lines = rfold (\<lambda>line n.
     case py_int (dict_get (xml_attrib line) ''hits'' ''0'') of
       None \<Rightarrow> Inl (ArtifactValueError InvalidInteger)
     | Some h \<Rightarrow> Inr (n + (if h > 0 then 1 else 0))) lines 0"

definition cobertura_rate :: "xml \<Rightarrow> exn + rat \<times> (string \<times> pyval) list" where
  "cobertura_rate elem =
     (if local_name (xml_tag elem) \<noteq> ''coverage'' then Inl (ArtifactValueError NotCobertura)
      else case map_of (xml_attrib elem) ''line-rate'' of
        None \<Rightarrow>
          (let lines = xml_iter ''line'' elem; lines_found = int (length lines) in
           rbind (count_hits lines) (\<lambda>lines_hit.
           rbind (rate_of lines_hit lines_found) (\<lambda>rate.
           Inr (rate, [(''lines_found'', PInt lines_found), (''lines_hit'', PInt lines_hit)]))))
      | Some raw_rate \<Rightarrow>
          (case py_float_of_str raw_rate of
             None \<Rightarrow> Inl (ArtifactValueError InvalidFloat)
           | Some v \<Rightarrow>
               (case v of
                  Fin rate \<Rightarrow> if 0 \<le> rate \<and> rate \<le> 1
                    then Inr (rate, [(''line_rate'', PFloat (Fin (py_round 6 rate)))])
                    else Inl (ArtifactValueError InvalidLineRate)
                | _ \<Rightarrow> Inl (ArtifactValueError InvalidLineRate))))"

definition coverage_rate ::
  "(string \<Rightarrow> xml option) \<Rightarrow> (string \<Rightarrow> string) \<Rightarrow> artifact \<Rightarrow> string \<Rightarrow> exn + rat \<times> (string \<times> pyval) list" where
  "coverage_rate xml_parser decode_replace a raw =
     (if py_lower (a_suffix a) = ''.info'' \<or> py_startswith raw ''TN:''
      then lcov_rate (decode_replace raw)
      else rbind (parse_xml xml_parser raw) cobertura_rate)"

definition parse_coverage ::
  "(string \<Rightarrow> xml option) \<Rightarrow> (string \<Rightarrow> string) \<Rightarrow> (string \<Rightarrow> string) \<Rightarrow> artifact \<Rightarrow> string option \<Rightarrow> string \<Rightarrow>
   exn + evidence_item" where
  "parse_coverage xml_parser decode_replace digest a src_sha expected_sha =
     rbind (artifact_bytes a) (\<lambda>raw.
     rbind (coverage_rate xml_parser decode_replace a raw) (\<lambda>(rate, ms).
     let (st, smry) =
           (if src_sha \<noteq> Some expected_sha
            then (EvUNKNOWN, ''Coverage source SHA does not match the change head SHA.'')
            else (EvPASS, ''Reported line coverage is '' @ fmt_percent 1 rate @ ''.''))
     in Inr \<lparr> item_id = artifact_id ''coverage'' (digest raw), kind = ''coverage'', state = st,
              item_source = a_relative a, source_sha = src_sha,
              artifact_sha256 = Some (digest raw), summary = smry,
              metrics = AList.update ''line_rate'' (PFloat (Fin (py_round 6 rate))) ms \<rparr>))"

section \<open>SARIF\<close>

text \<open>\<open>str(v)\<close>; \<open>repr_other\<close> is the text of floats, containers and other objects.\<close>

fun py_str :: "(pyval \<Rightarrow> string) \<Rightarrow> pyval \<Rightarrow> string" where
  "py_str repr_other PNone = ''None''"
| "py_str repr_other (PBool b) = (if b then ''True'' else ''False'')"
| "py_str repr_other (PInt i) = show_int i"
| "py_str repr_other (PStr s) = s"
| "py_str repr_other v = repr_other v"

text \<open>\<open>try: float(v) except (TypeError, ValueError): None\<close>.\<close>

fun score_of :: "pyval \<Rightarrow> exn + pyfloat option" where
  "score_of (PFloat x) = Inr (Some x)"
| "score_of (PInt n) = rbind (float_of_int n) (\<lambda>x. Inr (Some (Fin x)))"
| "score_of (PBool b) = Inr (Some (Fin (if b then 1 else 0)))"
| "score_of (PStr s) = Inr (py_float_of_str s)"
| "score_of _ = Inr None"

definition dict_or_empty :: "pyval option \<Rightarrow> pydict" where
  "dict_or_empty v = (case v of Some (PDict d) \<Rightarrow> d | _ \<Rightarrow> [])"

definition level_severity :: "string \<Rightarrow> string" where
  "level_severity level = (if level = ''error'' then ''high'' else if level = ''warning'' then ''medium''
     else if level = ''note'' then ''note'' else ''medium'')"

definition sarif_severity :: "(pyval \<Rightarrow> string) \<Rightarrow> pydict \<Rightarrow> (string \<times> pydict) list \<Rightarrow> exn + string" where
  "sarif_severity repr_other result rules =
     (let properties = dict_or_empty (dget result ''properties'');
          rule = dict_get rules (py_str repr_other (dget_or result ''ruleId'' (PStr []))) [];
          rule_properties = dict_or_empty (dget rule ''properties'');
          raw_score = dget_or properties ''security-severity'' (dget_or rule_properties ''security-severity'' PNone)
      in rbind (score_of raw_score) (\<lambda>score.
         case score of
           Some (Fin x) \<Rightarrow> Inr (if x \<ge> 9 then ''critical'' else if x \<ge> 7 then ''high''
                                else if x \<ge> 4 then ''medium'' else ''low'')
         | _ \<Rightarrow> Inr (level_severity (py_lower (py_str repr_other (dget_or result ''level'' (PStr ''warning'')))))))"

text \<open>Iterating over a value: a list's elements, a dictionary's keys, a string's characters.\<close>

fun iter_values :: "pyval \<Rightarrow> exn + pyval list" where
  "iter_values (PList vs) = Inr vs"
| "iter_values (PDict d) = Inr (map fst d)"
| "iter_values (PStr s) = Inr (map (\<lambda>c. PStr [c]) s)"
| "iter_values _ = Inl TypeError"

definition rules_of_driver :: "(pyval \<Rightarrow> string) \<Rightarrow> pydict \<Rightarrow> exn + (string \<times> pydict) list" where
  "rules_of_driver repr_other driver =
     rbind (iter_values (dget_or driver ''rules'' (PList []))) (\<lambda>vs.
     Inr (fold (\<lambda>v acc. case v of
                  PDict d \<Rightarrow> if truthy (dget_or d ''id'' PNone)
                    then AList.update (py_str repr_other (dget_or d ''id'' PNone)) d acc else acc
                | _ \<Rightarrow> acc) vs []))"

type_synonym severity_counts = "(string \<times> int) list"

definition bump :: "string \<Rightarrow> severity_counts \<Rightarrow> severity_counts" where
  "bump sev counts = AList.update sev (dict_get counts sev 0 + 1) counts"

definition counted_result :: "pyval \<Rightarrow> bool" where
  "counted_result r = (case r of PDict d \<Rightarrow> \<not> truthy (dget_or d ''suppressions'' PNone) | _ \<Rightarrow> False)"

definition count_result ::
  "(pyval \<Rightarrow> string) \<Rightarrow> (string \<times> pydict) list \<Rightarrow> pyval \<Rightarrow> severity_counts \<Rightarrow> exn + severity_counts" where
  "count_result repr_other rules result counts =
     (if counted_result result
      then rbind (sarif_severity repr_other (as_dict result) rules) (\<lambda>sev. Inr (bump sev counts))
      else Inr counts)"

definition count_run :: "(pyval \<Rightarrow> string) \<Rightarrow> pyval \<Rightarrow> severity_counts \<Rightarrow> exn + severity_counts" where
  "count_run repr_other run counts =
     (case run of
        PDict r \<Rightarrow>
          (case dget r ''tool'' of
             Some (PDict tool) \<Rightarrow>
               (case dget tool ''driver'' of
                  Some (PDict driver) \<Rightarrow>
                    (case dget_or r ''results'' (PList []) of
                       PList results \<Rightarrow>
                         rbind (rules_of_driver repr_other driver) (\<lambda>rules.
                         rfold (count_result repr_other rules) results counts)
                     | _ \<Rightarrow> Inl (ArtifactValueError SarifResultsNotList))
                | _ \<Rightarrow> Inl (ArtifactValueError SarifNoDriver))
           | _ \<Rightarrow> Inl (ArtifactValueError SarifNoDriver))
      | _ \<Rightarrow> Inl (ArtifactValueError SarifRunNotObject))"

definition initial_counts :: severity_counts where
  "initial_counts = [(''critical'', 0), (''high'', 0), (''medium'', 0), (''low'', 0), (''note'', 0)]"

definition sarif_counts :: "(pyval \<Rightarrow> string) \<Rightarrow> pyval \<Rightarrow> exn + severity_counts" where
  "sarif_counts repr_other payload =
     (case payload of
        PDict d \<Rightarrow>
          if dget d ''version'' \<noteq> Some (PStr ''2.1.0'') then Inl (ArtifactValueError NotSarif)
          else (case dget d ''runs'' of
              Some (PList runs) \<Rightarrow> rfold (count_run repr_other) runs initial_counts
            | _ \<Rightarrow> Inl (ArtifactValueError SarifRunsNotList))
      | _ \<Rightarrow> Inl (ArtifactValueError NotSarif))"

definition total_count :: "severity_counts \<Rightarrow> int" where
  "total_count counts = sum_list (map snd counts)"

definition parse_sarif ::
  "(string \<Rightarrow> pyval option) \<Rightarrow> (pyval \<Rightarrow> string) \<Rightarrow> (string \<Rightarrow> string) \<Rightarrow> artifact \<Rightarrow> string option \<Rightarrow> string \<Rightarrow>
   exn + evidence_item" where
  "parse_sarif json_loads repr_other digest a src_sha expected_sha =
     rbind (artifact_bytes a) (\<lambda>raw.
     case json_loads raw of
       None \<Rightarrow> Inl (ArtifactValueError InvalidSarifJson)
     | Some payload \<Rightarrow>
         rbind (sarif_counts repr_other payload) (\<lambda>counts.
         let total = total_count counts;
             critical = dict_get counts ''critical'' 0;
             high = dict_get counts ''high'' 0;
             (st, smry) =
               (if src_sha \<noteq> Some expected_sha
                then (EvUNKNOWN, ''SARIF source SHA does not match the change head SHA.'')
                else if critical \<noteq> 0 \<or> high \<noteq> 0
                then (EvFAIL, ''SARIF contains '' @ show_int critical @ '' critical and '' @
                        show_int high @ '' high findings.'')
                else (EvPASS, ''SARIF contains no critical or high findings ('' @ show_int total @ '' total).''))
         in Inr \<lparr> item_id = artifact_id ''security'' (digest raw), kind = ''security'', state = st,
                  item_source = a_relative a, source_sha = src_sha,
                  artifact_sha256 = Some (digest raw), summary = smry,
                  metrics = AList.update ''total'' (PInt total) (map (\<lambda>(k, n). (k, PInt n)) counts) \<rparr>))"

section \<open>Collecting\<close>

text \<open>What the collection takes from outside.\<close>

record collaborators =
  c_iglob :: "string \<Rightarrow> fs_entry list"
  c_root :: string
  c_xml :: "string \<Rightarrow> xml option"
  c_decode :: "string \<Rightarrow> string"
  c_json :: "string \<Rightarrow> pyval option"
  c_repr :: "pyval \<Rightarrow> string"
  c_digest :: "string \<Rightarrow> string"

definition parse_artifact ::
  "collaborators \<Rightarrow> string \<Rightarrow> artifact \<Rightarrow> string option \<Rightarrow> string \<Rightarrow> exn + evidence_item" where
  "parse_artifact env knd a src_sha expected_sha =
     (if knd = ''tests'' then parse_junit (c_xml env) (c_digest env) a src_sha expected_sha
      else if knd = ''coverage'' then parse_coverage (c_xml env) (c_decode env) (c_digest env) a src_sha expected_sha
      else parse_sarif (c_json env) (c_repr env) (c_digest env) a src_sha expected_sha)"

definition collect_kind ::
  "collaborators \<Rightarrow> (string \<times> string list) list \<Rightarrow> string option \<Rightarrow> string \<Rightarrow> string \<Rightarrow>
   evidence_item list \<Rightarrow> exn + evidence_item list" where
  "collect_kind env patterns src_sha expected_sha knd items =
     rbind (expand_artifact_patterns (c_iglob env) (c_root env) (dict_get patterns knd [])) (\<lambda>arts.
     rfold (\<lambda>a its. rbind (parse_artifact env knd a src_sha expected_sha) (\<lambda>i. Inr (its @ [i]))) arts items)"

definition build_item :: "string option \<Rightarrow> string \<Rightarrow> string \<Rightarrow> evidence_item" where
  "build_item src_sha expected_sha build_status =
     (let (st, smry) =
        (if src_sha \<noteq> Some expected_sha
         then (EvUNKNOWN, ''Build source SHA does not match the change head SHA.'')
         else (if build_status = ''success'' then EvPASS else EvFAIL,
               ''Build status was reported as '' @ build_status @ ''.''))
      in \<lparr> item_id = ''build-'' @ take 16 expected_sha, kind = ''build'', state = st,
           item_source = ''ci:build-status'', source_sha = src_sha, artifact_sha256 = None,
           summary = smry, metrics = [(''status'', PStr build_status)] \<rparr>)"

definition collect_artifacts ::
  "collaborators \<Rightarrow> (string \<times> string list) list \<Rightarrow> string option \<Rightarrow> string \<Rightarrow> string \<Rightarrow> exn + evidence_item list" where
  "collect_artifacts env patterns src_sha expected_sha build_status =
     rbind (rfold (collect_kind env patterns src_sha expected_sha) [''tests'', ''coverage'', ''security''] [])
       (\<lambda>items. Inr (sort_key evidence_key
          (if build_status \<noteq> ''unknown''
           then items @ [build_item src_sha expected_sha build_status] else items)))"

section \<open>Stale evidence is never verified\<close>

text \<open>Evidence produced for another commit is \<open>UNKNOWN\<close> whatever it reports.\<close>

lemma parse_artifact_state:
  assumes "parse_artifact env knd a src_sha expected_sha = Inr i"
    and "src_sha \<noteq> Some expected_sha"
  shows "state i = EvUNKNOWN"
  using assms
  by (auto simp: parse_artifact_def parse_junit_def parse_coverage_def parse_sarif_def result_simps Let_def
      split: if_splits option.splits prod.splits)

lemma parse_artifact_kind:
  assumes "parse_artifact env knd a src_sha expected_sha = Inr i"
    and "knd \<in> {''tests'', ''coverage'', ''security''}"
  shows "kind i = knd \<and> source_sha i = src_sha"
  using assms
  by (auto simp: parse_artifact_def parse_junit_def parse_coverage_def parse_sarif_def result_simps Let_def
      split: if_splits option.splits prod.splits)

lemma collect_kind_invariant:
  assumes "collect_kind env patterns src_sha expected_sha knd items = Inr items'"
    and "\<forall>i\<in>set items. P i"
    and "\<And>a i. parse_artifact env knd a src_sha expected_sha = Inr i \<Longrightarrow> P i"
  shows "\<forall>i\<in>set items'. P i"
proof -
  from assms(1) obtain arts where
    "rfold (\<lambda>a its. rbind (parse_artifact env knd a src_sha expected_sha) (\<lambda>i. Inr (its @ [i]))) arts items = Inr items'"
    by (auto simp: collect_kind_def result_simps)
  then show ?thesis
    by (rule rfold_invariant [where P = "\<lambda>its. \<forall>i\<in>set its. P i"])
      (use assms(2,3) in \<open>auto simp: result_simps\<close>)
qed

lemma collect_artifacts_invariant:
  assumes "collect_artifacts env patterns src_sha expected_sha build_status = Inr items"
    and "\<And>knd a i. knd \<in> {''tests'', ''coverage'', ''security''} \<Longrightarrow>
           parse_artifact env knd a src_sha expected_sha = Inr i \<Longrightarrow> P i"
    and "build_status \<noteq> ''unknown'' \<Longrightarrow> P (build_item src_sha expected_sha build_status)"
  shows "\<forall>i\<in>set items. P i"
proof -
  from assms(1) obtain its where
    its: "rfold (collect_kind env patterns src_sha expected_sha) [''tests'', ''coverage'', ''security''] [] = Inr its"
    and items: "set items = set (if build_status \<noteq> ''unknown''
           then its @ [build_item src_sha expected_sha build_status] else its)"
    unfolding collect_artifacts_def rbind_eq_Inr_iff by (metis Inr_inject set_sort)
  from its have "\<forall>i\<in>set its. P i"
  proof (rule rfold_invariant [where P = "\<lambda>its. \<forall>i\<in>set its. P i"])
    fix knd its its'
    assume knd: "knd \<in> set [''tests'', ''coverage'', ''security'']" and inv: "\<forall>i\<in>set its. P i"
      and col: "collect_kind env patterns src_sha expected_sha knd its = Inr its'"
    show "\<forall>i\<in>set its'. P i"
      by (rule collect_kind_invariant [OF col inv assms(2)]) (use knd in auto)
  qed simp
  with items assms(3) show ?thesis by auto
qed

lemma collect_artifacts_stale:
  assumes "collect_artifacts env patterns src_sha expected_sha build_status = Inr items"
    and "src_sha \<noteq> Some expected_sha"
  shows "\<forall>i\<in>set items. state i = EvUNKNOWN"
  using assms(1)
  by (rule collect_artifacts_invariant)
    (use assms(2) in \<open>auto simp: build_item_def dest: parse_artifact_state\<close>)

lemma collect_artifacts_kinds:
  assumes "collect_artifacts env patterns src_sha expected_sha build_status = Inr items"
  shows "\<forall>i\<in>set items. kind i \<in> set supported_evidence \<and> source_sha i = src_sha"
  using assms
  by (rule collect_artifacts_invariant)
    (auto simp: build_item_def supported_evidence_def Let_def split: prod.splits if_splits dest: parse_artifact_kind)

section \<open>Coverage lies between zero and one\<close>

lemma rate_of_unit:
  assumes "rate_of hit found = Inr r" and "0 \<le> hit" and "hit \<le> found"
  shows "0 \<le> r \<and> r \<le> 1"
proof (cases "found = 0")
  case True
  with assms show ?thesis by (simp add: rate_of_def)
next
  case False
  with assms have r: "r = fl (of_int hit / of_int found)" and "0 < found"
    by (auto simp: rate_of_def py_truediv_def Let_def split: if_splits)
  with assms show ?thesis
    unfolding r by (intro b64.rnd_unit) auto
qed

lemma count_hits_bounds: "count_hits lines = Inr n \<Longrightarrow> 0 \<le> n \<and> n \<le> int (length lines)"
proof -
  have "rfold (\<lambda>line n.
     case py_int (dict_get (xml_attrib line) ''hits'' ''0'') of
       None \<Rightarrow> Inl (ArtifactValueError InvalidInteger)
     | Some h \<Rightarrow> Inr (n + (if h > 0 then 1 else 0))) lines m = Inr n \<Longrightarrow> m \<le> n \<and> n \<le> m + int (length lines)" for m
  proof (induction lines arbitrary: m)
    case (Cons l ls)
    then show ?case by (fastforce simp: result_simps split: option.splits if_splits)
  qed simp
  from this [of 0] show "count_hits lines = Inr n \<Longrightarrow> 0 \<le> n \<and> n \<le> int (length lines)"
    by (simp add: count_hits_def)
qed

lemma coverage_rate_unit:
  assumes "coverage_rate xml_parser decode_replace a raw = Inr (r, ms)"
  shows "0 \<le> r \<and> r \<le> 1"
proof -
  have lcov: "lcov_rate t = Inr (r, ms) \<Longrightarrow> 0 \<le> r \<and> r \<le> 1" for t
    by (auto simp: lcov_rate_def result_simps intro: rate_of_unit [THEN conjunct1] rate_of_unit [THEN conjunct2]
        split: prod.splits if_splits)
  have "cobertura_rate e = Inr (r, ms) \<Longrightarrow> 0 \<le> r \<and> r \<le> 1" for e
    using count_hits_bounds
    by (fastforce simp: cobertura_rate_def result_simps Let_def dest: rate_of_unit
        split: option.splits pyfloat.splits if_splits)
  with lcov assms show ?thesis
    by (auto simp: coverage_rate_def result_simps split: if_splits)
qed

section \<open>SARIF findings are all counted\<close>

lemma level_severity_supported: "level_severity level \<in> set supported_severities"
  by (simp add: level_severity_def supported_severities_def)

lemma score_severity_supported:
  "(if x \<ge> 9 then ''critical'' else if x \<ge> 7 then ''high'' else if x \<ge> (4 :: rat) then ''medium'' else ''low'')
     \<in> set supported_severities"
  by (simp add: supported_severities_def)

lemma sarif_severity_supported:
  assumes "sarif_severity repr_other result rules = Inr sev"
  shows "sev \<in> set supported_severities"
proof -
  from assms obtain score where
    sev: "(case score of
           Some (Fin x) \<Rightarrow> Inr (if x \<ge> 9 then ''critical'' else if x \<ge> 7 then ''high''
                                else if x \<ge> 4 then ''medium'' else ''low'')
         | _ \<Rightarrow> Inr (level_severity (py_lower (py_str repr_other (dget_or result ''level'' (PStr ''warning'')))))) =
         (Inr sev :: exn + string)"
    unfolding sarif_severity_def Let_def rbind_eq_Inr_iff by blast
  show ?thesis
  proof (cases "\<exists>x. score = Some (Fin x)")
    case True
    with sev score_severity_supported show ?thesis by auto
  next
    case False
    with sev have "sev = level_severity (py_lower (py_str repr_other (dget_or result ''level'' (PStr ''warning''))))"
      by (auto split: option.splits pyfloat.splits)
    with level_severity_supported show ?thesis by simp
  qed
qed

lemma keys_bump: "sev \<in> fst ` set counts \<Longrightarrow> map fst (bump sev counts) = map fst counts"
  by (simp add: bump_def update_keys)

lemma total_bump:
  "distinct (map fst counts) \<Longrightarrow> sev \<in> fst ` set counts \<Longrightarrow> total_count (bump sev counts) = total_count counts + 1"
proof (induction counts)
  case (Cons c counts)
  show ?case
  proof (cases "fst c = sev")
    case True
    then show ?thesis by (cases c) (simp add: bump_def total_count_def dict_get_def)
  next
    case False
    with Cons have "total_count (bump sev counts) = total_count counts + 1" by auto
    with False show ?thesis
      by (cases c) (simp add: bump_def total_count_def dict_get_def)
  qed
qed simp

definition counts_ok :: "severity_counts \<Rightarrow> bool" where
  "counts_ok counts = (map fst counts = supported_severities \<and> list_all (\<lambda>kn. 0 \<le> snd kn) counts)"

lemma bump_ok:
  assumes "counts_ok counts" and "sev \<in> set supported_severities"
  shows "counts_ok (bump sev counts) \<and> total_count (bump sev counts) = total_count counts + 1"
proof -
  have keys: "sev \<in> fst ` set counts" and d: "distinct (map fst counts)"
    using assms by (auto simp: counts_ok_def supported_severities_def simp flip: set_map)
  have "set (bump sev counts) \<subseteq> insert (sev, dict_get counts sev 0 + 1) (set counts)"
    unfolding bump_def by (rule set_update_subset)
  moreover have "0 \<le> dict_get counts sev 0"
    using assms(1) by (force simp: counts_ok_def list_all_iff dict_get_def split: option.splits dest: map_of_SomeD)
  ultimately have "list_all (\<lambda>kn. 0 \<le> snd kn) (bump sev counts)"
    using assms(1) by (force simp: counts_ok_def list_all_iff)
  with assms(1) keys d show ?thesis by (simp add: counts_ok_def keys_bump total_bump)
qed

definition run_results :: "pyval \<Rightarrow> pyval list" where
  "run_results run = as_list (dget_or (as_dict run) ''results'' (PList []))"

lemma count_results_ok:
  assumes "rfold (count_result repr_other rules) results counts = Inr counts'" and "counts_ok counts"
  shows "counts_ok counts' \<and> total_count counts' = total_count counts + int (length (filter counted_result results))"
  using assms
proof (induction results arbitrary: counts)
  case (Cons r rs)
  then obtain c1 where c1: "count_result repr_other rules r counts = Inr c1"
      "rfold (count_result repr_other rules) rs c1 = Inr counts'"
    by (auto simp: result_simps)
  have "counts_ok c1 \<and> total_count c1 = total_count counts + (if counted_result r then 1 else 0)"
    using c1(1) Cons.prems(2) bump_ok sarif_severity_supported
    by (auto simp: count_result_def result_simps split: if_splits)
  with Cons.IH [OF c1(2)] show ?case by auto
qed simp

lemma count_run_ok:
  assumes "count_run repr_other run counts = Inr counts'" and "counts_ok counts"
  shows "counts_ok counts' \<and>
         total_count counts' = total_count counts + int (length (filter counted_result (run_results run)))"
proof -
  from assms(1) obtain rules where
    "rfold (count_result repr_other rules) (run_results run) counts = Inr counts'"
    by (auto simp: count_run_def run_results_def result_simps split: pyval.splits option.splits)
  from count_results_ok [OF this assms(2)] show ?thesis .
qed

lemma count_runs_ok:
  assumes "rfold (count_run repr_other) runs counts = Inr counts'" and "counts_ok counts"
  shows "counts_ok counts' \<and> total_count counts' = total_count counts +
           int (length (filter counted_result (concat (map run_results runs))))"
  using assms
proof (induction runs arbitrary: counts)
  case (Cons r rs)
  then obtain c1 where c1: "count_run repr_other r counts = Inr c1" "rfold (count_run repr_other) rs c1 = Inr counts'"
    by (auto simp: result_simps)
  with count_run_ok [OF c1(1) Cons.prems(2)] Cons.IH [OF c1(2)] show ?case by auto
qed simp

lemma sarif_counts_total:
  assumes "sarif_counts repr_other payload = Inr counts"
  shows "counts_ok counts \<and> total_count counts = int (length (filter counted_result
           (concat (map run_results (as_list (dget_or (as_dict payload) ''runs'' PNone))))))"
proof -
  have init: "counts_ok initial_counts" "total_count initial_counts = 0"
    by (simp_all add: counts_ok_def initial_counts_def supported_severities_def total_count_def)
  from assms obtain d runs where "payload = PDict d" "dget d ''runs'' = Some (PList runs)"
    "rfold (count_run repr_other) runs initial_counts = Inr counts"
    by (auto simp: sarif_counts_def split: pyval.splits option.splits if_splits)
  with count_runs_ok [OF this(3) init(1)] init(2) show ?thesis by (simp add: dget_or_def)
qed

section \<open>Selected files stay inside the repository\<close>

definition selection_ok :: "(string \<Rightarrow> fs_entry list) \<Rightarrow> string \<Rightarrow> (string, artifact) dict \<Rightarrow> bool" where
  "selection_ok iglob root_dir matches \<longleftrightarrow> distinct (map fst matches) \<and> length matches \<le> MAX_ARTIFACT_FILES \<and>
     (\<forall>(p, a)\<in>set matches. is_relative_to p root_dir \<and>
        (\<exists>pat. \<exists>e\<in>set (iglob pat). \<not> fe_symlink e \<and> fe_is_file e \<and> fe_resolved e = p \<and> fe_artifact e = a))"

lemma expand_entry_ok:
  assumes "expand_entry root_dir e matches = Inr matches'" and "selection_ok iglob root_dir matches"
    and "e \<in> set (iglob pat)"
  shows "selection_ok iglob root_dir matches'"
proof (cases "fe_symlink e \<or> \<not> fe_is_file e")
  case True
  with assms show ?thesis by (simp add: expand_entry_def)
next
  case False
  with assms(1) have m: "matches' = AList.update (fe_resolved e) (fe_artifact e) matches"
    and len: "length matches' \<le> MAX_ARTIFACT_FILES" and rel: "is_relative_to (fe_resolved e) root_dir"
    by (auto simp: expand_entry_def Let_def split: if_splits)
  have "set matches' \<subseteq> insert (fe_resolved e, fe_artifact e) (set matches)"
    unfolding m by (rule set_update_subset)
  then have mem: "(p, a) = (fe_resolved e, fe_artifact e) \<or> (p, a) \<in> set matches" if "(p, a) \<in> set matches'" for p a
    using that by blast
  have "distinct (map fst matches')"
    using assms(2) by (simp add: m selection_ok_def distinct_update)
  moreover have "is_relative_to p root_dir \<and>
        (\<exists>pat. \<exists>e\<in>set (iglob pat). \<not> fe_symlink e \<and> fe_is_file e \<and> fe_resolved e = p \<and> fe_artifact e = a)"
    if "(p, a) \<in> set matches'" for p a
    using mem [OF that] assms(2,3) rel False unfolding selection_ok_def by (elim disjE) auto
  ultimately show ?thesis using len by (auto simp: selection_ok_def)
qed

lemma expand_pattern_ok:
  assumes "expand_pattern iglob root_dir pat matches = Inr matches'" and "selection_ok iglob root_dir matches"
  shows "selection_ok iglob root_dir matches'"
proof (cases "pat = []")
  case True
  with assms show ?thesis by (simp add: expand_pattern_def)
next
  case False
  with assms(1) have "rfold (expand_entry root_dir) (iglob pat) matches = Inr matches'"
    by (simp add: expand_pattern_def)
  then show ?thesis
    using assms(2) expand_entry_ok by (rule rfold_invariant) auto
qed

lemma expand_artifact_patterns_ok:
  assumes "expand_artifact_patterns iglob root_dir patterns = Inr arts"
  shows "length arts \<le> MAX_ARTIFACT_FILES \<and>
    (\<forall>a\<in>set arts. \<exists>pat. \<exists>e\<in>set (iglob pat). \<not> fe_symlink e \<and> fe_is_file e \<and> fe_artifact e = a \<and>
       is_relative_to (fe_resolved e) root_dir)"
proof -
  from assms obtain matches where m: "rfold (expand_pattern iglob root_dir) patterns [] = Inr matches"
    and arts: "arts = map snd (sort_key fst matches)"
    by (auto simp: expand_artifact_patterns_def result_simps)
  have "selection_ok iglob root_dir []" by (simp add: selection_ok_def)
  with m have "selection_ok iglob root_dir matches"
    by (rule rfold_invariant) (auto intro: expand_pattern_ok)
  then have len: "length matches \<le> MAX_ARTIFACT_FILES"
    and mem: "(p, a) \<in> set matches \<Longrightarrow> is_relative_to p root_dir \<and>
        (\<exists>pat. \<exists>e\<in>set (iglob pat). \<not> fe_symlink e \<and> fe_is_file e \<and> fe_resolved e = p \<and> fe_artifact e = a)" for p a
    by (auto simp: selection_ok_def)
  have "a \<in> set arts \<Longrightarrow> \<exists>p. (p, a) \<in> set matches" for a
    by (auto simp: arts)
  with mem have "a \<in> set arts \<Longrightarrow> \<exists>pat. \<exists>e\<in>set (iglob pat). \<not> fe_symlink e \<and> fe_is_file e \<and> fe_artifact e = a \<and>
       is_relative_to (fe_resolved e) root_dir" for a
    by metis
  with len show ?thesis by (simp add: arts)
qed

section \<open>Properties of the evidence collection\<close>

text \<open>
  A coverage report that is accepted carries a line rate between 0 and 1, for LCOV totals, for a
  Cobertura attribute and for Cobertura lines alike, and coverage evidence is never FAIL by itself: only
  the policy's threshold turns it into a finding.
\<close>
theorem coverage_evidence_unit:
  assumes "parse_coverage xml_parser decode_replace digest a src_sha expected_sha = Inr i"
  shows "(\<exists>r. map_of (metrics i) ''line_rate'' = Some (PFloat (Fin r)) \<and> 0 \<le> r \<and> r \<le> 1) \<and> state i \<noteq> EvFAIL"
proof -
  from assms obtain raw rate ms where rate: "coverage_rate xml_parser decode_replace a raw = Inr (rate, ms)"
    and i: "metrics i = AList.update ''line_rate'' (PFloat (Fin (py_round 6 rate))) ms" "state i \<noteq> EvFAIL"
    by (auto simp: parse_coverage_def result_simps Let_def split: if_splits prod.splits)
  have "map_of (metrics i) ''line_rate'' = Some (PFloat (Fin (py_round 6 rate)))"
    by (simp add: i(1) update_conv')
  with i(2) py_round_unit [of rate 6] coverage_rate_unit [OF rate] show ?thesis by blast
qed

definition sample_artifact :: "string \<Rightarrow> artifact" where
  "sample_artifact raw = \<lparr> a_symlink = False, a_size = length raw, a_bytes = raw, a_suffix = ''.info'',
     a_relative = ''lcov.info'' \<rparr>"

definition sample_lcov :: string where
  "sample_lcov = ''LF:4'' @ [char_of (10 :: nat)] @ ''LH:3''"

lemma sample_coverage:
  "is_ok (parse_coverage (\<lambda>_. None) (\<lambda>s. s) (\<lambda>s. s) (sample_artifact sample_lcov) (Some ''a'') ''a'')"
proof -
  have "rfold lcov_line (splitlines sample_lcov) (0, 0) = Inr (4, 3)"
    by (simp add: sample_lcov_def splitlines_def is_linebreak_def nat_of_char_def lcov_line_def py_int_def
        py_strip_def strip_by_def is_space_def valid_digits_def is_digit_def)
  then have "lcov_rate sample_lcov = Inr (fl (3 / 4), [(''lines_found'', PInt 4), (''lines_hit'', PInt 3)])"
    by (simp add: lcov_rate_def rate_of_def py_truediv_def)
  then show ?thesis
    by (simp add: parse_coverage_def artifact_bytes_def sample_artifact_def MAX_ARTIFACT_BYTES_def coverage_rate_def
        sample_lcov_def py_lower_def lower_char_def nat_of_char_def)
qed

theorem coverage_evidence_unit_witness:
  "\<exists>i. parse_coverage (\<lambda>_. None) (\<lambda>s. s) (\<lambda>s. s) (sample_artifact sample_lcov) (Some ''a'') ''a'' = Inr i \<and>
     (\<exists>r. map_of (metrics i) ''line_rate'' = Some (PFloat (Fin r)) \<and> 0 \<le> r \<and> r \<le> 1)"
  using sample_coverage coverage_evidence_unit unfolding is_ok_iff by blast

text \<open>
  The severity counts of a SARIF log account for every finding: the keys are the five severities, the
  counts are not negative, and their sum is the number of results that are objects and not suppressed,
  over all runs.
\<close>
theorem sarif_counts_complete:
  assumes "sarif_counts repr_other payload = Inr counts"
  shows "counts_ok counts \<and> total_count counts = int (length (filter counted_result
           (concat (map run_results (as_list (dget_or (as_dict payload) ''runs'' PNone))))))"
  using assms by (rule sarif_counts_total)

definition sample_sarif :: pyval where
  "sample_sarif = PDict [(PStr ''version'', PStr ''2.1.0''), (PStr ''runs'', PList [PDict
     [(PStr ''tool'', PDict [(PStr ''driver'', PDict [])]),
      (PStr ''results'', PList [PDict [(PStr ''level'', PStr ''error'')],
         PDict [(PStr ''suppressions'', PList [PDict []])]])]])]"

lemma sample_sarif_counts:
  "sarif_counts (\<lambda>_. []) sample_sarif = Inr [(''critical'', 0), (''high'', 1), (''medium'', 0), (''low'', 0), (''note'', 0)]"
  by code_simp

theorem sarif_counts_complete_witness:
  "total_count [(''critical'', 0), (''high'', 1), (''medium'', 0), (''low'', 0), (''note'', 0)] =
     int (length (filter counted_result
       (concat (map run_results (as_list (dget_or (as_dict sample_sarif) ''runs'' PNone))))))"
  using sarif_counts_complete [OF sample_sarif_counts] by blast

text \<open>
  C17. Artifact selection stays inside the repository: it returns at most 100 files, each a regular file
  that is not a symbolic link and whose resolved path lies below the repository root.
\<close>
theorem artifact_selection_confined:
  assumes "expand_artifact_patterns iglob root_dir patterns = Inr arts"
  shows "length arts \<le> MAX_ARTIFACT_FILES \<and>
    (\<forall>a\<in>set arts. \<exists>pat. \<exists>e\<in>set (iglob pat). \<not> fe_symlink e \<and> fe_is_file e \<and> fe_artifact e = a \<and>
       is_relative_to (fe_resolved e) root_dir)"
  using assms by (rule expand_artifact_patterns_ok)

definition sample_glob :: "string \<Rightarrow> fs_entry list" where
  "sample_glob pat = [\<lparr> fe_symlink = False, fe_is_file = True, fe_resolved = ''/repo/lcov.info'',
     fe_artifact = sample_artifact sample_lcov \<rparr>]"

lemma sample_selection: "expand_artifact_patterns sample_glob ''/repo'' [''*.info''] = Inr [sample_artifact sample_lcov]"
  by code_simp

theorem artifact_selection_confined_witness:
  "\<exists>pat. \<exists>e\<in>set (sample_glob pat). fe_artifact e = sample_artifact sample_lcov \<and> is_relative_to (fe_resolved e) ''/repo''"
  using artifact_selection_confined [OF sample_selection] by auto

end
