(* ===== verification/VerifyCli.thy ===== *)
theory VerifyCli
  imports VerifyEvidence
begin

text \<open>
  \<open>verify/deployguard_verify/git_change.py\<close> and \<open>cli.py\<close>: reading a change and the protected policy
  through Git, and the \<open>verify\<close> and \<open>init\<close> commands with their exit codes.

  Git is a parameter: a function from an argument list to the finished process, or to the exception
  \<open>subprocess.run\<close> raises. Writes are effects that may fail with \<open>OSError\<close>; an exception that \<open>main\<close> does
  not catch ends the interpreter with status 1.
\<close>

section \<open>Git\<close>

record process =
  returncode :: int
  stdout :: string
  stderr :: string

type_synonym git = "string list \<Rightarrow> exn + process"

definition ZERO_SHA :: string where
  "ZERO_SHA = replicate 40 CHR ''0''"

definition str_or :: "string \<Rightarrow> string \<Rightarrow> string" where
  "str_or s t = (if s \<noteq> [] then s else t)"

definition run_git :: "git \<Rightarrow> string list \<Rightarrow> bool \<Rightarrow> exn + string option" where
  "run_git git args allow_failure =
     rbind (git args) (\<lambda>completed.
     if returncode completed \<noteq> 0 then
       (if allow_failure then Inr None
        else Inl (GitError (''git '' @ join_with '' '' args @ '' failed: '' @
               str_or (py_strip (stderr completed))
                 (str_or (py_strip (stdout completed)) ''unknown git error''))))
     else Inr (Some (stdout completed)))"

definition resolve_commit :: "git \<Rightarrow> string \<Rightarrow> exn + string" where
  "resolve_commit git revision =
     (if revision = [] \<or> revision = ZERO_SHA
      then Inl (GitError ''a non-zero base and head revision are required'')
      else rbind (run_git git [''rev-parse'', ''--verify'', revision @ ''^{commit}''] False) (\<lambda>resolved.
        Inr (py_lower (py_strip (case resolved of None \<Rightarrow> [] | Some r \<Rightarrow> r)))))"

definition removesuffix :: "string \<Rightarrow> string \<Rightarrow> string" where
  "removesuffix s suf = (if suf \<noteq> [] \<and> py_endswith s suf then take (length s - length suf) s else s)"

definition owner_repo :: "string \<Rightarrow> bool" where
  "owner_repo s = (case py_split CHR ''/'' s of [a, b] \<Rightarrow> a \<noteq> [] \<and> b \<noteq> [] | _ \<Rightarrow> False)"

text \<open>\<open>re.search(r"github\.com[:/]([^/]+/[^/]+)$", value)\<close>, group 1.\<close>

fun github_search :: "string \<Rightarrow> string option" where
  "github_search [] = None"
| "github_search (c # cs) =
     (let rest = drop 11 (c # cs) in
      if (py_startswith (c # cs) ''github.com:'' \<or> py_startswith (c # cs) ''github.com/'') \<and> owner_repo rest
      then Some rest else github_search cs)"

definition repository_name :: "git \<Rightarrow> string \<Rightarrow> string option \<Rightarrow> exn + string" where
  "repository_name git root_name explicit =
     (if explicit \<noteq> None \<and> explicit \<noteq> Some [] then Inr (the explicit)
      else rbind (run_git git [''config'', ''--get'', ''remote.origin.url''] True) (\<lambda>remote.
        case remote of
          None \<Rightarrow> Inr root_name
        | Some r \<Rightarrow>
            if r = [] then Inr root_name
            else let val = removesuffix (py_strip r) ''.git'' in
              (case github_search val of
                 Some m \<Rightarrow> Inr m
               | None \<Rightarrow>
                   (let parts = py_split CHR ''/'' val in
                    if length parts < 2 then Inl IndexError
                    else Inr (parts ! (length parts - 2) @ ''/'' @ last parts)))))"

definition change_flags :: "string list \<Rightarrow> string list" where
  "change_flags pths =
     (let lowered = map py_lower pths;
          flag = (\<lambda>b f. if b then [f] else [])
      in sort (flag (pths \<noteq> [] \<and> list_all (\<lambda>p. list_ex (py_endswith p) [''.md'', ''.mdx'', ''.rst'', ''.txt''] \<or>
                       py_startswith p ''docs/'') lowered) ''docs-only''
       @ flag (list_ex (\<lambda>p. py_contains (CHR ''/'' # p) ''/migrations/'' \<or> py_endswith p ''.sql'') lowered)
           ''database-migration''
       @ flag (list_ex (\<lambda>p. py_contains (CHR ''/'' # p) ''/auth/'' \<or> py_contains p ''security'') lowered)
           ''auth-or-security-change''
       @ flag (list_ex (\<lambda>p. py_startswith p ''.github/workflows/'') lowered) ''ci-workflow-change''
       @ flag (list_ex (\<lambda>p. list_ex (py_endswith p) [''dockerfile'', ''.yml'', ''.yaml'', ''.toml'', ''.json'']) lowered)
           ''configuration-change''
       @ flag (list_ex (\<lambda>p. list_ex (py_endswith p)
                 [''requirements.txt'', ''requirements-prod.txt'', ''pyproject.toml'', ''package.json'',
                  ''package-lock.json'', ''.csproj'']) lowered) ''dependency-change''))"

text \<open>One line of \<open>git diff --numstat\<close>: counts that are not numbers (binary files) are skipped.\<close>

definition add_count :: "string \<Rightarrow> int \<Rightarrow> exn + int" where
  "add_count field n = (if py_isdigit field
     then (case py_int field of Some k \<Rightarrow> Inr (n + k) | None \<Rightarrow> Inl (ArtifactValueError InvalidInteger))
     else Inr n)"

definition numstat_line :: "string \<Rightarrow> int \<times> int \<Rightarrow> exn + int \<times> int" where
  "numstat_line line acc = (case acc of (added, deleted) \<Rightarrow>
     let fields = py_split (char_of (9 :: nat)) line in
     if length fields < 2 then Inr acc
     else rbind (add_count (fields ! 0) added) (\<lambda>a.
          rbind (add_count (fields ! 1) deleted) (\<lambda>d. Inr (a, d))))"

definition some_or_empty :: "string option \<Rightarrow> string" where
  "some_or_empty s = (case s of None \<Rightarrow> [] | Some t \<Rightarrow> t)"

definition collect_git_change ::
  "git \<Rightarrow> string \<Rightarrow> string \<Rightarrow> string \<Rightarrow> string option \<Rightarrow> exn + git_change" where
  "collect_git_change git root_name base_revision head_revision repo =
     rbind (run_git git [''rev-parse'', ''--is-inside-work-tree''] False) (\<lambda>inside.
     if py_strip (some_or_empty inside) \<noteq> ''true'' then Inl (GitError (root_name @ '' is not a Git work tree''))
     else
     rbind (resolve_commit git base_revision) (\<lambda>base.
     rbind (resolve_commit git head_revision) (\<lambda>head.
     rbind (run_git git [''merge-base'', base, head] False) (\<lambda>merge_base.
     if some_or_empty merge_base = [] then Inl (GitError ''base and head do not share a merge base'')
     else let mb = py_lower (py_strip (some_or_empty merge_base)) in
     rbind (run_git git [''diff'', ''--name-only'', ''-z'', mb, head] False) (\<lambda>raw_paths.
     let pths = sort (map (py_replace_char (char_of (92 :: nat)) ''/'')
                  (filter (\<lambda>p. p \<noteq> []) (py_split (char_of (0 :: nat)) (some_or_empty raw_paths)))) in
     rbind (run_git git [''diff'', ''--numstat'', mb, head] False) (\<lambda>raw_numstat.
     rbind (rfold numstat_line (splitlines (some_or_empty raw_numstat)) (0, 0)) (\<lambda>(added, deleted).
     rbind (run_git git [''show'', ''-s'', ''--format=%cI'', head] False) (\<lambda>generated.
     if some_or_empty generated = [] then Inl (GitError ''head commit does not have a commit timestamp'')
     else
     rbind (repository_name git root_name repo) (\<lambda>name.
     Inr \<lparr> repository = name, base_sha = base, head_sha = head, merge_base_sha = mb,
           generated_at = py_strip (some_or_empty generated), paths = pths,
           files_changed = int (length pths), lines_added = added, lines_deleted = deleted,
           flags = change_flags pths \<rparr>)))))))))"

text \<open>\<open>Path(p).as_posix().lstrip("/")\<close>: empty and \<open>.\<close> components vanish.\<close>

definition normalized_path :: "string \<Rightarrow> string" where
  "normalized_path p = (let parts = filter (\<lambda>w. w \<noteq> [] \<and> w \<noteq> ''.'') (py_split CHR ''/'' p) in
     if parts = [] then (if py_startswith p ''/'' then [] else ''.'') else join_with ''/'' parts)"

text \<open>What loading a policy takes from outside: the UTF-8 decoder, PyYAML, float notation, SHA-256.\<close>

record codecs =
  k_decode :: "string \<Rightarrow> string option"
  k_yaml :: "string \<Rightarrow> exn + pyval"
  k_repr :: "rat \<Rightarrow> string"
  k_digest :: "string \<Rightarrow> string"

definition load_policy_from_base :: "codecs \<Rightarrow> git \<Rightarrow> string \<Rightarrow> string \<Rightarrow> exn + loaded_policy option" where
  "load_policy_from_base k git base policy_path =
     (let normalized = normalized_path policy_path in
      if py_startswith normalized ''../'' \<or> py_contains normalized ''/../''
      then Inl (PolicyValueError PolicyPathEscapes)
      else rbind (git [''show'', base @ '':'' @ normalized]) (\<lambda>raw.
        if returncode raw \<noteq> 0 then Inr None
        else rbind (parse_policy (k_decode k) (k_yaml k) (k_repr k) (k_digest k) (stdout raw)
               (''git:'' @ base @ '':'' @ normalized)) (\<lambda>p. Inr (Some p))))"

text \<open>\<open>load_working_tree_policy\<close>: the candidate file, its resolved path and its bytes.\<close>

record policy_file =
  pf_symlink :: bool
  pf_resolved :: "string option" \<comment> \<open>\<open>resolve(strict=True)\<close>; \<open>None\<close> raises \<open>OSError\<close>\<close>
  pf_bytes :: "string option" \<comment> \<open>\<open>read_bytes()\<close>; \<open>None\<close> raises \<open>OSError\<close>\<close>

definition load_working_tree_policy :: "codecs \<Rightarrow> string \<Rightarrow> policy_file \<Rightarrow> string \<Rightarrow> exn + loaded_policy" where
  "load_working_tree_policy k root_dir f policy_path =
     (if pf_symlink f then Inl (PolicyValueError PolicyPathSymlink)
      else case pf_resolved f of
        None \<Rightarrow> Inl OSError
      | Some candidate \<Rightarrow>
          if \<not> is_relative_to candidate root_dir then Inl (PolicyValueError PolicyPathEscapes)
          else (case pf_bytes f of
            None \<Rightarrow> Inl OSError
          | Some raw \<Rightarrow>
              parse_policy (k_decode k) (k_yaml k) (k_repr k) (k_digest k) raw (''working-tree:'' @ policy_path)))"

section \<open>The verify command\<close>

fun exit_code :: "decision \<Rightarrow> int" where
  "exit_code PASS = 0"
| "exit_code REVIEW = 2"
| "exit_code BLOCK = 3"
| "exit_code ERROR = 4"

record verify_args =
  arg_repository :: "string option"
  arg_base :: string
  arg_head :: string
  arg_evidence_sha :: "string option"
  arg_policy :: string
  arg_policy_source :: string
  arg_junit :: "string list"
  arg_coverage :: "string list"
  arg_sarif :: "string list"
  arg_build_status :: string
  arg_json :: bool
  arg_github_summary :: "string option"
  arg_github_output :: "string option"

datatype effect = WriteJson string pydict | AppendText string string | Print string

text \<open>The world around one invocation.\<close>

record world =
  w_git :: git
  w_codecs :: codecs
  w_env :: collaborators
  w_root_dir :: string \<comment> \<open>the resolved repository root\<close>
  w_root_name :: string
  w_policy_file :: policy_file
  w_env_sha :: "string option" \<comment> \<open>\<open>DEPLOYGUARD_EVIDENCE_SHA\<close>\<close>
  w_output :: string \<comment> \<open>the resolved receipt path\<close>
  w_relative_output :: string
  w_io_ok :: "effect \<Rightarrow> bool"
  w_dumps :: "pydict \<Rightarrow> string" \<comment> \<open>\<open>json.dumps(..., sort_keys=True)\<close> for printing\<close>

definition upper_ascii :: "string \<Rightarrow> string" where
  "upper_ascii s = map upper_byte s"

definition em_dash :: string where
  "em_dash = map char_of [226 :: nat, 128, 148]" \<comment> \<open>the UTF-8 bytes of U+2014\<close>

definition newline :: string where
  "newline = [char_of (10 :: nat)]"

definition backquoted :: "string \<Rightarrow> string" where
  "backquoted s = ''`'' @ s @ ''`''"

definition receipt_field :: "pydict \<Rightarrow> string \<Rightarrow> pyval" where
  "receipt_field d k = dget_or d k PNone"

definition markdown_summary :: "verification_result \<Rightarrow> string" where
  "markdown_summary result =
     (let rcpt = receipt result;
          evidence = map as_dict (as_list (receipt_field rcpt ''evidence''));
          head = as_str (receipt_field (as_dict (receipt_field rcpt ''repository'')) ''head_sha'');
          lines =
            [''## DeployGuard Evidence Receipt'', [],
             ''**Decision:** '' @ backquoted (upper_ascii (decision_value (decision result))) @ ''  '',
             ''**Head:** '' @ backquoted head @ ''  '',
             ''**Receipt:** '' @ backquoted (as_str (receipt_field rcpt ''receipt_sha256'')),
             [], ''### Reasons'', []]
            @ map (\<lambda>(code, rsn). ''- '' @ backquoted code @ '' '' @ em_dash @ '' '' @ rsn)
                (zip (reason_codes result) (reasons result))
            @ [[], ''### Evidence'', []]
            @ (if evidence \<noteq> []
               then map (\<lambda>i. ''- '' @ backquoted (as_str (receipt_field i ''kind'')) @ '' / '' @
                          backquoted (upper_ascii (as_str (receipt_field i ''state''))) @ '' '' @ em_dash @ '' '' @
                          as_str (receipt_field i ''summary'')) evidence
               else [''- No evidence artifacts were supplied.''])
            @ [[]]
      in join_with newline lines)"

definition hex_char :: "char \<Rightarrow> bool" where
  "hex_char c = (is_digit c \<or> (97 \<le> nat_of_char c \<and> nat_of_char c \<le> 102))"

text \<open>\<open>re.fullmatch(r"[0-9a-f]{40,64}", sha)\<close>.\<close>

definition valid_sha :: "string \<Rightarrow> bool" where
  "valid_sha s = (40 \<le> length s \<and> length s \<le> 64 \<and> list_all hex_char s)"

definition select_policy :: "world \<Rightarrow> verify_args \<Rightarrow> git_change \<Rightarrow> exn + loaded_policy" where
  "select_policy w args change =
     (let k = w_codecs w in
      if arg_policy_source args = ''base'' then
        rbind (load_policy_from_base k (w_git w) (base_sha change) (arg_policy args)) (\<lambda>p.
        case p of Some policy \<Rightarrow> Inr policy | None \<Rightarrow> builtin_policy (k_repr k) (k_digest k))
      else if arg_policy_source args = ''working-tree'' then
        load_working_tree_policy k (w_root_dir w) (w_policy_file w) (arg_policy args)
      else builtin_policy (k_repr k) (k_digest k))"

text \<open>\<open>args.evidence_sha or os.environ.get(...)\<close>, lowered, else the head of the change.\<close>

definition evidence_sha :: "world \<Rightarrow> verify_args \<Rightarrow> git_change \<Rightarrow> string" where
  "evidence_sha w args change =
     (let given = str_or (some_or_empty (arg_evidence_sha args)) (some_or_empty (w_env_sha w)) in
      if given \<noteq> [] then py_lower given else head_sha change)"

definition perform :: "world \<Rightarrow> effect \<Rightarrow> effect list \<Rightarrow> exn + effect list" where
  "perform w e done_effects = (if w_io_ok w e then Inr (done_effects @ [e]) else Inl OSError)"

definition opt_effect :: "string option \<Rightarrow> (string \<Rightarrow> effect) \<Rightarrow> effect list" where
  "opt_effect p f = (case p of None \<Rightarrow> [] | Some t \<Rightarrow> if t = [] then [] else [f t])"

definition verify_effects :: "world \<Rightarrow> verify_args \<Rightarrow> verification_result \<Rightarrow> effect list" where
  "verify_effects w args result =
     (let smry = markdown_summary result in
      [WriteJson (w_output w) (receipt result)]
      @ opt_effect (arg_github_summary args) (\<lambda>p. AppendText p smry)
      @ opt_effect (arg_github_output args) (\<lambda>p. AppendText p (join_with newline
          [''decision='' @ decision_value (decision result),
           ''receipt_sha256='' @ as_str (receipt_field (receipt result) ''receipt_sha256''),
           ''receipt_path='' @ w_relative_output w, []]))
      @ (if arg_json args then [Print (w_dumps w (receipt result))]
         else [Print smry, Print (''Receipt written to '' @ w_relative_output w)]))"

definition verification :: "world \<Rightarrow> verify_args \<Rightarrow> exn + verification_result" where
  "verification w args =
     rbind (collect_git_change (w_git w) (w_root_name w) (arg_base args) (arg_head args) (arg_repository args)) (\<lambda>change.
     rbind (select_policy w args change) (\<lambda>policy.
     let sha = evidence_sha w args change in
     if \<not> valid_sha sha then Inl (ArtifactValueError BadEvidenceSha)
     else
     rbind (collect_artifacts (w_env w)
              [(''tests'', arg_junit args), (''coverage'', arg_coverage args), (''security'', arg_sarif args)]
              (Some sha) (head_sha change) (arg_build_status args)) (\<lambda>evidence.
     verify_change (k_repr (w_codecs w)) (k_digest (w_codecs w)) change policy evidence)))"

definition verify_command :: "world \<Rightarrow> verify_args \<Rightarrow> exn + int \<times> effect list" where
  "verify_command w args =
     rbind (verification w args) (\<lambda>result.
     if \<not> is_relative_to (w_output w) (w_root_dir w) then Inl (ArtifactValueError OutputEscapes)
     else rbind (rfold (perform w) (verify_effects w args result) []) (\<lambda>effs.
       Inr (exit_code (decision result), effs)))"

text \<open>\<open>main\<close>: a caught exception is ERROR; one that is not caught ends the process with status 1.\<close>

datatype outcome = Exit int | Traceback exn

definition main :: "exn + int \<times> effect list \<Rightarrow> outcome" where
  "main handler_result = (case handler_result of
     Inr (code, _) \<Rightarrow> Exit code
   | Inl e \<Rightarrow> if caught_by_main e then Exit (exit_code ERROR) else Traceback e)"

fun process_status :: "outcome \<Rightarrow> int" where
  "process_status (Exit n) = n"
| "process_status (Traceback e) = 1"

section \<open>The init command\<close>

text \<open>Files by path below the root; \<open>unsafe\<close> tells the targets that are links or escape the root.\<close>

type_synonym files = "string \<rightharpoonup> string"

definition safe_init_target :: "(string \<Rightarrow> artifact_issue option) \<Rightarrow> string \<Rightarrow> exn + string" where
  "safe_init_target unsafe p = (case unsafe p of None \<Rightarrow> Inr p | Some i \<Rightarrow> Inl (ArtifactValueError i))"

definition create_file :: "string \<Rightarrow> string \<Rightarrow> bool \<Rightarrow> files \<Rightarrow> string \<times> files" where
  "create_file p content force fs =
     (if fs p \<noteq> None \<and> \<not> force then (''kept existing '' @ p, fs)
      else (''created '' @ p, fs(p \<mapsto> content)))"

definition START_MARK :: string where
  "START_MARK = ''<!-- deployguard:start -->''"

record init_args =
  init_github :: bool
  init_codex :: bool
  init_force :: bool

record templates =
  t_policy :: string
  t_workflow :: string
  t_agents :: string

definition add_agents_guidance :: "string \<Rightarrow> files \<Rightarrow> string \<times> files" where
  "add_agents_guidance snippet fs =
     (let existing = some_or_empty (fs ''AGENTS.md'') in
      if \<not> py_contains existing START_MARK then
        (let sep = (if existing \<noteq> [] \<and> \<not> py_endswith existing (newline @ newline) then newline else [])
         in (''added DeployGuard guidance to AGENTS.md'', fs(''AGENTS.md'' \<mapsto> existing @ sep @ snippet)))
      else (''kept existing DeployGuard guidance in AGENTS.md'', fs))"

definition DEFAULT_POLICY_PATH :: string where
  "DEFAULT_POLICY_PATH = ''.deployguard/policy.yml''"

definition WORKFLOW_PATH :: string where
  "WORKFLOW_PATH = ''.github/workflows/deployguard.yml''"

definition init_command ::
  "(string \<Rightarrow> artifact_issue option) \<Rightarrow> templates \<Rightarrow> init_args \<Rightarrow> files \<Rightarrow> exn + string list \<times> files" where
  "init_command unsafe t args fs =
     rbind (safe_init_target unsafe DEFAULT_POLICY_PATH) (\<lambda>p.
     let (m1, fs1) = create_file p (t_policy t) (init_force args) fs in
     rbind (if init_github args
            then rbind (safe_init_target unsafe WORKFLOW_PATH) (\<lambda>q.
                 let (m2, fs2) = create_file q (t_workflow t) (init_force args) fs1 in Inr ([m1, m2], fs2))
            else Inr ([m1], fs1)) (\<lambda>(ms, fs2).
     if init_codex args
     then rbind (safe_init_target unsafe ''AGENTS.md'') (\<lambda>_.
          let (m3, fs3) = add_agents_guidance (t_agents t) fs2 in Inr (ms @ [m3], fs3))
     else Inr (ms, fs2)))"

section \<open>The gate fails closed\<close>

text \<open>What one invocation collects before it decides.\<close>

definition collected :: "world \<Rightarrow> verify_args \<Rightarrow> git_change \<Rightarrow> loaded_policy \<Rightarrow> evidence_item list \<Rightarrow> bool" where
  "collected w args change policy evidence \<longleftrightarrow>
     collect_git_change (w_git w) (w_root_name w) (arg_base args) (arg_head args) (arg_repository args) = Inr change \<and>
     select_policy w args change = Inr policy \<and>
     valid_sha (evidence_sha w args change) \<and>
     collect_artifacts (w_env w)
       [(''tests'', arg_junit args), (''coverage'', arg_coverage args), (''security'', arg_sarif args)]
       (Some (evidence_sha w args change)) (head_sha change) (arg_build_status args) = Inr evidence"

lemma verification_eq_Inr_iff:
  "verification w args = Inr r \<longleftrightarrow>
     (\<exists>change policy evidence. collected w args change policy evidence \<and>
        verify_change (k_repr (w_codecs w)) (k_digest (w_codecs w)) change policy evidence = Inr r)"
  by (auto simp: verification_def collected_def result_simps Let_def)

lemma verify_change_decision:
  assumes "verify_change repr_float digest change policy evidence = Inr r"
  shows "decision r = fst (evaluate_decision change policy evidence)"
proof -
  have "decision r = fst (evaluate_decision change policy (sort_key evidence_key evidence))"
    using assms by (auto simp: verify_change_def result_simps Let_def split: prod.splits)
  then show ?thesis
    using decision_set_cong [of "sort_key evidence_key evidence" evidence] by simp
qed

lemma perform_all:
  "rfold (perform w) effs acc = (if list_all (w_io_ok w) effs then Inr (acc @ effs) else Inl OSError)"
  by (induction effs arbitrary: acc) (auto simp: perform_def)

lemma exit_code_inject [simp]: "exit_code d = exit_code d' \<longleftrightarrow> d = d'"
  by (cases d; cases d') auto

lemma exit_code_0_iff: "exit_code d = 0 \<longleftrightarrow> d = PASS"
  by (cases d) auto

text \<open>The normal returns of the command: the receipt was produced and every write succeeded.\<close>

definition delivered :: "world \<Rightarrow> verify_args \<Rightarrow> verification_result \<Rightarrow> bool" where
  "delivered w args r \<longleftrightarrow> verification w args = Inr r \<and> is_relative_to (w_output w) (w_root_dir w) \<and>
     list_all (w_io_ok w) (verify_effects w args r)"

lemma verify_command_eq_Inr_iff:
  "verify_command w args = Inr (n, effs) \<longleftrightarrow>
     (\<exists>r. delivered w args r \<and> n = exit_code (decision r) \<and> effs = verify_effects w args r)"
  by (auto simp: verify_command_def delivered_def result_simps perform_all split: if_splits)

lemma decision_not_error: "verification w args = Inr r \<Longrightarrow> decision r \<noteq> ERROR"
  by (auto simp: verification_eq_Inr_iff verify_change_decision fst_evaluate_decision split: if_splits)

lemma status_of_decision:
  assumes "d \<in> {PASS, REVIEW, BLOCK}"
  shows "process_status (main (verify_command w args)) = exit_code d \<longleftrightarrow>
     (\<exists>r. delivered w args r \<and> decision r = d)"
proof (cases "verify_command w args")
  case (Inl e)
  then have "\<not> delivered w args r" for r
    using verify_command_eq_Inr_iff [of w args] by auto
  moreover have "process_status (main (verify_command w args)) \<in> {1, 4}"
    using Inl by (simp add: main_def)
  ultimately show ?thesis using assms by auto
next
  case (Inr p)
  then obtain n effs where p: "verify_command w args = Inr (n, effs)" by (cases p) auto
  then obtain r where r: "delivered w args r" "n = exit_code (decision r)"
    using verify_command_eq_Inr_iff by blast
  have "r' = r" if "delivered w args r'" for r'
    using that r(1) by (simp add: delivered_def)
  then have "(\<exists>r. delivered w args r \<and> decision r = d) \<longleftrightarrow> decision r = d"
    using r(1) by blast
  moreover have "process_status (main (verify_command w args)) = exit_code (decision r)"
    using p r(2) by (simp add: main_def)
  ultimately show ?thesis by simp
qed

lemma collected_unique:
  "collected w args c p e \<Longrightarrow> collected w args c' p' e' \<Longrightarrow> c = c' \<and> p = p' \<and> e = e'"
  by (auto simp: collected_def)

lemma delivered_decision:
  assumes "delivered w args r" and "collected w args change policy evidence"
  shows "decision r = fst (evaluate_decision change policy evidence)"
proof -
  from assms(1) obtain c p e where cpe: "collected w args c p e"
    "verify_change (k_repr (w_codecs w)) (k_digest (w_codecs w)) c p e = Inr r"
    by (auto simp: delivered_def verification_eq_Inr_iff)
  with collected_unique [OF cpe(1) assms(2)] verify_change_decision show ?thesis by blast
qed

lemma delivered_collected: "delivered w args r \<Longrightarrow> \<exists>change policy evidence. collected w args change policy evidence"
  by (auto simp: delivered_def verification_eq_Inr_iff)

lemma stale_has_state:
  assumes "collected w args change policy evidence" and "evidence_sha w args change \<noteq> head_sha change"
  shows "has_state evidence knd st \<Longrightarrow> st = EvUNKNOWN"
proof -
  have "\<forall>i\<in>set evidence. state i = EvUNKNOWN"
    using assms by (intro collect_artifacts_stale) (auto simp: collected_def)
  then show "has_state evidence knd st \<Longrightarrow> st = EvUNKNOWN" by (auto simp: has_state_def)
qed

lemma stale_not_violated:
  assumes "collected w args change policy evidence" and "evidence_sha w args change \<noteq> head_sha change"
  shows "\<not> policy_violated change policy evidence"
proof -
  note st = stale_has_state [OF assms]
  have "state i = EvUNKNOWN" if "i \<in> set evidence" for i
    using that st [of "kind i" "state i"] by (auto simp: has_state_def)
  then have "\<not> coverage_below policy evidence" "\<not> severity_blocked policy evidence"
    by (auto simp: coverage_below_def severity_blocked_def)
  moreover have "\<not> has_state evidence knd EvFAIL" for knd
    using st [of knd EvFAIL] by auto
  ultimately show ?thesis by (simp add: policy_violated_def)
qed

section \<open>The init command\<close>

lemma create_file_again:
  "create_file p c force fs = (m, fs') \<Longrightarrow> \<exists>m'. create_file p c force fs' = (m', fs')"
  by (auto simp: create_file_def split: if_splits)

lemma create_file_other: "create_file p c force fs = (m, fs') \<Longrightarrow> q \<noteq> p \<Longrightarrow> fs' q = fs q"
  by (auto simp: create_file_def split: if_splits)

lemma create_file_target: "create_file p c force fs = (m, fs') \<Longrightarrow>
    fs' p = (if fs p \<noteq> None \<and> \<not> force then fs p else Some c)"
  by (auto simp: create_file_def split: if_splits)

lemma create_file_stable: "fs p = (if fs p \<noteq> None \<and> \<not> force then fs p else Some c) \<Longrightarrow>
    snd (create_file p c force fs) = fs"
  by (auto simp: create_file_def fun_upd_idem split: if_splits)

lemma init_paths_distinct:
  "DEFAULT_POLICY_PATH \<noteq> WORKFLOW_PATH" "DEFAULT_POLICY_PATH \<noteq> ''AGENTS.md''" "WORKFLOW_PATH \<noteq> ''AGENTS.md''"
  by (simp_all add: DEFAULT_POLICY_PATH_def WORKFLOW_PATH_def)

lemma py_contains_append: "py_contains s p \<Longrightarrow> py_contains (t @ s) p"
  by (metis append_assoc py_contains_iff)

lemma agents_guidance_marked:
  assumes "py_contains snippet START_MARK" and "add_agents_guidance snippet fs = (m, fs')"
  shows "py_contains (some_or_empty (fs' ''AGENTS.md'')) START_MARK"
proof (cases "py_contains (some_or_empty (fs ''AGENTS.md'')) START_MARK")
  case True
  with assms(2) show ?thesis by (simp add: add_agents_guidance_def Let_def)
next
  case False
  with assms show ?thesis
    by (auto simp: add_agents_guidance_def Let_def some_or_empty_def [of "Some _"] simp flip: append_assoc
        intro: py_contains_append)
qed

lemma agents_guidance_other: "add_agents_guidance snippet fs = (m, fs') \<Longrightarrow> q \<noteq> ''AGENTS.md'' \<Longrightarrow> fs' q = fs q"
  by (auto simp: add_agents_guidance_def Let_def split: if_splits)

text \<open>The files after a successful run, path by path.\<close>

definition init_spec :: "templates \<Rightarrow> init_args \<Rightarrow> files \<Rightarrow> files \<Rightarrow> bool" where
  "init_spec t args fs fs' \<longleftrightarrow>
     fs' DEFAULT_POLICY_PATH =
       (if fs DEFAULT_POLICY_PATH \<noteq> None \<and> \<not> init_force args then fs DEFAULT_POLICY_PATH else Some (t_policy t)) \<and>
     fs' WORKFLOW_PATH =
       (if \<not> init_github args \<or> fs WORKFLOW_PATH \<noteq> None \<and> \<not> init_force args then fs WORKFLOW_PATH
        else Some (t_workflow t)) \<and>
     fs' ''AGENTS.md'' =
       (if init_codex args then snd (add_agents_guidance (t_agents t) fs) ''AGENTS.md'' else fs ''AGENTS.md'') \<and>
     (\<forall>q. q \<notin> {DEFAULT_POLICY_PATH, WORKFLOW_PATH, ''AGENTS.md''} \<longrightarrow> fs' q = fs q)"

lemma agents_guidance_cong:
  "fs ''AGENTS.md'' = gs ''AGENTS.md'' \<Longrightarrow>
     snd (add_agents_guidance s fs) ''AGENTS.md'' = snd (add_agents_guidance s gs) ''AGENTS.md''"
  by (simp add: add_agents_guidance_def Let_def)

lemma init_command_spec:
  assumes "init_command unsafe t args fs = Inr (ms, fs')"
  shows "init_spec t args fs fs'"
proof -
  define fs1 where "fs1 = snd (create_file DEFAULT_POLICY_PATH (t_policy t) (init_force args) fs)"
  define fs2 where "fs2 = (if init_github args then snd (create_file WORKFLOW_PATH (t_workflow t) (init_force args) fs1) else fs1)"
  have fs': "fs' = (if init_codex args then snd (add_agents_guidance (t_agents t) fs2) else fs2)"
    using assms unfolding init_command_def safe_init_target_def fs1_def fs2_def
    by (auto simp: result_simps Let_def split: if_splits option.splits prod.splits)
  have fs2: "fs2 q = (if q = DEFAULT_POLICY_PATH
        then (if fs q \<noteq> None \<and> \<not> init_force args then fs q else Some (t_policy t))
      else if q = WORKFLOW_PATH
        then (if \<not> init_github args \<or> fs q \<noteq> None \<and> \<not> init_force args then fs q else Some (t_workflow t))
      else fs q)" for q
    using init_paths_distinct by (auto simp: fs1_def fs2_def create_file_def)
  then have "fs2 ''AGENTS.md'' = fs ''AGENTS.md''" using init_paths_distinct by auto
  then have "fs' ''AGENTS.md'' = (if init_codex args then snd (add_agents_guidance (t_agents t) fs) ''AGENTS.md'' else fs ''AGENTS.md'')"
    using fs' agents_guidance_cong [of fs2 fs] by simp
  moreover have "fs' q = fs2 q" if "q \<noteq> ''AGENTS.md''" for q
    using that fs' agents_guidance_other [of "t_agents t" fs2 "fst (add_agents_guidance (t_agents t) fs2)" _ q] by simp
  ultimately show ?thesis
    unfolding init_spec_def using fs2 init_paths_distinct by auto
qed

lemma init_command_ok_iff:
  "is_ok (init_command unsafe t args fs) \<longleftrightarrow> unsafe DEFAULT_POLICY_PATH = None \<and>
     (init_github args \<longrightarrow> unsafe WORKFLOW_PATH = None) \<and> (init_codex args \<longrightarrow> unsafe ''AGENTS.md'' = None)"
  by (auto simp: init_command_def safe_init_target_def is_ok_def Let_def split: option.splits prod.splits)

lemma init_spec_again:
  assumes "init_spec t args fs fs'" and "init_spec t args fs' fs''" and "py_contains (t_agents t) START_MARK"
  shows "fs'' = fs'"
proof
  fix q
  have marked: "snd (add_agents_guidance (t_agents t) fs') = fs'" if "init_codex args"
  proof -
    have "py_contains (some_or_empty (fs' ''AGENTS.md'')) START_MARK"
      using assms(1) that agents_guidance_marked [OF assms(3), of fs] unfolding init_spec_def
      by (metis prod.collapse)
    then show ?thesis by (simp add: add_agents_guidance_def Let_def)
  qed
  show "fs'' q = fs' q"
    using assms(1,2) marked unfolding init_spec_def
    by (cases "q \<in> {DEFAULT_POLICY_PATH, WORKFLOW_PATH, ''AGENTS.md''}") auto
qed

section \<open>Properties of the command line\<close>

text \<open>
  C1. The gate fails closed. The process ends with status 0 if and only if the change, the policy and the
  evidence were collected, they satisfy the policy, the receipt serialises, its path lies in the
  repository and every write succeeded. Any exception, caught or not, gives another status.
\<close>
theorem gate_fails_closed:
  "process_status (main (verify_command w args)) = 0 \<longleftrightarrow>
     (\<exists>change policy evidence r. collected w args change policy evidence \<and>
        policy_satisfied change policy evidence \<and> delivered w args r)"
proof -
  have "process_status (main (verify_command w args)) = 0 \<longleftrightarrow> (\<exists>r. delivered w args r \<and> decision r = PASS)"
    using status_of_decision [of PASS w args] by simp
  also have "\<dots> \<longleftrightarrow> (\<exists>change policy evidence r. collected w args change policy evidence \<and>
        policy_satisfied change policy evidence \<and> delivered w args r)"
    by (metis decision_pass_iff delivered_collected delivered_decision)
  finally show ?thesis .
qed

text \<open>
  C3. Evidence of another commit decides nothing: when the evidence's SHA differs from the head of the
  change, the process never ends with the BLOCK status, whatever the policy, and it ends with the PASS status only
  where the policy requires no kind of evidence and no path rule that matches the change asks for any.
\<close>
theorem stale_evidence_undecided:
  assumes "collected w args change policy evidence" and "evidence_sha w args change \<noteq> head_sha change"
  shows "process_status (main (verify_command w args)) \<noteq> exit_code BLOCK \<and>
    (process_status (main (verify_command w args)) = exit_code PASS \<longrightarrow>
       (\<forall>knd\<in>set supported_evidence. \<not> required policy knd (docs_only change)) \<and>
       (\<forall>rule\<in>set (matching_path_rules policy (paths change)). rule_evidence rule = []))"
proof -
  have none: "\<not> has_state evidence knd EvPASS" for knd using stale_has_state [OF assms, of knd EvPASS] by auto
  let ?dec = "fst (evaluate_decision change policy evidence)"
  have decided: "decision r = ?dec" if "delivered w args r" for r using delivered_decision [OF that assms(1)] .
  have "\<not> policy_violated change policy evidence" using assms by (rule stale_not_violated)
  then have "process_status (main (verify_command w args)) \<noteq> exit_code BLOCK"
    using decided status_of_decision [of BLOCK w args] by (auto simp: decision_block_iff)
  moreover have "policy_satisfied change policy evidence" if "process_status (main (verify_command w args)) = exit_code PASS"
    using that decided status_of_decision [of PASS w args] by (auto simp: decision_pass_iff)
  ultimately show ?thesis using none unfolding policy_satisfied_def by (metis list.set_intros(1) list.exhaust)
qed

text \<open>
  \<open>init\<close> can be repeated: running it again with the same options changes no file, with or without
  \<open>--force\<close>.
\<close>
theorem init_idempotent:
  assumes "init_command unsafe t args fs = Inr (ms, fs')" and "py_contains (t_agents t) START_MARK"
  shows "\<exists>ms'. init_command unsafe t args fs' = Inr (ms', fs')"
proof -
  have "is_ok (init_command unsafe t args fs)" using assms(1) by simp
  then have "is_ok (init_command unsafe t args fs')" by (simp add: init_command_ok_iff)
  then obtain ms' fs'' where again: "init_command unsafe t args fs' = Inr (ms', fs'')" by (auto simp: is_ok_iff)
  with init_spec_again [OF init_command_spec [OF assms(1)] init_command_spec [OF again] assms(2)]
  show ?thesis by simp
qed

text \<open>
  Without \<open>--force\<close>, \<open>init\<close> keeps what is there: an existing policy or workflow file is unchanged,
  \<open>AGENTS.md\<close> is only appended to, and no other file is touched.
\<close>
theorem init_preserves:
  assumes "init_command unsafe t args fs = Inr (ms, fs')" and "\<not> init_force args" and "fs p = Some content"
  shows "\<exists>added. fs' p = Some (content @ added) \<and> (p \<noteq> ''AGENTS.md'' \<longrightarrow> added = [])"
proof (cases "p = ''AGENTS.md''")
  case True
  have "fs' p = fs p \<or> fs' p = snd (add_agents_guidance (t_agents t) fs) p"
    using init_command_spec [OF assms(1)] True by (auto simp: init_spec_def)
  with assms(3) True show ?thesis
    by (auto simp: add_agents_guidance_def Let_def some_or_empty_def)
next
  case False
  then have "fs' p = fs p"
    using init_command_spec [OF assms(1)] assms(2,3) unfolding init_spec_def
    by (cases "p \<in> {DEFAULT_POLICY_PATH, WORKFLOW_PATH}") auto
  with assms(3) show ?thesis by simp
qed

definition sample_templates :: templates where
  "sample_templates = \<lparr> t_policy = ''policy'', t_workflow = ''workflow'', t_agents = START_MARK \<rparr>"

definition sample_init :: init_args where
  "sample_init = \<lparr> init_github = True, init_codex = True, init_force = False \<rparr>"

definition sample_files :: files where
  "sample_files = [''AGENTS.md'' \<mapsto> ''notes'']"

lemma sample_init_ok: "\<exists>ms fs'. init_command (\<lambda>_. None) sample_templates sample_init sample_files = Inr (ms, fs')"
  using init_command_ok_iff [of "\<lambda>_. None" sample_templates sample_init sample_files] by (auto simp: is_ok_iff)

theorem init_idempotent_witness:
  "\<exists>ms fs' ms'. init_command (\<lambda>_. None) sample_templates sample_init sample_files = Inr (ms, fs') \<and>
     init_command (\<lambda>_. None) sample_templates sample_init fs' = Inr (ms', fs')"
proof -
  have "py_contains (t_agents sample_templates) START_MARK" by code_simp
  with sample_init_ok init_idempotent show ?thesis by blast
qed

theorem init_preserves_witness:
  "\<exists>ms fs' added. init_command (\<lambda>_. None) sample_templates sample_init sample_files = Inr (ms, fs') \<and>
     fs' ''AGENTS.md'' = Some (''notes'' @ added)"
proof -
  have "\<not> init_force sample_init" "sample_files ''AGENTS.md'' = Some ''notes''"
    by (simp_all add: sample_init_def sample_files_def)
  with sample_init_ok init_preserves show ?thesis by metis
qed

text \<open>A repository for the evidence property: the head is commit \<open>b\<dots>\<close>, the evidence names commit \<open>a\<dots>\<close>.\<close>

definition sample_git :: git where
  "sample_git gargs = Inr \<lparr> returncode = (if hd gargs = ''config'' then 1 else 0),
     stdout = (if gargs = [''rev-parse'', ''--is-inside-work-tree''] then ''true''
       else if hd gargs = ''rev-parse'' then (if last gargs = ''base^{commit}'' then replicate 40 CHR ''a'' else replicate 40 CHR ''b'')
       else if hd gargs = ''merge-base'' then replicate 40 CHR ''a''
       else if gargs ! 1 = ''--name-only'' then ''app.py''
       else if hd gargs = ''show'' then ''2026-01-01T00:00:00Z'' else []),
     stderr = [] \<rparr>"

definition sample_world :: world where
  "sample_world = \<lparr> w_git = sample_git,
     w_codecs = \<lparr> k_decode = Some, k_yaml = (\<lambda>_. Inl YAMLError), k_repr = no_float, k_digest = (\<lambda>s. ''d'') \<rparr>,
     w_env = \<lparr> c_iglob = (\<lambda>_. []), c_root = ''/r'', c_xml = (\<lambda>_. None), c_decode = (\<lambda>s. s),
               c_json = (\<lambda>_. None), c_repr = (\<lambda>_. []), c_digest = (\<lambda>s. ''d'') \<rparr>,
     w_root_dir = ''/r'', w_root_name = ''r'',
     w_policy_file = \<lparr> pf_symlink = False, pf_resolved = None, pf_bytes = Some [] \<rparr>,
     w_env_sha = None, w_output = ''/r/out.json'', w_relative_output = ''out.json'',
     w_io_ok = (\<lambda>_. True), w_dumps = (\<lambda>_. []) \<rparr>"

definition sample_args :: verify_args where
  "sample_args = \<lparr> arg_repository = Some ''o/r'', arg_base = ''base'', arg_head = ''head'',
     arg_evidence_sha = Some (replicate 40 CHR ''a''), arg_policy = DEFAULT_POLICY_PATH, arg_policy_source = ''builtin'',
     arg_junit = [], arg_coverage = [], arg_sarif = [], arg_build_status = ''success'', arg_json = False,
     arg_github_summary = None, arg_github_output = None \<rparr>"

definition sample_collected_change :: git_change where
  "sample_collected_change = \<lparr> repository = ''o/r'', base_sha = replicate 40 CHR ''a'', head_sha = replicate 40 CHR ''b'',
     merge_base_sha = replicate 40 CHR ''a'', generated_at = ''2026-01-01T00:00:00Z'', paths = [''app.py''],
     files_changed = 1, lines_added = 0, lines_deleted = 0, flags = [] \<rparr>"

definition builtin_sample :: loaded_policy where
  "builtin_sample = \<lparr> data = sort_key (\<lambda>kv. as_str (fst kv)) DEFAULT_POLICY,
     lp_source = ''builtin:deployguard-policy/v0.1'', sha256 = ''d'' \<rparr>"

lemma sample_collected:
  "collected sample_world sample_args sample_collected_change builtin_sample
     [build_item (Some (replicate 40 CHR ''a'')) (replicate 40 CHR ''b'') ''success'']"
  unfolding collected_def
proof (intro conjI)
  show "collect_git_change (w_git sample_world) (w_root_name sample_world) (arg_base sample_args) (arg_head sample_args)
      (arg_repository sample_args) = Inr sample_collected_change"
    by code_simp
  have "is_ok (canonical_json no_float (PDict DEFAULT_POLICY))" by code_simp
  then show "select_policy sample_world sample_args sample_collected_change = Inr builtin_sample"
    by (auto simp: is_ok_iff select_policy_def sample_args_def sample_world_def builtin_policy_def builtin_sample_def
        simp del: canonical_json.simps)
qed code_simp+

lemma sample_required: "required builtin_sample ''tests'' (docs_only sample_collected_change)"
  by code_simp

theorem stale_evidence_undecided_witness:
  "process_status (main (verify_command sample_world sample_args)) \<notin> {0, 3}"
proof -
  have "evidence_sha sample_world sample_args sample_collected_change \<noteq> head_sha sample_collected_change" by code_simp
  from stale_evidence_undecided [OF sample_collected this] sample_required show ?thesis
    by (auto simp: supported_evidence_def)
qed

end
