(* ===== verification/RiskEngine.thy ===== *)
theory RiskEngine
  imports Binary64
begin

text \<open>
  \<open>backend/app/engines.py\<close>, first part: the change-risk ledger of \<open>calculate_change_risk\<close>.

  Scores are Python ints, coverage and observability are finite binary64 values, and every float
  operation of the source is one rounding \<^const>\<open>fl\<close>; \<open>sum\<close> over floats is the compensated summation of
  \<^const>\<open>py_sum\<close>. Integer arguments are those a float can hold. A service's tier is the \<open>str\<close> of its
  dictionary value, \<open>None\<close> when the service has none.

  The lemmas bound every score, show the rounded overall score to be a nearest integer of the decimal
  weighted sum (so binary rounding never shows), and show it monotone in each dimension.
\<close>

section \<open>Constants\<close>

definition RISK_WEIGHTS :: "(string \<times> rat) list" where
  "RISK_WEIGHTS = [(''change_size'', fl (25 / 100)), (''service_scope'', fl (20 / 100)),
     (''change_type'', fl (20 / 100)), (''test_confidence'', fl (15 / 100)),
     (''operational_history'', fl (10 / 100)), (''safety_readiness'', fl (10 / 100))]"

definition FLAG_RISK :: "(string \<times> int) list" where
  "FLAG_RISK = [(''database-migration'', 96), (''schema-change'', 92), (''retry-policy'', 90),
     (''auth-change'', 86), (''api-contract'', 78), (''config-change'', 68),
     (''dependency-upgrade'', 58), (''feature-flag'', 42), (''docs-only'', 8)]"

section \<open>Service tiers\<close>

text \<open>\<open>s.replace(p, "")\<close>: occurrences are removed from the left.\<close>

function py_remove :: "string \<Rightarrow> string \<Rightarrow> string" where
  "py_remove p [] = []"
| "py_remove p (c # cs) =
     (if p \<noteq> [] \<and> py_startswith (c # cs) p then py_remove p (drop (length p - 1) cs)
      else c # py_remove p cs)"
  by pat_completeness auto
termination by (relation "measure (\<lambda>(p, s). length s)") auto

definition tier_number :: "string \<Rightarrow> int" where
  "tier_number val =
     (case py_int (strip_by (\<lambda>c. c \<in> {CHR '' '', CHR ''-'', CHR ''_''}) (py_remove ''tier'' (py_lower val))) of
        None \<Rightarrow> 3 | Some n \<Rightarrow> n)"

definition str_of_tier :: "string option \<Rightarrow> string" where
  "str_of_tier t = (case t of None \<Rightarrow> ''None'' | Some s \<Rightarrow> s)"

section \<open>The ledger\<close>

record risk_input =
  files_changed :: int
  lines_added :: int
  lines_deleted :: int
  changed_services :: "string list"
  flags :: "string list"
  test_coverage :: "rat option"
  rollback_ready :: "bool option"
  observability_score :: "rat option"
  previous_failures :: "int option"
  service_tiers :: "string \<rightharpoonup> string"
  evidence_prefix :: string

definition coverage :: "risk_input \<Rightarrow> rat option" where
  "coverage r = map_option (\<lambda>c. clamp c 0 1) (test_coverage r)"

definition observability :: "risk_input \<Rightarrow> rat option" where
  "observability r = map_option (\<lambda>c. clamp c 0 1) (observability_score r)"

definition total_lines :: "risk_input \<Rightarrow> int" where
  "total_lines r = max 0 (lines_added r) + max 0 (lines_deleted r)"

definition size_score :: "risk_input \<Rightarrow> int" where
  "size_score r = round_half_even (clamp
     (fl (fl (of_int (max 0 (files_changed r) * 3)) + fl (of_int (total_lines r) / 12))) 0 100)"

definition service_count :: "risk_input \<Rightarrow> int" where
  "service_count r = int (card (set (changed_services r)))"

definition tier_bonus :: "risk_input \<Rightarrow> string \<Rightarrow> int" where
  "tier_bonus r service =
     dict_get [(1, 25), (2, 12), (3, 4)] (tier_number (str_of_tier (service_tiers r service))) 4"

definition highest_tier_bonus :: "risk_input \<Rightarrow> int" where
  "highest_tier_bonus r = (if changed_services r = [] then 0
     else Max (tier_bonus r ` set (changed_services r)))"

definition scope_score :: "risk_input \<Rightarrow> int" where
  "scope_score r = round_half_even (clamp
     (of_int (service_count r * 18 + max 0 (service_count r - 1) * 8 + highest_tier_bonus r)) 0 100)"

definition normalized_flags :: "risk_input \<Rightarrow> string list" where
  "normalized_flags r = map py_lower (flags r)"

definition flag_values :: "risk_input \<Rightarrow> int list" where
  "flag_values r = map (\<lambda>f. dict_get FLAG_RISK f 48) (normalized_flags r)"

definition type_score :: "risk_input \<Rightarrow> int" where
  "type_score r = round_half_even (clamp
     (of_int ((if flag_values r \<noteq> [] then Max (set (flag_values r)) else 20)
              + max 0 (int (card (set (normalized_flags r))) - 1) * 4)) 0 100)"

definition test_score :: "risk_input \<Rightarrow> int" where
  "test_score r = (case coverage r of
     Some c \<Rightarrow> round_half_even (fl (fl (1 - c) * 100)) | None \<Rightarrow> 50)"

definition history_score :: "risk_input \<Rightarrow> int" where
  "history_score r = (case previous_failures r of
     Some n \<Rightarrow> round_half_even (clamp (of_int (max 0 n * 25)) 0 100) | None \<Rightarrow> 25)"

definition safety_score :: "risk_input \<Rightarrow> int" where
  "safety_score r = round_half_even (clamp
     (fl ((if rollback_ready r = Some True then 0
           else if rollback_ready r = Some False then 65 else 325 / 10)
          + (case observability r of Some v \<Rightarrow> fl (fl (1 - v) * 35) | None \<Rightarrow> 175 / 10))) 0 100)"

definition dimension_values :: "risk_input \<Rightarrow> (string \<times> int) list" where
  "dimension_values r =
     [(''change_size'', size_score r), (''service_scope'', scope_score r),
      (''change_type'', type_score r), (''test_confidence'', test_score r),
      (''operational_history'', history_score r), (''safety_readiness'', safety_score r)]"

definition weighted_score :: "(string \<times> int) list \<Rightarrow> int" where
  "weighted_score values = round_half_even (clamp
     (py_sum (map (\<lambda>(key, weight). fl (of_int (dict_get values key 0) * weight)) RISK_WEIGHTS)) 0 100)"

definition risk_level :: "int \<Rightarrow> string" where
  "risk_level overall_score =
     (if overall_score < 25 then ''low'' else if overall_score < 50 then ''moderate''
      else if overall_score < 70 then ''high'' else ''critical'')"

section \<open>Explanations\<close>

definition join_comma :: "string list \<Rightarrow> string" where
  "join_comma ws = (case ws of [] \<Rightarrow> [] | w # ws \<Rightarrow> w @ concat (map (\<lambda>v. '', '' @ v) ws))"

definition dimension_label :: "string \<Rightarrow> string" where
  "dimension_label key = dict_get
     [(''change_size'', ''Change size''), (''service_scope'', ''Service scope''),
      (''change_type'', ''Change type''), (''test_confidence'', ''Test confidence gap''),
      (''operational_history'', ''Operational history''), (''safety_readiness'', ''Safety readiness gap'')]
     key []"

definition dimension_reason :: "risk_input \<Rightarrow> string \<Rightarrow> string" where
  "dimension_reason r key = dict_get
     [(''change_size'', show_int (files_changed r) @ '' files and '' @ show_int (total_lines r) @
         '' changed lines increase review surface.''),
      (''service_scope'', show_int (service_count r) @
         '' services are directly changed; criticality is included.''),
      (''change_type'', ''Flags carry fixed risk priors: '' @
         (if normalized_flags r \<noteq> [] then join_comma (normalized_flags r) else ''no elevated flags'') @ ''.''),
      (''test_confidence'', case coverage r of
           Some c \<Rightarrow> ''Reported test coverage is '' @ fmt_percent 0 c @ ''.''
         | None \<Rightarrow> ''No test coverage evidence was supplied.''),
      (''operational_history'', case previous_failures r of
           Some n \<Rightarrow> show_int (max 0 n) @ '' related previous failures were reported.''
         | None \<Rightarrow> ''No related failure history was supplied.''),
      (''safety_readiness'', ''Rollback readiness is '' @
         (if rollback_ready r = Some True then ''available''
          else if rollback_ready r = Some False then ''missing'' else ''unknown'') @
         ''; observability is '' @
         (case observability r of Some v \<Rightarrow> fmt_percent 0 v @ ''.'' | None \<Rightarrow> ''unknown.''))]
     key []"

definition evidence_suffix :: "string \<Rightarrow> string" where
  "evidence_suffix key = dict_get
     [(''change_size'', ''diff''), (''service_scope'', ''topology''), (''change_type'', ''flags''),
      (''test_confidence'', ''tests''), (''operational_history'', ''history''),
      (''safety_readiness'', ''readiness'')] key []"

record dimension =
  dim_key :: string
  dim_label :: string
  dim_score :: int
  dim_weight :: rat
  dim_reason :: string
  dim_evidence_ids :: "string list"

definition dimensions_of :: "risk_input \<Rightarrow> dimension list" where
  "dimensions_of r = map (\<lambda>(key, score).
     \<lparr> dim_key = key, dim_label = dimension_label key, dim_score = score,
       dim_weight = dict_get RISK_WEIGHTS key 0, dim_reason = dimension_reason r key,
       dim_evidence_ids = [evidence_prefix r @ ''-'' @ evidence_suffix key] \<rparr>) (dimension_values r)"

definition recommendations_of :: "risk_input \<Rightarrow> string list" where
  "recommendations_of r =
     (let recs =
        (if type_score r \<ge> 70
         then [''Require an owner review for the elevated change type before deployment.''] else [])
        @ (if coverage r = None
           then [''Attach SHA-matched test evidence before treating this change as verified.'']
           else if test_score r \<ge> 35
           then [''Add targeted tests for the changed paths before promoting the deployment.''] else [])
        @ (if scope_score r \<ge> 60
           then [''Use a staged rollout and watch directly dependent services.''] else [])
        @ (if rollback_ready r \<noteq> Some True
           then [''Prepare and verify a rollback procedure before deployment.''] else [])
        @ (case observability r of
             None \<Rightarrow> [''Add telemetry for the changed services before rollout.'']
           | Some v \<Rightarrow> if v < fl (7 / 10)
               then [''Add telemetry for the changed services before rollout.''] else [])
      in if recs = []
         then [''Proceed with the normal review path and monitor deployment guardrails.'']
         else recs)"

definition data_quality_of :: "risk_input \<Rightarrow> rat" where
  "data_quality_of r =
     (let q1 = fl (fl (35 / 100) + (case observability r of Some v \<Rightarrow> fl (v * fl (20 / 100)) | None \<Rightarrow> 0));
          q2 = fl (q1 + (case coverage r of Some c \<Rightarrow> fl (c * fl (15 / 100)) | None \<Rightarrow> 0));
          q3 = fl (q2 + (if rollback_ready r \<noteq> None then fl (10 / 100) else 0));
          q4 = fl (q3 + (if previous_failures r \<noteq> None then fl (10 / 100) else 0));
          q5 = fl (q4 + (if changed_services r \<noteq> [] then fl (10 / 100) else 0))
      in py_round 2 (clamp q5 0 1))"

record risk_report =
  overall_score :: int
  level :: string
  data_quality :: rat
  dimensions :: "dimension list"
  recommendations :: "string list"

definition calculate_change_risk :: "risk_input \<Rightarrow> risk_report" where
  "calculate_change_risk r =
     (let overall = weighted_score (dimension_values r) in
      \<lparr> overall_score = overall, level = risk_level overall, data_quality = data_quality_of r,
        dimensions = dimensions_of r, recommendations = recommendations_of r \<rparr>)"

section \<open>Bounds\<close>

lemma round_clamp_100: "0 \<le> round_half_even (clamp x 0 100) \<and> round_half_even (clamp x 0 100) \<le> 100"
  using round_clamp_bounds [of 0 100 x] by simp

lemma unit_clamp: "0 \<le> clamp c 0 (1 :: rat) \<and> clamp c 0 1 \<le> 1"
  by (rule clamp_bounds) simp

lemma scaled_complement_bounds:
  assumes "0 \<le> c" and "c \<le> (1 :: rat)" and "0 \<le> m" and "m \<le> 2 ^ 53"
  shows "0 \<le> fl (fl (1 - c) * of_int m) \<and> fl (fl (1 - c) * of_int m) \<le> of_int m"
proof -
  have "0 \<le> fl (1 - c)" "fl (1 - c) \<le> 1"
    using b64.rnd_unit [of "1 - c"] assms by auto
  with assms have "0 \<le> fl (1 - c) * of_int m" "fl (1 - c) * of_int m \<le> of_int m"
    by (auto intro: mult_left_le_one_le)
  then show ?thesis
    using b64.rnd_ge_int [of 0] b64.rnd_le_int [of _ m] assms by simp
qed

lemma test_score_bounds: "0 \<le> test_score r \<and> test_score r \<le> 100"
proof (cases "test_coverage r")
  case None
  then show ?thesis by (simp add: test_score_def coverage_def)
next
  case (Some c)
  then show ?thesis
    using scaled_complement_bounds [of "clamp c 0 1" 100] unit_clamp [of c]
    by (auto simp: test_score_def coverage_def intro: round_half_even_ge [of 0, simplified]
        round_half_even_le [of _ 100, simplified])
qed

lemma dimension_bounds: "(k, v) \<in> set (dimension_values r) \<Longrightarrow> 0 \<le> v \<and> v \<le> 100"
  using round_clamp_100 test_score_bounds
  by (auto simp: dimension_values_def size_score_def scope_score_def type_score_def history_score_def
      safety_score_def split: option.splits)

section \<open>The weighted sum\<close>

text \<open>The decimal weighted sum, in twentieths.\<close>

definition twentieths :: "int \<times> int \<times> int \<times> int \<times> int \<times> int \<Rightarrow> int" where
  "twentieths d = (case d of (a, b, c, t, h, s) \<Rightarrow> 5 * a + 4 * b + 4 * c + 3 * t + 2 * h + 2 * s)"

definition scores :: "risk_input \<Rightarrow> int \<times> int \<times> int \<times> int \<times> int \<times> int" where
  "scores r = (size_score r, scope_score r, type_score r, test_score r, history_score r, safety_score r)"

definition float_sum :: "int \<times> int \<times> int \<times> int \<times> int \<times> int \<Rightarrow> rat" where
  "float_sum d = (case d of (a, b, c, t, h, s) \<Rightarrow>
     py_sum [fl (of_int a * fl (25 / 100)), fl (of_int b * fl (20 / 100)), fl (of_int c * fl (20 / 100)),
             fl (of_int t * fl (15 / 100)), fl (of_int h * fl (10 / 100)), fl (of_int s * fl (10 / 100))])"

lemma weighted_score_dimensions:
  "weighted_score (dimension_values r) = round_half_even (clamp (float_sum (scores r)) 0 100)"
  by (simp add: weighted_score_def dimension_values_def RISK_WEIGHTS_def float_sum_def scores_def dict_get_def)

text \<open>One term: the weight is rounded once, the product once more.\<close>

lemma weighted_term:
  assumes "0 \<le> d" and "d \<le> 100" and "0 \<le> w" and "w \<le> (1 :: rat)"
  shows "\<bar>fl (of_int d * fl w) - of_int d * w\<bar> \<le> 228 / 2 ^ 53"
proof -
  have w: "\<bar>fl w - w\<bar> \<le> 1 / 2 ^ 53" "0 \<le> fl w" "fl w \<le> 1"
    using fl_err [of w 0] b64.rnd_unit [of w] assms by auto
  have d: "0 \<le> (of_int d :: rat)" "(of_int d :: rat) \<le> 100" using assms by auto
  have "\<bar>of_int d * fl w\<bar> \<le> 2 ^ 7"
    using mult_mono [OF d(2) w(3)] w d by (auto simp: abs_mult)
  then have "\<bar>fl (of_int d * fl w) - of_int d * fl w\<bar> \<le> 128 / 2 ^ 53"
    using fl_err [of "of_int d * fl w" 7] by simp
  moreover have "\<bar>of_int d * fl w - of_int d * w\<bar> \<le> 100 / 2 ^ 53"
  proof -
    have "\<bar>of_int d * fl w - of_int d * w\<bar> = of_int d * \<bar>fl w - w\<bar>"
      using d by (simp add: abs_mult flip: right_diff_distrib)
    also have "\<dots> \<le> 100 * (1 / 2 ^ 53)"
      using d w(1) by (intro mult_mono) auto
    finally show ?thesis by simp
  qed
  ultimately show ?thesis by linarith
qed

definition scores_ok :: "int \<times> int \<times> int \<times> int \<times> int \<times> int \<Rightarrow> bool" where
  "scores_ok d = (case d of (a, b, c, t, h, s) \<Rightarrow> list_all (\<lambda>x. 0 \<le> x \<and> x \<le> 100) [a, b, c, t, h, s])"

lemma scores_ok_scores: "scores_ok (scores r)"
proof -
  have "list_all (\<lambda>(k, v). 0 \<le> v \<and> v \<le> 100) (dimension_values r)"
    using dimension_bounds by (auto simp: list_all_iff)
  then show ?thesis by (simp add: scores_ok_def scores_def dimension_values_def)
qed

lemma float_sum_err:
  assumes "scores_ok d"
  shows "\<bar>float_sum d - of_int (twentieths d) / 20\<bar> \<le> 1 / 1000"
proof -
  obtain a b c t h s where d: "d = (a, b, c, t, h, s)" by (cases d) auto
  have ok: "0 \<le> a" "a \<le> 100" "0 \<le> b" "b \<le> 100" "0 \<le> c" "c \<le> 100" "0 \<le> t" "t \<le> 100"
    "0 \<le> h" "h \<le> 100" "0 \<le> s" "s \<le> 100"
    using assms by (auto simp: d scores_ok_def)
  define eps :: rat where "eps = 1 / 2 ^ 53"
  have eps: "0 < eps" "eps \<le> 1 / 10000000" by (simp_all add: eps_def)
  define A B C T H S where terms: "A = fl (of_int a * fl (25 / 100))" "B = fl (of_int b * fl (20 / 100))"
    "C = fl (of_int c * fl (20 / 100))" "T = fl (of_int t * fl (15 / 100))"
    "H = fl (of_int h * fl (10 / 100))" "S = fl (of_int s * fl (10 / 100))"
  have term_err: "\<bar>fl (of_int x * fl w) - of_int x * w\<bar> \<le> 228 * eps"
    if "0 \<le> x" "x \<le> 100" "0 \<le> w" "w \<le> (1 :: rat)" for x w
    using weighted_term [OF that] unfolding eps_def by simp
  have err: "\<bar>A - of_int a * (25 / 100)\<bar> \<le> 228 * eps" "\<bar>B - of_int b * (20 / 100)\<bar> \<le> 228 * eps"
    "\<bar>C - of_int c * (20 / 100)\<bar> \<le> 228 * eps" "\<bar>T - of_int t * (15 / 100)\<bar> \<le> 228 * eps"
    "\<bar>H - of_int h * (10 / 100)\<bar> \<le> 228 * eps" "\<bar>S - of_int s * (10 / 100)\<bar> \<le> 228 * eps"
    unfolding terms by (rule term_err; (rule ok | simp))+
  have pos: "0 \<le> A" "0 \<le> B" "0 \<le> C" "0 \<le> T" "0 \<le> H" "0 \<le> S"
    using ok unfolding terms by (auto intro!: fl_nonneg mult_nonneg_nonneg)
  have r: "(of_int a :: rat) \<le> 100" "(of_int b :: rat) \<le> 100" "(of_int c :: rat) \<le> 100"
    "(of_int t :: rat) \<le> 100" "(of_int h :: rat) \<le> 100" "(of_int s :: rat) \<le> 100"
    using ok by auto
  have total: "A + B + C + T + H + S \<le> 101"
    using err r eps by linarith
  have k: "(2 :: rat) ^ 7 / 2 ^ 53 = 128 * eps" by (simp add: eps_def)
  have nm: "\<bar>neumaier fl A 0 [B, C, T, H, S] - (A + 0 + sum_list [B, C, T, H, S])\<bar>
      \<le> (3 * of_nat (length [B, C, T, H, S]) + 1) * (2 ^ 7 / 2 ^ 53)"
    by (rule b64.neumaier_err) (unfold k, use pos total eps in simp)
  have sums: "(3 * of_nat (length [B, C, T, H, S]) + 1) * (2 ^ 7 / 2 ^ 53) = 2048 * eps"
    "A + 0 + sum_list [B, C, T, H, S] = A + (B + (C + (T + (H + S))))"
    unfolding k by simp_all
  have "\<bar>neumaier fl A 0 [B, C, T, H, S] - (A + (B + (C + (T + (H + S)))))\<bar> \<le> 2048 * eps"
    using nm unfolding sums .
  moreover have "float_sum d = neumaier fl A 0 [B, C, T, H, S]"
    by (simp only: d float_sum_def prod.case py_sum_def list.case terms)
  moreover have "of_int (twentieths d) / (20 :: rat) = of_int a * (25 / 100) + of_int b * (20 / 100)
      + of_int c * (20 / 100) + of_int t * (15 / 100) + of_int h * (10 / 100) + of_int s * (10 / 100)"
    by (simp add: d twentieths_def field_simps)
  ultimately show ?thesis using err eps by linarith
qed

lemma twentieths_bounds: "scores_ok d \<Longrightarrow> 0 \<le> twentieths d \<and> twentieths d \<le> 2000"
  by (auto simp: scores_ok_def twentieths_def split: prod.splits)

lemma clamp_near:
  assumes "\<bar>x - y\<bar> \<le> e" and "lo \<le> y" and "y \<le> (hi :: rat)" and "0 \<le> e"
  shows "\<bar>clamp x lo hi - y\<bar> \<le> e"
  using assms by (auto simp: clamp_def max_def min_def)

lemma float_sum_clamped:
  assumes "scores_ok d"
  shows "\<bar>clamp (float_sum d) 0 100 - of_int (twentieths d) / 20\<bar> \<le> 1 / 1000"
proof -
  have "(0 :: rat) \<le> of_int (twentieths d) / 20" "of_int (twentieths d) / 20 \<le> (100 :: rat)"
    using twentieths_bounds [OF assms] by (auto simp: field_simps)
  then show ?thesis
    using clamp_near [OF float_sum_err [OF assms], of 0 100] by simp
qed

text \<open>The rounded score is a nearest integer of the exact decimal sum.\<close>

lemma rounded_nearest:
  assumes "scores_ok d"
  shows "\<bar>20 * round_half_even (clamp (float_sum d) 0 100) - twentieths d\<bar> \<le> 10"
proof -
  define n where "n = round_half_even (clamp (float_sum d) 0 100)"
  have "\<bar>of_int n - of_int (twentieths d) / (20 :: rat)\<bar> \<le> 1 / 2 + 1 / 1000"
    using round_half_even_err [of "clamp (float_sum d) 0 100"] float_sum_clamped [OF assms]
    unfolding n_def by linarith
  then have "\<bar>20 * of_int n - of_int (twentieths d)\<bar> < (11 :: rat)" by linarith
  then have "\<bar>20 * n - twentieths d\<bar> < 11"
    by (metis (mono_tags) of_int_abs of_int_diff of_int_less_numeral_iff of_int_mult of_int_numeral)
  then show ?thesis by (simp add: n_def)
qed

text \<open>Pointwise order of the dimensions.\<close>

definition scores_le :: "int \<times> int \<times> int \<times> int \<times> int \<times> int \<Rightarrow> int \<times> int \<times> int \<times> int \<times> int \<times> int \<Rightarrow> bool" where
  "scores_le d d' = (case d of (a, b, c, t, h, s) \<Rightarrow> case d' of (a', b', c', t', h', s') \<Rightarrow>
     a \<le> a' \<and> b \<le> b' \<and> c \<le> c' \<and> t \<le> t' \<and> h \<le> h' \<and> s \<le> s')"

lemma scores_le_strict: "scores_le d d' \<Longrightarrow> d \<noteq> d' \<Longrightarrow> twentieths d < twentieths d'"
  by (auto simp: scores_le_def twentieths_def split: prod.splits)

lemma rounded_mono:
  assumes "scores_ok d" and "scores_ok d'" and "scores_le d d'"
  shows "round_half_even (clamp (float_sum d) 0 100) \<le> round_half_even (clamp (float_sum d') 0 100)"
proof (cases "d = d'")
  case False
  then have "twentieths d + 1 \<le> twentieths d'"
    using scores_le_strict [OF assms(3)] by simp
  then have "of_int (twentieths d) / (20 :: rat) + 1 / 20 \<le> of_int (twentieths d') / 20"
    by (metis add_divide_distrib divide_right_mono of_int_1 of_int_add of_int_le_iff zero_le_numeral)
  then have "clamp (float_sum d) 0 100 \<le> clamp (float_sum d') 0 100"
    using float_sum_clamped [OF assms(1)] float_sum_clamped [OF assms(2)] by linarith
  then show ?thesis by (rule round_half_even_mono)
qed simp

section \<open>Riskier inputs\<close>

text \<open>The second change is at least as risky as the first: the same services and flags, no fewer files,
  lines or failures, no better coverage, observability or rollback readiness, and the same evidence
  known in both.\<close>

definition opt_le :: "'a :: ord option \<Rightarrow> 'a option \<Rightarrow> bool" where
  "opt_le x y = (case (x, y) of (None, None) \<Rightarrow> True | (Some a, Some b) \<Rightarrow> a \<le> b | _ \<Rightarrow> False)"

definition rollback_gap :: "bool option \<Rightarrow> int" where
  "rollback_gap b = (case b of Some True \<Rightarrow> 0 | None \<Rightarrow> 1 | Some False \<Rightarrow> 2)"

definition at_least_as_risky :: "risk_input \<Rightarrow> risk_input \<Rightarrow> bool" where
  "at_least_as_risky r r' \<longleftrightarrow>
     files_changed r \<le> files_changed r' \<and> lines_added r \<le> lines_added r' \<and> lines_deleted r \<le> lines_deleted r' \<and>
     changed_services r = changed_services r' \<and> flags r = flags r' \<and> service_tiers r = service_tiers r' \<and>
     opt_le (test_coverage r') (test_coverage r) \<and> opt_le (observability_score r') (observability_score r) \<and>
     opt_le (previous_failures r) (previous_failures r') \<and>
     rollback_gap (rollback_ready r) \<le> rollback_gap (rollback_ready r')"

lemma opt_le_iff: "opt_le x y \<longleftrightarrow> x = None \<and> y = None \<or> (\<exists>a b. x = Some a \<and> y = Some b \<and> a \<le> b)"
  by (auto simp: opt_le_def split: option.splits)

lemma size_score_mono:
  assumes "files_changed r \<le> files_changed r'" "lines_added r \<le> lines_added r'" "lines_deleted r \<le> lines_deleted r'"
  shows "size_score r \<le> size_score r'"
proof -
  have "max 0 (files_changed r) * 3 \<le> max 0 (files_changed r') * 3" "total_lines r \<le> total_lines r'"
    using assms by (auto simp: total_lines_def)
  then have "(of_int (max 0 (files_changed r) * 3) :: rat) \<le> of_int (max 0 (files_changed r') * 3)"
    "(of_int (total_lines r) :: rat) / 12 \<le> of_int (total_lines r') / 12"
    by (auto simp only: of_int_le_iff intro!: divide_right_mono)
  then show ?thesis
    unfolding size_score_def by (intro round_half_even_mono clamp_mono fl_mono add_mono)
qed

lemma complement_antimono:
  assumes "c' \<le> c" and "0 \<le> m"
  shows "fl (fl (1 - clamp c 0 1) * m) \<le> fl (fl (1 - clamp c' 0 1) * m)"
  using assms by (intro fl_mono mult_right_mono) (auto intro: clamp_mono)

lemma test_score_antimono: "opt_le (test_coverage r') (test_coverage r) \<Longrightarrow> test_score r \<le> test_score r'"
  by (auto simp: opt_le_iff test_score_def coverage_def intro!: round_half_even_mono complement_antimono)

lemma history_score_mono: "opt_le (previous_failures r) (previous_failures r') \<Longrightarrow> history_score r \<le> history_score r'"
  by (auto simp: opt_le_iff history_score_def intro!: round_half_even_mono clamp_mono)

lemma safety_score_mono:
  assumes "opt_le (observability_score r') (observability_score r)"
    and "rollback_gap (rollback_ready r) \<le> rollback_gap (rollback_ready r')"
  shows "safety_score r \<le> safety_score r'"
proof -
  have "(case observability r of Some v \<Rightarrow> fl (fl (1 - v) * 35) | None \<Rightarrow> 175 / 10)
      \<le> (case observability r' of Some v \<Rightarrow> fl (fl (1 - v) * 35) | None \<Rightarrow> 175 / 10)"
    using assms(1) complement_antimono [of _ _ 35] by (auto simp: opt_le_iff observability_def)
  moreover have "(if rollback_ready r = Some True then 0 else if rollback_ready r = Some False then 65 else 325 / 10 :: rat)
      \<le> (if rollback_ready r' = Some True then 0 else if rollback_ready r' = Some False then 65 else 325 / 10)"
    using assms(2) by (auto simp: rollback_gap_def split: option.splits bool.splits)
  ultimately show ?thesis
    unfolding safety_score_def by (intro round_half_even_mono clamp_mono fl_mono add_mono)
qed

lemma riskier_scores: "at_least_as_risky r r' \<Longrightarrow> scores_le (scores r) (scores r')"
proof -
  assume risky: "at_least_as_risky r r'"
  then have "scope_score r = scope_score r'" "type_score r = type_score r'"
    by (auto simp: at_least_as_risky_def scope_score_def service_count_def highest_tier_bonus_def tier_bonus_def
        type_score_def flag_values_def normalized_flags_def cong: image_cong_simp)
  with risky show ?thesis
    using size_score_mono test_score_antimono history_score_mono safety_score_mono
    by (simp add: scores_le_def scores_def at_least_as_risky_def)
qed

lemma data_quality_unit: "0 \<le> data_quality_of r \<and> data_quality_of r \<le> 1"
  unfolding data_quality_of_def Let_def by (rule py_round_unit) (simp_all add: unit_clamp)

section \<open>Properties of the risk ledger\<close>

text \<open>
  Every number of the ledger is in range for every input: the overall score and each of the six
  dimension scores lie between 0 and 100 and the data quality between 0 and 1; the six dimensions
  carry the keys of the fixed weights, in their order.
\<close>
theorem risk_ledger_bounds:
  "0 \<le> overall_score (calculate_change_risk r) \<and> overall_score (calculate_change_risk r) \<le> 100 \<and>
   0 \<le> data_quality (calculate_change_risk r) \<and> data_quality (calculate_change_risk r) \<le> 1 \<and>
   list_all (\<lambda>d. 0 \<le> dim_score d \<and> dim_score d \<le> 100) (dimensions (calculate_change_risk r)) \<and>
   map dim_key (dimensions (calculate_change_risk r)) = map fst RISK_WEIGHTS"
proof -
  have "list_all (\<lambda>d. 0 \<le> dim_score d \<and> dim_score d \<le> 100) (dimensions_of r)"
    using dimension_bounds [of _ _ r] by (auto simp: dimensions_of_def list_all_iff)
  moreover have "map dim_key (dimensions_of r) = map fst RISK_WEIGHTS"
    by (simp add: dimensions_of_def dimension_values_def RISK_WEIGHTS_def)
  ultimately show ?thesis
    using round_clamp_100 data_quality_unit
    by (simp add: calculate_change_risk_def Let_def weighted_score_def)
qed

text \<open>
  C10. The overall score, computed in binary floating point with compensated summation, is a nearest
  integer of the exact decimal weighted sum 0.25, 0.20, 0.20, 0.15, 0.10, 0.10 of the dimension
  scores: twenty times the score differs from the sum in twentieths by at most ten. Rounding errors of
  the weights, the products and the summation never move the score past a neighbouring integer.
\<close>
theorem risk_score_nearest:
  "\<bar>20 * overall_score (calculate_change_risk r) - twentieths (scores r)\<bar> \<le> 10"
  using rounded_nearest [OF scores_ok_scores]
  by (simp add: calculate_change_risk_def Let_def weighted_score_dimensions)

text \<open>
  C9. The overall score never decreases when a change gets riskier: more files, lines or previous
  failures, lower coverage or observability, or a worse rollback readiness, with the same services and
  flags. This is a statement about the rounded floating-point result.
\<close>
theorem risk_score_monotone:
  assumes "at_least_as_risky r r'"
  shows "overall_score (calculate_change_risk r) \<le> overall_score (calculate_change_risk r')"
  using rounded_mono [OF scores_ok_scores scores_ok_scores riskier_scores [OF assms]]
  by (simp add: calculate_change_risk_def Let_def weighted_score_dimensions)

definition sample_change :: risk_input where
  "sample_change = \<lparr> files_changed = 4, lines_added = 120, lines_deleted = 30,
     changed_services = [''checkout''], flags = [''config-change''], test_coverage = Some (3 / 4),
     rollback_ready = Some True, observability_score = None, previous_failures = Some 1,
     service_tiers = (\<lambda>_. None), evidence_prefix = ''analysis'' \<rparr>"

theorem risk_score_monotone_witness:
  "overall_score (calculate_change_risk sample_change) \<le>
   overall_score (calculate_change_risk (sample_change \<lparr> files_changed := 9, test_coverage := Some (1 / 2),
     rollback_ready := None, previous_failures := Some 3 \<rparr>))"
  by (rule risk_score_monotone)
    (simp add: at_least_as_risky_def sample_change_def opt_le_def rollback_gap_def)

end
