(* ===== verification/BlastRadius.thy ===== *)
theory BlastRadius
  imports RiskEngine
begin

text \<open>
  \<open>backend/app/engines.py\<close>, second part: \<open>calculate_blast_radius\<close>, a breadth-first traversal of the
  active impact edges that labels every service in reach with its hop distance, the confidence of the
  best path and the changed service it started from.

  The three dictionaries \<open>distance\<close>, \<open>path_confidence\<close> and \<open>origin\<close> always have the same keys and are
  one association list of \<^emph>\<open>labels\<close> here. The work list is the source's \<open>deque\<close>; a service whose
  confidence improves at the same distance is queued again, as in the source. The power
  \<open>decay ** d\<close> is computed by the platform's C library and is a parameter.

  The lemmas show that the loop ends, and that the labels are the best ones: the least number of hops
  and, among the shortest paths, the greatest confidence.
\<close>

section \<open>Nodes and edges\<close>

record node =
  n_id :: string
  n_label :: "string option"
  n_kind :: "string option"
  n_team :: "string option"
  n_tier :: "string option"
  n_health :: "string option"

record edge =
  e_source :: string
  e_target :: string
  e_relation :: "string option"
  e_confidence :: "rat option"
  e_active :: "bool option"

definition opt_or :: "'a option \<Rightarrow> 'a \<Rightarrow> 'a" where
  "opt_or v d = (case v of None \<Rightarrow> d | Some x \<Rightarrow> x)"

text \<open>\<open>str.title\<close> on the characters of ASCII: a letter after a letter is lowered, any other is raised. A letter outside ASCII,
  which Python would also raise or lower, is left as it is; it only affects the label given to a service without a node.\<close>

definition is_letter :: "char \<Rightarrow> bool" where
  "is_letter c = (let n = nat_of_char (lower_char c) in 97 \<le> n \<and> n \<le> 122)"

definition upper_char :: "char \<Rightarrow> char" where
  "upper_char c = (let n = nat_of_char c in if 97 \<le> n \<and> n \<le> 122 then char_of (n - 32) else c)"

fun title_from :: "bool \<Rightarrow> string \<Rightarrow> string" where
  "title_from after_letter [] = []"
| "title_from after_letter (c # cs) =
     (if after_letter then lower_char c else upper_char c) # title_from (is_letter c) cs"

definition py_title :: "string \<Rightarrow> string" where
  "py_title s = title_from False s"

definition default_node :: "string \<Rightarrow> node" where
  "default_node service_id = \<lparr> n_id = service_id,
     n_label = Some (py_title (py_replace_char CHR ''-'' '' '' service_id)), n_kind = Some ''service'',
     n_team = Some ''Unassigned'', n_tier = Some ''tier-3'', n_health = Some ''unknown'' \<rparr>"

text \<open>\<open>nodes_by_id\<close>: the last node with an id wins, and a changed service without a node gets one.\<close>

definition nodes_by_id :: "node list \<Rightarrow> string list \<Rightarrow> string \<Rightarrow> node option" where
  "nodes_by_id nodes changed service_id =
     (case map_of (rev (map (\<lambda>n. (n_id n, n)) nodes)) service_id of
        Some n \<Rightarrow> Some n
      | None \<Rightarrow> if service_id \<in> set changed then Some (default_node service_id) else None)"

definition edge_active :: "edge \<Rightarrow> bool" where
  "edge_active e = opt_or (e_active e) True"

definition edge_relation :: "edge \<Rightarrow> string" where
  "edge_relation e = opt_or (e_relation e) ''runtime-dependency''"

definition edge_confidence :: "edge \<Rightarrow> rat" where
  "edge_confidence e = clamp (opt_or (e_confidence e) 1) 0 1"

definition adjacency :: "edge list \<Rightarrow> string \<Rightarrow> edge list" where
  "adjacency edges s = sort_key (\<lambda>e. (e_target e, edge_relation e))
     (filter (\<lambda>e. edge_active e \<and> e_source e = s) edges)"

section \<open>The traversal\<close>

record label =
  distance :: nat
  path_confidence :: rat
  origin :: string

type_synonym labels = "(string, label) dict"

definition seeds :: "string list \<Rightarrow> string list" where
  "seeds changed = sort (remdups changed)"

definition initial_labels :: "string list \<Rightarrow> labels" where
  "initial_labels changed =
     map (\<lambda>s. (s, \<lparr> distance = 0, path_confidence = 1, origin = s \<rparr>)) (seeds changed)"

definition next_label :: "label \<Rightarrow> edge \<Rightarrow> label" where
  "next_label l e = \<lparr> distance = distance l + 1,
     path_confidence = fl (path_confidence l * edge_confidence e), origin = origin l \<rparr>"

definition is_better :: "label \<Rightarrow> label option \<Rightarrow> bool" where
  "is_better new old = (case old of
     None \<Rightarrow> True
   | Some l \<Rightarrow> distance new < distance l \<or>
       (distance new = distance l \<and> path_confidence new > path_confidence l))"

text \<open>The body of the inner \<open>for\<close> loop.\<close>

definition relax :: "(string \<Rightarrow> bool) \<Rightarrow> string \<Rightarrow> edge \<Rightarrow> labels \<times> string list \<Rightarrow> labels \<times> string list" where
  "relax known src e st = (case st of (labels, queue) \<Rightarrow>
     let target = e_target e in
     if \<not> known target then st
     else case map_of labels src of
       None \<Rightarrow> st
     | Some l \<Rightarrow>
         let new = next_label l e in
         if is_better new (map_of labels target)
         then (AList.update target new labels, queue @ [target])
         else st)"

definition expand :: "(string \<Rightarrow> bool) \<Rightarrow> edge list \<Rightarrow> string \<Rightarrow> labels \<times> string list \<Rightarrow> labels \<times> string list" where
  "expand known edges src st = fold (relax known src) (adjacency edges src) st"

definition dist_of :: "labels \<Rightarrow> string \<Rightarrow> nat option" where
  "dist_of labels s = map_option distance (map_of labels s)"

text \<open>The \<open>while queue\<close> loop. Two measures bound it: how much the distances can still shrink, and a
  weight of the queue that drops while the distances stay.\<close>

definition hop_room :: "nat \<Rightarrow> edge list \<Rightarrow> labels \<Rightarrow> nat" where
  "hop_room max_hops edges labels =
     (\<Sum>t\<in>e_target ` set edges. case dist_of labels t of None \<Rightarrow> max_hops + 1 | Some d \<Rightarrow> min d (max_hops + 1))"

definition queue_weight :: "nat \<Rightarrow> edge list \<Rightarrow> labels \<Rightarrow> string list \<Rightarrow> nat" where
  "queue_weight max_hops edges labels queue =
     sum_list (map (\<lambda>s. (length edges + 1) ^ (max_hops - the (dist_of labels s))) queue)"

lemma dist_of_update: "dist_of (AList.update t l labels) s = (if s = t then Some (distance l) else dist_of labels s)"
  by (simp add: dist_of_def update_conv')

text \<open>What a run of the inner loop can do to the distances: shrink some, or leave all of them and queue
  targets one hop further.\<close>

definition dist_le :: "labels \<Rightarrow> labels \<Rightarrow> bool" where
  "dist_le new old \<longleftrightarrow> (\<forall>s d. dist_of old s = Some d \<longrightarrow> (\<exists>d'\<le>d. dist_of new s = Some d'))"

lemma dist_le_refl: "dist_le l l"
  by (auto simp: dist_le_def)

lemma dist_le_trans: "dist_le a b \<Longrightarrow> dist_le b c \<Longrightarrow> dist_le a c"
  unfolding dist_le_def by (meson le_trans)

lemma hop_room_mono:
  assumes "dist_le new old"
  shows "hop_room m edges new \<le> hop_room m edges old"
proof -
  have "(case dist_of new t of None \<Rightarrow> m + 1 | Some d \<Rightarrow> min d (m + 1))
      \<le> (case dist_of old t of None \<Rightarrow> m + 1 | Some d \<Rightarrow> min d (m + 1))" for t
    using assms unfolding dist_le_def
    by (cases "dist_of old t"; cases "dist_of new t") fastforce+
  then show ?thesis unfolding hop_room_def by (intro sum_mono)
qed

lemma hop_room_less:
  assumes "dist_le new old" and "t \<in> e_target ` set edges" and "dist_of new t = Some d" and "d \<le> m"
    and "\<And>d'. dist_of old t = Some d' \<Longrightarrow> d < d'"
  shows "hop_room m edges new < hop_room m edges old"
proof -
  let ?f = "\<lambda>labels t. case dist_of labels t of None \<Rightarrow> m + 1 | Some d \<Rightarrow> min d (m + 1)"
  have le: "?f new t \<le> ?f old t" for t
    using assms(1) unfolding dist_le_def
    by (cases "dist_of old t"; cases "dist_of new t") fastforce+
  have "?f new t < ?f old t"
    using assms(3-5) by (cases "dist_of old t") auto
  then show ?thesis
    unfolding hop_room_def using le assms(2) by (intro sum_strict_mono_ex1) auto
qed

lemma relax_dist:
  assumes "relax known src e (labels, queue) = (labels', queue')"
    and "dist_of labels src = Some d" and "d < m" and "e \<in> set edges"
  shows "dist_of labels' src = Some d \<and> dist_le labels' labels \<and>
    (hop_room m edges labels' < hop_room m edges labels \<or>
     dist_of labels' = dist_of labels \<and>
       (queue' = queue \<or> queue' = queue @ [e_target e] \<and> dist_of labels (e_target e) = Some (d + 1)))"
proof -
  obtain l where l: "map_of labels src = Some l" "distance l = d"
    using assms(2) by (auto simp: dist_of_def)
  let ?t = "e_target e" and ?new = "next_label l e"
  have dn: "distance ?new = d + 1" using l by (simp add: next_label_def)
  show ?thesis
  proof (cases "known ?t \<and> is_better ?new (map_of labels ?t)")
    case False
    then have "labels' = labels" "queue' = queue"
      using assms(1) l by (auto simp: relax_def Let_def split: if_splits)
    then show ?thesis using assms(2) by (simp add: dist_le_refl)
  next
    case True
    then have upd: "labels' = AList.update ?t ?new labels" "queue' = queue @ [?t]"
      using assms(1) l by (auto simp: relax_def Let_def)
    have old: "d + 1 \<le> d'" if "dist_of labels ?t = Some d'" for d'
      using that True dn by (auto simp: dist_of_def is_better_def)
    then have le: "dist_le labels' labels"
      by (auto simp: dist_le_def upd dist_of_update dn)
    have "?t \<noteq> src" using old [of d] assms(2) by auto
    then have src: "dist_of labels' src = Some d" using assms(2) by (simp add: upd dist_of_update)
    show ?thesis
    proof (cases "dist_of labels ?t = Some (d + 1)")
      case True
      then have "dist_of labels' = dist_of labels" by (auto simp: upd dist_of_update dn)
      with True upd src le show ?thesis by simp
    next
      case False
      then have "hop_room m edges labels' < hop_room m edges labels"
        using old assms(3,4) le
        by (intro hop_room_less [of _ _ ?t _ "d + 1"]) (auto simp: upd dist_of_update dn le_less)
      with src le show ?thesis by simp
    qed
  qed
qed

lemma fold_relax_dist:
  assumes "fold (relax known src) es (labels, queue) = (labels', queue')"
    and "dist_of labels src = Some d" and "d < m" and "set es \<subseteq> set edges"
  shows "dist_of labels' src = Some d \<and> dist_le labels' labels \<and>
    (hop_room m edges labels' < hop_room m edges labels \<or>
     dist_of labels' = dist_of labels \<and>
       (\<exists>xs. queue' = queue @ xs \<and> length xs \<le> length es \<and> (\<forall>x\<in>set xs. dist_of labels x = Some (d + 1))))"
  using assms
proof (induction es arbitrary: labels queue)
  case Nil
  then show ?case by (simp add: dist_le_refl)
next
  case (Cons e es)
  obtain l1 q1 where st: "relax known src e (labels, queue) = (l1, q1)" by force
  with Cons.prems have run: "fold (relax known src) es (l1, q1) = (labels', queue')" by simp
  have one: "dist_of l1 src = Some d" "dist_le l1 labels"
    "hop_room m edges l1 < hop_room m edges labels \<or> dist_of l1 = dist_of labels \<and>
       (q1 = queue \<or> q1 = queue @ [e_target e] \<and> dist_of labels (e_target e) = Some (d + 1))"
    using relax_dist [OF st Cons.prems(2,3), of edges] Cons.prems(4) by auto
  have rest: "dist_of labels' src = Some d" "dist_le labels' l1"
    "hop_room m edges labels' < hop_room m edges l1 \<or> dist_of labels' = dist_of l1 \<and>
       (\<exists>xs. queue' = q1 @ xs \<and> length xs \<le> length es \<and> (\<forall>x\<in>set xs. dist_of l1 x = Some (d + 1)))"
    using Cons.IH [OF run one(1) Cons.prems(3)] Cons.prems(4) by auto
  have room: "hop_room m edges l1 \<le> hop_room m edges labels" "hop_room m edges labels' \<le> hop_room m edges l1"
    using one(2) rest(2) by (simp_all add: hop_room_mono)
  show ?case
  proof (cases "hop_room m edges labels' < hop_room m edges labels")
    case True
    with rest one show ?thesis using dist_le_trans by blast
  next
    case False
    with one(3) rest(3) room have eq: "dist_of l1 = dist_of labels" "dist_of labels' = dist_of l1"
      and q: "q1 = queue \<or> q1 = queue @ [e_target e] \<and> dist_of labels (e_target e) = Some (d + 1)"
      and x: "\<exists>xs. queue' = q1 @ xs \<and> length xs \<le> length es \<and> (\<forall>x\<in>set xs. dist_of labels x = Some (d + 1))"
      by auto
    from x obtain xs where xs: "queue' = q1 @ xs" "length xs \<le> length es"
      "\<forall>x\<in>set xs. dist_of labels x = Some (d + 1)" by blast
    from q have "\<exists>ys. queue' = queue @ ys \<and> length ys \<le> length (e # es) \<and>
        (\<forall>x\<in>set ys. dist_of labels x = Some (d + 1))"
      using xs by (elim disjE conjE) (rule exI [of _ xs], simp, rule exI [of _ "e_target e # xs"], simp)
    with eq rest one dist_le_trans show ?thesis by metis
  qed
qed

lemma set_adjacency: "set (adjacency edges s) \<subseteq> set edges"
  by (auto simp: adjacency_def)

lemma length_adjacency: "length (adjacency edges s) \<le> length edges"
  by (simp add: adjacency_def)

lemma expand_decreases:
  assumes "expand known edges src (labels, queue) = (labels', queue')"
    and "dist_of labels src = Some d" and "d < m"
  shows "hop_room m edges labels' < hop_room m edges labels \<or>
    hop_room m edges labels' = hop_room m edges labels \<and>
    queue_weight m edges labels' queue' < queue_weight m edges labels (src # queue)"
proof -
  from fold_relax_dist [OF assms(1) [unfolded expand_def] assms(2,3) set_adjacency]
  consider "hop_room m edges labels' < hop_room m edges labels"
    | xs where "dist_of labels' = dist_of labels" "queue' = queue @ xs"
        "length xs \<le> length (adjacency edges src)" "\<forall>x\<in>set xs. dist_of labels x = Some (d + 1)"
    by auto
  then show ?thesis
  proof cases
    case 1
    then show ?thesis by simp
  next
    case 2
    let ?b = "length edges + 1"
    have "sum_list (map (\<lambda>s. ?b ^ (m - the (dist_of labels s))) xs) = length xs * ?b ^ (m - (d + 1))"
      using 2(4) by (induction xs) auto
    also have "\<dots> \<le> length edges * ?b ^ (m - (d + 1))"
      using 2(3) length_adjacency [of edges src] by (intro mult_right_mono) linarith+
    also have "\<dots> < ?b * ?b ^ (m - (d + 1))" by simp
    also have "\<dots> = ?b ^ (m - d)"
      using assms(3) by (metis Suc_diff_Suc Suc_eq_plus1 power_Suc)
    finally show ?thesis
      using 2(1,2) assms(2) by (simp add: queue_weight_def hop_room_def)
  qed
qed

function bfs :: "(string \<Rightarrow> bool) \<Rightarrow> edge list \<Rightarrow> nat \<Rightarrow> labels \<Rightarrow> string list \<Rightarrow> labels" where
  "bfs known edges max_hops labels [] = labels"
| "bfs known edges max_hops labels (src # queue) =
     (case map_of labels src of
        None \<Rightarrow> bfs known edges max_hops labels queue
      | Some l \<Rightarrow>
          if distance l \<ge> max_hops then bfs known edges max_hops labels queue
          else bfs known edges max_hops (fst (expand known edges src (labels, queue)))
                 (snd (expand known edges src (labels, queue))))"
  by pat_completeness auto
termination
proof (relation "measures [\<lambda>(known, edges, m, labels, queue). hop_room m edges labels,
                           \<lambda>(known, edges, m, labels, queue). queue_weight m edges labels queue]", goal_cases)
  case 1
  then show ?case by simp
next
  case (2 known edges m labels src queue)
  then show ?case by (simp add: queue_weight_def)
next
  case (3 known edges m labels src queue l)
  then show ?case by (simp add: queue_weight_def)
next
  case (4 known edges m labels src queue l)
  then have "dist_of labels src = Some (distance l)" "distance l < m" by (auto simp: dist_of_def)
  with expand_decreases [of known edges src labels queue _ _ "distance l" m]
  show ?case by (cases "expand known edges src (labels, queue)") auto
qed

section \<open>The result\<close>

definition tier_factor :: "int \<Rightarrow> rat" where
  "tier_factor n = dict_get [(1, 1), (2, fl (92 / 100)), (3, fl (82 / 100))] n (fl (82 / 100))"

definition health_factor :: "string \<Rightarrow> rat" where
  "health_factor h = dict_get [(''critical'', fl (120 / 100)), (''degraded'', fl (110 / 100)), (''healthy'', 1),
     (''unknown'', fl (90 / 100))] h (fl (90 / 100))"

definition impact_score :: "(rat \<Rightarrow> nat \<Rightarrow> rat) \<Rightarrow> rat \<Rightarrow> node \<Rightarrow> label \<Rightarrow> int" where
  "impact_score pow decay n l =
     (if distance l = 0 then 100
      else round_half_even (clamp
        (fl (fl (fl (fl (100 * pow decay (distance l)) * path_confidence l)
                 * tier_factor (tier_number (str_of_tier (n_tier n))))
             * health_factor (py_lower (opt_or (n_health n) ''unknown'')))) 0 100))"

record blast_node =
  b_id :: string
  b_label :: string
  b_kind :: string
  b_team :: string
  b_tier :: string
  b_health :: string
  b_impact_score :: int
  b_hop_distance :: nat
  b_evidence_ids :: "string list"

record blast_edge =
  b_source :: string
  b_target :: string
  b_relation :: string
  b_confidence :: rat
  b_active :: bool

definition result_node :: "(rat \<Rightarrow> nat \<Rightarrow> rat) \<Rightarrow> rat \<Rightarrow> string \<Rightarrow> string \<Rightarrow> node \<Rightarrow> label \<Rightarrow> blast_node" where
  "result_node pow decay prefix s n l =
     \<lparr> b_id = s, b_label = opt_or (n_label n) s, b_kind = opt_or (n_kind n) ''service'',
       b_team = opt_or (n_team n) ''Unassigned'', b_tier = opt_or (n_tier n) ''tier-3'',
       b_health = opt_or (n_health n) ''unknown'', b_impact_score = impact_score pow decay n l,
       b_hop_distance = distance l, b_evidence_ids = [prefix @ ''-'' @ origin l @ ''-'' @ s] \<rparr>"

definition sorted_services :: "labels \<Rightarrow> string list" where
  "sorted_services labels = sort_key (\<lambda>s. (the (dist_of labels s), s)) (map fst labels)"

definition result_edges :: "labels \<Rightarrow> edge list \<Rightarrow> blast_edge list" where
  "result_edges labels edges =
     sort_key (\<lambda>e. (b_source e, b_target e))
       (map (\<lambda>e. \<lparr> b_source = e_source e, b_target = e_target e, b_relation = edge_relation e,
                    b_confidence = py_round 2 (edge_confidence e), b_active = edge_active e \<rparr>)
         (filter (\<lambda>e. edge_active e \<and>
            (case (dist_of labels (e_source e), dist_of labels (e_target e)) of
               (Some ds, Some dt) \<Rightarrow> dt = ds + 1 | _ \<Rightarrow> False)) edges))"

definition blast_labels :: "node list \<Rightarrow> edge list \<Rightarrow> string list \<Rightarrow> nat \<Rightarrow> labels" where
  "blast_labels nodes edges changed max_hops =
     bfs (\<lambda>s. nodes_by_id nodes changed s \<noteq> None) edges max_hops (initial_labels changed) (seeds changed)"

definition calculate_blast_radius ::
  "(rat \<Rightarrow> nat \<Rightarrow> rat) \<Rightarrow> node list \<Rightarrow> edge list \<Rightarrow> string list \<Rightarrow> string \<Rightarrow> nat \<Rightarrow> rat \<Rightarrow>
   blast_node list \<times> blast_edge list" where
  "calculate_blast_radius pow nodes edges changed prefix max_hops decay =
     (let labels = blast_labels nodes edges changed max_hops in
      (concat (map (\<lambda>s. case (nodes_by_id nodes changed s, map_of labels s) of
          (Some n, Some l) \<Rightarrow> [result_node pow decay prefix s n l] | _ \<Rightarrow> []) (sorted_services labels)),
       result_edges labels edges))"

section \<open>The labels are the best ones\<close>

text \<open>A route to a service, with the label it gives: from a changed service along active edges into
  known services.\<close>

inductive route :: "(string \<Rightarrow> bool) \<Rightarrow> edge list \<Rightarrow> string list \<Rightarrow> string \<Rightarrow> label \<Rightarrow> bool"
  for known edges changed where
  start: "s \<in> set changed \<Longrightarrow> route known edges changed s \<lparr> distance = 0, path_confidence = 1, origin = s \<rparr>"
| hop: "route known edges changed (e_source e) l \<Longrightarrow> e \<in> set edges \<Longrightarrow> edge_active e \<Longrightarrow> known (e_target e) \<Longrightarrow>
        route known edges changed (e_target e) (next_label l e)"

definition as_good :: "label \<Rightarrow> label \<Rightarrow> bool" where
  "as_good l l' \<longleftrightarrow> distance l < distance l' \<or> distance l = distance l' \<and> path_confidence l' \<le> path_confidence l"

lemma as_good_refl [simp]: "as_good l l"
  by (simp add: as_good_def)

lemma as_good_trans: "as_good a b \<Longrightarrow> as_good b c \<Longrightarrow> as_good a c"
  by (auto simp: as_good_def)

lemma is_better_iff: "is_better new (Some l) \<longleftrightarrow> \<not> as_good l new"
  by (auto simp: is_better_def as_good_def)

lemma edge_confidence_unit: "0 \<le> edge_confidence e \<and> edge_confidence e \<le> 1"
  unfolding edge_confidence_def by (rule unit_clamp)

lemma next_label_mono: "as_good l l' \<Longrightarrow> as_good (next_label l e) (next_label l' e)"
  using edge_confidence_unit [of e]
  by (auto simp: as_good_def next_label_def intro!: fl_mono mult_right_mono)

definition relaxed :: "labels \<Rightarrow> edge \<Rightarrow> label \<Rightarrow> bool" where
  "relaxed labels e l \<longleftrightarrow> (\<exists>l'. map_of labels (e_target e) = Some l' \<and> as_good l' (next_label l e))"

text \<open>From one state of the loop to a later one: labels only improve, and what improved is queued.\<close>

definition progress :: "labels \<times> string list \<Rightarrow> labels \<times> string list \<Rightarrow> bool" where
  "progress st st' \<longleftrightarrow> set (snd st) \<subseteq> set (snd st') \<and>
     (\<forall>s l. map_of (fst st) s = Some l \<longrightarrow> (\<exists>l'. map_of (fst st') s = Some l' \<and> as_good l' l)) \<and>
     (\<forall>s. s \<notin> set (snd st') \<longrightarrow> map_of (fst st') s = map_of (fst st) s)"

lemma progress_refl: "progress st st"
  by (auto simp: progress_def)

lemma progress_trans: "progress a b \<Longrightarrow> progress b c \<Longrightarrow> progress a c"
proof -
  assume ab: "progress a b" and bc: "progress b c"
  have "\<exists>l'. map_of (fst c) s = Some l' \<and> as_good l' l" if "map_of (fst a) s = Some l" for s l
    using ab bc that unfolding progress_def by (meson as_good_trans)
  moreover have "set (snd a) \<subseteq> set (snd c)" using ab bc by (auto simp: progress_def)
  moreover have "map_of (fst c) s = map_of (fst a) s" if "s \<notin> set (snd c)" for s
    using ab bc that by (auto simp: progress_def)
  ultimately show "progress a c" by (simp add: progress_def)
qed

lemma relaxed_progress: "relaxed (fst st) e l \<Longrightarrow> progress st st' \<Longrightarrow> relaxed (fst st') e l"
  unfolding relaxed_def progress_def by (meson as_good_trans)

lemma relax_step:
  assumes "map_of (fst st) src = Some l"
  shows "progress st (relax known src e st) \<and> map_of (fst (relax known src e st)) src = Some l \<and>
    (known (e_target e) \<longrightarrow> relaxed (fst (relax known src e st)) e l)"
proof (cases "known (e_target e) \<and> is_better (next_label l e) (map_of (fst st) (e_target e))")
  case False
  then have eq: "relax known src e st = st"
    using assms by (auto simp: relax_def Let_def split: prod.splits)
  have "relaxed (fst st) e l" if "known (e_target e)"
    using that False by (cases "map_of (fst st) (e_target e)") (auto simp: relaxed_def is_better_iff, simp add: is_better_def)
  with eq assms show ?thesis by (simp add: progress_refl)
next
  case True
  have eq: "relax known src e st = (AList.update (e_target e) (next_label l e) (fst st), snd st @ [e_target e])"
    using True assms by (auto simp: relax_def Let_def split: prod.splits)
  have "e_target e \<noteq> src"
    using True assms by (auto simp: is_better_def next_label_def)
  moreover have "as_good (next_label l e) l'" if "map_of (fst st) (e_target e) = Some l'" for l'
    using that True by (auto simp: is_better_iff as_good_def)
  ultimately show ?thesis
    using assms by (auto simp: eq progress_def relaxed_def update_conv')
qed

lemma fold_relax_step:
  assumes "map_of (fst st) src = Some l"
  shows "progress st (fold (relax known src) es st) \<and> map_of (fst (fold (relax known src) es st)) src = Some l \<and>
    (\<forall>e\<in>set es. known (e_target e) \<longrightarrow> relaxed (fst (fold (relax known src) es st)) e l)"
  using assms
proof (induction es arbitrary: st)
  case Nil
  then show ?case by (simp add: progress_refl)
next
  case (Cons e es)
  from relax_step [OF Cons.prems, of known e] Cons.IH [of "relax known src e st"]
  show ?case by (auto intro: progress_trans relaxed_progress)
qed

text \<open>The invariant of the loop.\<close>

definition bfs_inv :: "(string \<Rightarrow> bool) \<Rightarrow> edge list \<Rightarrow> string list \<Rightarrow> nat \<Rightarrow> labels \<Rightarrow> string list \<Rightarrow> bool" where
  "bfs_inv known edges changed m labels queue \<longleftrightarrow>
     distinct (map fst labels) \<and>
     (\<forall>s l. map_of labels s = Some l \<longrightarrow> route known edges changed s l \<and> distance l \<le> m) \<and>
     (\<forall>s\<in>set changed. \<exists>l. map_of labels s = Some l \<and> as_good l \<lparr> distance = 0, path_confidence = 1, origin = s \<rparr>) \<and>
     (\<forall>s\<in>set queue. map_of labels s \<noteq> None) \<and>
     (\<forall>e l. e \<in> set edges \<longrightarrow> edge_active e \<longrightarrow> known (e_target e) \<longrightarrow> map_of labels (e_source e) = Some l \<longrightarrow>
        e_source e \<notin> set queue \<longrightarrow> distance l < m \<longrightarrow> relaxed labels e l)"

text \<open>The part of the invariant every single relaxation keeps.\<close>

definition sound_labels :: "(string \<Rightarrow> bool) \<Rightarrow> edge list \<Rightarrow> string list \<Rightarrow> nat \<Rightarrow> labels \<times> string list \<Rightarrow> bool" where
  "sound_labels known edges changed m st \<longleftrightarrow> distinct (map fst (fst st)) \<and>
     (\<forall>s l. map_of (fst st) s = Some l \<longrightarrow> route known edges changed s l \<and> distance l \<le> m) \<and>
     (\<forall>s\<in>set (snd st). map_of (fst st) s \<noteq> None)"

lemma relax_sound:
  assumes "sound_labels known edges changed m st" and "map_of (fst st) (e_source e) = Some l" and "distance l < m"
    and "e \<in> set edges" and "edge_active e"
  shows "sound_labels known edges changed m (relax known (e_source e) e st)"
proof (cases "known (e_target e) \<and> is_better (next_label l e) (map_of (fst st) (e_target e))")
  case False
  with assms(1,2) show ?thesis by (auto simp: relax_def Let_def split: prod.splits)
next
  case True
  have eq: "relax known (e_source e) e st =
      (AList.update (e_target e) (next_label l e) (fst st), snd st @ [e_target e])"
    using True assms(2) by (auto simp: relax_def Let_def split: prod.splits)
  have "route known edges changed (e_source e) l" using assms(1,2) by (auto simp: sound_labels_def)
  then have "route known edges changed (e_target e) (next_label l e)"
    using assms(4,5) True by (auto intro: route.hop)
  moreover have "distance (next_label l e) \<le> m" using assms(3) by (simp add: next_label_def)
  ultimately show ?thesis
    using assms(1) by (auto simp: eq sound_labels_def update_conv' distinct_update)
qed

lemma fold_relax_sound:
  assumes "sound_labels known edges changed m st" and "map_of (fst st) src = Some l" and "distance l < m"
    and "\<forall>e\<in>set es. e \<in> set edges \<and> edge_active e \<and> e_source e = src"
  shows "sound_labels known edges changed m (fold (relax known src) es st)"
  using assms
proof (induction es arbitrary: st)
  case (Cons e es)
  have "sound_labels known edges changed m (relax known src e st)"
    using relax_sound [of known edges changed m st e l] Cons.prems by auto
  moreover have "map_of (fst (relax known src e st)) src = Some l"
    using relax_step [OF Cons.prems(2)] by blast
  ultimately show ?case using Cons.IH Cons.prems by simp
qed simp

lemma adjacency_iff: "e \<in> set (adjacency edges s) \<longleftrightarrow> e \<in> set edges \<and> edge_active e \<and> e_source e = s"
  by (auto simp: adjacency_def)

lemma bfs_inv_skip:
  assumes "bfs_inv known edges changed m labels (src # queue)"
    and "\<And>l. map_of labels src = Some l \<Longrightarrow> m \<le> distance l"
  shows "bfs_inv known edges changed m labels queue"
  using assms unfolding bfs_inv_def by (metis leD list.set_intros(2) set_ConsD)

lemma bfs_inv_expand:
  assumes inv: "bfs_inv known edges changed m labels (src # queue)"
    and l: "map_of labels src = Some l" "distance l < m"
    and st: "expand known edges src (labels, queue) = (labels', queue')"
  shows "bfs_inv known edges changed m labels' queue'"
proof -
  have step: "progress (labels, queue) (labels', queue')" "map_of labels' src = Some l"
    "\<forall>e\<in>set (adjacency edges src). known (e_target e) \<longrightarrow> relaxed labels' e l"
    using fold_relax_step [of "(labels, queue)" src l known "adjacency edges src"] l st
    by (auto simp: expand_def)
  have "sound_labels known edges changed m (labels, queue)"
    using inv unfolding sound_labels_def bfs_inv_def fst_conv snd_conv by (meson list.set_intros(2))
  then have "sound_labels known edges changed m (labels', queue')"
    using fold_relax_sound [of known edges changed m "(labels, queue)" src l "adjacency edges src"] l st
    by (simp add: expand_def adjacency_iff)
  moreover have "relaxed labels' e k"
    if "e \<in> set edges" "edge_active e" "known (e_target e)" "map_of labels' (e_source e) = Some k"
      "e_source e \<notin> set queue'" "distance k < m" for e k
  proof (cases "e_source e = src")
    case True
    with that step show ?thesis by (auto simp: adjacency_iff)
  next
    case False
    have "map_of labels (e_source e) = Some k" "e_source e \<notin> set queue"
      using that step(1) by (auto simp: progress_def)
    then have "relaxed labels e k"
      using inv that False by (auto simp: bfs_inv_def)
    with relaxed_progress [of "(labels, queue)" e k "(labels', queue')"] step(1) show ?thesis by simp
  qed
  moreover have "\<exists>k. map_of labels' s = Some k \<and> as_good k \<lparr> distance = 0, path_confidence = 1, origin = s \<rparr>"
    if "s \<in> set changed" for s
    using inv step(1) that unfolding bfs_inv_def progress_def by (metis as_good_trans fst_conv)
  ultimately show ?thesis unfolding bfs_inv_def sound_labels_def fst_conv snd_conv by blast
qed

lemma bfs_inv_final:
  "bfs_inv known edges changed m labels queue \<Longrightarrow>
   bfs_inv known edges changed m (bfs known edges m labels queue) []"
proof (induction known edges m labels queue rule: bfs.induct)
  case (1 known edges m labels)
  then show ?case by simp
next
  case (2 known edges m labels src queue)
  show ?case
  proof (cases "map_of labels src")
    case None
    with "2.prems" show ?thesis by (simp add: bfs_inv_def)
  next
    case (Some l)
    show ?thesis
    proof (cases "m \<le> distance l")
      case True
      with Some "2.IH"(2) [OF Some True] bfs_inv_skip [OF "2.prems"] show ?thesis by simp
    next
      case False
      with Some bfs_inv_expand [OF "2.prems" Some] "2.IH"(3) [OF Some False] show ?thesis
        by (cases "expand known edges src (labels, queue)") simp
    qed
  qed
qed

lemma bfs_inv_initial: "bfs_inv known edges changed m (initial_labels changed) (seeds changed)"
proof -
  have m: "map_of (initial_labels changed) s =
      (if s \<in> set changed then Some \<lparr> distance = 0, path_confidence = 1, origin = s \<rparr> else None)" for s
    using map_of_map_restrict [of "\<lambda>s. \<lparr> distance = 0, path_confidence = 1, origin = s \<rparr>" "seeds changed"]
    by (simp add: initial_labels_def seeds_def restrict_map_def comp_def)
  have "distinct (map fst (initial_labels changed))"
    by (simp add: initial_labels_def seeds_def comp_def)
  then show ?thesis
    by (auto simp: bfs_inv_def m seeds_def intro: route.start)
qed

lemma blast_labels_inv:
  "bfs_inv (\<lambda>s. nodes_by_id nodes changed s \<noteq> None) edges changed m (blast_labels nodes edges changed m) []"
  unfolding blast_labels_def by (rule bfs_inv_final) (rule bfs_inv_initial)

lemma bfs_inv_complete:
  assumes "bfs_inv known edges changed m labels []" and "route known edges changed s l" and "distance l \<le> m"
  shows "\<exists>l'. map_of labels s = Some l' \<and> as_good l' l"
  using assms(2,3)
proof (induction rule: route.induct)
  case (start s)
  with assms(1) show ?case by (auto simp: bfs_inv_def)
next
  case (hop e l)
  then have "distance l < m" by (simp add: next_label_def)
  with hop.IH obtain l' where l': "map_of labels (e_source e) = Some l'" "as_good l' l" by auto
  then have "distance l' < m" using \<open>distance l < m\<close> by (auto simp: as_good_def)
  with assms(1) hop.hyps l' have "relaxed labels e l'" by (auto simp: bfs_inv_def)
  then show ?case
    using next_label_mono [OF l'(2), of e] by (auto simp: relaxed_def intro: as_good_trans)
qed

lemma route_known: "route known edges changed s l \<Longrightarrow> s \<in> set changed \<or> known s"
  by (induction rule: route.induct) auto

lemma route_confidence_unit: "route known edges changed s l \<Longrightarrow> 0 \<le> path_confidence l \<and> path_confidence l \<le> 1"
proof (induction rule: route.induct)
  case (hop e l)
  with edge_confidence_unit [of e] have "0 \<le> path_confidence l * edge_confidence e"
    "path_confidence l * edge_confidence e \<le> 1"
    by (auto intro: mult_le_one)
  then show ?case using b64.rnd_unit by (simp add: next_label_def)
qed simp

text \<open>The hop count of a service: some route has it and none has fewer.\<close>

definition least_hops :: "node list \<Rightarrow> edge list \<Rightarrow> string list \<Rightarrow> string \<Rightarrow> nat \<Rightarrow> bool" where
  "least_hops nodes edges changed s d \<longleftrightarrow>
     (let reach = route (\<lambda>s. nodes_by_id nodes changed s \<noteq> None) edges changed s in
      (\<exists>l. reach l \<and> distance l = d) \<and> (\<forall>l. reach l \<longrightarrow> d \<le> distance l))"

lemma dist_of_least_hops:
  "dist_of (blast_labels nodes edges changed m) s = Some d \<longleftrightarrow> d \<le> m \<and> least_hops nodes edges changed s d"
proof -
  define reach where "reach = route (\<lambda>s. nodes_by_id nodes changed s \<noteq> None) edges changed s"
  note inv = blast_labels_inv [of nodes changed edges m]
  have sound: "reach l \<and> distance l \<le> m" if "map_of (blast_labels nodes edges changed m) s = Some l" for l
    using inv that by (simp add: bfs_inv_def reach_def)
  have complete: "\<exists>l'. map_of (blast_labels nodes edges changed m) s = Some l' \<and> distance l' \<le> distance l"
    if "reach l" "distance l \<le> m" for l
    using bfs_inv_complete [OF inv that(1) [unfolded reach_def] that(2)] by (auto simp: as_good_def)
  show ?thesis
    unfolding least_hops_def reach_def [symmetric] Let_def dist_of_def
  proof (intro iffI conjI allI impI)
    assume "map_option distance (map_of (blast_labels nodes edges changed m) s) = Some d"
    then obtain l where l: "map_of (blast_labels nodes edges changed m) s = Some l" "distance l = d" by auto
    with sound show "d \<le> m" "\<exists>l. reach l \<and> distance l = d" by auto
    fix k assume "reach k"
    with complete [of k] l \<open>d \<le> m\<close> show "d \<le> distance k" by (cases "distance k \<le> m") auto
  next
    assume asm: "d \<le> m \<and> (\<exists>l. reach l \<and> distance l = d) \<and> (\<forall>l. reach l \<longrightarrow> d \<le> distance l)"
    then obtain k where "reach k" "distance k = d" by blast
    with complete [of k] asm obtain l where "map_of (blast_labels nodes edges changed m) s = Some l" "distance l \<le> d" by auto
    with sound [of l] asm show "map_option distance (map_of (blast_labels nodes edges changed m) s) = Some d"
      by (simp add: le_antisym)
  qed
qed

lemma label_known:
  assumes "map_of (blast_labels nodes edges changed m) s = Some l"
  shows "nodes_by_id nodes changed s \<noteq> None"
proof -
  have "route (\<lambda>s. nodes_by_id nodes changed s \<noteq> None) edges changed s l"
    using blast_labels_inv [of nodes changed edges m] assms by (simp add: bfs_inv_def)
  then show ?thesis
    by (auto dest!: route_known simp: nodes_by_id_def split: option.splits if_splits)
qed

lemma sorted_services_iff: "s \<in> set (sorted_services labels) \<longleftrightarrow> (\<exists>l. map_of labels s = Some l)"
  by (simp add: sorted_services_def) (metis domD domI dom_map_of_conv_image_fst)

lemma concat_map_singleton: "(\<And>x. x \<in> set xs \<Longrightarrow> f x = [g x]) \<Longrightarrow> concat (map f xs) = map g xs"
  by (induction xs) auto

text \<open>No labelled service is left out of the result: the lookups of the source never miss.\<close>

lemma blast_nodes_eq:
  "fst (calculate_blast_radius pow nodes edges changed prefix m decay) =
     map (\<lambda>s. result_node pow decay prefix s (the (nodes_by_id nodes changed s))
                (the (map_of (blast_labels nodes edges changed m) s)))
       (sorted_services (blast_labels nodes edges changed m))"
proof -
  have "\<exists>n l. nodes_by_id nodes changed s = Some n \<and> map_of (blast_labels nodes edges changed m) s = Some l"
    if "s \<in> set (sorted_services (blast_labels nodes edges changed m))" for s
    using that label_known by (auto simp: sorted_services_iff)
  then show ?thesis
    unfolding calculate_blast_radius_def Let_def fst_conv
    by (intro concat_map_singleton) fastforce
qed

lemma blast_reported_iff:
  "(s, d) \<in> (\<lambda>n. (b_id n, b_hop_distance n)) `
       set (fst (calculate_blast_radius pow nodes edges changed prefix m decay)) \<longleftrightarrow>
     dist_of (blast_labels nodes edges changed m) s = Some d"
  unfolding blast_nodes_eq by (auto simp: result_node_def sorted_services_iff dist_of_def image_iff)

text \<open>A service at the end of a route within the hop limit is reported, no further away than the route.\<close>

lemma route_reported:
  assumes "route (\<lambda>s. nodes_by_id nodes changed s \<noteq> None) edges changed s l" and "distance l \<le> m"
  shows "\<exists>d\<le>distance l. (s, d) \<in> (\<lambda>n. (b_id n, b_hop_distance n)) `
    set (fst (calculate_blast_radius pow nodes edges changed prefix m decay))"
proof -
  obtain l' where "map_of (blast_labels nodes edges changed m) s = Some l'" "as_good l' l"
    using bfs_inv_complete [OF blast_labels_inv assms] by blast
  then show ?thesis unfolding blast_reported_iff by (auto simp: dist_of_def as_good_def)
qed

lemma impact_score_bounds: "0 \<le> impact_score pow decay n l \<and> impact_score pow decay n l \<le> 100"
  by (simp add: impact_score_def round_clamp_100)

section \<open>Properties of the blast radius\<close>

text \<open>
  C8. The blast radius is exact: a service is reported with hop distance \<open>d\<close> if and only if \<open>d\<close> is the
  least number of active edges on a route to it from a changed service through known services, and
  \<open>d\<close> is within the hop limit.
\<close>
theorem blast_radius_exact:
  "(s, d) \<in> (\<lambda>n. (b_id n, b_hop_distance n)) `
       set (fst (calculate_blast_radius pow nodes edges changed prefix m decay)) \<longleftrightarrow>
     d \<le> m \<and> least_hops nodes edges changed s d"
  by (simp only: blast_reported_iff dist_of_least_hops)

text \<open>
  The reported services are pairwise distinct and ordered by hop distance and then by id, and every
  impact score lies between 0 and 100, whatever the decay, the confidences and the platform's power
  function.
\<close>
theorem blast_radius_ordered:
  "distinct (map b_id (fst (calculate_blast_radius pow nodes edges changed prefix m decay))) \<and>
   sorted (map (\<lambda>n. (b_hop_distance n, b_id n)) (fst (calculate_blast_radius pow nodes edges changed prefix m decay))) \<and>
   list_all (\<lambda>n. 0 \<le> b_impact_score n \<and> b_impact_score n \<le> 100)
     (fst (calculate_blast_radius pow nodes edges changed prefix m decay))"
proof -
  let ?labels = "blast_labels nodes edges changed m"
  have "distinct (map fst ?labels)"
    using blast_labels_inv [of nodes changed edges m] by (simp add: bfs_inv_def)
  moreover have "map (\<lambda>s. (distance (the (map_of ?labels s)), s)) (sorted_services ?labels) =
      map (\<lambda>s. (the (dist_of ?labels s), s)) (sorted_services ?labels)"
    by (auto simp: sorted_services_iff dist_of_def)
  moreover have "sorted (map (\<lambda>s. (the (dist_of ?labels s), s)) (sorted_services ?labels))"
    unfolding sorted_services_def by (rule sorted_sort_key)
  moreover have "distinct (map fst ?labels) \<Longrightarrow> distinct (sorted_services ?labels)"
    by (simp add: sorted_services_def)
  ultimately show ?thesis
    unfolding blast_nodes_eq
    by (simp only: result_node_def map_map comp_def list_all_iff impact_score_bounds blast_node.select_convs
        list.map_ident set_map ball_simps simp_thms) simp
qed

text \<open>
  The confidence a service is labelled with is the best one: no route to the service is shorter, and
  no route of the same length has a greater confidence; it lies between 0 and 1. A confidence improved
  late is carried on to the services behind it, because the service is queued again.
\<close>
theorem blast_confidence_best:
  assumes "map_of (blast_labels nodes edges changed m) s = Some l"
    and "route (\<lambda>s. nodes_by_id nodes changed s \<noteq> None) edges changed s l'"
  shows "as_good l l' \<and> 0 \<le> path_confidence l \<and> path_confidence l \<le> 1"
proof -
  note inv = blast_labels_inv [of nodes changed edges m]
  have l: "route (\<lambda>s. nodes_by_id nodes changed s \<noteq> None) edges changed s l" "distance l \<le> m"
    using inv assms(1) by (simp_all add: bfs_inv_def)
  have "as_good l l'"
  proof (cases "distance l' \<le> m")
    case True
    with bfs_inv_complete [OF inv assms(2)] assms(1) show ?thesis by simp
  next
    case False
    with l show ?thesis by (simp add: as_good_def)
  qed
  with route_confidence_unit [OF l(1)] show ?thesis by simp
qed

definition sample_edge :: edge where
  "sample_edge = \<lparr> e_source = ''api'', e_target = ''web'', e_relation = None, e_confidence = Some 1, e_active = None \<rparr>"

definition sample_nodes :: "node list" where
  "sample_nodes = [default_node ''api'', default_node ''web'']"

lemma sample_labels: "map_of (blast_labels sample_nodes [sample_edge] [''api''] 4) ''web'' =
    Some \<lparr> distance = 1, path_confidence = 1, origin = ''api'' \<rparr>"
  by code_simp

theorem blast_confidence_best_witness:
  "as_good \<lparr> distance = 1, path_confidence = 1, origin = ''api'' \<rparr>
     (next_label \<lparr> distance = 0, path_confidence = 1, origin = ''api'' \<rparr> sample_edge)"
proof -
  have "route (\<lambda>s. nodes_by_id sample_nodes [''api''] s \<noteq> None) [sample_edge] [''api''] (e_target sample_edge)
      (next_label \<lparr> distance = 0, path_confidence = 1, origin = ''api'' \<rparr> sample_edge)"
  proof (rule route.hop)
    have "route (\<lambda>s. nodes_by_id sample_nodes [''api''] s \<noteq> None) [sample_edge] [''api''] ''api''
        \<lparr> distance = 0, path_confidence = 1, origin = ''api'' \<rparr>"
      by (rule route.start) simp
    then show "route (\<lambda>s. nodes_by_id sample_nodes [''api''] s \<noteq> None) [sample_edge] [''api'']
        (e_source sample_edge) \<lparr> distance = 0, path_confidence = 1, origin = ''api'' \<rparr>"
      by (simp add: sample_edge_def)
  qed (simp_all add: sample_edge_def edge_active_def opt_or_def nodes_by_id_def sample_nodes_def default_node_def)
  then show ?thesis
    using blast_confidence_best [OF sample_labels] by (simp add: sample_edge_def)
qed

end
