(* ===== verification/RcaRanker.thy ===== *)
theory RcaRanker
  imports BlastRadius
begin

text \<open>
  \<open>backend/app/engines.py\<close>, third part: \<open>rank_hypotheses\<close>, the evidence-based ranking of root-cause
  candidates. Every float operation is rounded as in the source; \<open>min\<close> and \<open>clamp\<close> between an int
  and a float return the smaller number, so one type of rationals serves for both.
\<close>

section \<open>Evidence and candidates\<close>

definition EVIDENCE_TYPE_RELIABILITY :: "(string \<times> rat) list" where
  "EVIDENCE_TYPE_RELIABILITY = [(''trace'', 1), (''metric'', fl (95 / 100)), (''deployment'', fl (92 / 100)),
     (''config'', fl (90 / 100)), (''log'', fl (85 / 100)), (''topology'', fl (75 / 100)), (''human'', fl (72 / 100))]"

record rca_evidence =
  ev_id :: string
  ev_type :: "string option"
  ev_quality :: "rat option"
  ev_supports :: "string list"
  ev_contradicts :: "string list"

record candidate =
  cand_id :: string
  cause_service :: string
  cause :: string
  next_step :: string
  prior :: "rat option"
  cand_status :: "string option"

record hypothesis =
  hyp_id :: string
  rank :: nat
  hyp_cause_service :: string
  hyp_cause :: string
  confidence :: rat
  score :: int
  evidence_ids :: "string list"
  counter_evidence_ids :: "string list"
  reasoning :: string
  hyp_next_step :: string
  hyp_status :: string

definition raw_quality :: "rca_evidence \<Rightarrow> rat" where
  "raw_quality i = opt_or (ev_quality i) (1 / 2)"

definition strength :: "rca_evidence \<Rightarrow> rat" where
  "strength i = fl (clamp (raw_quality i) 0 1 *
     dict_get EVIDENCE_TYPE_RELIABILITY (py_lower (opt_or (ev_type i) [])) (fl (70 / 100)))"

definition supporting :: "rca_evidence list \<Rightarrow> string \<Rightarrow> rca_evidence list" where
  "supporting evidence c = filter (\<lambda>i. c \<in> set (ev_supports i)) evidence"

definition contradicting :: "rca_evidence list \<Rightarrow> string \<Rightarrow> rca_evidence list" where
  "contradicting evidence c = filter (\<lambda>i. c \<in> set (ev_contradicts i)) evidence"

text \<open>\<open>str(item.get("type"))\<close>: a missing type reads \<open>None\<close>.\<close>

definition distinct_types :: "rca_evidence list \<Rightarrow> nat" where
  "distinct_types items = card ((\<lambda>i. opt_or (ev_type i) ''None'') ` set items)"

definition hypothesis_score :: "rca_evidence list \<Rightarrow> candidate \<Rightarrow> int" where
  "hypothesis_score evidence c =
     (let backing = supporting evidence (cand_id c);
          support_strength = py_sum (map strength backing);
          counter_strength = py_sum (map strength (contradicting evidence (cand_id c)));
          p = clamp (opt_or (prior c) (1 / 2)) 0 1;
          x1 = fl (fl (p * 25) + min 55 (fl (support_strength * 16)));
          x2 = fl (x1 - min 45 (fl (counter_strength * 28)));
          x3 = fl (x2 + of_int (min 10 (int (distinct_types backing) * 3)));
          x4 = fl (x3 + min 6 (fl (of_nat (length backing) * (3 / 2))))
      in round_half_even (clamp x4 0 100))"

definition average_quality :: "rca_evidence list \<Rightarrow> rat" where
  "average_quality backing = (if backing \<noteq> [] then fl (py_sum (map raw_quality backing) / of_nat (length backing)) else 0)"

definition hypothesis_confidence :: "rca_evidence list \<Rightarrow> candidate \<Rightarrow> rat" where
  "hypothesis_confidence evidence c =
     (let backing = supporting evidence (cand_id c);
          counter_strength = py_sum (map strength (contradicting evidence (cand_id c)));
          y1 = fl (fl (15 / 100) + fl (fl (55 / 100) * fl (of_int (hypothesis_score evidence c) / 100)));
          y2 = fl (y1 + fl (fl (15 / 100) * min 1 (fl (of_nat (length backing) / 2))));
          y3 = fl (y2 + fl (fl (10 / 100) * average_quality backing));
          y4 = fl (y3 - fl (fl (12 / 100) * min 1 counter_strength))
      in py_round 2 (clamp y4 (fl (5 / 100)) (fl (98 / 100))))"

definition hypothesis_reasoning :: "rca_evidence list \<Rightarrow> candidate \<Rightarrow> string" where
  "hypothesis_reasoning evidence c =
     (let backing = supporting evidence (cand_id c); con = contradicting evidence (cand_id c) in
      (if backing \<noteq> []
       then show_nat (length backing) @ '' evidence item(s) support this cause across '' @
            show_nat (distinct_types backing) @ '' evidence type(s)''
       else ''No direct supporting evidence is currently available'') @
      (if con \<noteq> []
       then ''; '' @ show_nat (length con) @ '' counter-evidence item(s) reduce confidence.''
       else ''; no counter-evidence is currently recorded.''))"

definition assess :: "rca_evidence list \<Rightarrow> candidate \<Rightarrow> hypothesis" where
  "assess evidence c =
     \<lparr> hyp_id = cand_id c, rank = 0, hyp_cause_service = cause_service c, hyp_cause = cause c,
       confidence = hypothesis_confidence evidence c, score = hypothesis_score evidence c,
       evidence_ids = map ev_id (supporting evidence (cand_id c)),
       counter_evidence_ids = map ev_id (contradicting evidence (cand_id c)),
       reasoning = hypothesis_reasoning evidence c, hyp_next_step = next_step c,
       hyp_status = opt_or (cand_status c) ''unreviewed'' \<rparr>"

definition ranking_key :: "hypothesis \<Rightarrow> int \<times> string" where
  "ranking_key h = (- score h, hyp_id h)"

definition rank_hypotheses :: "rca_evidence list \<Rightarrow> candidate list \<Rightarrow> int \<Rightarrow> hypothesis list" where
  "rank_hypotheses evidence candidates limit =
     (let ranked = sort_key ranking_key (map (assess evidence) candidates);
          selected = take (nat (max 0 limit)) ranked
      in map (\<lambda>(index, h). h \<lparr> rank := index \<rparr>) (zip [1 ..< length selected + 1] selected))"

section \<open>Bounds and order\<close>

lemma hypothesis_score_bounds: "0 \<le> hypothesis_score evidence c \<and> hypothesis_score evidence c \<le> 100"
  by (simp add: hypothesis_score_def Let_def round_clamp_100)

text \<open>A decimal with two places is what rounding to two places gives for its float.\<close>

lemma py_round_decimal:
  assumes "\<bar>n\<bar> \<le> (100 :: int)"
  shows "py_round 2 (fl (of_int n / 100)) = fl (of_int n / 100)"
proof -
  have "\<bar>of_int n / (100 :: rat)\<bar> \<le> 2 ^ 0" using assms by (simp add: abs_le_iff field_simps)
  then have "\<bar>fl (of_int n / 100) - of_int n / 100\<bar> \<le> 1 / 2 ^ 53"
    using fl_err [of "of_int n / 100" 0] by simp
  then have "\<bar>fl (of_int n / 100) * 100 - of_int n\<bar> \<le> 100 * (1 / 2 ^ 53)" by linarith
  then have "\<bar>of_int n - fl (of_int n / 100) * 10 ^ 2\<bar> < 1 / 2" by (simp add: abs_minus_commute)
  then have "round_half_even (fl (of_int n / 100) * 10 ^ 2) = n" by (rule round_half_even_unique)
  then show ?thesis by (simp add: py_round_def)
qed

lemma hypothesis_confidence_bounds:
  "fl (5 / 100) \<le> hypothesis_confidence evidence c \<and> hypothesis_confidence evidence c \<le> fl (98 / 100)"
proof -
  have "fl (5 / 100) \<le> fl (98 / 100 :: rat)" by (rule fl_mono) simp
  then have c: "fl (5 / 100) \<le> clamp x (fl (5 / 100)) (fl (98 / 100))"
    "clamp x (fl (5 / 100)) (fl (98 / 100)) \<le> fl (98 / 100)" for x
    using clamp_bounds by auto
  have "py_round 2 (fl (of_int 5 / 100)) = fl (of_int 5 / 100)" "py_round 2 (fl (of_int 98 / 100)) = fl (of_int 98 / 100)"
    by (rule py_round_decimal, simp)+
  then have "fl (5 / 100) \<le> py_round 2 (clamp x (fl (5 / 100)) (fl (98 / 100)))"
    "py_round 2 (clamp x (fl (5 / 100)) (fl (98 / 100))) \<le> fl (98 / 100)" for x
    using py_round_mono [OF c(1) [of x], of 2] py_round_mono [OF c(2) [of x], of 2] by (simp_all only: of_int_numeral)
  then show ?thesis unfolding hypothesis_confidence_def Let_def by blast
qed

definition ranked_list :: "rca_evidence list \<Rightarrow> candidate list \<Rightarrow> int \<Rightarrow> hypothesis list" where
  "ranked_list evidence candidates limit =
     take (nat (max 0 limit)) (sort_key ranking_key (map (assess evidence) candidates))"

lemma map_rank_zip:
  assumes "\<And>h n. f (h \<lparr> rank := n \<rparr>) = f h"
  shows "map (\<lambda>x. f (case x of (n, h) \<Rightarrow> h \<lparr> rank := n \<rparr>)) (zip [a ..< a + length hs] hs) = map f hs"
proof -
  have "map (\<lambda>x. f (case x of (n, h) \<Rightarrow> h \<lparr> rank := n \<rparr>)) (zip [a ..< a + length hs] hs)
      = map (f \<circ> snd) (zip [a ..< a + length hs] hs)"
    using assms by (intro map_cong) auto
  also have "\<dots> = map f hs" by (simp flip: map_map)
  finally show ?thesis .
qed

lemma rank_hypotheses_eq:
  "rank_hypotheses evidence candidates limit =
     map (\<lambda>(index, h). h \<lparr> rank := index \<rparr>)
       (zip [1 ..< 1 + length (ranked_list evidence candidates limit)] (ranked_list evidence candidates limit))"
  by (simp add: rank_hypotheses_def ranked_list_def Let_def)

lemma map_rank_hypotheses:
  assumes "\<And>h n. f (h \<lparr> rank := n \<rparr>) = f h"
  shows "map f (rank_hypotheses evidence candidates limit) = map f (ranked_list evidence candidates limit)"
  unfolding rank_hypotheses_eq map_map comp_def by (rule map_rank_zip) (rule assms)

lemma ranks_rank_hypotheses:
  "map rank (rank_hypotheses evidence candidates limit) = [1 ..< length (rank_hypotheses evidence candidates limit) + 1]"
proof -
  have "map (\<lambda>x. rank (case x of (n, h) \<Rightarrow> h \<lparr> rank := n \<rparr>)) (zip [a ..< a + length hs] hs) = [a ..< a + length hs]"
    for a and hs :: "hypothesis list"
  proof -
    have "map (\<lambda>x. rank (case x of (n, h) \<Rightarrow> h \<lparr> rank := n \<rparr>)) (zip [a ..< a + length hs] hs)
        = map fst (zip [a ..< a + length hs] hs)"
      by (intro map_cong) auto
    then show ?thesis by simp
  qed
  from this [of 1 "ranked_list evidence candidates limit"] show ?thesis
    unfolding rank_hypotheses_eq map_map comp_def by simp
qed

lemma ranked_list_assessed: "h \<in> set (ranked_list evidence candidates limit) \<Longrightarrow> \<exists>c\<in>set candidates. h = assess evidence c"
  using in_set_takeD [of h "nat (max 0 limit)" "sort_key ranking_key (map (assess evidence) candidates)"]
  by (auto simp: ranked_list_def)

lemma length_rank_hypotheses:
  "length (rank_hypotheses evidence candidates limit) = min (nat (max 0 limit)) (length candidates)"
  using map_rank_hypotheses [of score evidence candidates limit, THEN arg_cong [of _ _ length]]
  by (simp add: ranked_list_def min.commute)

section \<open>Properties of the ranking\<close>

text \<open>
  C16. The ranking returns \<open>min limit n\<close> hypotheses ranked 1, 2, 3, ..., in descending order of score with
  ties broken by id; every score lies between 0 and 100 and every confidence between the floats 0.05 and
  0.98, whatever qualities and priors were supplied.
\<close>
theorem rca_ranking:
  "length (rank_hypotheses evidence candidates limit) = min (nat (max 0 limit)) (length candidates) \<and>
   map rank (rank_hypotheses evidence candidates limit) = [1 ..< length (rank_hypotheses evidence candidates limit) + 1] \<and>
   sorted (map ranking_key (rank_hypotheses evidence candidates limit)) \<and>
   list_all (\<lambda>h. 0 \<le> score h \<and> score h \<le> 100 \<and> fl (5 / 100) \<le> confidence h \<and> confidence h \<le> fl (98 / 100))
     (rank_hypotheses evidence candidates limit)"
proof -
  have "sorted (map ranking_key (ranked_list evidence candidates limit))"
    unfolding ranked_list_def by (simp add: take_map [symmetric] sorted_wrt_take)
  moreover have "map ranking_key (rank_hypotheses evidence candidates limit) = map ranking_key (ranked_list evidence candidates limit)"
    by (rule map_rank_hypotheses) (simp add: ranking_key_def)
  moreover have "list_all (\<lambda>h. P (score h) (confidence h)) (rank_hypotheses evidence candidates limit)"
    if "\<And>c. P (hypothesis_score evidence c) (hypothesis_confidence evidence c)" for P
  proof -
    have "map (\<lambda>h. (score h, confidence h)) (rank_hypotheses evidence candidates limit)
        = map (\<lambda>h. (score h, confidence h)) (ranked_list evidence candidates limit)"
      by (rule map_rank_hypotheses) simp
    moreover have "list_all (\<lambda>h. P (score h) (confidence h)) (ranked_list evidence candidates limit)"
      using that by (auto simp: list_all_iff assess_def dest: ranked_list_assessed)
    ultimately have "list_all (\<lambda>(x, y). P x y) (map (\<lambda>h. (score h, confidence h)) (rank_hypotheses evidence candidates limit))"
      by (simp add: list.pred_map comp_def)
    then show ?thesis by (simp add: list.pred_map comp_def)
  qed
  from this [of "\<lambda>x y. 0 \<le> x \<and> x \<le> 100 \<and> fl (5 / 100) \<le> y \<and> y \<le> fl (98 / 100)"]
  have "list_all (\<lambda>h. 0 \<le> score h \<and> score h \<le> 100 \<and> fl (5 / 100) \<le> confidence h \<and> confidence h \<le> fl (98 / 100))
      (rank_hypotheses evidence candidates limit)"
    using hypothesis_score_bounds hypothesis_confidence_bounds by simp
  ultimately show ?thesis using ranks_rank_hypotheses length_rank_hypotheses by simp
qed

text \<open>
  The ranking does not depend on the order in which candidates are listed when their ids are
  distinct: any rearrangement gives the same hypotheses with the same ranks.
\<close>
theorem rca_order_independent:
  assumes "mset candidates = mset candidates'" and "distinct (map cand_id candidates)"
  shows "rank_hypotheses evidence candidates limit = rank_hypotheses evidence candidates' limit"
proof -
  have inj: "inj_on cand_id (set candidates)" using assms(2) by (simp add: distinct_map)
  have "inj_on ranking_key (set (map (assess evidence) candidates))"
  proof (rule inj_onI)
    fix h h' assume hh: "h \<in> set (map (assess evidence) candidates)" "h' \<in> set (map (assess evidence) candidates)"
      and key: "ranking_key h = ranking_key h'"
    then obtain c c' where c: "c \<in> set candidates" "c' \<in> set candidates" "h = assess evidence c" "h' = assess evidence c'"
      by auto
    with key have "cand_id c = cand_id c'" by (simp add: ranking_key_def assess_def)
    with inj c show "h = h'" by (auto dest: inj_onD)
  qed
  then have "sort_key ranking_key (map (assess evidence) candidates) = sort_key ranking_key (map (assess evidence) candidates')"
    using assms(1) by (intro sort_key_perm_eq) (simp_all add: mset_map)
  then show ?thesis by (simp add: rank_hypotheses_def)
qed

definition sample_candidate :: "string \<Rightarrow> candidate" where
  "sample_candidate c = \<lparr> cand_id = c, cause_service = ''db'', cause = ''pool exhausted'', next_step = ''check pool'',
     prior = None, cand_status = None \<rparr>"

theorem rca_order_independent_witness:
  "rank_hypotheses [] [sample_candidate ''h1'', sample_candidate ''h2''] 3 =
   rank_hypotheses [] [sample_candidate ''h2'', sample_candidate ''h1''] 3"
  by (rule rca_order_independent) (simp_all add: sample_candidate_def)

end
