(* ===== verification/EvidenceSynthesis.thy ===== *)
theory EvidenceSynthesis
  imports Binary64
begin

text \<open>
  \<open>backend/app/evidence_synthesis.py\<close> with the response models it fills (\<open>schemas.py\<close>): a deterministic
  explanation of an incident, and the validator that rejects a citation outside the incident's evidence.

  The response models validate on construction: an identifier or text is stripped and must not be empty,
  a text has at most 2000 characters, a statement between 1 and 20 citations. Those failures are
  \<open>ValidationError\<close>. The digest is SHA-256 of the serialised bundle: both functions are parameters.
\<close>

section \<open>Incidents and responses\<close>

record syn_evidence =
  se_id :: string
  se_source :: string
  se_quality :: rat

record syn_hypothesis =
  sh_id :: string
  sh_rank :: int
  sh_cause_service :: string
  sh_cause :: string
  sh_confidence :: rat
  sh_evidence_ids :: "string list"
  sh_counter_evidence_ids :: "string list"
  sh_reasoning :: string

record syn_incident =
  si_id :: string
  si_evidence :: "syn_evidence list"
  si_hypotheses :: "syn_hypothesis list"

record statement =
  st_text :: string
  st_evidence_ids :: "string list"

record explained =
  ex_hypothesis_id :: string
  ex_rank :: int
  ex_explanation :: statement

record synthesis =
  sy_incident_id :: string
  sy_contract_version :: string
  sy_validator_version :: string
  sy_digest :: string
  sy_confidence :: rat
  sy_summary :: "statement list"
  sy_hypotheses :: "syn_hypothesis list"
  sy_explained :: "explained list"
  sy_uncertainty :: "statement list"
  sy_unsupported_claims_count :: int
  sy_citation_coverage :: rat

datatype citation_issue =
    IncidentMismatch | UnsupportedContract | UnsupportedValidator | DigestMismatch | UnsupportedClaims
  | NoEvidence | UnknownEvidence string "string list" | UnknownHypothesis string | RankMismatch string
  | UnrelatedEvidence string | CoverageMismatch | NoCitableHypothesis

datatype synthesis_error = CitationValidationError citation_issue | ValidationError

definition EVIDENCE_SYNTHESIS_CONTRACT_VERSION :: string where
  "EVIDENCE_SYNTHESIS_CONTRACT_VERSION = ''evidence-synthesis-v1''"

definition CITATION_VALIDATOR_VERSION :: string where
  "CITATION_VALIDATOR_VERSION = ''citation-validator-v1''"

text \<open>\<open>EvidenceCitedStatement\<close>.\<close>

definition cited_statement :: "string \<Rightarrow> string list \<Rightarrow> synthesis_error + statement" where
  "cited_statement raw_text ids =
     (let t = py_strip raw_text; stripped = map py_strip ids in
      if t = [] \<or> length t > 2000 \<or> ids = [] \<or> length ids > 20 \<or> [] \<in> set stripped then Inl ValidationError
      else Inr \<lparr> st_text = t, st_evidence_ids = fromkeys stripped \<rparr>)"

definition hypothesis_order :: "syn_hypothesis \<Rightarrow> int \<times> string" where
  "hypothesis_order h = (sh_rank h, sh_id h)"

definition evidence_bundle_sha256 ::
  "(string \<Rightarrow> string) \<Rightarrow> (string \<times> syn_evidence list \<times> syn_hypothesis list \<Rightarrow> string) \<Rightarrow> syn_incident \<Rightarrow> string" where
  "evidence_bundle_sha256 sha dumps incident =
     sha (dumps (si_id incident, sort_key se_id (si_evidence incident),
                 sort_key hypothesis_order (si_hypotheses incident)))"

section \<open>The validator\<close>

definition located_from :: "string \<Rightarrow> string list list \<Rightarrow> (string \<times> string list) list" where
  "located_from name idss =
     map (\<lambda>(index, ids). (name @ ''['' @ show_nat index @ '']'', ids)) (zip [0 ..< length idss] idss)"

definition statement_evidence_ids :: "synthesis \<Rightarrow> (string \<times> string list) list" where
  "statement_evidence_ids s =
     located_from ''summary'' (map st_evidence_ids (sy_summary s))
     @ located_from ''explained_hypotheses'' (map (st_evidence_ids \<circ> ex_explanation) (sy_explained s))
     @ located_from ''uncertainty'' (map st_evidence_ids (sy_uncertainty s))"

definition check_location :: "string set \<Rightarrow> string \<times> string list \<Rightarrow> unit \<Rightarrow> synthesis_error + unit" where
  "check_location known l u = (case l of (location, ids) \<Rightarrow>
     let unknown = sort (remdups (filter (\<lambda>i. i \<notin> known) ids)) in
     rguard (unknown = []) (CitationValidationError (UnknownEvidence location unknown)))"

definition hypotheses_by_id :: "syn_incident \<Rightarrow> string \<Rightarrow> syn_hypothesis option" where
  "hypotheses_by_id incident = map_of (rev (map (\<lambda>h. (sh_id h, h)) (si_hypotheses incident)))"

definition check_explained :: "syn_incident \<Rightarrow> explained \<Rightarrow> unit \<Rightarrow> synthesis_error + unit" where
  "check_explained incident item u =
     (case hypotheses_by_id incident (ex_hypothesis_id item) of
        None \<Rightarrow> Inl (CitationValidationError (UnknownHypothesis (ex_hypothesis_id item)))
      | Some h \<Rightarrow>
          if ex_rank item \<noteq> sh_rank h then Inl (CitationValidationError (RankMismatch (ex_hypothesis_id item)))
          else rguard (set (st_evidence_ids (ex_explanation item)) \<subseteq> set (sh_evidence_ids h @ sh_counter_evidence_ids h))
                 (CitationValidationError (UnrelatedEvidence (ex_hypothesis_id item))))"

definition measured_coverage :: "synthesis \<Rightarrow> rat" where
  "measured_coverage s =
     (let statements = statement_evidence_ids s in
      if statements = [] then 0
      else fl (of_nat (length (filter (\<lambda>(_, ids). ids \<noteq> []) statements)) / of_nat (length statements)))"

definition validate_evidence_synthesis ::
  "(syn_incident \<Rightarrow> string) \<Rightarrow> syn_incident \<Rightarrow> synthesis \<Rightarrow> synthesis_error + unit" where
  "validate_evidence_synthesis digest incident s =
     rbind (rguard (sy_incident_id s = si_id incident) (CitationValidationError IncidentMismatch)) (\<lambda>_.
     rbind (rguard (sy_contract_version s = EVIDENCE_SYNTHESIS_CONTRACT_VERSION)
              (CitationValidationError UnsupportedContract)) (\<lambda>_.
     rbind (rguard (sy_validator_version s = CITATION_VALIDATOR_VERSION)
              (CitationValidationError UnsupportedValidator)) (\<lambda>_.
     rbind (rguard (sy_digest s = digest incident) (CitationValidationError DigestMismatch)) (\<lambda>_.
     rbind (rguard (sy_unsupported_claims_count s = 0) (CitationValidationError UnsupportedClaims)) (\<lambda>_.
     let known = set (map se_id (si_evidence incident)) in
     rbind (rguard (si_evidence incident \<noteq> []) (CitationValidationError NoEvidence)) (\<lambda>_.
     rbind (rfold (check_location known) (statement_evidence_ids s) ()) (\<lambda>_.
     rbind (rfold (check_explained incident) (sy_explained s) ()) (\<lambda>_.
     rguard (\<bar>sy_citation_coverage s - measured_coverage s\<bar> \<le> fl (1 / 10 ^ 9))
       (CitationValidationError CoverageMismatch)))))))))"

section \<open>Building an explanation\<close>

definition hypothesis_citations :: "syn_hypothesis \<Rightarrow> string list" where
  "hypothesis_citations h = fromkeys (sh_evidence_ids h @ sh_counter_evidence_ids h)"

definition citable :: "syn_incident \<Rightarrow> syn_hypothesis \<Rightarrow> bool" where
  "citable incident h = (hypothesis_citations h \<noteq> [] \<and>
     set (hypothesis_citations h) \<subseteq> set (map se_id (si_evidence incident)))"

definition synthesis_candidates :: "syn_incident \<Rightarrow> syn_hypothesis list" where
  "synthesis_candidates incident =
     filter (citable incident) (sort_key hypothesis_order (si_hypotheses incident))"

definition quality_key :: "syn_evidence \<Rightarrow> rat \<times> string" where
  "quality_key i = (se_quality i, se_id i)"

text \<open>\<open>min(items, key=...)\<close>: the first element with the least key.\<close>

fun min_by :: "('a \<Rightarrow> 'k :: linorder) \<Rightarrow> 'a \<Rightarrow> 'a list \<Rightarrow> 'a" where
  "min_by key best [] = best"
| "min_by key best (x # xs) = min_by key (if key x < key best then x else best) xs"

definition lowest_quality :: "syn_incident \<Rightarrow> string list \<Rightarrow> syn_evidence option" where
  "lowest_quality incident citations =
     (case filter (\<lambda>i. se_id i \<in> set citations) (si_evidence incident) of
        [] \<Rightarrow> None | i # is \<Rightarrow> Some (min_by quality_key i is))"

definition average_confidence :: "syn_hypothesis list \<Rightarrow> rat" where
  "average_confidence selected = py_round 2 (fl (py_sum (map sh_confidence selected) / of_nat (length selected)))"

definition explain :: "syn_hypothesis \<Rightarrow> synthesis_error + explained" where
  "explain h = rbind (cited_statement (sh_reasoning h) (hypothesis_citations h)) (\<lambda>st.
     if sh_rank h < 1 then Inl ValidationError
     else Inr \<lparr> ex_hypothesis_id = sh_id h, ex_rank = sh_rank h, ex_explanation = st \<rparr>)"

text \<open>The dash U+2014 of the summary is one character; code point 151 stands for it.\<close>

definition summary_text :: "syn_hypothesis \<Rightarrow> string" where
  "summary_text h = ''Rank '' @ show_int (sh_rank h) @ '' hypothesis: '' @ sh_cause_service h @ '' '' @
     [char_of (151 :: nat)] @ '' '' @ sh_cause h @ ''.''"

definition uncertainty_text :: "syn_evidence \<Rightarrow> string" where
  "uncertainty_text i = ''Verify '' @ se_id i @ '' from '' @ se_source i @
     ''; its recorded evidence quality is '' @ fmt_fixed 2 (se_quality i) @ ''.''"

definition sha_hex :: "string \<Rightarrow> bool" where
  "sha_hex d = (length d = 64 \<and> list_all (\<lambda>c. is_digit c \<or> (97 \<le> nat_of_char c \<and> nat_of_char c \<le> 102)) d)"

text \<open>The response before it is validated.\<close>

definition draft_synthesis ::
  "(syn_incident \<Rightarrow> string) \<Rightarrow> syn_incident \<Rightarrow> synthesis_error + synthesis" where
  "draft_synthesis digest incident =
     (case synthesis_candidates incident of
        [] \<Rightarrow> Inl (CitationValidationError NoCitableHypothesis)
      | primary # others \<Rightarrow>
          let selected = primary # take 2 others; citations = hypothesis_citations primary in
          if si_evidence incident = [] then Inl (CitationValidationError NoCitableHypothesis)
          else case lowest_quality incident citations of
            None \<Rightarrow> Inl ValidationError
          | Some lowest \<Rightarrow>
              let conf = average_confidence selected in
              if \<not> sha_hex (digest incident) \<or> \<not> (0 \<le> conf \<and> conf \<le> 1) then Inl ValidationError
              else rbind (cited_statement (summary_text primary) citations) (\<lambda>smry.
                   rbind (rmap explain selected) (\<lambda>explained_hypotheses.
                   rbind (cited_statement (uncertainty_text lowest) [se_id lowest]) (\<lambda>uncertain.
                   Inr \<lparr> sy_incident_id = si_id incident,
                         sy_contract_version = EVIDENCE_SYNTHESIS_CONTRACT_VERSION,
                         sy_validator_version = CITATION_VALIDATOR_VERSION,
                         sy_digest = digest incident, sy_confidence = conf, sy_summary = [smry],
                         sy_hypotheses = selected, sy_explained = explained_hypotheses,
                         sy_uncertainty = [uncertain], sy_unsupported_claims_count = 0,
                         sy_citation_coverage = 1 \<rparr>))))"

definition build_evidence_synthesis ::
  "(syn_incident \<Rightarrow> string) \<Rightarrow> syn_incident \<Rightarrow> synthesis_error + synthesis" where
  "build_evidence_synthesis digest incident =
     rbind (draft_synthesis digest incident) (\<lambda>response.
     rbind (validate_evidence_synthesis digest incident response) (\<lambda>_. Inr response))"

section \<open>What the validator guarantees\<close>

definition cited_ids :: "synthesis \<Rightarrow> string set" where
  "cited_ids s = (\<Union>(_, ids)\<in>set (statement_evidence_ids s). set ids)"

lemma rfold_unit_iff:
  "rfold (\<lambda>x u. f x) xs () = Inr () \<longleftrightarrow> (\<forall>x\<in>set xs. f x = Inr ())"
  by (induction xs) (auto simp: result_simps)

lemma check_locations_iff:
  "rfold (check_location known) ls () = Inr u \<longleftrightarrow> (\<forall>(_, ids)\<in>set ls. set ids \<subseteq> known)"
proof (induction ls)
  case (Cons l ls)
  then show ?case
    by (cases l) (auto simp: check_location_def result_simps Let_def sort_key_eq_Nil_iff filter_empty_conv)
qed simp

text \<open>One explained hypothesis is right: it names a hypothesis of the incident with its rank and cites
  only that hypothesis's evidence.\<close>

definition explained_ok :: "syn_incident \<Rightarrow> explained \<Rightarrow> bool" where
  "explained_ok incident item \<longleftrightarrow> (\<exists>h\<in>set (si_hypotheses incident).
     sh_id h = ex_hypothesis_id item \<and> sh_rank h = ex_rank item \<and>
     set (st_evidence_ids (ex_explanation item)) \<subseteq> set (sh_evidence_ids h) \<union> set (sh_counter_evidence_ids h))"

lemma check_explained_ok: "check_explained incident item u = Inr u' \<Longrightarrow> explained_ok incident item"
  by (auto simp: check_explained_def explained_ok_def hypotheses_by_id_def result_simps
      split: option.splits if_splits dest!: map_of_SomeD intro!: bexI)

lemma check_all_explained_ok:
  "rfold (check_explained incident) items u = Inr u' \<Longrightarrow> list_all (explained_ok incident) items"
  by (induction items arbitrary: u) (auto simp: result_simps dest: check_explained_ok)

lemma validate_sound:
  assumes "validate_evidence_synthesis digest incident s = Inr u"
  shows "sy_digest s = digest incident \<and> cited_ids s \<subseteq> se_id ` set (si_evidence incident) \<and>
         list_all (explained_ok incident) (sy_explained s)"
proof -
  have parts: "sy_digest s = digest incident"
    "rfold (check_location (set (map se_id (si_evidence incident)))) (statement_evidence_ids s) () = Inr ()"
    "rfold (check_explained incident) (sy_explained s) () = Inr ()"
    using assms by (auto simp: validate_evidence_synthesis_def result_simps Let_def)
  then show ?thesis
    by (auto simp: check_locations_iff cited_ids_def dest: check_all_explained_ok)
qed

lemma draft_shape:
  assumes "draft_synthesis digest incident = Inr s"
  shows "sy_hypotheses s = take 3 (synthesis_candidates incident) \<and> sy_citation_coverage s = 1 \<and>
    map ex_hypothesis_id (sy_explained s) = map sh_id (take 3 (synthesis_candidates incident)) \<and>
    sy_summary s \<noteq> [] \<and> sy_uncertainty s \<noteq> [] \<and> sy_explained s \<noteq> []"
proof -
  obtain p ps where cands: "synthesis_candidates incident = p # ps"
    using assms by (auto simp: draft_synthesis_def split: list.splits)
  have ids: "map ex_hypothesis_id es = map sh_id hs" if "rmap explain hs = Inr es" for hs es
    using that unfolding rmap_eq_Inr_iff
    by (induction rule: list_all2_induct) (auto simp: explain_def result_simps split: if_splits)
  have take3: "take 3 (synthesis_candidates incident) = p # take 2 ps"
    by (simp add: cands)
  have "sy_hypotheses s = p # take 2 ps \<and> sy_citation_coverage s = 1 \<and> sy_summary s \<noteq> [] \<and> sy_uncertainty s \<noteq> [] \<and>
      rmap explain (p # take 2 ps) = Inr (sy_explained s)"
    using assms
    by (auto simp: draft_synthesis_def cands result_simps Let_def simp del: rmap.simps
        split: if_splits option.splits)
  moreover from this have "map ex_hypothesis_id (sy_explained s) = map sh_id (p # take 2 ps)" using ids by blast
  ultimately show ?thesis unfolding take3 by auto
qed

section \<open>When an explanation is produced\<close>

text \<open>Identifiers as the service makes them: not empty, no surrounding whitespace.\<close>

definition clean_id :: "string \<Rightarrow> bool" where
  "clean_id i = (i \<noteq> [] \<and> py_strip i = i)"

definition citable_text :: "string \<Rightarrow> bool" where
  "citable_text t = (py_strip t \<noteq> [] \<and> length (py_strip t) \<le> 2000)"

definition hypothesis_ok :: "syn_hypothesis \<Rightarrow> bool" where
  "hypothesis_ok h = (1 \<le> sh_rank h \<and> 0 \<le> sh_confidence h \<and> sh_confidence h \<le> 1 \<and>
     citable_text (sh_reasoning h) \<and> citable_text (summary_text h) \<and> length (hypothesis_citations h) \<le> 20)"

definition incident_ok :: "syn_incident \<Rightarrow> bool" where
  "incident_ok incident = (list_all hypothesis_ok (si_hypotheses incident) \<and>
     distinct (map sh_id (si_hypotheses incident)) \<and>
     list_all (\<lambda>i. clean_id (se_id i) \<and> citable_text (uncertainty_text i)) (si_evidence incident))"

lemma cited_statement_ok:
  assumes "citable_text t" and "ids \<noteq> []" and "length ids \<le> 20" and "list_all clean_id ids"
  shows "cited_statement t ids = Inr \<lparr> st_text = py_strip t, st_evidence_ids = fromkeys ids \<rparr>"
proof -
  have "map py_strip ids = ids" using assms(4) by (intro map_idI) (auto simp: list_all_iff clean_id_def)
  moreover have "[] \<notin> set ids" using assms(4) by (auto simp: list_all_iff clean_id_def)
  ultimately show ?thesis using assms by (simp add: cited_statement_def citable_text_def)
qed

lemma min_by_mem: "min_by key x xs \<in> set (x # xs)"
proof (induction xs arbitrary: x)
  case (Cons a xs)
  from Cons [of a] Cons [of x] show ?case by auto
qed simp

lemma lowest_quality_mem:
  assumes "lowest_quality incident citations = Some low"
  shows "low \<in> set (si_evidence incident)"
proof -
  let ?cited = "filter (\<lambda>i. se_id i \<in> set citations) (si_evidence incident)"
  obtain i "is" where fi: "?cited = i # is" using assms by (auto simp: lowest_quality_def split: list.splits)
  then have "low = min_by quality_key i is" using assms by (simp add: lowest_quality_def)
  then have "low \<in> set ?cited" unfolding fi by (simp only: min_by_mem)
  then show ?thesis by simp
qed

lemma near_unit_round:
  assumes "- 1 / 1000 \<le> y" and "y \<le> 1 + 1 / 1000"
  shows "0 \<le> py_round 2 (fl y) \<and> py_round 2 (fl y) \<le> 1"
proof -
  have "\<bar>y\<bar> \<le> 2 ^ 1" using assms by simp
  then have "\<bar>fl y - y\<bar> \<le> 2 ^ 1 / 2 ^ 53" by (rule fl_err)
  also have "(2 :: rat) ^ 1 / 2 ^ 53 \<le> 1 / 1000" by simp
  finally have f: "- 1 / 500 \<le> fl y" "fl y \<le> 1 + 1 / 500" using assms by linarith+
  define r where "r = round_half_even (fl y * 10 ^ 2)"
  have "\<bar>of_int r - fl y * 100\<bar> \<le> 1 / 2"
    using round_half_even_err [of "fl y * 10 ^ 2"] unfolding r_def [symmetric] by simp
  then have "- 1 < (of_int r :: rat)" "(of_int r :: rat) < 101" using f by linarith+
  then have "- 1 < r" "r < 101" by linarith+
  then have "0 \<le> (of_int r :: rat) / 10 ^ 2" "(of_int r :: rat) / 10 ^ 2 \<le> 1" by auto
  then show ?thesis using b64.rnd_unit unfolding py_round_def r_def [symmetric] by blast
qed

lemma average_confidence_unit:
  assumes "hs \<noteq> []" and "length hs \<le> 3" and "\<forall>h\<in>set hs. 0 \<le> sh_confidence h \<and> sh_confidence h \<le> 1"
  shows "0 \<le> average_confidence hs \<and> average_confidence hs \<le> 1"
proof -
  obtain h t where hs: "hs = h # t" using assms(1) by (cases hs) auto
  let ?xs = "map sh_confidence t"
  define n :: rat where "n = of_nat (length hs)"
  define eps :: rat where "eps = 2 ^ 2 / 2 ^ 53"
  have eps: "0 < eps" "eps \<le> 1 / 1000000" by (simp_all add: eps_def)
  have n: "1 \<le> n" "n \<le> 3" "of_nat (length t) = n - 1" using assms(2) hs by (auto simp: n_def)
  have sums: "0 \<le> sum_list ?xs" "sum_list ?xs \<le> of_nat (length t)" "sum_list (map abs ?xs) = sum_list ?xs"
  proof -
    have "\<forall>h\<in>set t. 0 \<le> sh_confidence h \<and> sh_confidence h \<le> 1" using assms(3) hs by simp
    then show "0 \<le> sum_list ?xs" "sum_list ?xs \<le> of_nat (length t)" "sum_list (map abs ?xs) = sum_list ?xs"
      by (induction t) auto
  qed
  have h: "0 \<le> sh_confidence h" "sh_confidence h \<le> 1" using assms(3) hs by auto
  have len: "of_nat (length ?xs) = n - 1" using n(3) by simp
  have "\<bar>neumaier fl (sh_confidence h) 0 ?xs - (sh_confidence h + 0 + sum_list ?xs)\<bar>
      \<le> (3 * of_nat (length ?xs) + 1) * (2 ^ 2 / 2 ^ 53)"
  proof (rule b64.neumaier_err)
    have "(5 * (n - 1) + 5) * eps \<le> 15 * eps" using n eps by (intro mult_right_mono) auto
    moreover have "15 * eps \<le> 1 / 1000" using eps by simp
    ultimately have "(5 * (n - 1) + 5) * eps \<le> 1 / 1000" by linarith
    then show "\<bar>sh_confidence h\<bar> + \<bar>0\<bar> + sum_list (map abs ?xs) + (5 * of_nat (length ?xs) + 5) * (2 ^ 2 / 2 ^ 53) \<le> 2 ^ 2"
      unfolding eps_def [symmetric] len using h sums n by (simp only: abs_of_nonneg abs_zero) simp
  qed
  moreover have "(3 * (n - 1) + 1) * eps \<le> 7 * eps" using n eps by (intro mult_right_mono) auto
  ultimately have "\<bar>py_sum (map sh_confidence hs) - (sh_confidence h + sum_list ?xs)\<bar> \<le> 7 * eps"
    unfolding eps_def [symmetric] len by (simp add: py_sum_def hs)
  then have "- 7 * eps \<le> py_sum (map sh_confidence hs)" "py_sum (map sh_confidence hs) \<le> n + 7 * eps"
    using sums h n by (auto simp: abs_le_iff)
  then have "- 7 * eps \<le> py_sum (map sh_confidence hs) / n" "py_sum (map sh_confidence hs) / n \<le> 1 + 7 * eps"
  proof -
    assume le: "- 7 * eps \<le> py_sum (map sh_confidence hs)" "py_sum (map sh_confidence hs) \<le> n + 7 * eps"
    have "7 * eps \<le> n * (7 * eps)" using mult_right_mono [OF n(1), of "7 * eps"] eps by simp
    then have "- 7 * eps * n \<le> py_sum (map sh_confidence hs)" "py_sum (map sh_confidence hs) \<le> (1 + 7 * eps) * n"
      using le by (simp_all add: algebra_simps)
    then show "- 7 * eps \<le> py_sum (map sh_confidence hs) / n" "py_sum (map sh_confidence hs) / n \<le> 1 + 7 * eps"
      using n(1) by (simp_all add: pos_le_divide_eq pos_divide_le_eq)
  qed
  then have q: "- 1 / 1000 \<le> py_sum (map sh_confidence hs) / n" "py_sum (map sh_confidence hs) / n \<le> 1 + 1 / 1000"
    using eps by linarith+
  then show ?thesis
    unfolding average_confidence_def n_def [symmetric] by (rule near_unit_round)
qed

lemma candidates_facts:
  assumes "incident_ok incident" and "h \<in> set (synthesis_candidates incident)"
  shows "h \<in> set (si_hypotheses incident) \<and> hypothesis_ok h \<and> hypothesis_citations h \<noteq> [] \<and>
    list_all clean_id (hypothesis_citations h) \<and> set (hypothesis_citations h) \<subseteq> se_id ` set (si_evidence incident)"
  using assms by (auto simp: synthesis_candidates_def citable_def incident_ok_def list_all_iff)

definition explanation_of :: "syn_hypothesis \<Rightarrow> explained" where
  "explanation_of h = \<lparr> ex_hypothesis_id = sh_id h, ex_rank = sh_rank h,
     ex_explanation = \<lparr> st_text = py_strip (sh_reasoning h), st_evidence_ids = fromkeys (hypothesis_citations h) \<rparr> \<rparr>"

lemma located_ids: "(loc, ids) \<in> set (located_from name idss) \<Longrightarrow> ids \<in> set idss"
  by (auto simp: located_from_def dest: set_zip_rightD)

lemma explain_ok:
  assumes "incident_ok incident" and "h \<in> set (synthesis_candidates incident)"
  shows "explain h = Inr (explanation_of h)"
  using candidates_facts [OF assms]
  by (simp add: explain_def explanation_of_def hypothesis_ok_def cited_statement_ok)

lemma hypotheses_by_id_distinct:
  assumes "distinct (map sh_id (si_hypotheses incident))" and "h \<in> set (si_hypotheses incident)"
  shows "hypotheses_by_id incident (sh_id h) = Some h"
  using assms unfolding hypotheses_by_id_def
  by (intro map_of_is_SomeI) (auto simp: comp_def rev_map [symmetric] distinct_rev)

lemma rmap_total:
  "(\<And>x. x \<in> set xs \<Longrightarrow> f x = Inr (g x)) \<Longrightarrow> rmap f xs = Inr (map g xs)"
  by (induction xs) auto

lemma draft_validates:
  assumes ok: "incident_ok incident" and draft: "draft_synthesis digest incident = Inr s"
  shows "validate_evidence_synthesis digest incident s = Inr ()"
proof -
  obtain p ps where cands: "synthesis_candidates incident = p # ps"
    using draft by (auto simp: draft_synthesis_def split: list.splits)
  define sel where "sel = p # take 2 ps"
  have sel: "set sel \<subseteq> set (synthesis_candidates incident)"
    using set_take_subset [of 2 ps] by (auto simp: sel_def cands)
  have ex: "rmap explain sel = Inr (map explanation_of sel)"
    using sel ok explain_ok by (intro rmap_total) auto
  have pfacts: "hypothesis_citations p \<noteq> []" "list_all clean_id (hypothesis_citations p)" "hypothesis_ok p"
      "set (hypothesis_citations p) \<subseteq> se_id ` set (si_evidence incident)"
    using candidates_facts [OF ok, of p] cands by auto
  have smry: "cited_statement (summary_text p) (hypothesis_citations p) =
      Inr \<lparr> st_text = py_strip (summary_text p), st_evidence_ids = fromkeys (hypothesis_citations p) \<rparr>"
    using pfacts by (intro cited_statement_ok) (auto simp: hypothesis_ok_def)
  from draft obtain low where low: "lowest_quality incident (hypothesis_citations p) = Some low"
    by (auto simp: draft_synthesis_def cands Let_def split: if_splits option.splits)
  have mem: "low \<in> set (si_evidence incident)"
    using lowest_quality_mem [OF low] .
  have unc: "cited_statement (uncertainty_text low) [se_id low] =
      Inr \<lparr> st_text = py_strip (uncertainty_text low), st_evidence_ids = [se_id low] \<rparr>"
    using ok mem by (subst cited_statement_ok) (auto simp: incident_ok_def list_all_iff fromkeys_def)
  have s: "s = \<lparr> sy_incident_id = si_id incident, sy_contract_version = EVIDENCE_SYNTHESIS_CONTRACT_VERSION,
      sy_validator_version = CITATION_VALIDATOR_VERSION, sy_digest = digest incident,
      sy_confidence = average_confidence sel,
      sy_summary = [\<lparr> st_text = py_strip (summary_text p), st_evidence_ids = fromkeys (hypothesis_citations p) \<rparr>],
      sy_hypotheses = sel, sy_explained = map explanation_of sel,
      sy_uncertainty = [\<lparr> st_text = py_strip (uncertainty_text low), st_evidence_ids = [se_id low] \<rparr>],
      sy_unsupported_claims_count = 0, sy_citation_coverage = 1 \<rparr>" and ne: "si_evidence incident \<noteq> []"
    using draft low smry unc ex
    by (auto simp: draft_synthesis_def cands Let_def sel_def [symmetric] simp del: rmap.simps split: if_splits)
  have ids: "ids \<noteq> [] \<and> set ids \<subseteq> se_id ` set (si_evidence incident)"
    if "(loc, ids) \<in> set (statement_evidence_ids s)" for loc ids
  proof -
    have "ids = fromkeys (hypothesis_citations p) \<or> (\<exists>h\<in>set sel. ids = fromkeys (hypothesis_citations h)) \<or> ids = [se_id low]"
      using that by (auto simp: statement_evidence_ids_def s explanation_of_def dest!: located_ids)
    moreover have "hypothesis_citations h \<noteq> [] \<and> set (hypothesis_citations h) \<subseteq> se_id ` set (si_evidence incident)"
      if "h \<in> set sel" for h
      using candidates_facts [OF ok, of h] that sel by blast
    ultimately show ?thesis using pfacts(1,4) mem by fastforce
  qed
  have checked: "rfold (check_explained incident) (map explanation_of sel) () = Inr ()"
  proof -
    have "check_explained incident (explanation_of h) () = Inr ()" if "h \<in> set sel" for h
    proof -
      have "h \<in> set (si_hypotheses incident)" using that sel candidates_facts [OF ok] by auto
      with ok show ?thesis
        by (simp add: check_explained_def explanation_of_def incident_ok_def hypotheses_by_id_distinct hypothesis_citations_def rguard_def)
    qed
    then show ?thesis by (induction sel) auto
  qed
  have "measured_coverage s = 1"
  proof -
    have "filter (\<lambda>(_, ids). ids \<noteq> []) (statement_evidence_ids s) = statement_evidence_ids s"
      using ids by (auto simp: filter_id_conv)
    moreover have "statement_evidence_ids s \<noteq> []" by (simp add: statement_evidence_ids_def located_from_def s)
    ultimately show ?thesis using fl_of_int [of 1] by (simp add: measured_coverage_def Let_def)
  qed
  moreover have "rfold (check_location (set (map se_id (si_evidence incident)))) (statement_evidence_ids s) () = Inr ()"
    using ids by (auto simp: check_locations_iff)
  moreover have "sy_explained s = map explanation_of sel" by (simp add: s)
  ultimately show ?thesis
    using checked ne fl_nonneg [of "1 / 10 ^ 9"]
    by (simp add: validate_evidence_synthesis_def Let_def rguard_def) (simp add: s)
qed

lemma draft_succeeds:
  assumes ok: "incident_ok incident" and "synthesis_candidates incident \<noteq> []" and "sha_hex (digest incident)"
  shows "is_ok (draft_synthesis digest incident)"
proof -
  obtain p ps where cands: "synthesis_candidates incident = p # ps"
    using assms(2) by (cases "synthesis_candidates incident") auto
  have sel: "set (p # take 2 ps) \<subseteq> set (synthesis_candidates incident)"
    using set_take_subset [of 2 ps] by (auto simp: cands)
  have p: "hypothesis_citations p \<noteq> []" "list_all clean_id (hypothesis_citations p)" "hypothesis_ok p"
      "set (hypothesis_citations p) \<subseteq> se_id ` set (si_evidence incident)"
    using candidates_facts [OF ok, of p] cands by auto
  then have ne: "si_evidence incident \<noteq> []" by (cases "hypothesis_citations p") auto
  obtain i "is" where fi: "filter (\<lambda>i. se_id i \<in> set (hypothesis_citations p)) (si_evidence incident) = i # is"
  proof -
    obtain c where "c \<in> set (hypothesis_citations p)" using p(1) by (cases "hypothesis_citations p") auto
    then obtain e where "e \<in> set (si_evidence incident)" "se_id e \<in> set (hypothesis_citations p)" using p(4) by auto
    then have "filter (\<lambda>i. se_id i \<in> set (hypothesis_citations p)) (si_evidence incident) \<noteq> []"
      by (auto simp: filter_empty_conv)
    then show ?thesis using that by (cases "filter (\<lambda>i. se_id i \<in> set (hypothesis_citations p)) (si_evidence incident)") auto
  qed
  then obtain low where low: "lowest_quality incident (hypothesis_citations p) = Some low"
    by (simp add: lowest_quality_def)
  from lowest_quality_mem [OF low] have unc: "is_ok (cited_statement (uncertainty_text low) [se_id low])"
    using ok by (subst cited_statement_ok) (auto simp: incident_ok_def list_all_iff)
  have smry: "is_ok (cited_statement (summary_text p) (hypothesis_citations p))"
    using p by (subst cited_statement_ok) (auto simp: hypothesis_ok_def)
  obtain xs where xs: "rmap explain (p # take 2 ps) = Inr xs"
    using rmap_total [of "p # take 2 ps" explain explanation_of] explain_ok [OF ok] sel by blast
  have "\<forall>h\<in>set (p # take 2 ps). 0 \<le> sh_confidence h \<and> sh_confidence h \<le> 1"
    using sel candidates_facts [OF ok] by (auto simp: hypothesis_ok_def)
  then have conf: "0 \<le> average_confidence (p # take 2 ps)" "average_confidence (p # take 2 ps) \<le> 1"
    using average_confidence_unit [of "p # take 2 ps"] by auto
  from unc smry obtain a b where ab: "cited_statement (summary_text p) (hypothesis_citations p) = Inr a"
    "cited_statement (uncertainty_text low) [se_id low] = Inr b"
    by (auto simp: is_ok_iff)
  show ?thesis
    unfolding draft_synthesis_def cands list.case Let_def low option.case ab xs
    using ne assms(3) conf by simp
qed

section \<open>Properties of the synthesis\<close>

text \<open>
  C11. A returned explanation cites only evidence of the incident: every citation of the summary, of the
  explained hypotheses and of the uncertainty statement is the id of an evidence item, each explained
  hypothesis is one of the incident's with its rank and cites only its own evidence, the explained
  hypotheses are the first three citable ones in rank order, and the digest is that of the bundle.
\<close>
theorem synthesis_cites_bundle:
  assumes "build_evidence_synthesis digest incident = Inr s"
  shows "cited_ids s \<subseteq> se_id ` set (si_evidence incident) \<and> list_all (explained_ok incident) (sy_explained s) \<and>
    map ex_hypothesis_id (sy_explained s) = map sh_id (take 3 (synthesis_candidates incident)) \<and>
    sy_digest s = digest incident"
proof -
  from assms have "draft_synthesis digest incident = Inr s" "\<exists>u. validate_evidence_synthesis digest incident s = Inr u"
    by (auto simp: build_evidence_synthesis_def result_simps)
  then show ?thesis using validate_sound draft_shape by blast
qed

text \<open>
  C12. The explanation is produced for every well-formed incident: when identifiers are clean and
  distinct, texts fit, hypotheses carry at most twenty citations, the digest is a SHA-256 in hex and some
  hypothesis cites evidence of the incident, the draft passes its own validator and is returned.
\<close>
theorem synthesis_succeeds:
  assumes "incident_ok incident" and "synthesis_candidates incident \<noteq> []" and "sha_hex (digest incident)"
  shows "is_ok (build_evidence_synthesis digest incident)"
  using draft_succeeds [of incident digest, OF assms] draft_validates [OF assms(1)]
  by (auto simp: is_ok_iff build_evidence_synthesis_def)

definition sample_incident :: syn_incident where
  "sample_incident = \<lparr> si_id = ''inc-1'',
     si_evidence = [\<lparr> se_id = ''ev-1'', se_source = ''prometheus'', se_quality = 1 \<rparr>],
     si_hypotheses = [\<lparr> sh_id = ''hyp-1'', sh_rank = 1, sh_cause_service = ''db'', sh_cause = ''pool exhausted'',
       sh_confidence = 1, sh_evidence_ids = [''ev-1''], sh_counter_evidence_ids = [], sh_reasoning = ''latency'' \<rparr>] \<rparr>"

definition zero_digest :: "syn_incident \<Rightarrow> string" where
  "zero_digest i = replicate 64 CHR ''0''"

lemma sample_incident_ok:
  "incident_ok sample_incident" "synthesis_candidates sample_incident \<noteq> []" "sha_hex (zero_digest sample_incident)"
  by code_simp+

theorem synthesis_succeeds_witness: "is_ok (build_evidence_synthesis zero_digest sample_incident)"
  by (rule synthesis_succeeds) (rule sample_incident_ok)+

lemma sample_synthesis: "\<exists>s. build_evidence_synthesis zero_digest sample_incident = Inr s"
  using draft_succeeds [of sample_incident zero_digest, OF sample_incident_ok] draft_validates [OF sample_incident_ok(1)]
  by (auto simp: is_ok_iff build_evidence_synthesis_def)

theorem synthesis_cites_bundle_witness:
  "\<exists>s. build_evidence_synthesis zero_digest sample_incident = Inr s \<and> cited_ids s \<subseteq> {''ev-1''} \<and>
     map ex_hypothesis_id (sy_explained s) = [''hyp-1'']"
proof -
  obtain s where s: "build_evidence_synthesis zero_digest sample_incident = Inr s" using sample_synthesis by blast
  have "synthesis_candidates sample_incident = si_hypotheses sample_incident" by code_simp
  then show ?thesis
    using synthesis_cites_bundle [OF s] s by (auto simp: sample_incident_def)
qed

end
