(* ===== verification/Config.thy ===== *)
theory Config
  imports Prelude
begin

text \<open>
  \<open>backend/app/config.py\<close>: the settings, their field validators and the cross-field validation that refuses an
  unsafe production configuration. Reading the environment and the \<open>.env\<close> file is pydantic-settings' own; the
  model starts from the parsed values. A raised \<open>ValueError\<close> is \<open>Inl\<close> of its message.
\<close>

section \<open>Settings\<close>

datatype auth_provider = Development | OIDC | Disabled

record settings =
  app_name :: string
  environment :: string
  database_url :: string
  run_migrations_on_startup :: bool
  seed_synthetic_data :: bool
  github_webhook_secret :: string
  telemetry_ingest_token :: string
  allow_database_reset :: bool
  auth_provider :: auth_provider
  development_user_email :: string
  development_user_name :: string
  access_token_ttl_hours :: int
  invitation_ttl_hours :: int
  oidc_issuer :: string
  oidc_audience :: string
  oidc_client_id :: string
  oidc_jwks_url :: string
  oidc_algorithms :: "string list"
  oidc_leeway_seconds :: int
  frontend_public_url :: string
  github_app_id :: string
  github_app_slug :: string
  github_app_private_key :: string
  github_checks_enabled :: bool
  github_webhook_max_body_bytes :: int
  max_request_body_bytes :: int
  rate_limit_requests :: int
  rate_limit_window_seconds :: int
  otel_export_timeout_seconds :: int
  smtp_host :: string
  smtp_port :: int
  smtp_username :: string
  smtp_password :: string
  smtp_from_email :: string
  smtp_use_tls :: bool
  invitation_token_secret :: string
  cors_origins :: "string list"

text \<open>The \<open>ge\<close> and \<open>le\<close> constraints of the fields.\<close>

definition between :: "int \<Rightarrow> int \<Rightarrow> int \<Rightarrow> bool" where
  "between lo hi n = (lo \<le> n \<and> n \<le> hi)"

definition field_bounds :: "settings \<Rightarrow> bool" where
  "field_bounds s =
     (between 1 168 (access_token_ttl_hours s) \<and> between 1 720 (invitation_ttl_hours s) \<and>
      between 0 300 (oidc_leeway_seconds s) \<and> between 1024 10485760 (github_webhook_max_body_bytes s) \<and>
      between 1024 52428800 (max_request_body_bytes s) \<and> between 1 10000 (rate_limit_requests s) \<and>
      between 1 3600 (rate_limit_window_seconds s) \<and> between 1 30 (otel_export_timeout_seconds s) \<and>
      between 1 65535 (smtp_port s))"

text \<open>The defaults of \<open>Settings\<close>.\<close>

definition default_settings :: settings where
  "default_settings =
     \<lparr> app_name = ''DeployGuard AI'', environment = ''development'', database_url = ''sqlite:///./deployguard.db'',
       run_migrations_on_startup = True, seed_synthetic_data = False, github_webhook_secret = [],
       telemetry_ingest_token = [], allow_database_reset = False, auth_provider = Development,
       development_user_email = ''owner@deployguard.local'', development_user_name = ''Local workspace owner'',
       access_token_ttl_hours = 12, invitation_ttl_hours = 72, oidc_issuer = [], oidc_audience = [],
       oidc_client_id = [], oidc_jwks_url = [], oidc_algorithms = [''RS256''], oidc_leeway_seconds = 30,
       frontend_public_url = ''http://127.0.0.1:4300'', github_app_id = [], github_app_slug = [],
       github_app_private_key = [], github_checks_enabled = False, github_webhook_max_body_bytes = 1048576,
       max_request_body_bytes = 2097152, rate_limit_requests = 120, rate_limit_window_seconds = 60,
       otel_export_timeout_seconds = 5, smtp_host = [], smtp_port = 587, smtp_username = [], smtp_password = [],
       smtp_from_email = [], smtp_use_tls = True, invitation_token_secret = [],
       cors_origins = [''http://127.0.0.1:4200'', ''http://localhost:4200'', ''http://127.0.0.1:4201'',
         ''http://localhost:4201'', ''http://127.0.0.1:4300'', ''http://localhost:4300''] \<rparr>"

section \<open>Field validators\<close>

text \<open>\<open>value.replace(prefix, new, 1)\<close> of a value that starts with the prefix.\<close>

definition normalize_database_url :: "string \<Rightarrow> string" where
  "normalize_database_url v =
     (if py_startswith v ''postgres://'' then ''postgresql+psycopg://'' @ drop (length ''postgres://'') v
      else if py_startswith v ''postgresql://'' then ''postgresql+psycopg://'' @ drop (length ''postgresql://'') v
      else v)"

datatype list_value = Text string | Items "string list"

definition split_commas :: "string \<Rightarrow> string list" where
  "split_commas v = filter (\<lambda>x. x \<noteq> []) (map py_strip (py_split CHR '','' v))"

definition parse_cors_origins :: "list_value \<Rightarrow> list_value" where
  "parse_cors_origins v = (case v of
     Text s \<Rightarrow> if py_startswith (dropWhile is_space s) ''['' then v else Items (split_commas s)
   | Items _ \<Rightarrow> v)"

definition parse_oidc_algorithms :: "list_value \<Rightarrow> list_value" where
  "parse_oidc_algorithms v = (case v of Text s \<Rightarrow> Items (split_commas s) | Items _ \<Rightarrow> v)"

section \<open>Cross-field validation\<close>

definition is_production :: "settings \<Rightarrow> bool" where
  "is_production s = (py_lower (py_strip (environment s)) = ''production'')"

definition development_auth_available :: "settings \<Rightarrow> bool" where
  "development_auth_available s = (auth_provider s = Development \<and> \<not> is_production s)"

definition blank :: "string \<Rightarrow> bool" where
  "blank s = (py_strip s = [])"

definition github_values :: "settings \<Rightarrow> string list" where
  "github_values s = [github_app_id s, github_app_slug s, github_app_private_key s]"

definition github_app_available :: "settings \<Rightarrow> bool" where
  "github_app_available s = list_all (\<lambda>v. \<not> blank v) (github_values s)"

datatype delivery_mode = Smtp | DevelopmentOutbox | DeliveryDisabled

definition email_delivery_mode :: "settings \<Rightarrow> delivery_mode" where
  "email_delivery_mode s =
     (if \<not> blank (smtp_host s) \<and> \<not> blank (smtp_from_email s) then Smtp
      else if \<not> is_production s then DevelopmentOutbox else DeliveryDisabled)"

definition https :: "string \<Rightarrow> bool" where
  "https v = py_startswith v ''https://''"

definition validate_production :: "settings \<Rightarrow> string + unit" where
  "validate_production s =
     (if \<not> is_production s then Inr ()
      else if auth_provider s \<noteq> OIDC then Inl ''Production requires AUTH_PROVIDER=oidc''
      else if seed_synthetic_data s then Inl ''Production cannot enable SEED_SYNTHETIC_DATA''
      else if \<not> py_startswith (database_url s) ''postgresql+psycopg://'' then Inl ''Production requires PostgreSQL through psycopg''
      else if run_migrations_on_startup s then Inl ''Production requires RUN_MIGRATIONS_ON_STARTUP=false; use the isolated migration release job''
      else if \<not> https (frontend_public_url s) then Inl ''Production FRONTEND_PUBLIC_URL must use HTTPS''
      else if list_ex (\<lambda>o'. \<not> https o' \<or> CHR ''*'' \<in> set o') (cors_origins s) then Inl ''Production CORS_ORIGINS must be explicit HTTPS origins''
      else if telemetry_ingest_token s \<noteq> [] \<and> length (telemetry_ingest_token s) < 32
        then Inl ''Production TELEMETRY_INGEST_TOKEN must be at least 32 characters because it is the collector credential root''
      else Inr ())"

definition missing_oidc :: "settings \<Rightarrow> string list" where
  "missing_oidc s = map fst (filter (\<lambda>(n, v). blank v)
     [(''OIDC_ISSUER'', oidc_issuer s), (''OIDC_AUDIENCE'', oidc_audience s), (''OIDC_JWKS_URL'', oidc_jwks_url s)])"

definition default_client_id :: "settings \<Rightarrow> settings" where
  "default_client_id s = (if blank (oidc_client_id s) then s \<lparr> oidc_client_id := oidc_audience s \<rparr> else s)"

definition validate_oidc :: "settings \<Rightarrow> string + settings" where
  "validate_oidc s =
     (if auth_provider s \<noteq> OIDC then Inr s
      else let s' = default_client_id s in
        if missing_oidc s' \<noteq> [] then Inl (''OIDC configuration is incomplete: '' @ join_with '', '' (missing_oidc s'))
        else if oidc_algorithms s' = [] then Inl ''OIDC_ALGORITHMS cannot be empty''
        else if is_production s' \<and> (\<not> https (oidc_issuer s') \<or> \<not> https (oidc_jwks_url s'))
          then Inl ''Production OIDC issuer and JWKS URL must use HTTPS''
        else Inr s')"

definition validate_integrations :: "settings \<Rightarrow> string + unit" where
  "validate_integrations s =
     (if list_ex (\<lambda>v. \<not> blank v) (github_values s) \<and> \<not> github_app_available s then Inl ''GitHub App configuration is incomplete''
      else if github_checks_enabled s \<and> \<not> github_app_available s
        then Inl ''GITHUB_CHECKS_ENABLED requires complete GitHub App configuration''
      else if is_production s \<and> github_webhook_secret s \<noteq> [] \<and> length (github_webhook_secret s) < 32
        then Inl ''Production GITHUB_WEBHOOK_SECRET must be at least 32 characters''
      else if (\<not> blank (smtp_host s) \<or> \<not> blank (smtp_from_email s)) \<and> (blank (smtp_host s) \<or> blank (smtp_from_email s))
        then Inl ''SMTP configuration is incomplete''
      else if is_production s \<and> \<not> blank (smtp_host s) \<and> \<not> smtp_use_tls s then Inl ''Production SMTP requires SMTP_USE_TLS=true''
      else if \<not> blank (smtp_host s) \<and> length (invitation_token_secret s) < 32
        then Inl ''SMTP delivery requires an INVITATION_TOKEN_SECRET of at least 32 characters''
      else Inr ())"

definition validate_auth_configuration :: "settings \<Rightarrow> string + settings" where
  "validate_auth_configuration s =
     rbind (validate_production s) (\<lambda>_. rbind (validate_oidc s) (\<lambda>s'.
     rbind (validate_integrations s') (\<lambda>_. Inr s')))"

section \<open>What an accepted configuration guarantees\<close>

lemma validate_auth_Inr:
  assumes "validate_auth_configuration s = Inr s'"
  shows "validate_production s = Inr ()" and "validate_oidc s = Inr s'" and "validate_integrations s' = Inr ()"
  using assms by (auto simp: validate_auth_configuration_def result_simps)

lemma validate_oidc_Inr:
  "validate_oidc s = Inr s' \<Longrightarrow> s' = (if auth_provider s = OIDC then default_client_id s else s)"
  by (auto simp: validate_oidc_def Let_def split: if_splits)

lemma default_client_id_fields [simp]:
  "environment (default_client_id s) = environment s" "auth_provider (default_client_id s) = auth_provider s"
  "seed_synthetic_data (default_client_id s) = seed_synthetic_data s" "oidc_audience (default_client_id s) = oidc_audience s"
  by (simp_all add: default_client_id_def)

lemma is_production_client_id [simp]: "is_production (default_client_id s) = is_production s"
  by (simp add: is_production_def)

text \<open>Only the client id may change.\<close>

lemma validate_auth_fields:
  assumes "validate_auth_configuration s = Inr s'"
  shows "environment s' = environment s" "auth_provider s' = auth_provider s" "seed_synthetic_data s' = seed_synthetic_data s"
  using validate_oidc_Inr [OF validate_auth_Inr(2) [OF assms]] by (simp_all split: if_splits)

lemma production_auth:
  assumes "validate_auth_configuration s = Inr s'" and "is_production s"
  shows "auth_provider s' = OIDC" and "\<not> seed_synthetic_data s'" and "\<not> development_auth_available s'"
  using validate_auth_Inr(1) [OF assms(1)] validate_auth_fields [OF assms(1)] assms(2)
  by (auto simp: validate_production_def development_auth_available_def is_production_def split: if_splits)

lemma smtp_secret:
  assumes "validate_auth_configuration s = Inr s'" and "email_delivery_mode s' = Smtp"
  shows "32 \<le> length (invitation_token_secret s')"
  using validate_auth_Inr(3) [OF assms(1)] assms(2)
  by (auto simp: validate_integrations_def email_delivery_mode_def split: if_splits)

lemma normalize_database_url_idem: "normalize_database_url (normalize_database_url v) = normalize_database_url v"
  by (simp add: normalize_database_url_def)

lemma default_settings_valid: "field_bounds default_settings \<and> validate_auth_configuration default_settings = Inr default_settings"
  by code_simp

end
