(* ===== verification/RequestGuard.thy ===== *)
theory RequestGuard
  imports Config
begin

text \<open>
  \<open>backend/app/request_guard.py\<close> and \<open>metrics.py\<close>: the ASGI middleware in front of every route, with its request
  identifiers, body limit and sliding-window rate limiter, and the process metrics it feeds.

  A request carries the messages its client sends; a stream that ends before the body does means the middleware
  is still waiting. Clock readings are integers and never decrease. The text of a float in the metrics page is a
  parameter.
\<close>

section \<open>Metrics\<close>

definition KNOWN_METHODS :: "string list" where
  "KNOWN_METHODS = [''GET'', ''POST'', ''PUT'', ''PATCH'', ''DELETE'', ''OPTIONS'', ''HEAD'']"

text \<open>\<open>str.upper\<close> on the code points below 128 that a method token has.\<close>

definition upper_char :: "char \<Rightarrow> char" where
  "upper_char c = (let n = nat_of_char c in if 97 \<le> n \<and> n \<le> 122 then char_of (n - 32) else c)"

definition method_label :: "string \<Rightarrow> string" where
  "method_label m = (let u = map upper_char m in if u \<in> set KNOWN_METHODS then u else ''OTHER'')"

definition status_class :: "int \<Rightarrow> string" where
  "status_class n = (if 100 \<le> n \<and> n < 600 then show_int (n div 100) @ ''xx'' else ''unknown'')"

record registry =
  started_at :: int
  m_requests :: "(string, nat) dict"
  m_responses :: "(string, nat) dict"
  m_rejections :: "(string, nat) dict"
  duration_count :: nat
  duration_sum :: int

definition bump :: "'k \<Rightarrow> ('k, nat) dict \<Rightarrow> ('k, nat) dict" where
  "bump k d = AList.update k (dict_get d k 0 + 1) d"

definition observe_request :: "string \<Rightarrow> int \<Rightarrow> int \<Rightarrow> registry \<Rightarrow> registry" where
  "observe_request m code duration r =
     r \<lparr> m_requests := bump (method_label m) (m_requests r), m_responses := bump (status_class code) (m_responses r),
         duration_count := duration_count r + 1, duration_sum := duration_sum r + max 0 duration \<rparr>"

definition REASONS :: "string list" where
  "REASONS = [''invalid_content_length'', ''request_body_too_large'', ''rate_limit_exceeded'']"

definition record_rejection :: "string \<Rightarrow> registry \<Rightarrow> registry" where
  "record_rejection reason r =
     r \<lparr> m_rejections := bump (if reason \<in> set REASONS then reason else ''other'') (m_rejections r) \<rparr>"

definition counter_line :: "string \<Rightarrow> string \<Rightarrow> (string, nat) dict \<Rightarrow> string \<Rightarrow> string" where
  "counter_line name label d k = name @ ''{'' @ label @ ''=\"'' @ k @ ''\"} '' @ show_nat (dict_get d k 0)"

definition STATUS_CLASSES :: "string list" where
  "STATUS_CLASSES = [''1xx'', ''2xx'', ''3xx'', ''4xx'', ''5xx'', ''unknown'']"

definition render_prometheus :: "(nat \<Rightarrow> int \<Rightarrow> string) \<Rightarrow> registry \<Rightarrow> string list" where
  "render_prometheus fixed r =
     [''# HELP deployguard_process_start_time_seconds Unix timestamp when the process started.'',
      ''# TYPE deployguard_process_start_time_seconds gauge'',
      ''deployguard_process_start_time_seconds '' @ fixed 3 (started_at r),
      ''# HELP deployguard_http_requests_total HTTP requests seen by the API process.'',
      ''# TYPE deployguard_http_requests_total counter''] @
     map (counter_line ''deployguard_http_requests_total'' ''method'' (m_requests r)) (KNOWN_METHODS @ [''OTHER'']) @
     [''# HELP deployguard_http_responses_total HTTP responses by status class.'',
      ''# TYPE deployguard_http_responses_total counter''] @
     map (counter_line ''deployguard_http_responses_total'' ''status_class'' (m_responses r)) STATUS_CLASSES @
     [''# HELP deployguard_http_request_duration_seconds HTTP request duration summary.'',
      ''# TYPE deployguard_http_request_duration_seconds summary'',
      ''deployguard_http_request_duration_seconds_count '' @ show_nat (duration_count r),
      ''deployguard_http_request_duration_seconds_sum '' @ fixed 6 (duration_sum r),
      ''# HELP deployguard_request_rejections_total Requests rejected before application handling.'',
      ''# TYPE deployguard_request_rejections_total counter''] @
     map (counter_line ''deployguard_request_rejections_total'' ''reason'' (m_rejections r)) (REASONS @ [''other''])"

section \<open>Requests\<close>

datatype message = HttpRequest (body: string) (more_body: bool) | OtherMessage

record http_request =
  h_method :: string
  h_path :: string
  h_headers :: "(string \<times> string) list"
  h_client :: "string option"
  h_messages :: "message list"

text \<open>\<open>dict(headers).get(name)\<close>: the last of several headers of one name.\<close>

definition header :: "(string \<times> string) list \<Rightarrow> string \<Rightarrow> string option" where
  "header hs n = map_of (rev hs) n"

text \<open>\<open>int(b)\<close> of a byte string: as for text, with C's white space.\<close>

definition is_c_space :: "char \<Rightarrow> bool" where
  "is_c_space c = (let n = nat_of_char c in n = 32 \<or> (9 \<le> n \<and> n \<le> 13))"

definition py_int_bytes :: "string \<Rightarrow> int option" where
  "py_int_bytes b = (let t = strip_by is_c_space b;
                         sign = (if py_startswith t ''-'' then - 1 else 1);
                         ds = (if py_startswith t ''-'' \<or> py_startswith t ''+'' then tl t else t)
     in if valid_digits ds then Some (sign * int (digits_value 0 (filter is_digit ds))) else None)"

definition is_ascii_alnum :: "char \<Rightarrow> bool" where
  "is_ascii_alnum c = (let n = nat_of_char c in
     (48 \<le> n \<and> n \<le> 57) \<or> (65 \<le> n \<and> n \<le> 90) \<or> (97 \<le> n \<and> n \<le> 122))"

definition id_char :: "char \<Rightarrow> bool" where
  "id_char c = (is_ascii_alnum c \<or> c \<in> set ''.:_-'')"

definition request_id_of :: "string \<Rightarrow> (string \<times> string) list \<Rightarrow> string" where
  "request_id_of uuid hs =
     (let supplied = (case header hs ''x-request-id'' of None \<Rightarrow> [] | Some v \<Rightarrow> v);
          candidate = py_strip (filter (\<lambda>c. nat_of_char c < 128) supplied)
      in if candidate \<noteq> [] \<and> length candidate \<le> 80 \<and> list_all id_char candidate then candidate else uuid)"

section \<open>The body limit\<close>

datatype buffered = Buffered "message list" | TooLarge | Waiting

fun buffer_body :: "int \<Rightarrow> int \<Rightarrow> message list \<Rightarrow> message list \<Rightarrow> buffered" where
  "buffer_body limit received acc [] = Waiting"
| "buffer_body limit received acc (OtherMessage # ms) = Buffered (acc @ [OtherMessage])"
| "buffer_body limit received acc (HttpRequest b mb # ms) =
     (let received' = received + int (length b); acc' = acc @ [HttpRequest b mb] in
      if received' > limit then TooLarge
      else if \<not> mb then Buffered acc' else buffer_body limit received' acc' ms)"

text \<open>The \<open>i\<close>-th message the application receives from \<open>replay_receive\<close>.\<close>

definition replay_receive :: "message list \<Rightarrow> nat \<Rightarrow> message" where
  "replay_receive ms i = (if i < length ms then ms ! i else HttpRequest [] False)"

section \<open>The rate limiter\<close>

type_synonym client_key = "string \<times> string"
type_synonym limiter = "(client_key, int list) dict"

definition LIMITED_METHODS :: "string list" where
  "LIMITED_METHODS = [''POST'', ''PUT'', ''PATCH'']"

definition LIMITED_PATHS :: "string list" where
  "LIMITED_PATHS = [''/api/v1/auth/development-session'', ''/api/v1/webhooks/github'', ''/api/v1/telemetry/events'']"

definition rate_limited_route :: "http_request \<Rightarrow> bool" where
  "rate_limited_route rq = (h_method rq \<in> set LIMITED_METHODS \<and> h_path rq \<in> set LIMITED_PATHS)"

definition key_of :: "http_request \<Rightarrow> client_key" where
  "key_of rq = (case h_client rq of None \<Rightarrow> ''unknown'' | Some c \<Rightarrow> c, h_path rq)"

definition prune :: "int \<Rightarrow> limiter \<Rightarrow> limiter" where
  "prune cutoff bs = (if length bs > 4096 then filter (\<lambda>(k, b). b \<noteq> [] \<and> last b > cutoff) bs else bs)"

definition is_rate_limited :: "nat \<Rightarrow> int \<Rightarrow> int \<Rightarrow> http_request \<Rightarrow> limiter \<Rightarrow> bool \<times> limiter" where
  "is_rate_limited limit window now rq bs =
     (if \<not> rate_limited_route rq then (False, bs)
      else let k = key_of rq; cutoff = now - window;
               b = dropWhile (\<lambda>t. t \<le> cutoff) (dict_get bs k []) in
        if length b \<ge> limit then (True, AList.update k b bs)
        else (False, prune cutoff (AList.update k (b @ [now]) bs)))"

section \<open>The middleware\<close>

record guard_config =
  max_body :: int
  rate_limit :: nat
  rate_window :: int

record guard_state =
  buckets :: limiter
  registry :: registry

datatype outcome =
    Rejected (rejected_status: int) (rejected_code: string) (rejected_id: string) (retry_after: "int option")
  | Forwarded (forwarded_id: string) (forwarded_messages: "message list")
  | Blocked

definition reject :: "http_request \<Rightarrow> string \<Rightarrow> int \<Rightarrow> int \<Rightarrow> string \<Rightarrow> int option \<Rightarrow> guard_state \<Rightarrow> outcome \<times> guard_state" where
  "reject rq code status elapsed rid retry s =
     (Rejected status code rid retry,
      s \<lparr> registry := observe_request (h_method rq) status elapsed (record_rejection code (registry s)) \<rparr>)"

text \<open>\<open>__call__\<close> up to the call of the application; \<open>now\<close> is the limiter's clock and \<open>elapsed\<close> the time since the
  request arrived. The request reaches the application with its own messages when its method has no body.\<close>

definition guard :: "guard_config \<Rightarrow> string \<Rightarrow> int \<Rightarrow> int \<Rightarrow> http_request \<Rightarrow> guard_state \<Rightarrow> outcome \<times> guard_state" where
  "guard cfg uuid now elapsed rq s =
     (let rid = request_id_of uuid (h_headers rq);
          too_large = reject rq ''request_body_too_large'' 413 elapsed rid None s;
          admit = (\<lambda>ms.
            let (limited, bs) = is_rate_limited (rate_limit cfg) (rate_window cfg) now rq (buckets s) in
            if limited then reject rq ''rate_limit_exceeded'' 429 elapsed rid (Some (rate_window cfg)) (s \<lparr> buckets := bs \<rparr>)
            else (Forwarded rid ms, s \<lparr> buckets := bs \<rparr>));
          receive = (\<lambda>_ :: unit.
            if h_method rq \<in> set LIMITED_METHODS
            then (case buffer_body (max_body cfg) 0 [] (h_messages rq) of
                    TooLarge \<Rightarrow> too_large | Waiting \<Rightarrow> (Blocked, s) | Buffered ms \<Rightarrow> admit ms)
            else admit (h_messages rq))
      in case header (h_headers rq) ''content-length'' of
           None \<Rightarrow> receive ()
         | Some v \<Rightarrow>
             (case py_int_bytes v of
                None \<Rightarrow> reject rq ''invalid_content_length'' 400 elapsed rid None s
              | Some n \<Rightarrow> if n > max_body cfg then too_large else receive ()))"

text \<open>The \<open>finally\<close> block: the status the application sent, 500 when it sent none.\<close>

definition finish :: "http_request \<Rightarrow> int option \<Rightarrow> int \<Rightarrow> guard_state \<Rightarrow> guard_state" where
  "finish rq response elapsed s =
     s \<lparr> registry := observe_request (h_method rq) (case response of None \<Rightarrow> 500 | Some n \<Rightarrow> n) elapsed (registry s) \<rparr>"

section \<open>The body reaches the application unchanged\<close>

definition bytes_of :: "message list \<Rightarrow> string" where
  "bytes_of ms = concat (map (\<lambda>m. case m of HttpRequest b _ \<Rightarrow> b | OtherMessage \<Rightarrow> []) ms)"

lemma bytes_of_append [simp]: "bytes_of (xs @ ys) = bytes_of xs @ bytes_of ys"
  by (simp add: bytes_of_def)

lemma bytes_of_Cons [simp]:
  "bytes_of (HttpRequest b mb # ms) = b @ bytes_of ms" "bytes_of (OtherMessage # ms) = bytes_of ms" "bytes_of [] = []"
  by (simp_all add: bytes_of_def)

lemma buffer_body_Buffered:
  assumes "buffer_body limit received acc ms = Buffered out" and "received = int (length (bytes_of acc))" and "received \<le> limit"
  shows "int (length (bytes_of out)) \<le> limit \<and> (\<exists>rest. acc @ ms = out @ rest)"
  using assms by (induction limit received acc ms rule: buffer_body.induct) (auto simp: Let_def split: if_splits)

lemma buffer_body_TooLarge:
  assumes "buffer_body limit received acc ms = TooLarge" and "received = int (length (bytes_of acc))"
  shows "limit < int (length (bytes_of (acc @ ms)))"
  using assms by (induction limit received acc ms rule: buffer_body.induct) (auto simp: Let_def split: if_splits)

section \<open>The sliding window\<close>

text \<open>The limiter over a sequence of requests with their clock readings, and the readings it admitted under a key.\<close>

fun limiter_run :: "nat \<Rightarrow> int \<Rightarrow> (http_request \<times> int) list \<Rightarrow> limiter \<Rightarrow> bool list \<times> limiter" where
  "limiter_run limit window [] bs = ([], bs)"
| "limiter_run limit window ((rq, now) # rqs) bs =
     (let (limited, bs') = is_rate_limited limit window now rq bs; (ls, bs'') = limiter_run limit window rqs bs'
      in (limited # ls, bs''))"

definition admitted :: "client_key \<Rightarrow> ((http_request \<times> int) \<times> bool) list \<Rightarrow> int list" where
  "admitted k log = map (snd \<circ> fst) (filter (\<lambda>((rq, t), limited). rate_limited_route rq \<and> key_of rq = k \<and> \<not> limited) log)"

definition in_window :: "int \<Rightarrow> int \<Rightarrow> int list \<Rightarrow> nat" where
  "in_window window t xs = length (filter (\<lambda>x. t - window < x \<and> x \<le> t) xs)"

text \<open>What the buckets know after the admissions \<open>A\<close>, at clock \<open>now\<close>: a bucket is the recent part of the
  admissions of its key.\<close>

definition bucket_ok :: "nat \<Rightarrow> int \<Rightarrow> int \<Rightarrow> int list \<Rightarrow> int list \<Rightarrow> bool" where
  "bucket_ok limit window now a b \<longleftrightarrow> length b \<le> limit \<and> sorted a \<and> (\<forall>x\<in>set a. x \<le> now) \<and>
     (\<exists>old. a = old @ b \<and> (\<forall>x\<in>set old. x \<le> now - window)) \<and> (\<forall>t. in_window window t a \<le> limit)"

definition limiter_ok :: "nat \<Rightarrow> int \<Rightarrow> int \<Rightarrow> (client_key \<Rightarrow> int list) \<Rightarrow> limiter \<Rightarrow> bool" where
  "limiter_ok limit window now A bs \<longleftrightarrow> distinct (map fst bs) \<and>
     (\<forall>k. bucket_ok limit window now (A k) (dict_get bs k []))"

lemma bucket_ok_later: "bucket_ok limit window now a b \<Longrightarrow> now \<le> now' \<Longrightarrow> bucket_ok limit window now' a b"
  by (fastforce simp: bucket_ok_def)

lemma bucket_ok_evict:
  assumes "bucket_ok limit window now a b"
  shows "bucket_ok limit window now a (dropWhile (\<lambda>t. t \<le> now - window) b)"
proof -
  let ?p = "\<lambda>t. t \<le> now - window"
  from assms obtain old where old: "a = old @ b" "\<forall>x\<in>set old. x \<le> now - window" by (auto simp: bucket_ok_def)
  have "a = (old @ takeWhile ?p b) @ dropWhile ?p b" "\<forall>x\<in>set (old @ takeWhile ?p b). x \<le> now - window"
    using old by (auto dest: set_takeWhileD)
  then have "\<exists>old. a = old @ dropWhile ?p b \<and> (\<forall>x\<in>set old. x \<le> now - window)" by blast
  moreover have "length (dropWhile ?p b) \<le> length b" by (rule length_dropWhile_le)
  ultimately show ?thesis using assms unfolding bucket_ok_def by simp
qed

lemma evicted_recent:
  assumes "sorted b" "x \<in> set (dropWhile (\<lambda>t. t \<le> c) b)"
  shows "c < (x :: int)"
  using assms by (induction b) (auto split: if_splits)

text \<open>Admitting one more request leaves at most \<open>limit\<close> in every window.\<close>

lemma bucket_ok_admit:
  assumes ok: "bucket_ok limit window now a b" and "\<forall>x\<in>set b. now - window < x" and "length b < limit"
  shows "bucket_ok limit window now (a @ [now]) (b @ [now])"
proof -
  from ok obtain old where old: "a = old @ b" "\<forall>x\<in>set old. x \<le> now - window" by (auto simp: bucket_ok_def)
  have "in_window window t (a @ [now]) \<le> limit" for t
  proof (cases "now \<le> t")
    case True
    have "filter (\<lambda>x. t - window < x \<and> x \<le> t) old = []"
      using old(2) True by (auto simp: filter_empty_conv)
    then have "in_window window t (a @ [now]) \<le> length b + 1"
      by (auto simp: in_window_def old(1) intro: le_SucI)
    with assms(3) show ?thesis by simp
  next
    case False
    then have "in_window window t (a @ [now]) = in_window window t a" by (simp add: in_window_def)
    with ok show ?thesis by (simp add: bucket_ok_def)
  qed
  moreover have "a @ [now] = old @ b @ [now]" using old(1) by simp
  moreover have "sorted (a @ [now])" "\<forall>x\<in>set (a @ [now]). x \<le> now" using ok by (auto simp: bucket_ok_def sorted_append)
  ultimately show ?thesis using assms(3) old(2) unfolding bucket_ok_def by auto
qed

lemma bucket_ok_forget:
  assumes "bucket_ok limit window now a b" and "b = [] \<or> last b \<le> now - window"
  shows "bucket_ok limit window now a []"
proof -
  from assms(1) obtain old where old: "a = old @ b" "\<forall>x\<in>set old. x \<le> now - window" by (auto simp: bucket_ok_def)
  have "sorted b" using assms(1) by (auto simp: bucket_ok_def sorted_append)
  have "\<forall>x\<in>set b. x \<le> now - window"
  proof (cases "b = []")
    case False
    then obtain xs where "b = xs @ [last b]" by (metis append_butlast_last_id)
    with \<open>sorted b\<close> have "\<forall>x\<in>set b. x \<le> last b" by (metis in_set_conv_decomp_last sorted_append sorted_wrt_append list.set_intros(1) append_Cons append_Nil insertE list.set(2) order_refl empty_iff list.set(1) set_append UnE)
    with False assms(2) show ?thesis by auto
  qed simp
  then have "\<exists>old. a = old @ [] \<and> (\<forall>x\<in>set old. x \<le> now - window)" using old by auto
  then show ?thesis using assms(1) unfolding bucket_ok_def by simp
qed

lemma dict_get_update: "dict_get (AList.update k v d) k' e = (if k' = k then v else dict_get d k' e)"
  by (simp add: dict_get_def update_conv')

lemma dict_get_filter:
  assumes "distinct (map fst d)"
  shows "dict_get (filter p d) k e = (if p (k, dict_get d k e) then dict_get d k e else e)"
  using assms
proof (induction d)
  case (Cons x d)
  then show ?case
    by (cases x) (auto simp: dict_get_def map_of_eq_None_iff rev_image_eqI split: option.splits dest: map_of_SomeD)
qed (simp add: dict_get_def)

lemma limiter_okD:
  assumes "limiter_ok limit window now A bs"
  shows "distinct (map fst bs)" and "bucket_ok limit window now (A k) (dict_get bs k [])"
  using assms unfolding limiter_ok_def by blast+

lemma limiter_okI:
  assumes "distinct (map fst bs)" and "\<And>k. bucket_ok limit window now (A k) (dict_get bs k [])"
  shows "limiter_ok limit window now A bs"
  using assms unfolding limiter_ok_def by blast

lemma limiter_ok_prune:
  assumes "limiter_ok limit window now A bs"
  shows "limiter_ok limit window now A (prune (now - window) bs)"
proof (cases "length bs > 4096")
  case True
  note d = limiter_okD(1) [OF assms]
  show ?thesis
  proof (rule limiter_okI)
    show "distinct (map fst (prune (now - window) bs))" using d by (simp add: prune_def distinct_map_filter)
    show "bucket_ok limit window now (A k) (dict_get (prune (now - window) bs) k [])" for k
      using limiter_okD(2) [OF assms, of k] bucket_ok_forget [of limit window now "A k" "dict_get bs k []"] True
      by (auto simp: prune_def dict_get_filter [OF d])
  qed
next
  case False
  with assms show ?thesis by (simp add: prune_def)
qed

lemma limiter_step:
  assumes ok: "limiter_ok limit window t A bs" and "t \<le> now"
    and step: "is_rate_limited limit window now rq bs = (limited, bs')"
  shows "limiter_ok limit window now (\<lambda>k. A k @ admitted k [((rq, now), limited)]) bs'"
proof -
  have later: "limiter_ok limit window now A bs"
    using limiter_okD [OF ok] bucket_ok_later [OF _ assms(2)] by (intro limiter_okI) blast+
  define k where "k = key_of rq"
  define b where "b = dropWhile (\<lambda>x. x \<le> now - window) (dict_get bs k [])"
  have b: "bucket_ok limit window now (A k) b"
    unfolding b_def using limiter_okD(2) [OF later] by (rule bucket_ok_evict)
  have "sorted (dict_get bs k [])"
    using limiter_okD(2) [OF later, of k] by (auto simp: bucket_ok_def) (metis sorted_append)
  then have recent: "\<forall>x\<in>set b. now - window < x" unfolding b_def using evicted_recent by blast
  consider (free) "\<not> rate_limited_route rq" | (full) "rate_limited_route rq" "limit \<le> length b"
    | (admit) "rate_limited_route rq" "length b < limit" by linarith
  then show ?thesis
  proof cases
    case free
    with step later show ?thesis by (auto simp: is_rate_limited_def admitted_def)
  next
    case full
    then have "limited" "bs' = AList.update k b bs" using step by (auto simp: is_rate_limited_def Let_def k_def b_def)
    with limiter_okD [OF later] b show ?thesis
      by (intro limiter_okI) (auto simp: admitted_def dict_get_update distinct_update)
  next
    case admit
    then have "\<not> limited" and bs': "bs' = prune (now - window) (AList.update k (b @ [now]) bs)"
      using step by (auto simp: is_rate_limited_def Let_def k_def b_def)
    then have "admitted k' [((rq, now), limited)] = (if k' = k then [now] else [])" for k'
      using admit(1) by (simp add: admitted_def k_def)
    then show ?thesis
      unfolding bs' using limiter_okD [OF later] bucket_ok_admit [OF b recent admit(2)]
      by (intro limiter_ok_prune limiter_okI) (auto simp: dict_get_update distinct_update)
  qed
qed

lemma admitted_join: "(A k @ admitted k [x]) @ admitted k log = A k @ admitted k (x # log)"
  by (simp add: admitted_def)

lemma limiter_run_ok:
  assumes "limiter_ok limit window t A bs" and "sorted (t # map snd rqs)"
  shows "\<exists>t'. limiter_ok limit window t' (\<lambda>k. A k @ admitted k (zip rqs (fst (limiter_run limit window rqs bs))))
           (snd (limiter_run limit window rqs bs))"
  using assms
proof (induction rqs arbitrary: t A bs)
  case Nil
  then show ?case by (auto simp: admitted_def)
next
  case (Cons x rqs)
  obtain rq now where x: "x = (rq, now)" by fastforce
  obtain limited bs' where s: "is_rate_limited limit window now rq bs = (limited, bs')" by fastforce
  have "t \<le> now" "sorted (now # map snd rqs)" using Cons.prems(2) by (auto simp: x)
  from Cons.IH [OF limiter_step [OF Cons.prems(1) this(1) s] this(2)] show ?case
    unfolding admitted_join by (simp add: x s case_prod_unfold Let_def)
qed

section \<open>The outcome of the guard\<close>

lemma buffer_body_Waiting: "buffer_body limit received acc ms = Waiting \<Longrightarrow> \<forall>m\<in>set ms. \<exists>b. m = HttpRequest b True"
  by (induction limit received acc ms rule: buffer_body.induct) (auto simp: Let_def split: if_splits)

lemma request_id_of_safe:
  "request_id_of uuid hs = uuid \<or> (request_id_of uuid hs \<noteq> [] \<and> length (request_id_of uuid hs) \<le> 80 \<and>
     list_all id_char (request_id_of uuid hs))"
  by (auto simp: request_id_of_def Let_def)

lemma is_rate_limited_route: "is_rate_limited limit window now rq bs = (True, bs') \<Longrightarrow> rate_limited_route rq"
  by (auto simp: is_rate_limited_def split: if_splits)

text \<open>
  Every request is answered by the guard or forwarded, unless its body has not arrived yet. A forwarded request of a
  method with a body carries at most the configured number of bytes, and they are exactly the messages the client
  sent, in order; a request is rejected with status 413 only when its declared or actual size exceeds the limit; and the
  request identifier that is echoed is the server's own or consists of at most eighty safe characters.
\<close>

lemma guard_body_limit:
  assumes "0 \<le> max_body cfg"
  shows "case fst (guard cfg uuid now elapsed rq s) of
           Forwarded rid ms \<Rightarrow>
             (h_method rq \<in> set LIMITED_METHODS \<longrightarrow> int (length (bytes_of ms)) \<le> max_body cfg) \<and>
             (\<exists>rest. h_messages rq = ms @ rest) \<and>
             (rid = uuid \<or> (rid \<noteq> [] \<and> length rid \<le> 80 \<and> list_all id_char rid))
         | Rejected status code rid retry \<Rightarrow>
             (status = 413 \<longrightarrow>
               int (length (bytes_of (h_messages rq))) > max_body cfg \<or>
               (\<exists>v n. header (h_headers rq) ''content-length'' = Some v \<and> py_int_bytes v = Some n \<and> n > max_body cfg)) \<and>
             (status = 400 \<longrightarrow> (\<exists>v. header (h_headers rq) ''content-length'' = Some v \<and> py_int_bytes v = None)) \<and>
             (status = 429 \<longrightarrow> rate_limited_route rq) \<and> status \<in> {400, 413, 429}
         | Blocked \<Rightarrow> h_method rq \<in> set LIMITED_METHODS \<and> (\<forall>m\<in>set (h_messages rq). \<exists>b. m = HttpRequest b True)"
proof -
  have B: "\<And>ms. buffer_body (max_body cfg) 0 [] (h_messages rq) = Buffered ms \<Longrightarrow>
      int (length (bytes_of ms)) \<le> max_body cfg \<and> (\<exists>rest. h_messages rq = ms @ rest)"
    using buffer_body_Buffered [of "max_body cfg" 0 "[]" "h_messages rq"] assms by simp
  have T: "buffer_body (max_body cfg) 0 [] (h_messages rq) = TooLarge \<Longrightarrow> max_body cfg < int (length (bytes_of (h_messages rq)))"
    using buffer_body_TooLarge [of "max_body cfg" 0 "[]" "h_messages rq"] by simp
  note W = buffer_body_Waiting [of "max_body cfg" 0 "[]" "h_messages rq"]
  note R = is_rate_limited_route [of "rate_limit cfg" "rate_window cfg" now rq "buckets s"]
  show ?thesis
    using request_id_of_safe [of uuid "h_headers rq"]
    by (auto simp: guard_def Let_def reject_def dest: B T W R split: option.splits buffered.splits prod.splits if_splits)
qed

section \<open>Properties\<close>

text \<open>
  C24. The rate limiter never admits more than the configured number of requests from one client to one protected
  route within any window of the configured length, whatever the requests to other routes and from other clients and
  however often the table of buckets is pruned, as long as the clock does not run backwards.
\<close>
theorem rate_limit_window:
  assumes "sorted (map snd rqs)"
  shows "in_window window t (admitted k (zip rqs (fst (limiter_run limit window rqs [])))) \<le> limit"
proof (cases rqs)
  case Nil
  then show ?thesis by (simp add: in_window_def admitted_def)
next
  case (Cons x xs)
  let ?t0 = "snd x"
  have "limiter_ok limit window ?t0 (\<lambda>_. []) []"
    by (rule limiter_okI) (simp_all add: bucket_ok_def dict_get_def in_window_def)
  moreover have "sorted (?t0 # map snd rqs)" using assms by (auto simp: Cons)
  ultimately obtain t' where "limiter_ok limit window t'
      (\<lambda>k. [] @ admitted k (zip rqs (fst (limiter_run limit window rqs [])))) (snd (limiter_run limit window rqs []))"
    using limiter_run_ok by blast
  from limiter_okD(2) [OF this, of k] show ?thesis by (simp add: bucket_ok_def)
qed

definition demo_post :: "http_request" where
  "demo_post = \<lparr> h_method = ''POST'', h_path = ''/api/v1/webhooks/github'', h_headers = [], h_client = Some ''10.0.0.1'',
     h_messages = [HttpRequest ''{}'' False] \<rparr>"

theorem rate_limit_window_witness:
  "sorted (map snd [(demo_post, 0 :: int), (demo_post, 1), (demo_post, 2), (demo_post, 61)]) \<and>
   fst (limiter_run 2 60 [(demo_post, 0 :: int), (demo_post, 1), (demo_post, 2), (demo_post, 61)] []) = [False, False, True, False] \<and>
   in_window 60 61 (admitted (key_of demo_post)
     (zip [(demo_post, 0 :: int), (demo_post, 1), (demo_post, 2), (demo_post, 61)]
        (fst (limiter_run 2 60 [(demo_post, 0 :: int), (demo_post, 1), (demo_post, 2), (demo_post, 61)] [])))) \<le> 2"
  using rate_limit_window [of "[(demo_post, 0 :: int), (demo_post, 1), (demo_post, 2), (demo_post, 61)]" 60 61 "key_of demo_post" 2]
  by (simp add: is_rate_limited_def rate_limited_route_def demo_post_def key_of_def LIMITED_METHODS_def LIMITED_PATHS_def
      prune_def dict_get_def Let_def)

end
