(* ===== verification/Tenancy.thy ===== *)
theory Tenancy
  imports Prelude
begin

text \<open>
  \<open>backend/app/workspace_services.py\<close>, \<open>rls.py\<close>, \<open>errors.py\<close> and the tables of \<open>models.py\<close> they use: users,
  workspaces, memberships, access tokens, repositories, invitations and the audit trail.

  The database is a record of tables in insertion order, together with the workspace bound to the session
  for row-level security. An operation returns its result and the next state, or the exception it raises;
  a commit or flush raises \<open>IntegrityError\<close> when a primary key or unique constraint would be violated.
  The clock, the identifiers of \<open>uuid4\<close>, the random token, SHA-256 and the HMAC are parameters; the readings
  of the clock within one operation agree.
\<close>

section \<open>Errors\<close>

datatype app_error =
    DomainError (err_detail: string) (err_code: string) (err_status: nat)
  | ValueError
  | KeyError
  | IntegrityError
  | PyAttributeError
  | PyTypeError
  | PyOverflowError

definition not_found :: "string \<Rightarrow> string \<Rightarrow> app_error" where
  "not_found detail code = DomainError detail code 404"

definition conflict :: "string \<Rightarrow> string \<Rightarrow> app_error" where
  "conflict detail code = DomainError detail code 409"

definition forbidden :: "string \<Rightarrow> app_error" where
  "forbidden detail = DomainError detail ''forbidden'' 403"

section \<open>Tables\<close>

datatype role = Viewer | Responder | Admin | Owner

fun ROLE_LEVEL :: "role \<Rightarrow> nat" where
  "ROLE_LEVEL Viewer = 10"
| "ROLE_LEVEL Responder = 20"
| "ROLE_LEVEL Admin = 30"
| "ROLE_LEVEL Owner = 40"

fun role_text :: "role \<Rightarrow> string" where
  "role_text Viewer = ''viewer''"
| "role_text Responder = ''responder''"
| "role_text Admin = ''admin''"
| "role_text Owner = ''owner''"

record user =
  u_id :: string
  u_email :: string
  u_display_name :: string
  u_provider :: string
  u_subject :: string
  u_active :: bool
  u_created :: int

record workspace =
  w_id :: string
  w_name :: string
  w_slug :: string
  w_created_by :: string
  w_created :: int
  w_updated :: int

record membership =
  m_id :: string
  m_workspace :: string
  m_user :: string
  m_role :: role
  m_joined :: int

record user_context =
  c_user :: string
  c_workspace :: string
  c_repository :: "string option"
  c_scenario :: "string option"
  c_updated :: int

record access_token =
  t_id :: string
  t_user :: string
  t_hash :: string
  t_provider :: string
  t_created :: int
  t_expires :: int
  t_revoked :: "int option"

record repository =
  r_id :: string
  r_workspace :: string
  r_provider :: string
  r_provider_id :: string
  r_full_name :: string
  r_branch :: string
  r_visibility :: string
  r_connection_state :: string
  r_data_mode :: string
  r_selected :: bool
  r_last_synced :: "int option"
  r_created :: int

datatype invitation_status = Pending | Accepted | Revoked | Expired

record invitation =
  i_id :: string
  i_workspace :: string
  i_email :: string
  i_role :: role
  i_token_hash :: string
  i_status :: invitation_status
  i_invited_by :: string
  i_created :: int
  i_expires :: int
  i_accepted :: "int option"
  i_revoked :: "int option"

record audit_event =
  a_id :: string
  a_workspace :: string
  a_actor :: "string option"
  a_action :: string
  a_resource_type :: string
  a_resource_id :: string
  a_request_id :: string
  a_metadata :: "(string \<times> string) list"
  a_created :: int

text \<open>The columns of \<open>scenarios\<close> these operations read.\<close>

record scenario =
  s_id :: string
  s_workspace :: string
  s_repository :: string
  s_data_mode :: string
  s_active :: bool
  s_sort_order :: int

record app =
  users :: "user list"
  workspaces :: "workspace list"
  memberships :: "membership list"
  contexts :: "user_context list"
  tokens :: "access_token list"
  repositories :: "repository list"
  invitations :: "invitation list"
  audits :: "audit_event list"
  scenarios :: "scenario list"
  tenant :: "string option" \<comment> \<open>\<open>session.info["deployguard_workspace_id"]\<close>\<close>

text \<open>The primary keys and unique constraints of \<open>models.py\<close>.\<close>

definition unique_ok :: "app \<Rightarrow> bool" where
  "unique_ok db \<longleftrightarrow>
     distinct (map u_id (users db)) \<and> distinct (map u_email (users db)) \<and> distinct (map u_subject (users db)) \<and>
     distinct (map w_id (workspaces db)) \<and> distinct (map w_slug (workspaces db)) \<and>
     distinct (map m_id (memberships db)) \<and> distinct (map (\<lambda>m. (m_workspace m, m_user m)) (memberships db)) \<and>
     distinct (map c_user (contexts db)) \<and>
     distinct (map t_id (tokens db)) \<and> distinct (map t_hash (tokens db)) \<and>
     distinct (map r_id (repositories db)) \<and>
     distinct (map (\<lambda>r. (r_workspace r, r_provider r, r_provider_id r)) (repositories db)) \<and>
     distinct (map i_id (invitations db)) \<and> distinct (map i_token_hash (invitations db)) \<and>
     distinct (map a_id (audits db)) \<and> distinct (map s_id (scenarios db))"

definition commit_db :: "app \<Rightarrow> app_error + app" where
  "commit_db db = (if unique_ok db then Inr db else Inl IntegrityError)"

definition returning :: "'a \<Rightarrow> app_error + app \<Rightarrow> app_error + 'a \<times> app" where
  "returning x r = rbind r (\<lambda>db. Inr (x, db))"

record environment =
  now :: int
  fresh :: "nat \<Rightarrow> string" \<comment> \<open>the identifiers \<open>uuid4\<close> gives to this operation\<close>
  secret_token :: string \<comment> \<open>\<open>secrets.token_urlsafe(32)\<close>\<close>
  sha :: "string \<Rightarrow> string"
  hmac_token :: "string \<Rightarrow> string \<Rightarrow> string"

section \<open>Row-level security\<close>

definition validate_workspace_id :: "string \<Rightarrow> app_error + string" where
  "validate_workspace_id i = (let v = py_strip i in
     if v = [] \<or> length v > 36 then Inl ValueError else Inr v)"

definition set_tenant_context :: "string \<Rightarrow> app \<Rightarrow> app_error + app" where
  "set_tenant_context i db = rbind (validate_workspace_id i) (\<lambda>v. Inr (db \<lparr> tenant := Some v \<rparr>))"

section \<open>Users and tokens\<close>

definition normalize_email :: "string \<Rightarrow> string" where
  "normalize_email e = py_lower (py_strip e)"

definition user_by_email :: "app \<Rightarrow> string \<Rightarrow> user option" where
  "user_by_email db e = find (\<lambda>u. u_email u = e) (users db)"

definition user_by_id :: "app \<Rightarrow> string \<Rightarrow> user option" where
  "user_by_id db i = find (\<lambda>u. u_id u = i) (users db)"

definition display_or_local :: "string \<Rightarrow> string \<Rightarrow> string" where
  "display_or_local name email = (if py_strip name \<noteq> [] then py_strip name else hd (py_split CHR ''@'' email))"

definition development_user :: "environment \<Rightarrow> string \<Rightarrow> string \<Rightarrow> user" where
  "development_user env email name =
     \<lparr> u_id = fresh env 0, u_email = email, u_display_name = display_or_local name email,
       u_provider = ''development'', u_subject = ''development:'' @ email, u_active = True, u_created = now env \<rparr>"

definition hours :: "int \<Rightarrow> int" where
  "hours n = n * 3600000000"

definition invalid_token :: app_error where
  "invalid_token = DomainError ''Invalid or expired access token'' ''invalid_access_token'' 401"

definition token_by_hash :: "app \<Rightarrow> string \<Rightarrow> access_token option" where
  "token_by_hash db h = find (\<lambda>t. t_hash t = h) (tokens db)"

definition authenticate_token :: "environment \<Rightarrow> string \<Rightarrow> app \<Rightarrow> app_error + user" where
  "authenticate_token env raw db =
     (case token_by_hash db (sha env raw) of
        None \<Rightarrow> Inl invalid_token
      | Some t \<Rightarrow>
          if t_revoked t \<noteq> None \<or> t_expires t \<le> now env then Inl invalid_token
          else (case user_by_id db (t_user t) of
                  None \<Rightarrow> Inl invalid_token
                | Some u \<Rightarrow> if u_active u then Inr u else Inl invalid_token))"

section \<open>Membership\<close>

definition find_membership :: "app \<Rightarrow> string \<Rightarrow> string \<Rightarrow> membership option" where
  "find_membership db w u = find (\<lambda>m. m_workspace m = w \<and> m_user m = u) (memberships db)"

definition membership_for :: "user \<Rightarrow> string \<Rightarrow> role \<Rightarrow> app \<Rightarrow> app_error + membership \<times> app" where
  "membership_for usr w minimum db =
     (case find_membership db w (u_id usr) of
        None \<Rightarrow> Inl (not_found ''Workspace not found'' ''workspace_not_found'')
      | Some m \<Rightarrow>
          if ROLE_LEVEL (m_role m) < ROLE_LEVEL minimum
          then Inl (forbidden ''You do not have permission for this action'')
          else returning m (set_tenant_context w db))"

definition audit ::
  "environment \<Rightarrow> nat \<Rightarrow> string \<Rightarrow> string option \<Rightarrow> string \<Rightarrow> string \<Rightarrow> string \<Rightarrow> string \<Rightarrow> (string \<times> string) list \<Rightarrow> app \<Rightarrow> app" where
  "audit env n w actor action resource_type resource_id req metadata db =
     db \<lparr> audits := audits db @
       [\<lparr> a_id = fresh env n, a_workspace = w, a_actor = actor, a_action = action, a_resource_type = resource_type,
          a_resource_id = resource_id, a_request_id = req, a_metadata = metadata, a_created = now env \<rparr>] \<rparr>"

record workspace_summary =
  ws_id :: string
  ws_name :: string
  ws_slug :: string
  ws_role :: role
  ws_repository_count :: nat
  ws_member_count :: nat
  ws_created :: int

definition summarize_workspace :: "membership \<Rightarrow> app \<Rightarrow> app_error + workspace_summary \<times> app" where
  "summarize_workspace m db =
     (case find (\<lambda>w. w_id w = m_workspace m) (workspaces db) of
        None \<Rightarrow> Inl KeyError
      | Some w \<Rightarrow>
          returning \<lparr> ws_id = w_id w, ws_name = w_name w, ws_slug = w_slug w, ws_role = m_role m,
              ws_repository_count = length (filter (\<lambda>r. r_workspace r = w_id w) (repositories db)),
              ws_member_count = length (filter (\<lambda>k. m_workspace k = w_id w) (memberships db)),
              ws_created = w_created w \<rparr>
            (set_tenant_context (w_id w) db))"

definition memberships_of_user :: "app \<Rightarrow> string \<Rightarrow> membership list" where
  "memberships_of_user db u = sort_key m_joined (filter (\<lambda>m. m_user m = u) (memberships db))"

definition list_user_workspaces :: "user \<Rightarrow> app \<Rightarrow> app_error + workspace_summary list \<times> app" where
  "list_user_workspaces usr db =
     rfold (\<lambda>m (acc, d). rbind (summarize_workspace m d) (\<lambda>(s, d'). Inr (acc @ [s], d')))
       (memberships_of_user db (u_id usr)) ([], db)"

definition create_development_session ::
  "environment \<Rightarrow> string \<Rightarrow> string \<Rightarrow> int \<Rightarrow> app \<Rightarrow>
   app_error + (string \<times> int \<times> user \<times> workspace_summary list) \<times> app" where
  "create_development_session env email name ttl_hours db =
     (let e = normalize_email email;
          found = user_by_email db e;
          usr = (case found of Some u \<Rightarrow> u | None \<Rightarrow> development_user env e name);
          db1 = (case found of Some _ \<Rightarrow> db | None \<Rightarrow> db \<lparr> users := users db @ [usr] \<rparr>)
      in rbind (commit_db db1) (\<lambda>_.
         if \<not> u_active usr then Inl (DomainError ''User is inactive'' ''user_inactive'' 403)
         else let expires = now env + hours ttl_hours;
                  tok = \<lparr> t_id = fresh env 1, t_user = u_id usr, t_hash = sha env (secret_token env),
                          t_provider = ''development'', t_created = now env, t_expires = expires, t_revoked = None \<rparr>
              in rbind (commit_db (db1 \<lparr> tokens := tokens db1 @ [tok] \<rparr>)) (\<lambda>db2.
                 rbind (list_user_workspaces usr db2) (\<lambda>(ws, db3).
                 Inr ((secret_token env, expires, usr, ws), db3)))))"

section \<open>Workspaces and repositories\<close>

definition context_of_user :: "app \<Rightarrow> string \<Rightarrow> user_context option" where
  "context_of_user db u = find (\<lambda>c. c_user c = u) (contexts db)"

definition new_user_context :: "environment \<Rightarrow> string \<Rightarrow> string \<Rightarrow> app \<Rightarrow> app" where
  "new_user_context env u w db = db \<lparr> contexts := contexts db @
     [\<lparr> c_user = u, c_workspace = w, c_repository = None, c_scenario = None, c_updated = now env \<rparr>] \<rparr>"

definition add_context_if_none :: "environment \<Rightarrow> string \<Rightarrow> string \<Rightarrow> app \<Rightarrow> app" where
  "add_context_if_none env u w db =
     (case context_of_user db u of Some _ \<Rightarrow> db | None \<Rightarrow> new_user_context env u w db)"

definition create_workspace ::
  "environment \<Rightarrow> user \<Rightarrow> string \<Rightarrow> string \<Rightarrow> string \<Rightarrow> app \<Rightarrow> app_error + workspace_summary \<times> app" where
  "create_workspace env usr name raw_slug req db =
     (let slug = py_lower (py_strip raw_slug) in
      if list_ex (\<lambda>w. w_slug w = slug \<and> w_id w \<noteq> []) (workspaces db)
      then Inl (conflict ''Workspace slug is already in use'' ''workspace_slug_exists'')
      else let w = \<lparr> w_id = fresh env 0, w_name = py_strip name, w_slug = slug, w_created_by = u_id usr,
                     w_created = now env, w_updated = now env \<rparr>;
               m = \<lparr> m_id = fresh env 1, m_workspace = w_id w, m_user = u_id usr, m_role = Owner, m_joined = now env \<rparr>;
               db1 = db \<lparr> workspaces := workspaces db @ [w], memberships := memberships db @ [m] \<rparr>;
               db2 = add_context_if_none env (u_id usr) (w_id w) db1
           in rbind (set_tenant_context (w_id w) db2) (\<lambda>db3.
              rbind (commit_db (audit env 2 (w_id w) (Some (u_id usr)) ''workspace.created'' ''workspace'' (w_id w) req
                [(''slug'', slug)] db3)) (summarize_workspace m)))"

definition set_context_repository :: "environment \<Rightarrow> string \<Rightarrow> string \<Rightarrow> string \<Rightarrow> app \<Rightarrow> app" where
  "set_context_repository env u w r db = db \<lparr> contexts := map (\<lambda>c.
     if c_user c = u \<and> c_workspace c = w \<and> c_repository c = None
     then c \<lparr> c_repository := Some r, c_updated := now env \<rparr> else c) (contexts db) \<rparr>"

definition create_repository ::
  "environment \<Rightarrow> user \<Rightarrow> string \<Rightarrow> string \<Rightarrow> string \<Rightarrow> string \<Rightarrow> string \<Rightarrow> app \<Rightarrow> app_error + repository \<times> app" where
  "create_repository env usr w raw_name branch visibility req db =
     rbind (membership_for usr w Admin db) (\<lambda>(_, db0).
     let full_name = py_strip raw_name; provider_id = ''fixture:'' @ py_lower full_name in
     if list_ex (\<lambda>r. r_workspace r = w \<and> r_provider r = ''development'' \<and> r_provider_id r = provider_id) (repositories db0)
     then Inl (conflict ''Repository is already connected'' ''repository_already_connected'')
     else let r = \<lparr> r_id = fresh env 0, r_workspace = w, r_provider = ''development'', r_provider_id = provider_id,
                    r_full_name = full_name, r_branch = py_strip branch, r_visibility = visibility,
                    r_connection_state = ''connected'', r_data_mode = ''synthetic'', r_selected = True,
                    r_last_synced = Some (now env), r_created = now env \<rparr> in
       rbind (commit_db (db0 \<lparr> repositories := repositories db0 @ [r] \<rparr>)) (\<lambda>db1.
       returning r (commit_db (audit env 1 w (Some (u_id usr)) ''repository.connected'' ''repository'' (r_id r) req
         [(''provider'', ''development''), (''full_name'', full_name)]
         (set_context_repository env (u_id usr) w (r_id r) db1)))))"

definition list_repositories :: "user \<Rightarrow> string \<Rightarrow> app \<Rightarrow> app_error + repository list \<times> app" where
  "list_repositories usr w db =
     rbind (membership_for usr w Viewer db) (\<lambda>(_, db0).
     Inr (sort_key r_full_name (filter (\<lambda>r. r_workspace r = w) (repositories db0)), db0))"

text \<open>\<open>item.user\<close> is the row the foreign key names.\<close>

definition member_summary :: "app \<Rightarrow> membership \<Rightarrow> app_error + user \<times> role \<times> int" where
  "member_summary db m = (case user_by_id db (m_user m) of
     None \<Rightarrow> Inl KeyError | Some u \<Rightarrow> Inr (u, m_role m, m_joined m))"

definition list_members :: "user \<Rightarrow> string \<Rightarrow> app \<Rightarrow> app_error + (user \<times> role \<times> int) list \<times> app" where
  "list_members usr w db =
     rbind (membership_for usr w Viewer db) (\<lambda>(_, db0).
     rbind (rmap (member_summary db0) (sort_key m_joined (filter (\<lambda>m. m_workspace m = w) (memberships db0))))
       (\<lambda>ms. Inr (ms, db0)))"

section \<open>Invitations\<close>

text \<open>\<open>InvitationCreate\<close> of \<open>schemas.py\<close>: the email is stripped and lowered, the role is not owner.\<close>

definition rpartition_at :: "string \<Rightarrow> (string \<times> string) option" where
  "rpartition_at s = (if CHR ''@'' \<in> set s
     then Some (rev (tl (dropWhile (\<lambda>c. c \<noteq> CHR ''@'') (rev s))), rev (takeWhile (\<lambda>c. c \<noteq> CHR ''@'') (rev s)))
     else None)"

definition invitation_email :: "string \<Rightarrow> app_error + string" where
  "invitation_email raw =
     (let e = py_lower (py_strip raw) in
      if py_strip raw = [] \<or> length (py_strip raw) > 320 then Inl ValueError
      else case rpartition_at e of
        None \<Rightarrow> Inl ValueError
      | Some (local, domain) \<Rightarrow> if local = [] \<or> CHR ''.'' \<notin> set domain then Inl ValueError else Inr e)"

definition derive_invitation_claim_token :: "environment \<Rightarrow> string \<Rightarrow> string \<Rightarrow> app_error + string" where
  "derive_invitation_claim_token env secret i =
     (if length secret < 32 then Inl ValueError
      else Inr (hmac_token env secret (''deployguard-invitation:'' @ i)))"

definition create_invitation ::
  "environment \<Rightarrow> user \<Rightarrow> string \<Rightarrow> string \<Rightarrow> role \<Rightarrow> string \<Rightarrow> int \<Rightarrow> string option \<Rightarrow> app \<Rightarrow>
   app_error + (invitation \<times> string) \<times> app" where
  "create_invitation env usr w email rl req ttl_hours secret db =
     rbind (membership_for usr w Admin db) (\<lambda>(caller, db0).
     if rl = Admin \<and> m_role caller \<noteq> Owner then Inl (forbidden ''Only owners can invite admins'')
     else if (case user_by_email db0 email of None \<Rightarrow> False | Some u \<Rightarrow> find_membership db0 w (u_id u) \<noteq> None)
     then Inl (conflict ''User is already a member'' ''member_already_exists'')
     else if list_ex (\<lambda>i. i_workspace i = w \<and> i_email i = email \<and> i_status i = Pending \<and> now env < i_expires i)
               (invitations db0)
     then Inl (conflict ''A pending invitation already exists'' ''invitation_already_pending'')
     else rbind (case secret of
            Some s \<Rightarrow> if s = [] then Inr (secret_token env) else derive_invitation_claim_token env s (fresh env 0)
          | None \<Rightarrow> Inr (secret_token env)) (\<lambda>raw.
       let i = \<lparr> i_id = fresh env 0, i_workspace = w, i_email = email, i_role = rl, i_token_hash = sha env raw,
                 i_status = Pending, i_invited_by = u_id usr, i_created = now env,
                 i_expires = now env + hours ttl_hours, i_accepted = None, i_revoked = None \<rparr>
       in returning (i, raw) (commit_db (audit env 1 w (Some (u_id usr)) ''invitation.created'' ''invitation'' (i_id i) req
            [(''email'', email), (''role'', role_text rl)]
            (db0 \<lparr> invitations := invitations db0 @ [i] \<rparr>)))))"

text \<open>\<open>invitation_summary\<close>: a pending invitation past its time reads as expired.\<close>

definition shown_status :: "environment \<Rightarrow> invitation \<Rightarrow> invitation_status" where
  "shown_status env i = (if i_status i = Pending \<and> i_expires i \<le> now env then Expired else i_status i)"

definition list_invitations :: "environment \<Rightarrow> user \<Rightarrow> string \<Rightarrow> app \<Rightarrow> app_error + invitation list \<times> app" where
  "list_invitations env usr w db =
     rbind (membership_for usr w Admin db) (\<lambda>(_, db0).
     Inr (map (\<lambda>i. i \<lparr> i_status := shown_status env i \<rparr>)
            (sort_key (\<lambda>i. - i_created i) (filter (\<lambda>i. i_workspace i = w) (invitations db0))), db0))"

definition update_invitation :: "string \<Rightarrow> (invitation \<Rightarrow> invitation) \<Rightarrow> app \<Rightarrow> app" where
  "update_invitation k f db = db \<lparr> invitations := map (\<lambda>i. if i_id i = k then f i else i) (invitations db) \<rparr>"

text \<open>An invitation is read, checked and written without a lock: \<open>others\<close> is what other requests commit in between. The
  status is no longer the pending one that was read and the time is new, so both columns are written.\<close>

definition meanwhile :: "(app \<Rightarrow> app) \<Rightarrow> app \<Rightarrow> app" where
  "meanwhile others db = (others db) \<lparr> tenant := tenant db \<rparr>"

definition revoke_invitation ::
  "(app \<Rightarrow> app) \<Rightarrow> environment \<Rightarrow> user \<Rightarrow> string \<Rightarrow> string \<Rightarrow> string \<Rightarrow> app \<Rightarrow> app_error + invitation \<times> app" where
  "revoke_invitation others env usr w k req db =
     rbind (membership_for usr w Admin db) (\<lambda>(_, db0).
     case find (\<lambda>i. i_id i = k \<and> i_workspace i = w) (invitations db0) of
       None \<Rightarrow> Inl (not_found ''Invitation not found'' ''invitation_not_found'')
     | Some i \<Rightarrow>
         if i_status i \<noteq> Pending then Inl (conflict ''Invitation is not pending'' ''invitation_not_pending'')
         else returning (i \<lparr> i_status := Revoked, i_revoked := Some (now env) \<rparr>)
           (commit_db (audit env 0 w (Some (u_id usr)) ''invitation.revoked'' ''invitation'' k req []
             (update_invitation k (\<lambda>i. i \<lparr> i_status := Revoked, i_revoked := Some (now env) \<rparr>) (meanwhile others db0)))))"

definition invalid_invitation :: app_error where
  "invalid_invitation = DomainError ''Invitation is invalid'' ''invalid_invitation'' 400"

definition accept_invitation ::
  "(app \<Rightarrow> app) \<Rightarrow> environment \<Rightarrow> user \<Rightarrow> string \<Rightarrow> string \<Rightarrow> app \<Rightarrow> app_error + workspace_summary \<times> app" where
  "accept_invitation others env usr raw req db =
     (case find (\<lambda>i. i_token_hash i = sha env raw) (invitations db) of
        None \<Rightarrow> Inl invalid_invitation
      | Some i \<Rightarrow>
          if i_status i \<noteq> Pending \<or> i_revoked i \<noteq> None \<or> i_expires i \<le> now env \<or> i_email i \<noteq> u_email usr
          then Inl invalid_invitation
          else rbind (set_tenant_context (i_workspace i) db) (\<lambda>db0.
            let found = find_membership db0 (i_workspace i) (u_id usr);
                m = (case found of Some m \<Rightarrow> m | None \<Rightarrow>
                  \<lparr> m_id = fresh env 0, m_workspace = i_workspace i, m_user = u_id usr, m_role = i_role i,
                    m_joined = now env \<rparr>);
                cur = meanwhile others db0;
                db1 = (if found = None then cur \<lparr> memberships := memberships cur @ [m] \<rparr> else cur);
                db2 = (if context_of_user db0 (u_id usr) = None then new_user_context env (u_id usr) (i_workspace i) db1 else db1);
                db3 = update_invitation (i_id i) (\<lambda>i. i \<lparr> i_status := Accepted, i_accepted := Some (now env) \<rparr>) db2
            in rbind (commit_db (audit env 1 (i_workspace i) (Some (u_id usr)) ''invitation.accepted'' ''invitation'' (i_id i)
                 req [(''role'', role_text (i_role i))] db3)) (summarize_workspace m)))"

definition list_audit_events :: "user \<Rightarrow> string \<Rightarrow> nat \<Rightarrow> app \<Rightarrow> app_error + audit_event list \<times> app" where
  "list_audit_events usr w limit db =
     rbind (membership_for usr w Admin db) (\<lambda>(_, db0).
     Inr (take limit (rev (sort_key (\<lambda>a. (a_created a, a_id a)) (filter (\<lambda>a. a_workspace a = w) (audits db0)))), db0))"


section \<open>Results of the operations\<close>

named_theorems tenancy_simps \<open>successful results of the tenancy operations\<close>

lemma meanwhile_id [simp]: "meanwhile (\<lambda>d. d) db = db"
  by (simp add: meanwhile_def)

lemma commit_db_Inr [tenancy_simps]: "commit_db db = Inr db' \<longleftrightarrow> unique_ok db \<and> db' = db"
  by (auto simp: commit_db_def)

lemma returning_Inr [tenancy_simps]: "returning x r = Inr (y, db') \<longleftrightarrow> y = x \<and> r = Inr db'"
  by (auto simp: returning_def result_simps)

definition valid_workspace_id :: "string \<Rightarrow> bool" where
  "valid_workspace_id i \<longleftrightarrow> py_strip i \<noteq> [] \<and> length (py_strip i) \<le> 36"

lemma set_tenant_context_Inr [tenancy_simps]:
  "set_tenant_context i db = Inr db' \<longleftrightarrow> valid_workspace_id i \<and> db' = db \<lparr> tenant := Some (py_strip i) \<rparr>"
  by (auto simp: set_tenant_context_def validate_workspace_id_def valid_workspace_id_def result_simps Let_def)

lemma membership_for_Inr [tenancy_simps]:
  "membership_for usr w minimum db = Inr (m, db') \<longleftrightarrow>
     find_membership db w (u_id usr) = Some m \<and> ROLE_LEVEL minimum \<le> ROLE_LEVEL (m_role m) \<and>
     valid_workspace_id w \<and> db' = db \<lparr> tenant := Some (py_strip w) \<rparr>"
  by (auto simp: membership_for_def tenancy_simps split: option.splits)

lemma find_membership_SomeD:
  "find_membership db w u = Some m \<Longrightarrow> m \<in> set (memberships db) \<and> m_workspace m = w \<and> m_user m = u"
  by (auto simp: find_membership_def find_Some_iff)

lemma find_membership_None: "find_membership db w u = None \<longleftrightarrow> (\<forall>m\<in>set (memberships db). \<not> (m_workspace m = w \<and> m_user m = u))"
  by (auto simp: find_membership_def find_None_iff)

lemma summarize_workspace_Inr:
  "summarize_workspace m db = Inr (s, db') \<Longrightarrow>
     db' = db \<lparr> tenant := Some (py_strip (m_workspace m)) \<rparr> \<and> ws_id s = m_workspace m \<and> ws_role s = m_role m"
  by (auto simp: summarize_workspace_def tenancy_simps find_Some_iff split: option.splits)

text \<open>What a session leaves in the tables: everything but the tenant bound to it.\<close>

definition stored :: "app \<Rightarrow> app" where
  "stored db = db \<lparr> tenant := None \<rparr>"

lemma stored_tenant [simp]: "stored (db \<lparr> tenant := t \<rparr>) = stored db"
  by (simp add: stored_def)

lemma stored_stored [simp]: "stored (stored db) = stored db"
  by (simp add: stored_def)

lemma stored_fields:
  assumes "stored db' = stored db"
  shows "users db' = users db" "workspaces db' = workspaces db" "memberships db' = memberships db"
    "contexts db' = contexts db" "tokens db' = tokens db" "repositories db' = repositories db"
    "invitations db' = invitations db" "audits db' = audits db" "scenarios db' = scenarios db"
  using assms by (cases db; cases db'; simp add: stored_def)+

lemma summarize_workspace_stored: "summarize_workspace m db = Inr (s, db') \<Longrightarrow> stored db' = stored db"
  by (auto dest: summarize_workspace_Inr)

lemma list_user_workspaces_stored:
  assumes "list_user_workspaces usr db = Inr (ws, db')"
  shows "stored db' = stored db"
proof -
  have "stored (snd (ws, db')) = stored db"
    by (rule rfold_invariant [OF assms [unfolded list_user_workspaces_def]])
      (auto simp: result_simps dest!: summarize_workspace_stored)
  then show ?thesis by simp
qed

section \<open>The invariant of the tables\<close>

definition has_role :: "app \<Rightarrow> string \<Rightarrow> string \<Rightarrow> role \<Rightarrow> bool" where
  "has_role db w u minimum \<longleftrightarrow>
     (\<exists>m\<in>set (memberships db). m_workspace m = w \<and> m_user m = u \<and> ROLE_LEVEL minimum \<le> ROLE_LEVEL (m_role m))"

definition has_repository :: "app \<Rightarrow> string \<Rightarrow> string \<Rightarrow> bool" where
  "has_repository db w r \<longleftrightarrow> (\<exists>x\<in>set (repositories db). r_id x = r \<and> r_workspace x = w)"

definition has_scenario :: "app \<Rightarrow> string \<Rightarrow> string \<Rightarrow> bool" where
  "has_scenario db w s \<longleftrightarrow> (\<exists>x\<in>set (scenarios db). s_id x = s \<and> s_workspace x = w)"

definition context_ok :: "app \<Rightarrow> user_context \<Rightarrow> bool" where
  "context_ok db c \<longleftrightarrow> has_role db (c_workspace c) (c_user c) Viewer \<and>
     (\<forall>r. c_repository c = Some r \<longrightarrow> has_repository db (c_workspace c) r) \<and>
     (\<forall>s. c_scenario c = Some s \<longrightarrow> has_scenario db (c_workspace c) s)"

definition invitation_ok :: "app \<Rightarrow> invitation \<Rightarrow> bool" where
  "invitation_ok db i \<longleftrightarrow> i_role i \<noteq> Owner \<and> i_status i \<noteq> Expired \<and>
     (i_status i = Accepted \<longleftrightarrow> i_accepted i \<noteq> None) \<and> (i_status i = Revoked \<longleftrightarrow> i_revoked i \<noteq> None) \<and>
     (\<exists>w\<in>set (workspaces db). w_id w = i_workspace i) \<and>
     has_role db (i_workspace i) (i_invited_by i) (if i_role i = Admin then Owner else Admin)"

definition membership_ok :: "app \<Rightarrow> membership \<Rightarrow> bool" where
  "membership_ok db m \<longleftrightarrow> (\<exists>w\<in>set (workspaces db). w_id w = m_workspace m) \<and>
     (\<exists>u\<in>set (users db). u_id u = m_user m)"

definition owned :: "app \<Rightarrow> workspace \<Rightarrow> bool" where
  "owned db w \<longleftrightarrow> valid_workspace_id (w_id w) \<and> (\<exists>u. has_role db (w_id w) u Owner)"

definition scenario_ok :: "app \<Rightarrow> scenario \<Rightarrow> bool" where
  "scenario_ok db s \<longleftrightarrow> has_repository db (s_workspace s) (s_repository s)"

definition tenancy_inv :: "app \<Rightarrow> bool" where
  "tenancy_inv db \<longleftrightarrow> unique_ok db \<and>
     (\<forall>m\<in>set (memberships db). membership_ok db m) \<and> (\<forall>w\<in>set (workspaces db). owned db w) \<and>
     (\<forall>c\<in>set (contexts db). context_ok db c) \<and> (\<forall>i\<in>set (invitations db). invitation_ok db i) \<and>
     (\<forall>s\<in>set (scenarios db). scenario_ok db s)"

text \<open>The tables only grow, and what a row refers to stays.\<close>

definition grows :: "app \<Rightarrow> app \<Rightarrow> bool" where
  "grows db db' \<longleftrightarrow> set (memberships db) \<subseteq> set (memberships db') \<and> set (workspaces db) \<subseteq> set (workspaces db') \<and>
     set (repositories db) \<subseteq> set (repositories db') \<and> set (scenarios db) \<subseteq> set (scenarios db') \<and>
     u_id ` set (users db) \<subseteq> u_id ` set (users db')"

lemma grows_has_role: "grows db db' \<Longrightarrow> has_role db w u r \<Longrightarrow> has_role db' w u r"
  by (auto simp: grows_def has_role_def)

lemma grows_has_repository: "grows db db' \<Longrightarrow> has_repository db w r \<Longrightarrow> has_repository db' w r"
  by (auto simp: grows_def has_repository_def)

lemma grows_has_scenario: "grows db db' \<Longrightarrow> has_scenario db w r \<Longrightarrow> has_scenario db' w r"
  by (auto simp: grows_def has_scenario_def)

lemma grows_ok:
  assumes "grows db db'"
  shows "membership_ok db m \<Longrightarrow> membership_ok db' m" and "owned db w \<Longrightarrow> owned db' w"
    and "context_ok db c \<Longrightarrow> context_ok db' c" and "invitation_ok db i \<Longrightarrow> invitation_ok db' i"
    and "scenario_ok db s \<Longrightarrow> scenario_ok db' s"
proof -
  show "membership_ok db m \<Longrightarrow> membership_ok db' m"
    using assms unfolding membership_ok_def grows_def by (metis (no_types, lifting) imageE image_eqI subsetD)
  show "owned db w \<Longrightarrow> owned db' w"
    using grows_has_role [OF assms] unfolding owned_def by blast
  show "context_ok db c \<Longrightarrow> context_ok db' c"
    using grows_has_role [OF assms] grows_has_repository [OF assms] grows_has_scenario [OF assms]
    unfolding context_ok_def by blast
  show "invitation_ok db i \<Longrightarrow> invitation_ok db' i"
    using grows_has_role [OF assms, of "i_workspace i" "i_invited_by i"] assms
    by (auto simp: invitation_ok_def grows_def)
  show "scenario_ok db s \<Longrightarrow> scenario_ok db' s"
    using grows_has_repository [OF assms] unfolding scenario_ok_def by blast
qed

lemma ball_step:
  assumes "\<And>x. P x \<Longrightarrow> Q x" and "\<And>x. x \<in> B \<Longrightarrow> x \<notin> A \<Longrightarrow> Q x" and "\<forall>x\<in>A. P x"
  shows "\<forall>x\<in>B. Q x"
  using assms by blast

text \<open>To keep the invariant, an operation only has to justify the rows it adds or changes.\<close>

lemma tenancy_inv_step:
  assumes inv: "tenancy_inv db" and "unique_ok db'" and g: "grows db db'"
    and "\<And>m. m \<in> set (memberships db') \<Longrightarrow> m \<notin> set (memberships db) \<Longrightarrow> membership_ok db' m"
    and "\<And>w. w \<in> set (workspaces db') \<Longrightarrow> w \<notin> set (workspaces db) \<Longrightarrow> owned db' w"
    and "\<And>c. c \<in> set (contexts db') \<Longrightarrow> c \<notin> set (contexts db) \<Longrightarrow> context_ok db' c"
    and "\<And>i. i \<in> set (invitations db') \<Longrightarrow> i \<notin> set (invitations db) \<Longrightarrow> invitation_ok db' i"
    and "\<And>s. s \<in> set (scenarios db') \<Longrightarrow> s \<notin> set (scenarios db) \<Longrightarrow> scenario_ok db' s"
  shows "tenancy_inv db'"
proof -
  have "\<forall>m\<in>set (memberships db). membership_ok db m" "\<forall>w\<in>set (workspaces db). owned db w"
    "\<forall>c\<in>set (contexts db). context_ok db c" "\<forall>i\<in>set (invitations db). invitation_ok db i"
    "\<forall>s\<in>set (scenarios db). scenario_ok db s"
    using inv unfolding tenancy_inv_def by blast+
  note old = this
  show ?thesis
    unfolding tenancy_inv_def
    by (intro conjI assms(2) ball_step [OF grows_ok(1) [OF g] assms(4) old(1)]
        ball_step [OF grows_ok(2) [OF g] assms(5) old(2)] ball_step [OF grows_ok(3) [OF g] assms(6) old(3)]
        ball_step [OF grows_ok(4) [OF g] assms(7) old(4)] ball_step [OF grows_ok(5) [OF g] assms(8) old(5)])
qed

lemma tenancy_inv_stored [simp]: "tenancy_inv (stored db) = tenancy_inv db"
  by (simp add: tenancy_inv_def unique_ok_def membership_ok_def owned_def has_role_def context_ok_def
      has_repository_def has_scenario_def invitation_ok_def scenario_ok_def stored_def)

lemma tenancy_inv_stored_cong: "stored db' = stored db \<Longrightarrow> tenancy_inv db' = tenancy_inv db"
  by (metis tenancy_inv_stored)


lemma audit_fields [simp]:
  "users (audit env n w a b c d e f db) = users db" "workspaces (audit env n w a b c d e f db) = workspaces db"
  "memberships (audit env n w a b c d e f db) = memberships db" "contexts (audit env n w a b c d e f db) = contexts db"
  "tokens (audit env n w a b c d e f db) = tokens db" "repositories (audit env n w a b c d e f db) = repositories db"
  "invitations (audit env n w a b c d e f db) = invitations db" "scenarios (audit env n w a b c d e f db) = scenarios db"
  by (simp_all add: audit_def)

lemma add_context_fields [simp]:
  "users (add_context_if_none env u w db) = users db" "workspaces (add_context_if_none env u w db) = workspaces db"
  "memberships (add_context_if_none env u w db) = memberships db" "tokens (add_context_if_none env u w db) = tokens db"
  "repositories (add_context_if_none env u w db) = repositories db" "invitations (add_context_if_none env u w db) = invitations db"
  "scenarios (add_context_if_none env u w db) = scenarios db" "audits (add_context_if_none env u w db) = audits db"
  by (simp_all add: add_context_if_none_def new_user_context_def split: option.splits)

lemma add_context_contexts:
  "set (contexts (add_context_if_none env u w db)) \<subseteq> insert
     \<lparr> c_user = u, c_workspace = w, c_repository = None, c_scenario = None, c_updated = now env \<rparr> (set (contexts db))"
  by (auto simp: add_context_if_none_def new_user_context_def split: option.splits)

lemma update_invitation_fields [simp]:
  "users (update_invitation k f db) = users db" "workspaces (update_invitation k f db) = workspaces db"
  "memberships (update_invitation k f db) = memberships db" "tokens (update_invitation k f db) = tokens db"
  "repositories (update_invitation k f db) = repositories db" "contexts (update_invitation k f db) = contexts db"
  "scenarios (update_invitation k f db) = scenarios db" "audits (update_invitation k f db) = audits db"
  by (simp_all add: update_invitation_def)

lemma unique_ok_tenant [simp]: "unique_ok (db \<lparr> tenant := t \<rparr>) = unique_ok db"
  by (simp add: unique_ok_def)

lemma create_development_session_Inr:
  assumes "create_development_session env email name ttl db = Inr (r, db')"
  obtains us ts where "stored db' = stored (db \<lparr> users := users db @ us, tokens := tokens db @ ts \<rparr>)"
    "unique_ok (db \<lparr> users := users db @ us, tokens := tokens db @ ts \<rparr>)"
proof (cases "user_by_email db (normalize_email email)")
  case None
  with assms(1) show ?thesis
    by (intro that [of _ "[development_user env (normalize_email email) name]"])
      (auto simp: create_development_session_def Let_def result_simps tenancy_simps dest!: list_user_workspaces_stored
        split: if_splits)
next
  case (Some u)
  with assms(1) show ?thesis
    by (intro that [of _ "[]"])
      (auto simp: create_development_session_def Let_def result_simps tenancy_simps dest!: list_user_workspaces_stored
        split: if_splits)
qed

lemma create_development_session_inv:
  assumes "create_development_session env email name ttl db = Inr (r, db')" and "tenancy_inv db"
  shows "tenancy_inv db'"
  using assms(1)
proof (rule create_development_session_Inr)
  fix us ts assume st: "stored db' = stored (db \<lparr> users := users db @ us, tokens := tokens db @ ts \<rparr>)"
    and "unique_ok (db \<lparr> users := users db @ us, tokens := tokens db @ ts \<rparr>)"
  then have "tenancy_inv (db \<lparr> users := users db @ us, tokens := tokens db @ ts \<rparr>)"
    by (intro tenancy_inv_step [OF assms(2)]) (auto simp: grows_def)
  then show ?thesis by (simp add: tenancy_inv_stored_cong [OF st])
qed

lemma create_workspace_inv:
  assumes "create_workspace env usr name slug req db = Inr (r, db')" and "tenancy_inv db" and "usr \<in> set (users db)"
  shows "tenancy_inv db'"
proof -
  define w where "w = \<lparr> w_id = fresh env 0, w_name = py_strip name, w_slug = py_lower (py_strip slug),
    w_created_by = u_id usr, w_created = now env, w_updated = now env \<rparr>"
  define m where "m = \<lparr> m_id = fresh env 1, m_workspace = w_id w, m_user = u_id usr, m_role = Owner, m_joined = now env \<rparr>"
  define db1 where "db1 = db \<lparr> workspaces := workspaces db @ [w], memberships := memberships db @ [m] \<rparr>"
  define db2 where "db2 = audit env 2 (w_id w) (Some (u_id usr)) ''workspace.created'' ''workspace'' (w_id w) req
    [(''slug'', w_slug w)] (add_context_if_none env (u_id usr) (w_id w) db1 \<lparr> tenant := Some (py_strip (w_id w)) \<rparr>)"
  have "valid_workspace_id (w_id w)" "unique_ok db2" and st: "stored db' = stored db2"
    using assms(1) summarize_workspace_stored
    by (auto simp: create_workspace_def Let_def result_simps tenancy_simps w_def m_def db1_def db2_def split: if_splits)
  have owner: "has_role db2 (w_id w) (u_id usr) r" for r
    by (cases r) (auto simp: has_role_def db2_def db1_def m_def)
  have "tenancy_inv db2"
  proof (rule tenancy_inv_step [OF assms(2) \<open>unique_ok db2\<close>])
    show "grows db db2" by (auto simp: grows_def db2_def db1_def)
    show "membership_ok db2 x" if "x \<in> set (memberships db2)" "x \<notin> set (memberships db)" for x
      using that assms(3) by (auto simp: db2_def db1_def membership_ok_def m_def)
    show "owned db2 x" if "x \<in> set (workspaces db2)" "x \<notin> set (workspaces db)" for x
      using that \<open>valid_workspace_id (w_id w)\<close> owner by (auto simp: owned_def db2_def db1_def)
    show "context_ok db2 c" if "c \<in> set (contexts db2)" "c \<notin> set (contexts db)" for c
    proof -
      from that have "c = \<lparr> c_user = u_id usr, c_workspace = w_id w, c_repository = None, c_scenario = None, c_updated = now env \<rparr>"
        using add_context_contexts [of env "u_id usr" "w_id w" db1] by (auto simp: db2_def db1_def)
      then show ?thesis using owner by (simp add: context_ok_def)
    qed
  qed (auto simp: db2_def db1_def)
  then show ?thesis by (simp add: tenancy_inv_stored_cong [OF st])
qed


lemma find_membership_role: "find_membership db w u = Some m \<Longrightarrow> ROLE_LEVEL r \<le> ROLE_LEVEL (m_role m) \<Longrightarrow> has_role db w u r"
  by (auto simp: has_role_def dest: find_membership_SomeD)

lemma has_role_workspace:
  "tenancy_inv db \<Longrightarrow> has_role db w u r \<Longrightarrow> \<exists>x\<in>set (workspaces db). w_id x = w"
  by (auto simp: tenancy_inv_def has_role_def membership_ok_def)

lemma has_role_tables: "memberships db' = memberships db \<Longrightarrow> has_role db' w u r = has_role db w u r"
  by (simp add: has_role_def)

lemma create_repository_inv:
  assumes "create_repository env usr w name branch vis req db = Inr (r, db')" and "tenancy_inv db"
  shows "tenancy_inv db'"
proof -
  from assms(1) have "unique_ok db'" and db': "db' = audit env 1 w (Some (u_id usr)) ''repository.connected'' ''repository'' (r_id r)
      req [(''provider'', ''development''), (''full_name'', py_strip name)]
      (set_context_repository env (u_id usr) w (r_id r) (db \<lparr> tenant := Some (py_strip w), repositories := repositories db @ [r] \<rparr>))"
    and "r_workspace r = w"
    by (auto simp: create_repository_def Let_def result_simps tenancy_simps split: if_splits)
  show ?thesis
  proof (rule tenancy_inv_step [OF assms(2) \<open>unique_ok db'\<close>])
    show g: "grows db db'" by (auto simp: grows_def db' set_context_repository_def)
    show "context_ok db' c" if new: "c \<in> set (contexts db')" "c \<notin> set (contexts db)" for c
    proof -
      from new obtain d where "d \<in> set (contexts db)" "c_workspace d = w"
        and c: "c = d \<lparr> c_repository := Some (r_id r), c_updated := now env \<rparr>"
        by (auto simp: db' set_context_repository_def split: if_splits)
      then have "context_ok db' d" using assms(2) grows_ok(3) [OF g] by (auto simp: tenancy_inv_def)
      moreover have "has_repository db' w (r_id r)"
        using \<open>r_workspace r = w\<close> by (auto simp: has_repository_def db' set_context_repository_def)
      ultimately show ?thesis using \<open>c_workspace d = w\<close> by (auto simp: context_ok_def c)
    qed
  qed (auto simp: db' set_context_repository_def)
qed

lemma create_invitation_Inr:
  assumes "create_invitation env usr w email rl req ttl secret db = Inr ((i, raw), db')"
  shows "has_role db w (u_id usr) (if rl = Admin then Owner else Admin)" and "unique_ok db'"
    and "i = \<lparr> i_id = fresh env 0, i_workspace = w, i_email = email, i_role = rl, i_token_hash = sha env raw,
           i_status = Pending, i_invited_by = u_id usr, i_created = now env,
           i_expires = now env + hours ttl, i_accepted = None, i_revoked = None \<rparr>"
    and "db' = audit env 1 w (Some (u_id usr)) ''invitation.created'' ''invitation'' (i_id i) req
            [(''email'', email), (''role'', role_text rl)]
            (db \<lparr> tenant := Some (py_strip w), invitations := invitations db @ [i] \<rparr>)"
  using assms
  by (auto simp: create_invitation_def Let_def result_simps tenancy_simps split: if_splits intro: find_membership_role)

lemma create_invitation_inv:
  assumes "create_invitation env usr w email rl req ttl secret db = Inr (r, db')" and "tenancy_inv db" and "rl \<noteq> Owner"
  shows "tenancy_inv db'"
proof -
  obtain i raw where "r = (i, raw)" by fastforce
  note eff = create_invitation_Inr [OF assms(1) [unfolded this]]
  show ?thesis
  proof (rule tenancy_inv_step [OF assms(2) eff(2)])
    show "invitation_ok db' x" if "x \<in> set (invitations db')" "x \<notin> set (invitations db)" for x
      using that eff(1) has_role_workspace [OF assms(2) eff(1)] assms(3) has_role_tables [of db' db]
      by (auto simp: eff(3,4) invitation_ok_def)
  qed (auto simp: eff(4) grows_def)
qed

lemma revoke_invitation_Inr:
  assumes "revoke_invitation (\<lambda>d. d) env usr w k req db = Inr (r, db')"
  obtains i where "i \<in> set (invitations db)" "i_id i = k" "i_workspace i = w" "i_status i = Pending"
    "has_role db w (u_id usr) Admin" "unique_ok db'"
    "db' = audit env 0 w (Some (u_id usr)) ''invitation.revoked'' ''invitation'' k req []
      (update_invitation k (\<lambda>i. i \<lparr> i_status := Revoked, i_revoked := Some (now env) \<rparr>) (db \<lparr> tenant := Some (py_strip w) \<rparr>))"
proof -
  from assms obtain i where "find (\<lambda>i. i_id i = k \<and> i_workspace i = w) (invitations db) = Some i" "i_status i = Pending"
    by (auto simp: revoke_invitation_def result_simps tenancy_simps split: if_splits option.splits)
  moreover from this(1) have "i \<in> set (invitations db)" "i_id i = k" "i_workspace i = w"
    by (auto simp: find_Some_iff)
  ultimately show ?thesis
    using assms by (intro that [of i])
      (auto simp: revoke_invitation_def result_simps tenancy_simps intro: find_membership_role)
qed

lemma invitation_id_unique:
  assumes "tenancy_inv db" "x \<in> set (invitations db)" "y \<in> set (invitations db)" "i_id x = i_id y"
  shows "x = y"
  using assms by (auto simp: tenancy_inv_def unique_ok_def distinct_map dest: inj_onD)

lemma revoke_invitation_inv:
  assumes "revoke_invitation (\<lambda>d. d) env usr w k req db = Inr (r, db')" and inv: "tenancy_inv db"
  shows "tenancy_inv db'"
  using assms(1)
proof (rule revoke_invitation_Inr)
  fix i assume i: "i \<in> set (invitations db)" "i_id i = k" "i_status i = Pending" and "unique_ok db'"
    and db': "db' = audit env 0 w (Some (u_id usr)) ''invitation.revoked'' ''invitation'' k req []
      (update_invitation k (\<lambda>i. i \<lparr> i_status := Revoked, i_revoked := Some (now env) \<rparr>) (db \<lparr> tenant := Some (py_strip w) \<rparr>))"
  show ?thesis
  proof (rule tenancy_inv_step [OF inv \<open>unique_ok db'\<close>])
    show "invitation_ok db' x" if new: "x \<in> set (invitations db')" "x \<notin> set (invitations db)" for x
    proof -
      from new obtain y where "y \<in> set (invitations db)" "i_id y = k"
        "x = y \<lparr> i_status := Revoked, i_revoked := Some (now env) \<rparr>"
        by (auto simp: db' update_invitation_def split: if_splits)
      with invitation_id_unique [OF inv] i have x: "x = i \<lparr> i_status := Revoked, i_revoked := Some (now env) \<rparr>" by blast
      have "invitation_ok db i" using inv i by (auto simp: tenancy_inv_def)
      with i show ?thesis by (simp add: x invitation_ok_def db' has_role_def)
    qed
  qed (auto simp: db' grows_def)
qed

definition accepted_by :: "environment \<Rightarrow> user \<Rightarrow> invitation \<Rightarrow> app \<Rightarrow> membership" where
  "accepted_by env usr i db = (case find_membership db (i_workspace i) (u_id usr) of Some m \<Rightarrow> m | None \<Rightarrow>
     \<lparr> m_id = fresh env 0, m_workspace = i_workspace i, m_user = u_id usr, m_role = i_role i, m_joined = now env \<rparr>)"

definition accepting :: "environment \<Rightarrow> user \<Rightarrow> invitation \<Rightarrow> string \<Rightarrow> app \<Rightarrow> app" where
  "accepting env usr i req db =
     (let db1 = (if find_membership db (i_workspace i) (u_id usr) = None
                 then db \<lparr> memberships := memberships db @ [accepted_by env usr i db] \<rparr> else db)
      in audit env 1 (i_workspace i) (Some (u_id usr)) ''invitation.accepted'' ''invitation'' (i_id i)
           req [(''role'', role_text (i_role i))]
           (update_invitation (i_id i) (\<lambda>i. i \<lparr> i_status := Accepted, i_accepted := Some (now env) \<rparr>)
             (add_context_if_none env (u_id usr) (i_workspace i) db1)))"

lemma find_membership_tenant [simp]: "find_membership (db \<lparr> tenant := t \<rparr>) = find_membership db"
  by (simp add: find_membership_def fun_eq_iff)

lemma accepted_by_tenant [simp]: "accepted_by env usr i (db \<lparr> tenant := t \<rparr>) = accepted_by env usr i db"
  by (simp add: accepted_by_def)

lemma add_context_members:
  "add_context_if_none env u w (if b then db \<lparr> memberships := ms \<rparr> else db) =
     (if context_of_user db u = None then new_user_context env u w (if b then db \<lparr> memberships := ms \<rparr> else db)
      else if b then db \<lparr> memberships := ms \<rparr> else db)"
  by (cases "context_of_user db u") (auto simp: add_context_if_none_def context_of_user_def)

lemma accept_invitation_pending:
  assumes "find (\<lambda>i. i_token_hash i = sha env raw) (invitations db) = Some i"
    and "\<not> (i_status i \<noteq> Pending \<or> i_revoked i \<noteq> None \<or> i_expires i \<le> now env \<or> i_email i \<noteq> u_email usr)"
  shows "accept_invitation (\<lambda>d. d) env usr raw req db = rbind (set_tenant_context (i_workspace i) db) (\<lambda>db0.
    rbind (commit_db (accepting env usr i req db0)) (summarize_workspace (accepted_by env usr i db0)))"
  using assms
  by (simp add: accept_invitation_def accepting_def accepted_by_def add_context_members Let_def cong: if_cong)

lemma accepting_tenant: "accepting env usr i req (db \<lparr> tenant := t \<rparr>) = accepting env usr i req db \<lparr> tenant := t \<rparr>"
  by (simp add: accepting_def Let_def audit_def update_invitation_def add_context_if_none_def new_user_context_def context_of_user_def
      split: option.splits)

lemma accepted_by_workspace: "m_workspace (accepted_by env usr i db) = i_workspace i"
  by (auto simp: accepted_by_def dest: find_membership_SomeD split: option.splits)

lemma accept_invitation_Inr:
  assumes "accept_invitation (\<lambda>d. d) env usr raw req db = Inr (r, db')"
  obtains i where "i \<in> set (invitations db)" "i_token_hash i = sha env raw" "i_status i = Pending" "i_revoked i = None"
    "now env < i_expires i" "i_email i = u_email usr" "unique_ok (accepting env usr i req db)"
    "stored db' = stored (accepting env usr i req db)" "tenant db' = Some (py_strip (i_workspace i))"
proof -
  from assms obtain i where i: "find (\<lambda>i. i_token_hash i = sha env raw) (invitations db) = Some i"
    and ok: "\<not> (i_status i \<noteq> Pending \<or> i_revoked i \<noteq> None \<or> i_expires i \<le> now env \<or> i_email i \<noteq> u_email usr)"
    by (auto simp: accept_invitation_def split: option.splits if_splits)
  from i have "i \<in> set (invitations db)" "i_token_hash i = sha env raw"
    by (auto simp: find_Some_iff)
  moreover have "unique_ok (accepting env usr i req db)" "stored db' = stored (accepting env usr i req db)"
    "tenant db' = Some (py_strip (i_workspace i))"
    using assms unfolding accept_invitation_pending [OF i ok]
    by (auto simp: result_simps tenancy_simps accepting_tenant accepted_by_workspace dest!: summarize_workspace_Inr)
  ultimately show ?thesis using ok that [of i] by auto
qed


lemma accepting_memberships:
  "memberships (accepting env usr i req db) =
     memberships db @ (if find_membership db (i_workspace i) (u_id usr) = None then [accepted_by env usr i db] else [])"
  by (simp add: accepting_def Let_def)

lemma accepting_fields [simp]:
  "users (accepting env usr i req db) = users db" "workspaces (accepting env usr i req db) = workspaces db"
  "repositories (accepting env usr i req db) = repositories db" "scenarios (accepting env usr i req db) = scenarios db"
  "tokens (accepting env usr i req db) = tokens db"
  by (simp_all add: accepting_def Let_def)

lemma accepting_contexts:
  "set (contexts (accepting env usr i req db)) \<subseteq> insert \<lparr> c_user = u_id usr, c_workspace = i_workspace i,
     c_repository = None, c_scenario = None, c_updated = now env \<rparr> (set (contexts db))"
  by (auto simp: accepting_def Let_def add_context_if_none_def new_user_context_def context_of_user_def split: option.splits if_splits)

lemma accepting_invitations:
  "invitations (accepting env usr i req db) =
     map (\<lambda>x. if i_id x = i_id i then x \<lparr> i_status := Accepted, i_accepted := Some (now env) \<rparr> else x) (invitations db)"
  by (auto simp: accepting_def Let_def update_invitation_def add_context_if_none_def new_user_context_def split: option.splits)

lemma accepting_audits: "\<exists>a. audits (accepting env usr i req db) = audits db @ [a] \<and> a_workspace a = i_workspace i"
  by (auto simp: accepting_def Let_def audit_def)

lemma accepting_role: "has_role (accepting env usr i req db) (i_workspace i) (u_id usr) Viewer"
proof (cases "find_membership db (i_workspace i) (u_id usr)")
  case None
  then show ?thesis
    by (cases "i_role i") (auto simp: has_role_def accepting_memberships accepted_by_def)
next
  case (Some m)
  then show ?thesis
    by (cases "m_role m") (auto simp: has_role_def accepting_memberships dest!: find_membership_SomeD)
qed

lemma accept_invitation_inv:
  assumes "accept_invitation (\<lambda>d. d) env usr raw req db = Inr (r, db')" and inv: "tenancy_inv db" and usr: "usr \<in> set (users db)"
  shows "tenancy_inv db'"
  using assms(1)
proof (rule accept_invitation_Inr)
  fix i assume i: "i \<in> set (invitations db)" "i_status i = Pending"
    and u: "unique_ok (accepting env usr i req db)" and st: "stored db' = stored (accepting env usr i req db)"
  let ?db = "accepting env usr i req db"
  have g: "grows db ?db" by (auto simp: grows_def accepting_memberships)
  have "invitation_ok db i" using inv i by (auto simp: tenancy_inv_def)
  have "tenancy_inv ?db"
  proof (rule tenancy_inv_step [OF inv u g])
    show "membership_ok ?db x" if "x \<in> set (memberships ?db)" "x \<notin> set (memberships db)" for x
      using that usr \<open>invitation_ok db i\<close>
      by (auto simp: accepting_memberships accepted_by_def membership_ok_def invitation_ok_def split: if_splits)
    show "context_ok ?db c" if "c \<in> set (contexts ?db)" "c \<notin> set (contexts db)" for c
      using that accepting_contexts [of env usr i req db] accepting_role [of env usr i req db]
      by (auto simp: context_ok_def)
    show "invitation_ok ?db x" if new: "x \<in> set (invitations ?db)" "x \<notin> set (invitations db)" for x
    proof -
      from new obtain y where "y \<in> set (invitations db)" "i_id y = i_id i"
        "x = y \<lparr> i_status := Accepted, i_accepted := Some (now env) \<rparr>"
        by (auto simp: accepting_invitations split: if_splits)
      with invitation_id_unique [OF inv] i have x: "x = i \<lparr> i_status := Accepted, i_accepted := Some (now env) \<rparr>" by blast
      have "invitation_ok ?db i" using grows_ok(4) [OF g] \<open>invitation_ok db i\<close> .
      with i show ?thesis by (simp add: x invitation_ok_def has_role_def)
    qed
  qed auto
  then show ?thesis by (simp add: tenancy_inv_stored_cong [OF st])
qed

section \<open>What an operation may touch\<close>

text \<open>The rows of one workspace.\<close>

record workspace_rows =
  own_workspace :: "workspace list"
  own_memberships :: "membership list"
  own_repositories :: "repository list"
  own_invitations :: "invitation list"
  own_audits :: "audit_event list"
  own_scenarios :: "scenario list"

definition rows_of :: "app \<Rightarrow> string \<Rightarrow> workspace_rows" where
  "rows_of db v =
     \<lparr> own_workspace = filter (\<lambda>w. w_id w = v) (workspaces db),
       own_memberships = filter (\<lambda>m. m_workspace m = v) (memberships db),
       own_repositories = filter (\<lambda>r. r_workspace r = v) (repositories db),
       own_invitations = filter (\<lambda>i. i_workspace i = v) (invitations db),
       own_audits = filter (\<lambda>a. a_workspace a = v) (audits db),
       own_scenarios = filter (\<lambda>s. s_workspace s = v) (scenarios db) \<rparr>"

lemma rows_of_stored [simp]: "rows_of (stored db) = rows_of db"
  by (simp add: rows_of_def stored_def fun_eq_iff)

lemma rows_of_stored_cong: "stored db' = stored db \<Longrightarrow> rows_of db' = rows_of db"
  by (metis rows_of_stored)

lemma filter_map_same:
  assumes "\<And>x. x \<in> set xs \<Longrightarrow> P (g x) = P x" and "\<And>x. x \<in> set xs \<Longrightarrow> P x \<Longrightarrow> g x = x"
  shows "filter P (map g xs) = filter P xs"
  using assms by (induction xs) auto

lemma update_invitation_rows:
  assumes "tenancy_inv db" "i \<in> set (invitations db)" "v \<noteq> i_workspace i" "\<And>x. i_workspace (f x) = i_workspace x"
  shows "filter (\<lambda>i. i_workspace i = v) (invitations (update_invitation (i_id i) f db)) =
         filter (\<lambda>i. i_workspace i = v) (invitations db)"
  unfolding update_invitation_def using assms
  by simp (intro filter_map_same; auto dest: invitation_id_unique [OF assms(1)])

lemma create_workspace_rows:
  assumes "create_workspace env usr name slug req db = Inr (r, db')" and "v \<noteq> fresh env 0"
  shows "rows_of db' v = rows_of db v"
  using assms
  by (auto simp: create_workspace_def Let_def result_simps tenancy_simps rows_of_def audit_def split: if_splits
      dest!: summarize_workspace_Inr)

lemma create_repository_rows:
  assumes "create_repository env usr w name branch vis req db = Inr (r, db')" and "v \<noteq> w"
  shows "rows_of db' v = rows_of db v"
  using assms
  by (auto simp: create_repository_def Let_def result_simps tenancy_simps rows_of_def audit_def set_context_repository_def
      split: if_splits)

lemma create_invitation_rows:
  assumes "create_invitation env usr w email rl req ttl secret db = Inr (r, db')" and "v \<noteq> w"
  shows "rows_of db' v = rows_of db v"
proof -
  obtain i raw where "r = (i, raw)" by fastforce
  note eff = create_invitation_Inr [OF assms(1) [unfolded this]]
  show ?thesis using assms(2) by (simp add: eff(3,4) rows_of_def audit_def)
qed

lemma revoke_invitation_rows:
  assumes "revoke_invitation (\<lambda>d. d) env usr w k req db = Inr (r, db')" and "tenancy_inv db" and "v \<noteq> w"
  shows "rows_of db' v = rows_of db v"
  using assms(1)
proof (rule revoke_invitation_Inr)
  fix i assume i: "i \<in> set (invitations db)" "i_id i = k" "i_workspace i = w"
    and db': "db' = audit env 0 w (Some (u_id usr)) ''invitation.revoked'' ''invitation'' k req []
      (update_invitation k (\<lambda>i. i \<lparr> i_status := Revoked, i_revoked := Some (now env) \<rparr>) (db \<lparr> tenant := Some (py_strip w) \<rparr>))"
  have "filter (\<lambda>i. i_workspace i = v) (invitations db') = filter (\<lambda>i. i_workspace i = v) (invitations db)"
    using update_invitation_rows [of "db \<lparr> tenant := Some (py_strip w) \<rparr>" i v] i assms(2,3)
      tenancy_inv_stored_cong [of "db \<lparr> tenant := Some (py_strip w) \<rparr>" db]
    by (simp add: db')
  then show ?thesis using assms(3) by (simp add: rows_of_def db' audit_def)
qed

lemma accept_invitation_rows:
  assumes "accept_invitation (\<lambda>d. d) env usr raw req db = Inr (r, db')" and "tenancy_inv db"
  obtains i where "i \<in> set (invitations db)" "i_token_hash i = sha env raw" "i_status i = Pending" "now env < i_expires i"
    "i_email i = u_email usr" "tenant db' = Some (py_strip (i_workspace i))" "has_role db' (i_workspace i) (u_id usr) Viewer"
    "\<And>v. v \<noteq> i_workspace i \<Longrightarrow> rows_of db' v = rows_of db v"
  using assms(1)
proof (rule accept_invitation_Inr)
  fix i assume i: "i \<in> set (invitations db)" "i_token_hash i = sha env raw" "i_status i = Pending" "now env < i_expires i"
    "i_email i = u_email usr" "tenant db' = Some (py_strip (i_workspace i))"
    and st: "stored db' = stored (accepting env usr i req db)"
  have "has_role db' (i_workspace i) (u_id usr) Viewer"
    using accepting_role [of env usr i req db] stored_fields(3) [OF st] by (simp add: has_role_def)
  moreover have "rows_of (accepting env usr i req db) v = rows_of db v" if "v \<noteq> i_workspace i" for v
  proof -
    have "filter (\<lambda>i. i_workspace i = v) (invitations (accepting env usr i req db)) = filter (\<lambda>i. i_workspace i = v) (invitations db)"
      unfolding accepting_invitations using that
      by (intro filter_map_same) (auto dest: invitation_id_unique [OF assms(2) i(1) _ sym])
    moreover obtain a where "audits (accepting env usr i req db) = audits db @ [a]" "a_workspace a = i_workspace i"
      using accepting_audits by blast
    ultimately show ?thesis
      using that by (simp add: rows_of_def accepting_memberships accepted_by_workspace)
  qed
  ultimately show ?thesis
    using i st by (intro that [of i]) (auto dest: rows_of_stored_cong)
qed


section \<open>What is never lost\<close>

definition settled :: "invitation \<Rightarrow> invitation \<Rightarrow> bool" where
  "settled i i' \<longleftrightarrow> i_id i' = i_id i \<and> i_workspace i' = i_workspace i \<and> i_email i' = i_email i \<and> i_role i' = i_role i \<and>
     (i_status i \<noteq> Pending \<longrightarrow> i' = i)"

definition history_kept :: "app \<Rightarrow> app \<Rightarrow> bool" where
  "history_kept db db' \<longleftrightarrow> (\<exists>xs. audits db' = audits db @ xs) \<and> (\<exists>xs. memberships db' = memberships db @ xs) \<and>
     (\<exists>xs. workspaces db' = workspaces db @ xs) \<and> (\<forall>i\<in>set (invitations db). \<exists>i'\<in>set (invitations db'). settled i i')"

lemma settled_refl [simp]: "settled i i"
  by (simp add: settled_def)

lemma settled_trans: "settled i j \<Longrightarrow> settled j k \<Longrightarrow> settled i k"
  by (auto simp: settled_def)

lemma history_kept_refl [simp]: "history_kept db db"
  unfolding history_kept_def by (metis append_Nil2 settled_refl)

lemma history_kept_trans:
  assumes "history_kept db db'" "history_kept db' db''"
  shows "history_kept db db''"
proof -
  have "\<exists>i''\<in>set (invitations db''). settled i i''" if "i \<in> set (invitations db)" for i
    using assms that unfolding history_kept_def by (meson settled_trans)
  moreover obtain xs ys where "audits db'' = audits db @ xs @ ys" using assms by (auto simp: history_kept_def)
  moreover obtain xs ys where "memberships db'' = memberships db @ xs @ ys" using assms by (auto simp: history_kept_def)
  moreover obtain xs ys where "workspaces db'' = workspaces db @ xs @ ys" using assms by (auto simp: history_kept_def)
  ultimately show ?thesis unfolding history_kept_def by blast
qed

lemma history_kept_stored:
  assumes "stored db' = stored db"
  shows "history_kept d db' = history_kept d db"
  by (simp add: history_kept_def stored_fields [OF assms])

lemma history_keptI:
  assumes "audits db' = audits db @ xs" "memberships db' = memberships db @ ms" "workspaces db' = workspaces db @ ws"
    and "invitations db' = map f (invitations db) @ ks" and "\<And>i. i \<in> set (invitations db) \<Longrightarrow> settled i (f i)"
  shows "history_kept db db'"
proof -
  have "f i \<in> set (invitations db')" if "i \<in> set (invitations db)" for i
    using that by (simp add: assms(4))
  then have "\<forall>i\<in>set (invitations db). \<exists>i'\<in>set (invitations db'). settled i i'"
    using assms(5) by blast
  moreover note assms(1-3)
  ultimately show ?thesis unfolding history_kept_def by blast
qed

lemma create_development_session_kept:
  assumes "create_development_session env email name ttl db = Inr (r, db')"
  shows "history_kept db db'"
  using assms
proof (rule create_development_session_Inr)
  fix us ts assume "stored db' = stored (db \<lparr> users := users db @ us, tokens := tokens db @ ts \<rparr>)"
  from stored_fields(2,3,7,8) [OF this] show ?thesis
    by (intro history_keptI [where f = id and ks = "[]"]) simp_all
qed

lemma create_workspace_kept:
  assumes "create_workspace env usr name slug req db = Inr (r, db')"
  shows "history_kept db db'"
  using assms
  by (auto simp: create_workspace_def Let_def result_simps tenancy_simps audit_def split: if_splits
      dest!: summarize_workspace_Inr intro!: history_keptI [where f = id])

lemma create_repository_kept:
  assumes "create_repository env usr w name branch vis req db = Inr (r, db')"
  shows "history_kept db db'"
  using assms
  by (auto simp: create_repository_def Let_def result_simps tenancy_simps audit_def set_context_repository_def
      split: if_splits intro!: history_keptI [where f = id])

lemma create_invitation_kept:
  assumes "create_invitation env usr w email rl req ttl secret db = Inr (r, db')"
  shows "history_kept db db'"
proof -
  obtain i raw where "r = (i, raw)" by fastforce
  note eff = create_invitation_Inr [OF assms(1) [unfolded this]]
  show ?thesis by (rule history_keptI [where f = id]) (auto simp: eff(4) audit_def)
qed

lemma revoke_invitation_kept:
  assumes "revoke_invitation (\<lambda>d. d) env usr w k req db = Inr (r, db')" and "tenancy_inv db"
  shows "history_kept db db'"
  using assms(1)
proof (rule revoke_invitation_Inr)
  fix i assume i: "i \<in> set (invitations db)" "i_id i = k" "i_status i = Pending"
    and db': "db' = audit env 0 w (Some (u_id usr)) ''invitation.revoked'' ''invitation'' k req []
      (update_invitation k (\<lambda>i. i \<lparr> i_status := Revoked, i_revoked := Some (now env) \<rparr>) (db \<lparr> tenant := Some (py_strip w) \<rparr>))"
  show ?thesis
  proof (rule history_keptI)
    show "invitations db' = map (\<lambda>x. if i_id x = k then x \<lparr> i_status := Revoked, i_revoked := Some (now env) \<rparr> else x)
      (invitations db) @ []"
      by (simp add: db' update_invitation_def)
    show "settled x (if i_id x = k then x \<lparr> i_status := Revoked, i_revoked := Some (now env) \<rparr> else x)"
      if "x \<in> set (invitations db)" for x
      using that i invitation_id_unique [OF assms(2) that i(1)] by (auto simp: settled_def)
  qed (simp_all add: db' audit_def)
qed

lemma accept_invitation_kept:
  assumes "accept_invitation (\<lambda>d. d) env usr raw req db = Inr (r, db')" and "tenancy_inv db"
  shows "history_kept db db'"
  using assms(1)
proof (rule accept_invitation_Inr)
  fix i assume i: "i \<in> set (invitations db)" "i_status i = Pending"
    and st: "stored db' = stored (accepting env usr i req db)"
  obtain a where "audits (accepting env usr i req db) = audits db @ [a]"
    using accepting_audits by blast
  then have "history_kept db (accepting env usr i req db)"
  proof (rule history_keptI [OF _ accepting_memberships])
    show "workspaces (accepting env usr i req db) = workspaces db @ []" by simp
    show "invitations (accepting env usr i req db) = map (\<lambda>x. if i_id x = i_id i
      then x \<lparr> i_status := Accepted, i_accepted := Some (now env) \<rparr> else x) (invitations db) @ []"
      by (simp add: accepting_invitations)
    show "settled x (if i_id x = i_id i then x \<lparr> i_status := Accepted, i_accepted := Some (now env) \<rparr> else x)"
      if "x \<in> set (invitations db)" for x
      using that i invitation_id_unique [OF assms(2) that i(1)] by (auto simp: settled_def)
  qed
  then show ?thesis by (simp add: history_kept_stored [OF st])
qed

end
