(* ===== verification/TenantScope.thy ===== *)
theory TenantScope
  imports Tenancy Config
begin

text \<open>
  \<open>backend/app/tenant.py\<close>, \<open>auth/dependencies.py\<close> and \<open>auth/oidc.py\<close>, and the routes of \<open>workspace_api.py\<close> over
  them: who a request is, which workspace it acts on, and one request as a transition of the tables.

  PyJWT's verification of a token is a parameter that returns the claims or fails; the rest of the identity
  check is modelled. Every request has a session of its own, so it starts with no tenant bound. A request that
  raises after the user was synchronised keeps that commit and nothing else. Requests are served one after the other; what
  an acceptance overtaken by a revocation does is shown apart.
\<close>

section \<open>Identity\<close>

record identity =
  id_issuer :: string
  id_subject :: string
  id_email :: string
  id_email_verified :: bool
  id_display_name :: string

text \<open>The claims \<open>verify\<close> reads: \<open>str(claims.get(...))\<close> of the required ones, and whether \<open>email_verified\<close> is the
  constant true. An absent or empty name is the empty string.\<close>

record claims =
  cl_iss :: string
  cl_sub :: string
  cl_email :: string
  cl_email_verified :: bool
  cl_name :: string
  cl_preferred_username :: string

definition unauthorized :: "string \<Rightarrow> string \<Rightarrow> app_error" where
  "unauthorized detail code = DomainError detail code 401"

definition oidc_verify :: "(string \<Rightarrow> claims option) \<Rightarrow> string \<Rightarrow> app_error + identity" where
  "oidc_verify decode raw =
     (case decode raw of
        None \<Rightarrow> Inl invalid_token
      | Some cl \<Rightarrow>
          let email = py_lower (py_strip (cl_email cl)) in
          if email = [] \<or> CHR ''@'' \<notin> set email
          then Inl (unauthorized ''The identity token does not contain an email address'' ''oidc_email_required'')
          else if \<not> cl_email_verified cl
          then Inl (unauthorized ''A verified email address is required'' ''oidc_email_not_verified'')
          else let name = (if cl_name cl \<noteq> [] then cl_name cl
                           else if cl_preferred_username cl \<noteq> [] then cl_preferred_username cl
                           else hd (py_split CHR ''@'' email))
               in Inr \<lparr> id_issuer = cl_iss cl, id_subject = cl_sub cl, id_email = email, id_email_verified = True,
                        id_display_name = take 160 (py_strip name) \<rparr>)"

definition oidc_subject :: "environment \<Rightarrow> identity \<Rightarrow> string" where
  "oidc_subject env i = ''oidc:'' @ sha env (id_issuer i @ char_of (0 :: nat) # id_subject i)"

definition user_by_subject :: "app \<Rightarrow> string \<Rightarrow> user option" where
  "user_by_subject db s = find (\<lambda>u. u_subject u = s) (users db)"

definition email_conflict :: app_error where
  "email_conflict = conflict ''This email is already associated with another identity'' ''identity_email_conflict''"

definition user_inactive :: app_error where
  "user_inactive = DomainError ''User is inactive'' ''user_inactive'' 403"

definition rename_user :: "string \<Rightarrow> string \<Rightarrow> string \<Rightarrow> app \<Rightarrow> app" where
  "rename_user i email name db = db \<lparr> users := map (\<lambda>u.
     if u_id u = i then u \<lparr> u_email := email, u_display_name := name \<rparr> else u) (users db) \<rparr>"

text \<open>\<open>_synchronize_oidc_user\<close>: the error of an inactive user comes after the commit, so the state it leaves is
  part of the result.\<close>

definition checked :: "user \<Rightarrow> app \<Rightarrow> (app_error + user) \<times> app" where
  "checked usr db = (if u_active usr then Inr usr else Inl user_inactive, db)"

definition synchronize_oidc_user :: "environment \<Rightarrow> identity \<Rightarrow> app \<Rightarrow> (app_error + user) \<times> app" where
  "synchronize_oidc_user env i db =
     (case user_by_subject db (oidc_subject env i) of
        None \<Rightarrow>
          if user_by_email db (id_email i) \<noteq> None then (Inl email_conflict, db)
          else let usr = \<lparr> u_id = fresh env 100, u_email = id_email i, u_display_name = id_display_name i,
                           u_provider = ''oidc'', u_subject = oidc_subject env i, u_active = True, u_created = now env \<rparr>
               in (case commit_db (db \<lparr> users := users db @ [usr] \<rparr>) of
                     Inl e \<Rightarrow> (Inl e, db) | Inr db' \<Rightarrow> checked usr db')
      | Some usr \<Rightarrow>
          if u_email usr \<noteq> id_email i \<or> u_display_name usr \<noteq> id_display_name i then
            if list_ex (\<lambda>u. u_email u = id_email i \<and> u_id u \<noteq> u_id usr) (users db) then (Inl email_conflict, db)
            else (case commit_db (rename_user (u_id usr) (id_email i) (id_display_name i) db) of
                    Inl e \<Rightarrow> (Inl e, db)
                  | Inr db' \<Rightarrow> checked (usr \<lparr> u_email := id_email i, u_display_name := id_display_name i \<rparr>) db')
          else checked usr db)"

definition ensure_development_user :: "environment \<Rightarrow> string \<Rightarrow> string \<Rightarrow> app \<Rightarrow> (app_error + user) \<times> app" where
  "ensure_development_user env email name db =
     (let e = normalize_email email in
      case user_by_subject db (''development:'' @ e) of
        Some usr \<Rightarrow> checked usr db
      | None \<Rightarrow>
          (case user_by_email db e of
             Some usr \<Rightarrow> (Inr usr, db)
           | None \<Rightarrow>
               let usr = development_user env e name in
               (case commit_db (db \<lparr> users := users db @ [usr] \<rparr>) of
                  Inl err \<Rightarrow> (Inl err, db) | Inr db' \<Rightarrow> checked usr db')))"

record credentials =
  scheme :: string
  credential :: string

definition authentication_required :: app_error where
  "authentication_required = unauthorized ''Authentication is required'' ''authentication_required''"

text \<open>The user's current workspace, if any, is bound to the session.\<close>

definition bind_context :: "user \<Rightarrow> app \<Rightarrow> (app_error + user) \<times> app" where
  "bind_context usr db =
     (case context_of_user db (u_id usr) of
        None \<Rightarrow> (Inr usr, db)
      | Some c \<Rightarrow> (case set_tenant_context (c_workspace c) db of Inl e \<Rightarrow> (Inl e, db) | Inr db' \<Rightarrow> (Inr usr, db')))"

fun and_then :: "(app_error + 'a) \<times> app \<Rightarrow> ('a \<Rightarrow> app \<Rightarrow> (app_error + 'b) \<times> app) \<Rightarrow> (app_error + 'b) \<times> app" where
  "and_then (Inl e, db) f = (Inl e, db)"
| "and_then (Inr x, db) f = f x db"

definition resolve_authenticated_user ::
  "settings \<Rightarrow> (string \<Rightarrow> claims option) \<Rightarrow> environment \<Rightarrow> credentials option \<Rightarrow> app \<Rightarrow> (app_error + user) \<times> app" where
  "resolve_authenticated_user st decode env creds db =
     (case creds of
        None \<Rightarrow> (Inl authentication_required, db)
      | Some c \<Rightarrow>
          if py_lower (scheme c) \<noteq> ''bearer'' then (Inl authentication_required, db)
          else (case auth_provider st of
            Development \<Rightarrow>
              if \<not> development_auth_available st then (Inl authentication_required, db)
              else and_then (authenticate_token env (credential c) db, db) bind_context
          | OIDC \<Rightarrow>
              and_then (oidc_verify decode (credential c), db) (\<lambda>i d. and_then (synchronize_oidc_user env i d) bind_context)
          | Disabled \<Rightarrow> (Inl authentication_required, db)))"

definition get_legacy_user ::
  "settings \<Rightarrow> (string \<Rightarrow> claims option) \<Rightarrow> environment \<Rightarrow> credentials option \<Rightarrow> app \<Rightarrow> (app_error + user) \<times> app" where
  "get_legacy_user st decode env creds db =
     (if creds \<noteq> None then resolve_authenticated_user st decode env creds db
      else if development_auth_available st
      then and_then (ensure_development_user env (development_user_email st) (development_user_name st) db) bind_context
      else (Inl authentication_required, db))"

section \<open>The current workspace\<close>

definition LEGACY_WORKSPACE_ID :: string where
  "LEGACY_WORKSPACE_ID = ''00000000-0000-0000-0000-000000000002''"

definition first_of :: "'a list \<Rightarrow> 'a option" where
  "first_of xs = (case xs of [] \<Rightarrow> None | x # _ \<Rightarrow> Some x)"

definition default_repository :: "app \<Rightarrow> string \<Rightarrow> repository option" where
  "default_repository db w = first_of (sort_key (\<lambda>r. (\<not> r_selected r, r_created r, r_id r))
     (filter (\<lambda>r. r_workspace r = w) (repositories db)))"

definition default_scenario :: "app \<Rightarrow> string \<Rightarrow> string option \<Rightarrow> scenario option" where
  "default_scenario db w r = first_of (sort_key (\<lambda>s. (\<not> s_active s, s_sort_order s, s_id s))
     (filter (\<lambda>s. s_workspace s = w \<and> (case r of None \<Rightarrow> True | Some k \<Rightarrow> s_repository s = k)) (scenarios db)))"

definition context_required :: app_error where
  "context_required = conflict ''Select or create a workspace first'' ''workspace_context_required''"

definition first_membership :: "app \<Rightarrow> string \<Rightarrow> membership option" where
  "first_membership db u = first_of (sort_key (\<lambda>m. (m_joined m, m_id m)) (filter (\<lambda>m. m_user m = u) (memberships db)))"

definition ensure_context :: "environment \<Rightarrow> bool \<Rightarrow> user \<Rightarrow> app \<Rightarrow> app_error + user_context \<times> app" where
  "ensure_context env allow_legacy usr db =
     (case context_of_user db (u_id usr) of
        Some c \<Rightarrow> Inr (c, db)
      | None \<Rightarrow>
          rbind (case first_membership db (u_id usr) of
              Some m \<Rightarrow> Inr (m, db)
            | None \<Rightarrow>
                if allow_legacy \<and> list_ex (\<lambda>w. w_id w = LEGACY_WORKSPACE_ID) (workspaces db)
                then let m = \<lparr> m_id = fresh env 50, m_workspace = LEGACY_WORKSPACE_ID, m_user = u_id usr, m_role = Owner,
                               m_joined = now env \<rparr>
                     in returning m (commit_db (db \<lparr> memberships := memberships db @ [m] \<rparr>))
                else Inl context_required) (\<lambda>(m, db1).
          rbind (set_tenant_context (m_workspace m) db1) (\<lambda>db2.
          let r = map_option r_id (default_repository db2 (m_workspace m));
              c = \<lparr> c_user = u_id usr, c_workspace = m_workspace m, c_repository = r,
                    c_scenario = map_option s_id (default_scenario db2 (m_workspace m) r), c_updated = now env \<rparr>
          in returning c (commit_db (db2 \<lparr> contexts := contexts db2 @ [c] \<rparr>)))))"

definition repository_by_id :: "app \<Rightarrow> string \<Rightarrow> repository option" where
  "repository_by_id db i = find (\<lambda>r. r_id r = i) (repositories db)"

definition put_context :: "user_context \<Rightarrow> app \<Rightarrow> app" where
  "put_context c db =
     (if context_of_user db (c_user c) = None then db \<lparr> contexts := contexts db @ [c] \<rparr>
      else db \<lparr> contexts := map (\<lambda>d. if c_user d = c_user c then c else d) (contexts db) \<rparr>)"

definition selected_repository :: "app \<Rightarrow> string \<Rightarrow> string option \<Rightarrow> app_error + string option" where
  "selected_repository db w repo =
     (case repo of
        None \<Rightarrow> Inr None
      | Some k \<Rightarrow>
          (case find (\<lambda>r. r_id r = k \<and> r_workspace r = w) (repositories db) of
             None \<Rightarrow> Inl (not_found ''Repository not found'' ''repository_not_found'')
           | Some r \<Rightarrow> Inr (Some (r_id r))))"

definition selected_scenario ::
  "app \<Rightarrow> string \<Rightarrow> string option \<Rightarrow> string option \<Rightarrow> app_error + string option \<times> string option" where
  "selected_scenario db w r scen =
     (case scen of
        None \<Rightarrow> Inr (r, None)
      | Some k \<Rightarrow>
          (case find (\<lambda>s. s_id s = k \<and> s_workspace s = w \<and> (case r of None \<Rightarrow> True | Some i \<Rightarrow> s_repository s = i))
                  (scenarios db) of
             None \<Rightarrow> Inl (not_found ''Scenario not found'' ''scenario_not_found'')
           | Some s \<Rightarrow>
               Inr (case r of None \<Rightarrow> map_option r_id (repository_by_id db (s_repository s)) | Some i \<Rightarrow> Some i,
                    Some (s_id s))))"

definition select_user_context ::
  "environment \<Rightarrow> user \<Rightarrow> string \<Rightarrow> string option \<Rightarrow> string option \<Rightarrow> app \<Rightarrow> app_error + user_context \<times> app" where
  "select_user_context env usr w repo scen db =
     (if find_membership db w (u_id usr) = None then Inl (not_found ''Workspace not found'' ''workspace_not_found'')
      else rbind (set_tenant_context w db) (\<lambda>db0.
        rbind (selected_repository db0 w repo) (\<lambda>r.
        rbind (selected_scenario db0 w r scen) (\<lambda>(r', s').
        let c = \<lparr> c_user = u_id usr, c_workspace = w, c_repository = r', c_scenario = s', c_updated = now env \<rparr>
        in returning c (commit_db (put_context c db0))))))"

record tenant_scope =
  sc_user :: user
  sc_workspace :: string
  sc_repository :: "string option"
  sc_scenario :: "string option"
  sc_role :: role

definition activate_context_scenario ::
  "environment \<Rightarrow> tenant_scope \<Rightarrow> scenario \<Rightarrow> app \<Rightarrow> app_error + user_context \<times> app" where
  "activate_context_scenario env sc s db =
     (case context_of_user db (u_id (sc_user sc)) of
        None \<Rightarrow> Inl context_required
      | Some _ \<Rightarrow>
          let c = \<lparr> c_user = u_id (sc_user sc), c_workspace = s_workspace s, c_repository = Some (s_repository s),
                    c_scenario = Some (s_id s), c_updated = now env \<rparr>
          in returning c (commit_db (put_context c db)))"

definition resolve_tenant_scope ::
  "environment \<Rightarrow> role \<Rightarrow> bool \<Rightarrow> user \<Rightarrow> app \<Rightarrow> app_error + tenant_scope \<times> app" where
  "resolve_tenant_scope env minimum allow_legacy usr db =
     rbind (ensure_context env allow_legacy usr db) (\<lambda>(c, db1).
     rbind (membership_for usr (c_workspace c) minimum db1) (\<lambda>(m, db2).
     Inr (\<lparr> sc_user = usr, sc_workspace = c_workspace c, sc_repository = c_repository c, sc_scenario = c_scenario c,
            sc_role = m_role m \<rparr>, db2)))"

definition get_legacy_scope ::
  "settings \<Rightarrow> environment \<Rightarrow> user \<Rightarrow> app \<Rightarrow> app_error + tenant_scope \<times> app" where
  "get_legacy_scope st env usr db =
     resolve_tenant_scope env Viewer (development_auth_available st \<and> seed_synthetic_data st) usr db"

definition require_responder_scope :: "tenant_scope \<Rightarrow> app_error + tenant_scope" where
  "require_responder_scope sc =
     (if ROLE_LEVEL (sc_role sc) < ROLE_LEVEL Responder then Inl (forbidden ''You do not have permission for this action'')
      else Inr sc)"

definition require_admin_scope :: "tenant_scope \<Rightarrow> app_error + tenant_scope" where
  "require_admin_scope sc =
     (if ROLE_LEVEL (sc_role sc) < ROLE_LEVEL Admin
      then Inl (forbidden ''Administrator permission is required for this action'') else Inr sc)"


section \<open>Requests\<close>

text \<open>The requests of \<open>workspace_api.py\<close> and the scenario activation of \<open>api.py\<close> that change the tables. The routes of the
  other components have models of their own; \<open>POST /reset-database\<close>, which asks for no credentials and deletes the scenarios
  of every workspace where the settings allow it, is not modelled.\<close>

datatype action =
    DevelopmentSession "string option" "string option"
  | WorkspaceCreate string string
  | RepositoryCreate string string string string
  | InvitationCreate string string role
  | InvitationRevoke string string
  | InvitationAccept string
  | ContextSelect string "string option" "string option"
  | ScenarioActivate string

record request =
  rq_env :: environment
  rq_credentials :: "credentials option"
  rq_request_id :: string
  rq_action :: action

text \<open>A service call is one transaction: when it raises, the tables are as they were before it.\<close>

definition atomic :: "app_error + 'a \<times> app \<Rightarrow> app \<Rightarrow> (app_error + unit) \<times> app" where
  "atomic r db = (case r of Inl e \<Rightarrow> (Inl e, db) | Inr (x, db') \<Rightarrow> (Inr (), db'))"

definition session_identity :: "settings \<Rightarrow> string option \<Rightarrow> string option \<Rightarrow> string \<times> string" where
  "session_identity st email name =
     (let given = (case email of None \<Rightarrow> [] | Some e \<Rightarrow> e);
          e = py_lower (py_strip (if given \<noteq> [] then given else development_user_email st));
          shown = (case name of None \<Rightarrow> [] | Some n \<Rightarrow> n)
      in (e, if shown \<noteq> [] then shown
             else if email = None then development_user_name st else hd (py_split CHR ''@'' e)))"

definition development_session ::
  "settings \<Rightarrow> environment \<Rightarrow> string option \<Rightarrow> string option \<Rightarrow> app \<Rightarrow>
   app_error + (string \<times> int \<times> user \<times> workspace_summary list) \<times> app" where
  "development_session st env email name db =
     (if \<not> development_auth_available st
      then Inl (not_found ''Development identity provider is disabled'' ''development_auth_disabled'')
      else let (e, n) = session_identity st email name
           in create_development_session env e n (access_token_ttl_hours st) db)"

definition repository_create ::
  "settings \<Rightarrow> environment \<Rightarrow> user \<Rightarrow> string \<Rightarrow> string \<Rightarrow> string \<Rightarrow> string \<Rightarrow> string \<Rightarrow> app \<Rightarrow> app_error + repository \<times> app" where
  "repository_create st env usr w name branch visibility req db =
     (if \<not> seed_synthetic_data st
      then Inl (conflict ''Development fixture repositories are disabled; connect a provider instead''
                  ''synthetic_repository_disabled'')
      else create_repository env usr w name branch visibility req db)"

text \<open>The body is parsed before the route runs; the queued delivery or the outbox row is written in the same
  transaction and belongs to the delivery component. The route passes no token secret.\<close>

definition invitation_create ::
  "settings \<Rightarrow> environment \<Rightarrow> user \<Rightarrow> string \<Rightarrow> string \<Rightarrow> role \<Rightarrow> string \<Rightarrow> app \<Rightarrow> app_error + (invitation \<times> string) \<times> app" where
  "invitation_create st env usr w raw_email rl req db =
     rbind (invitation_email raw_email) (\<lambda>email.
     if rl = Owner then Inl ValueError
     else if email_delivery_mode st = DeliveryDisabled
     then Inl (DomainError ''Invitation delivery is not configured'' ''invitation_delivery_not_configured'' 503)
     else create_invitation env usr w email rl req (invitation_ttl_hours st) None db)"

definition scenario_activate ::
  "settings \<Rightarrow> environment \<Rightarrow> string \<Rightarrow> user \<Rightarrow> app \<Rightarrow> (app_error + unit) \<times> app" where
  "scenario_activate st env k usr db =
     (case get_legacy_scope st env usr db of
        Inl e \<Rightarrow> (Inl e, db)
      | Inr (sc, db1) \<Rightarrow>
          atomic (rbind (require_responder_scope sc) (\<lambda>sc'.
            case find (\<lambda>s. s_id s = k \<and> s_workspace s = sc_workspace sc') (scenarios db1) of
              None \<Rightarrow> Inl (not_found ''Scenario not found'' ''scenario_not_found'')
            | Some s \<Rightarrow> activate_context_scenario env sc' s db1)) db1)"

definition perform :: "settings \<Rightarrow> request \<Rightarrow> user \<Rightarrow> app \<Rightarrow> (app_error + unit) \<times> app" where
  "perform st rq usr db =
     (case rq_action rq of
        DevelopmentSession email name \<Rightarrow> (Inr (), db)
      | WorkspaceCreate name slug \<Rightarrow> atomic (create_workspace (rq_env rq) usr name slug (rq_request_id rq) db) db
      | RepositoryCreate w name branch visibility \<Rightarrow>
          atomic (repository_create st (rq_env rq) usr w name branch visibility (rq_request_id rq) db) db
      | InvitationCreate w email rl \<Rightarrow> atomic (invitation_create st (rq_env rq) usr w email rl (rq_request_id rq) db) db
      | InvitationRevoke w k \<Rightarrow> atomic (revoke_invitation (\<lambda>d. d) (rq_env rq) usr w k (rq_request_id rq) db) db
      | InvitationAccept raw \<Rightarrow> atomic (accept_invitation (\<lambda>d. d) (rq_env rq) usr raw (rq_request_id rq) db) db
      | ContextSelect w repo scen \<Rightarrow> atomic (select_user_context (rq_env rq) usr w repo scen db) db
      | ScenarioActivate k \<Rightarrow> scenario_activate st (rq_env rq) k usr db)"

text \<open>One request on a session of its own.\<close>

definition serve ::
  "settings \<Rightarrow> (string \<Rightarrow> claims option) \<Rightarrow> request \<Rightarrow> app \<Rightarrow> (app_error + unit) \<times> app" where
  "serve st decode rq db0 =
     (let db = stored db0 in
      case rq_action rq of
        DevelopmentSession email name \<Rightarrow> atomic (development_session st (rq_env rq) email name db) db
      | ScenarioActivate k \<Rightarrow> and_then (get_legacy_user st decode (rq_env rq) (rq_credentials rq) db) (perform st rq)
      | _ \<Rightarrow> and_then (resolve_authenticated_user st decode (rq_env rq) (rq_credentials rq) db) (perform st rq))"

definition empty_app :: app where
  "empty_app = \<lparr> users = [], workspaces = [], memberships = [], contexts = [], tokens = [], repositories = [],
     invitations = [], audits = [], scenarios = [], tenant = None \<rparr>"

definition request_step :: "settings \<Rightarrow> (string \<Rightarrow> claims option) \<Rightarrow> app \<Rightarrow> request \<Rightarrow> app option" where
  "request_step st decode db rq = Some (stored (snd (serve st decode rq db)))"

section \<open>The invariant across requests\<close>

lemma first_of_Some: "first_of xs = Some x \<Longrightarrow> x \<in> set xs"
  by (cases xs) (auto simp: first_of_def)

lemma default_repository_has: "default_repository db w = Some r \<Longrightarrow> has_repository db w (r_id r)"
  by (auto simp: default_repository_def has_repository_def dest!: first_of_Some)

lemma default_scenario_has: "default_scenario db w k = Some s \<Longrightarrow> has_scenario db w (s_id s)"
  by (auto simp: default_scenario_def has_scenario_def dest!: first_of_Some)

lemma first_membership_SomeD: "first_membership db u = Some m \<Longrightarrow> m \<in> set (memberships db) \<and> m_user m = u"
  by (auto simp: first_membership_def dest!: first_of_Some)

lemma put_context_fields [simp]:
  "users (put_context c db) = users db" "workspaces (put_context c db) = workspaces db"
  "memberships (put_context c db) = memberships db" "tokens (put_context c db) = tokens db"
  "repositories (put_context c db) = repositories db" "invitations (put_context c db) = invitations db"
  "scenarios (put_context c db) = scenarios db" "audits (put_context c db) = audits db" "tenant (put_context c db) = tenant db"
  by (simp_all add: put_context_def)

lemma put_context_contexts: "set (contexts (put_context c db)) \<subseteq> insert c (set (contexts db))"
  by (auto simp: put_context_def)

lemma put_context_inv:
  assumes "tenancy_inv db" "unique_ok (put_context c db)" "context_ok db c"
  shows "tenancy_inv (put_context c db)"
proof (rule tenancy_inv_step [OF assms(1,2)])
  show g: "grows db (put_context c db)" by (simp add: grows_def)
  show "context_ok (put_context c db) d" if "d \<in> set (contexts (put_context c db))" "d \<notin> set (contexts db)" for d
    using that put_context_contexts [of c db] grows_ok(3) [OF g assms(3)] by auto
qed auto

lemma has_role_viewer: "m \<in> set (memberships db) \<Longrightarrow> has_role db (m_workspace m) (m_user m) Viewer"
  by (cases "m_role m") (auto simp: has_role_def)

lemma context_ok_tenant [simp]: "context_ok (db \<lparr> tenant := t \<rparr>) c = context_ok db c"
  by (simp add: context_ok_def has_role_def has_repository_def has_scenario_def)

lemma tenancy_inv_tenant [simp]: "tenancy_inv (db \<lparr> tenant := t \<rparr>) = tenancy_inv db"
  by (rule tenancy_inv_stored_cong) simp

lemma add_membership_inv:
  assumes "tenancy_inv db" "unique_ok (db \<lparr> memberships := memberships db @ [m] \<rparr>)" "membership_ok db m"
  shows "tenancy_inv (db \<lparr> memberships := memberships db @ [m] \<rparr>)"
proof (rule tenancy_inv_step [OF assms(1,2)])
  show g: "grows db (db \<lparr> memberships := memberships db @ [m] \<rparr>)" by (auto simp: grows_def)
  show "membership_ok (db \<lparr> memberships := memberships db @ [m] \<rparr>) x"
    if "x \<in> set (memberships (db \<lparr> memberships := memberships db @ [m] \<rparr>))" "x \<notin> set (memberships db)" for x
    using that assms(3) grows_ok(1) [OF g] by auto
qed auto


text \<open>The membership \<open>ensure_context\<close> starts from, and the tables once it is there.\<close>

definition legacy_membership :: "environment \<Rightarrow> user \<Rightarrow> membership" where
  "legacy_membership env usr = \<lparr> m_id = fresh env 50, m_workspace = LEGACY_WORKSPACE_ID, m_user = u_id usr, m_role = Owner,
     m_joined = now env \<rparr>"

definition new_context :: "environment \<Rightarrow> user \<Rightarrow> string \<Rightarrow> app \<Rightarrow> user_context" where
  "new_context env usr w db = (let r = map_option r_id (default_repository db w) in
     \<lparr> c_user = u_id usr, c_workspace = w, c_repository = r, c_scenario = map_option s_id (default_scenario db w r),
       c_updated = now env \<rparr>)"

lemma ensure_context_cases:
  assumes "ensure_context env legacy usr db = Inr (c, db')"
  obtains (kept) "context_of_user db (u_id usr) = Some c" "db' = db"
  | (member) m where "context_of_user db (u_id usr) = None" "m \<in> set (memberships db)" "m_user m = u_id usr"
      "c = new_context env usr (m_workspace m) (db \<lparr> tenant := Some (py_strip (m_workspace m)) \<rparr>)"
      "db' = db \<lparr> tenant := Some (py_strip (m_workspace m)), contexts := contexts db @ [c] \<rparr>" "unique_ok db'"
  | (bootstrap) m where "context_of_user db (u_id usr) = None" "legacy" "\<exists>w\<in>set (workspaces db). w_id w = LEGACY_WORKSPACE_ID"
      "m = legacy_membership env usr" "unique_ok (db \<lparr> memberships := memberships db @ [m] \<rparr>)"
      "c = new_context env usr LEGACY_WORKSPACE_ID (db \<lparr> memberships := memberships db @ [m], tenant := Some (py_strip LEGACY_WORKSPACE_ID) \<rparr>)"
      "db' = db \<lparr> memberships := memberships db @ [m], tenant := Some (py_strip LEGACY_WORKSPACE_ID), contexts := contexts db @ [c] \<rparr>"
      "unique_ok db'"
proof (cases "context_of_user db (u_id usr)")
  case (Some d)
  with assms show ?thesis by (intro kept) (simp_all add: ensure_context_def)
next
  case None
  show ?thesis
  proof (cases "first_membership db (u_id usr)")
    case (Some m)
    with None assms first_membership_SomeD [OF Some] show ?thesis
      by (intro member [of m]) (auto simp: ensure_context_def result_simps tenancy_simps Let_def new_context_def)
  next
    case none: None
    with None assms show ?thesis
      by (intro bootstrap [of "legacy_membership env usr"])
        (auto simp: ensure_context_def result_simps tenancy_simps Let_def new_context_def legacy_membership_def list_ex_iff
          split: if_splits)
  qed
qed

lemma new_context_ok: "has_role db w (u_id usr) Viewer \<Longrightarrow> context_ok db (new_context env usr w db)"
  by (auto simp: new_context_def Let_def context_ok_def dest: default_repository_has default_scenario_has)

lemma put_new_context: "context_of_user db (c_user c) = None \<Longrightarrow> put_context c db = db \<lparr> contexts := contexts db @ [c] \<rparr>"
  by (simp add: put_context_def)

lemma context_of_user_cong: "contexts db' = contexts db \<Longrightarrow> context_of_user db' u = context_of_user db u"
  by (simp add: context_of_user_def)

lemma new_context_fields [simp]:
  "c_user (new_context env usr w db) = u_id usr" "c_workspace (new_context env usr w db) = w"
  by (simp_all add: new_context_def Let_def)

text \<open>Appending the context is storing it when the user has none.\<close>

lemma add_new_context_inv:
  assumes "tenancy_inv db" "has_role db w (u_id usr) Viewer" "context_of_user db (u_id usr) = None"
    and "unique_ok (db \<lparr> contexts := contexts db @ [new_context env usr w db] \<rparr>)"
  shows "tenancy_inv (db \<lparr> contexts := contexts db @ [new_context env usr w db] \<rparr>)"
  using put_context_inv [of db "new_context env usr w db"] assms new_context_ok [OF assms(2)]
  by (simp add: put_new_context)

lemma ensure_context_inv:
  assumes "ensure_context env legacy usr db = Inr (c, db')" and inv: "tenancy_inv db" and usr: "usr \<in> set (users db)"
  shows "tenancy_inv db' \<and> context_ok db' c \<and> c_user c = u_id usr"
  using assms(1)
proof (cases rule: ensure_context_cases)
  case kept
  with inv show ?thesis by (auto simp: tenancy_inv_def context_of_user_def find_Some_iff)
next
  case (member m)
  let ?db = "db \<lparr> tenant := Some (py_strip (m_workspace m)) \<rparr>"
  have "tenancy_inv db'"
    unfolding member(5) member(4)
    using add_new_context_inv [of ?db "m_workspace m" usr env] inv member has_role_viewer [OF member(2)]
    by (simp add: has_role_def context_of_user_def)
  moreover have "c \<in> set (contexts db')" by (simp add: member(5))
  ultimately show ?thesis by (auto simp: tenancy_inv_def member(4))
next
  case (bootstrap m)
  let ?db1 = "db \<lparr> memberships := memberships db @ [m] \<rparr>"
  let ?db = "?db1 \<lparr> tenant := Some (py_strip LEGACY_WORKSPACE_ID) \<rparr>"
  have "tenancy_inv ?db1"
    using bootstrap usr by (intro add_membership_inv [OF inv]) (auto simp: membership_ok_def legacy_membership_def)
  then have "tenancy_inv ?db" by simp
  moreover have "has_role ?db LEGACY_WORKSPACE_ID (u_id usr) Viewer"
    by (auto simp: has_role_def bootstrap(4) legacy_membership_def)
  ultimately have "tenancy_inv db'"
    unfolding bootstrap(7) bootstrap(6)
    using add_new_context_inv [of ?db LEGACY_WORKSPACE_ID usr env] bootstrap
    by (simp add: context_of_user_def)
  moreover have "c \<in> set (contexts db')" by (simp add: bootstrap(7))
  ultimately show ?thesis by (auto simp: tenancy_inv_def bootstrap(6))
qed

lemma resolve_tenant_scope_Inr:
  assumes "resolve_tenant_scope env minimum legacy usr db = Inr (sc, db')"
  obtains c db1 where "ensure_context env legacy usr db = Inr (c, db1)" "db' = db1 \<lparr> tenant := Some (py_strip (c_workspace c)) \<rparr>"
    "sc_user sc = usr" "sc_workspace sc = c_workspace c" "has_role db' (sc_workspace sc) (u_id usr) minimum"
    "\<exists>m\<in>set (memberships db'). m_workspace m = sc_workspace sc \<and> m_user m = u_id usr \<and> m_role m = sc_role sc"
  using assms
  by (fastforce simp: resolve_tenant_scope_def result_simps tenancy_simps has_role_def dest: find_membership_SomeD)

lemma resolve_tenant_scope_inv:
  assumes "resolve_tenant_scope env minimum legacy usr db = Inr (sc, db')" and "tenancy_inv db" and "usr \<in> set (users db)"
  shows "tenancy_inv db'"
  using assms(1)
  by (rule resolve_tenant_scope_Inr) (use assms(2,3) ensure_context_inv in fastforce)

lemma activate_context_scenario_inv:
  assumes "activate_context_scenario env sc s db = Inr (c, db')" and inv: "tenancy_inv db" and "s \<in> set (scenarios db)"
    and "has_role db (s_workspace s) (u_id (sc_user sc)) Viewer"
  shows "tenancy_inv db'"
proof -
  from assms(1) have "unique_ok (put_context c db)" and db': "db' = put_context c db"
    and c: "c = \<lparr> c_user = u_id (sc_user sc), c_workspace = s_workspace s, c_repository = Some (s_repository s),
      c_scenario = Some (s_id s), c_updated = now env \<rparr>"
    by (auto simp: activate_context_scenario_def Let_def tenancy_simps split: option.splits)
  moreover have "context_ok db c"
    using inv assms(3,4) by (auto simp: c context_ok_def has_scenario_def tenancy_inv_def scenario_ok_def)
  ultimately show ?thesis using put_context_inv [OF inv] by simp
qed


lemma selected_repository_Inr: "selected_repository db w repo = Inr (Some k) \<Longrightarrow> has_repository db w k"
  by (auto simp: selected_repository_def has_repository_def dest!: find_SomeD split: option.splits)

lemma selected_scenario_Inr:
  assumes "selected_scenario db w r scen = Inr (r', s')" and "tenancy_inv db" and "\<And>k. r = Some k \<Longrightarrow> has_repository db w k"
  shows "(\<forall>k. r' = Some k \<longrightarrow> has_repository db w k) \<and> (\<forall>k. s' = Some k \<longrightarrow> has_scenario db w k)"
proof (cases scen)
  case None
  with assms(1,3) show ?thesis by (auto simp: selected_scenario_def)
next
  case (Some k)
  with assms(1) obtain s where s: "s \<in> set (scenarios db)" "s_workspace s = w" "s' = Some (s_id s)"
    and r': "r' = (case r of None \<Rightarrow> map_option r_id (repository_by_id db (s_repository s)) | Some i \<Rightarrow> Some i)"
    by (auto simp: selected_scenario_def dest!: find_SomeD split: option.splits)
  have "has_repository db w (s_repository s)" using s assms(2) by (auto simp: tenancy_inv_def scenario_ok_def)
  then have "\<forall>k. r' = Some k \<longrightarrow> has_repository db w k"
    using assms(3) by (auto simp: r' repository_by_id_def dest!: find_SomeD split: option.splits)
  with s show ?thesis by (auto simp: has_scenario_def)
qed

lemma select_user_context_Inr:
  assumes "select_user_context env usr w repo scen db = Inr (c, db')" and inv: "tenancy_inv db"
  shows "context_ok db c" and "unique_ok db'" and "db' = put_context c (db \<lparr> tenant := Some (py_strip w) \<rparr>)"
    and "c_user c = u_id usr" and "c_workspace c = w"
proof -
  let ?db = "db \<lparr> tenant := Some (py_strip w) \<rparr>"
  from assms(1) obtain m where m: "find_membership db w (u_id usr) = Some m"
    by (auto simp: select_user_context_def split: if_splits)
  then have role: "has_role ?db w (u_id usr) Viewer"
    using has_role_viewer [of m ?db] by (auto dest: find_membership_SomeD)
  from assms(1) obtain r r' s where c: "c = \<lparr> c_user = u_id usr, c_workspace = w, c_repository = r', c_scenario = s, c_updated = now env \<rparr>"
    and res: "unique_ok (put_context c ?db)" "db' = put_context c ?db"
    and sel: "selected_repository ?db w repo = Inr r" "selected_scenario ?db w r scen = Inr (r', s)"
    by (auto simp: select_user_context_def Let_def result_simps tenancy_simps split: if_splits)
  have "has_repository ?db w k" if "r = Some k" for k
    using sel(1) that by (simp add: selected_repository_Inr)
  then have "(\<forall>k. r' = Some k \<longrightarrow> has_repository ?db w k) \<and> (\<forall>k. s = Some k \<longrightarrow> has_scenario ?db w k)"
    using inv by (intro selected_scenario_Inr [OF sel(2)]) simp_all
  with role have "context_ok ?db c" by (simp add: c context_ok_def)
  then show "context_ok db c" by simp
  show "unique_ok db'" "db' = put_context c ?db" using res by simp_all
  show "c_user c = u_id usr" "c_workspace c = w" by (simp_all add: c)
qed

lemma select_user_context_inv:
  assumes "select_user_context env usr w repo scen db = Inr (c, db')" and inv: "tenancy_inv db"
  shows "tenancy_inv db'"
  using select_user_context_Inr [OF assms] put_context_inv [of "db \<lparr> tenant := Some (py_strip w) \<rparr>" c] inv by simp

section \<open>Users\<close>

text \<open>What resolving a user does to the tables: at most a new or renamed row of \<open>users\<close>, and the tenant.\<close>

definition only_users :: "app \<Rightarrow> app \<Rightarrow> bool" where
  "only_users db db' \<longleftrightarrow> db' = db \<lparr> users := users db', tenant := tenant db' \<rparr> \<and>
     u_id ` set (users db) \<subseteq> u_id ` set (users db')"

lemma only_users_refl [simp]: "only_users db db"
  by (simp add: only_users_def)

lemma only_users_fields:
  assumes "only_users db db'"
  shows "workspaces db' = workspaces db" "memberships db' = memberships db" "contexts db' = contexts db"
    "repositories db' = repositories db" "invitations db' = invitations db" "audits db' = audits db" "scenarios db' = scenarios db"
  using assms by (cases db; cases db'; simp add: only_users_def)+

lemma only_users_trans:
  assumes "only_users db db'" "only_users db' db''"
  shows "only_users db db''"
  using assms by (cases db; cases db'; cases db'') (auto simp: only_users_def)

lemma only_users_inv:
  assumes "only_users db db'" "unique_ok db'" "tenancy_inv db"
  shows "tenancy_inv db'"
proof (rule tenancy_inv_step [OF assms(3,2)])
  show "grows db db'" using assms(1) by (simp add: grows_def only_users_fields [OF assms(1)] only_users_def)
qed (simp_all add: only_users_fields [OF assms(1)])

lemma only_users_rows:
  assumes "only_users db db'"
  shows "rows_of db' = rows_of db"
  by (simp add: rows_of_def fun_eq_iff only_users_fields [OF assms])

lemma only_users_kept:
  assumes "only_users db db'"
  shows "history_kept db db'"
  by (rule history_keptI [where f = id]) (simp_all add: only_users_fields [OF assms])

lemma bind_context_users: "only_users db (snd (bind_context usr db)) \<and> unique_ok (snd (bind_context usr db)) = unique_ok db"
  by (auto simp: bind_context_def only_users_def tenancy_simps split: option.splits sum.splits)

lemma bind_context_Inr: "bind_context usr db = (Inr u, db') \<Longrightarrow> u = usr \<and> users db' = users db"
  by (auto simp: bind_context_def tenancy_simps split: option.splits sum.splits)

lemma synchronize_users:
  assumes "synchronize_oidc_user env i db = (res, db')" and "unique_ok db"
  shows "only_users db db'" and "unique_ok db'"
proof -
  have rename: "only_users db (rename_user k e n db)" for k e n
  proof -
    have "map u_id (users (rename_user k e n db)) = map u_id (users db)" by (simp add: rename_user_def)
    then have "u_id ` set (users (rename_user k e n db)) = u_id ` set (users db)" by (metis list.set_map)
    then show ?thesis unfolding only_users_def by (simp add: rename_user_def)
  qed
  have add: "only_users db (db \<lparr> users := users db @ us \<rparr>)" for us
    by (auto simp: only_users_def)
  show "only_users db db'"
    using assms rename add by (auto simp: synchronize_oidc_user_def Let_def checked_def tenancy_simps
        split: option.splits sum.splits if_splits)
  show "unique_ok db'"
    using assms by (auto simp: synchronize_oidc_user_def Let_def checked_def tenancy_simps
        split: option.splits sum.splits if_splits)
qed

lemma development_users:
  assumes "ensure_development_user env email name db = (res, db')" and "unique_ok db"
  shows "only_users db db'" and "unique_ok db'"
proof -
  have add: "only_users db (db \<lparr> users := users db @ us \<rparr>)" for us
    by (auto simp: only_users_def)
  show "only_users db db'" "unique_ok db'"
    using assms add by (auto simp: ensure_development_user_def Let_def checked_def tenancy_simps
        split: option.splits sum.splits if_splits)
qed


lemma authenticate_token_Inr:
  assumes "authenticate_token env raw db = Inr usr"
  shows "usr \<in> set (users db)" "u_active usr" "\<exists>t\<in>set (tokens db). t_hash t = sha env raw \<and> t_user t = u_id usr \<and>
    t_revoked t = None \<and> now env < t_expires t"
  using assms
  by (auto simp: authenticate_token_def token_by_hash_def user_by_id_def dest!: find_SomeD split: option.splits if_splits)

lemma synchronize_Inr:
  assumes "synchronize_oidc_user env i db = (Inr usr, db')"
  shows "usr \<in> set (users db')" "u_active usr" "u_email usr = id_email i" "u_subject usr = oidc_subject env i"
  using assms
  by (auto simp: synchronize_oidc_user_def user_by_subject_def Let_def checked_def tenancy_simps rename_user_def
      dest!: find_SomeD split: option.splits sum.splits if_splits)

lemma development_Inr:
  assumes "ensure_development_user env email name db = (Inr usr, db')"
  shows "usr \<in> set (users db')" "u_email usr = normalize_email email \<or> u_subject usr = ''development:'' @ normalize_email email"
  using assms
  by (auto simp: ensure_development_user_def user_by_subject_def user_by_email_def development_user_def Let_def checked_def
      tenancy_simps dest!: find_SomeD split: option.splits sum.splits if_splits)

lemma and_then_split:
  "P (and_then r f) \<longleftrightarrow> (\<forall>e db. r = (Inl e, db) \<longrightarrow> P (Inl e, db)) \<and> (\<forall>x db. r = (Inr x, db) \<longrightarrow> P (f x db))"
  by (cases r rule: prod.exhaust; cases "fst r") auto

lemma and_then_eq:
  "and_then r f = y \<longleftrightarrow> (\<exists>e db. r = (Inl e, db) \<and> y = (Inl e, db)) \<or> (\<exists>x db. r = (Inr x, db) \<and> y = f x db)"
  by (cases r rule: prod.exhaust; cases "fst r") auto

text \<open>Whatever resolves the user, the tables stay well formed and a user it returns is a row of them.\<close>

definition resolved :: "app \<Rightarrow> (app_error + user) \<times> app \<Rightarrow> bool" where
  "resolved db r \<longleftrightarrow> only_users db (snd r) \<and> unique_ok (snd r) \<and> (\<forall>usr. fst r = Inr usr \<longrightarrow> usr \<in> set (users (snd r)))"

lemma resolved_Inl [simp]: "unique_ok db \<Longrightarrow> resolved db (Inl e, db)"
  by (simp add: resolved_def)

lemma resolved_bind:
  assumes "resolved db (r, db')"
  shows "resolved db (and_then (r, db') bind_context)"
proof (cases r)
  case (Inr usr)
  obtain x db'' where b: "bind_context usr db' = (x, db'')" by fastforce
  have "only_users db' db''" "unique_ok db''"
    using bind_context_users [of db' usr] b assms by (auto simp: resolved_def)
  moreover have "u \<in> set (users db'')" if "x = Inr u" for u
    using bind_context_Inr [of usr db' u db''] b that assms Inr by (auto simp: resolved_def)
  ultimately show ?thesis
    using assms Inr b by (auto simp: resolved_def intro: only_users_trans)
qed (use assms in simp)

lemma synchronize_resolved: "unique_ok db \<Longrightarrow> resolved db (synchronize_oidc_user env i db)"
  using synchronize_users synchronize_Inr(1) by (metis prod.collapse resolved_def)

lemma development_resolved: "unique_ok db \<Longrightarrow> resolved db (ensure_development_user env email name db)"
  using development_users development_Inr(1) by (metis prod.collapse resolved_def)

lemma authenticate_resolved: "unique_ok db \<Longrightarrow> resolved db (authenticate_token env raw db, db)"
  by (auto simp: resolved_def dest: authenticate_token_Inr)

lemma resolved_bind': "resolved db r \<Longrightarrow> resolved db (and_then r bind_context)"
  using resolved_bind by (cases r) auto

lemma resolve_authenticated_user_resolved:
  assumes "unique_ok db"
  shows "resolved db (resolve_authenticated_user st decode env creds db)"
proof -
  have "resolved db (and_then (oidc_verify decode raw, db) (\<lambda>i d. and_then (synchronize_oidc_user env i d) bind_context))" for raw
    using assms by (cases "oidc_verify decode raw") (auto intro: resolved_bind' synchronize_resolved)
  then show ?thesis
    using assms
    by (auto simp: resolve_authenticated_user_def intro: resolved_bind' authenticate_resolved
        split: option.splits auth_provider.splits)
qed

lemma get_legacy_user_resolved: "unique_ok db \<Longrightarrow> resolved db (get_legacy_user st decode env creds db)"
  by (auto simp: get_legacy_user_def intro: resolve_authenticated_user_resolved resolved_bind' development_resolved)

section \<open>Requests keep the invariant\<close>

lemma atomic_cases: "atomic r db = (x, db') \<Longrightarrow> db' = db \<or> (\<exists>y. r = Inr (y, db'))"
  by (auto simp: atomic_def split: sum.splits)

lemma atomic_snd: "P db \<Longrightarrow> (\<And>y d. r = Inr (y, d) \<Longrightarrow> P d) \<Longrightarrow> P (snd (atomic r db))"
  by (auto simp: atomic_def split: sum.splits)

lemma require_responder_Inr: "require_responder_scope sc = Inr sc' \<longleftrightarrow> sc' = sc \<and> ROLE_LEVEL Responder \<le> ROLE_LEVEL (sc_role sc)"
  by (auto simp: require_responder_scope_def)

lemma scenario_activate_cases:
  assumes "scenario_activate st env k usr db = (x, db')"
  obtains (stop) "db' = db"
  | (scope) sc where "get_legacy_scope st env usr db = Inr (sc, db')"
  | (activated) sc db1 s c where "get_legacy_scope st env usr db = Inr (sc, db1)" "s \<in> set (scenarios db1)"
      "s_workspace s = sc_workspace sc" "activate_context_scenario env sc s db1 = Inr (c, db')"
proof (cases "get_legacy_scope st env usr db")
  case (Inl e)
  with assms stop show ?thesis by (simp add: scenario_activate_def)
next
  case (Inr r)
  then obtain sc db1 where r: "get_legacy_scope st env usr db = Inr (sc, db1)" by (cases r) auto
  with assms show ?thesis
    using scope [of sc] activated [of sc db1]
    by (auto simp: scenario_activate_def result_simps require_responder_Inr dest!: atomic_cases find_SomeD split: option.splits)
qed

lemma scenario_activate_inv:
  assumes "scenario_activate st env k usr db = (x, db')" and inv: "tenancy_inv db" and usr: "usr \<in> set (users db)"
  shows "tenancy_inv db'"
  using assms(1)
proof (cases rule: scenario_activate_cases)
  case stop
  with inv show ?thesis by simp
next
  case (scope sc)
  from this [unfolded get_legacy_scope_def] inv usr show ?thesis by (rule resolve_tenant_scope_inv)
next
  case (activated sc db1 s c)
  have "tenancy_inv db1" using activated(1) inv usr unfolding get_legacy_scope_def by (rule resolve_tenant_scope_inv)
  moreover have "has_role db1 (sc_workspace sc) (u_id (sc_user sc)) Viewer"
    using activated(1) unfolding get_legacy_scope_def by (auto elim: resolve_tenant_scope_Inr)
  ultimately show ?thesis
    using activated by (intro activate_context_scenario_inv [OF activated(4)]) simp_all
qed

lemma perform_inv:
  assumes "perform st rq usr db = (x, db')" and inv: "tenancy_inv db" and usr: "usr \<in> set (users db)"
  shows "tenancy_inv db'"
proof -
  note inv_rules = create_workspace_inv create_repository_inv create_invitation_inv revoke_invitation_inv
    accept_invitation_inv select_user_context_inv
  have "tenancy_inv d" if "repository_create st env usr w a b c r db = Inr (y, d)" for env w a b c r y d
    using that inv by (auto simp: repository_create_def split: if_splits intro: inv_rules)
  moreover have "tenancy_inv d" if "invitation_create st env usr w e rl r db = Inr (y, d)" for env w e rl r y d
    using that inv by (auto simp: invitation_create_def result_simps split: if_splits intro: inv_rules)
  ultimately show ?thesis
    using assms by (auto simp: perform_def dest!: atomic_cases intro: inv_rules scenario_activate_inv split: action.splits)
qed

text \<open>A request is a user to resolve followed by the action, except for the development sign-in.\<close>

lemma serve_cases:
  obtains (signin) email name where "rq_action rq = DevelopmentSession email name"
    "serve st decode rq db = atomic (development_session st (rq_env rq) email name (stored db)) (stored db)"
  | (as_user) r where "unique_ok db \<Longrightarrow> resolved (stored db) r" "serve st decode rq db = and_then r (perform st rq)"
      "\<And>usr. fst r = Inr usr \<Longrightarrow> fst (get_legacy_user st decode (rq_env rq) (rq_credentials rq) (stored db)) = Inr usr"
proof -
  have u: "unique_ok db \<Longrightarrow> unique_ok (stored db)" by (simp add: stored_def)
  note resolve = as_user [of "resolve_authenticated_user st decode (rq_env rq) (rq_credentials rq) (stored db)",
      OF resolve_authenticated_user_resolved [OF u]]
  note legacy = as_user [of "get_legacy_user st decode (rq_env rq) (rq_credentials rq) (stored db)",
      OF get_legacy_user_resolved [OF u]]
  have "fst (get_legacy_user st decode (rq_env rq) (rq_credentials rq) (stored db)) = Inr usr"
    if "fst (resolve_authenticated_user st decode (rq_env rq) (rq_credentials rq) (stored db)) = Inr usr" for usr
    using that by (cases "rq_credentials rq") (simp_all add: get_legacy_user_def resolve_authenticated_user_def)
  then show ?thesis
    by (cases "rq_action rq") (rule signin resolve legacy; simp add: serve_def Let_def)+
qed

lemma development_session_Inr:
  assumes "development_session st env email name db = Inr (y, db')"
  obtains e n where "create_development_session env e n (access_token_ttl_hours st) db = Inr (y, db')"
  using assms by (auto simp: development_session_def split: if_splits prod.splits)

lemma development_session_inv:
  assumes "development_session st env email name db = Inr (y, db')" and "tenancy_inv db"
  shows "tenancy_inv db'"
  using assms(1) by (rule development_session_Inr) (rule create_development_session_inv [OF _ assms(2)])

lemma serve_inv:
  assumes inv: "tenancy_inv db"
  shows "tenancy_inv (snd (serve st decode rq db))"
proof -
  from inv have u: "unique_ok db" by (simp add: tenancy_inv_def)
  show ?thesis
  proof (cases rule: serve_cases [of rq st decode db])
    case (signin email name)
    have "tenancy_inv (stored db)" using inv by simp
    then show ?thesis
      unfolding signin(2) by (rule atomic_snd [where P = tenancy_inv]) (erule development_session_inv, simp add: inv)
  next
    case (as_user r)
    obtain a d where r: "r = (a, d)" by fastforce
    with as_user(1) [OF u] inv only_users_inv [of "stored db" d] have "tenancy_inv d" by (simp add: resolved_def)
    with as_user(1) [OF u] r show ?thesis
      by (cases a) (auto simp: resolved_def as_user(2) intro: perform_inv [OF surjective_pairing])
  qed
qed


section \<open>Requests keep the history\<close>

lemma ensure_context_kept:
  assumes "ensure_context env legacy usr db = Inr (c, db')"
  shows "history_kept db db'"
  using assms
proof (cases rule: ensure_context_cases)
  case (bootstrap m)
  show ?thesis unfolding bootstrap(7) by (rule history_keptI [where f = id]) simp_all
next
  case (member m)
  show ?thesis unfolding member(5) by (rule history_keptI [where f = id]) simp_all
qed simp

lemma history_kept_tenant [simp]: "history_kept d (db \<lparr> tenant := t \<rparr>) = history_kept d db"
  by (rule history_kept_stored) simp

lemma resolve_tenant_scope_kept:
  "resolve_tenant_scope env minimum legacy usr db = Inr (sc, db') \<Longrightarrow> history_kept db db'"
  by (erule resolve_tenant_scope_Inr) (auto dest: ensure_context_kept)

lemma put_context_kept: "history_kept d (put_context c db) = history_kept d db"
  by (simp add: history_kept_def)

lemma scenario_activate_kept:
  assumes "scenario_activate st env k usr db = (x, db')"
  shows "history_kept db db'"
  using assms
proof (cases rule: scenario_activate_cases)
  case (activated sc db1 s c)
  have "history_kept db db1" using activated(1) unfolding get_legacy_scope_def by (rule resolve_tenant_scope_kept)
  moreover have "db' = put_context c db1"
    using activated(4) by (auto simp: activate_context_scenario_def Let_def tenancy_simps split: option.splits)
  ultimately show ?thesis by (simp add: put_context_kept)
qed (auto simp: get_legacy_scope_def dest: resolve_tenant_scope_kept)

lemma perform_kept:
  assumes "perform st rq usr db = (x, db')" and inv: "tenancy_inv db"
  shows "history_kept db db'"
proof -
  note kept_rules = create_workspace_kept create_repository_kept create_invitation_kept revoke_invitation_kept
    accept_invitation_kept
  have "history_kept db d" if "repository_create st env usr w a b c r db = Inr (y, d)" for env w a b c r y d
    using that by (auto simp: repository_create_def split: if_splits intro: kept_rules)
  moreover have "history_kept db d" if "invitation_create st env usr w e rl r db = Inr (y, d)" for env w e rl r y d
    using that by (auto simp: invitation_create_def result_simps split: if_splits intro: kept_rules)
  moreover have "history_kept db d" if "select_user_context env usr w repo scen db = Inr (c, d)" for env w repo scen c d
    unfolding select_user_context_Inr(3) [OF that inv] by (simp add: put_context_kept)
  ultimately show ?thesis
    using assms by (auto simp: perform_def dest!: atomic_cases intro: kept_rules scenario_activate_kept split: action.splits)
qed

lemma serve_kept:
  assumes inv: "tenancy_inv db"
  shows "history_kept db (snd (serve st decode rq db))"
proof -
  from inv have u: "unique_ok db" by (simp add: tenancy_inv_def)
  have "history_kept (stored db) (snd (serve st decode rq db))"
  proof (cases rule: serve_cases [of rq st decode db])
    case (signin email name)
    have "history_kept (stored db) d" if "development_session st (rq_env rq) email name (stored db) = Inr (y, d)" for y d
      using that by (rule development_session_Inr) (rule create_development_session_kept)
    then show ?thesis
      unfolding signin(2) by (intro atomic_snd [where P = "history_kept (stored db)"]) simp_all
  next
    case (as_user r)
    obtain a d where r: "r = (a, d)" by fastforce
    with as_user(1) [OF u] have d: "history_kept (stored db) d" "unique_ok d" "only_users (stored db) d"
      by (auto simp: resolved_def intro: only_users_kept)
    with inv only_users_inv [of "stored db" d] have "tenancy_inv d" by simp
    then have "history_kept d (snd (perform st rq usr d))" for usr
      by (intro perform_kept [OF surjective_pairing])
    with d show ?thesis
      by (cases a) (auto simp: as_user(2) r intro: history_kept_trans)
  qed
  then show ?thesis by (simp add: history_kept_def stored_def)
qed

interpretation requests: monotone_system "request_step st decode" tenancy_inv history_kept for st decode
proof unfold_locales
  fix s e s' assume "tenancy_inv s" "request_step st decode s e = Some s'"
  then show "tenancy_inv s'" "history_kept s s'"
    using serve_inv [of s st decode e] serve_kept [of s st decode e]
      history_kept_stored [of s' "snd (serve st decode e s)" s]
    by (auto simp: request_step_def)
qed (auto intro: history_kept_trans)


section \<open>Isolation of workspaces\<close>

text \<open>Why a user may write to a workspace.\<close>

definition may_write :: "settings \<Rightarrow> int \<Rightarrow> app \<Rightarrow> user \<Rightarrow> string \<Rightarrow> bool" where
  "may_write st t db usr v \<longleftrightarrow>
     has_role db v (u_id usr) Admin \<or>
     (\<exists>i\<in>set (invitations db). i_workspace i = v \<and> i_status i = Pending \<and> i_email i = u_email usr \<and> t < i_expires i) \<or>
     (\<forall>w\<in>set (workspaces db). w_id w \<noteq> v) \<or>
     (v = LEGACY_WORKSPACE_ID \<and> development_auth_available st \<and> seed_synthetic_data st)"

definition wrote :: "settings \<Rightarrow> int \<Rightarrow> app \<Rightarrow> user \<Rightarrow> string \<Rightarrow> app \<Rightarrow> bool" where
  "wrote st t db usr v db' \<longleftrightarrow> tenant db' = Some (py_strip v) \<and> has_role db' v (u_id usr) Viewer \<and> may_write st t db usr v"

lemma membership_for_writes:
  assumes "find_membership db w (u_id usr) = Some m" "ROLE_LEVEL Admin \<le> ROLE_LEVEL (m_role m)"
    and "memberships db' = memberships db" "tenant db' = Some (py_strip w)"
  shows "wrote st t db usr w db'"
proof -
  have "has_role db w (u_id usr) Viewer"
    using has_role_viewer [of m db] assms(1) by (auto dest: find_membership_SomeD)
  then show ?thesis
    using assms find_membership_role [OF assms(1,2)] by (simp add: wrote_def may_write_def has_role_tables [OF assms(3)])
qed

lemma create_workspace_writes:
  assumes "create_workspace env usr name slug req db = Inr (r, db')" and "rows_of db' v \<noteq> rows_of db v"
  shows "wrote st t db usr v db'"
proof -
  from assms create_workspace_rows have v: "v = fresh env 0" by blast
  have "distinct (map w_id (workspaces db @ [\<lparr> w_id = v, w_name = py_strip name, w_slug = py_lower (py_strip slug),
      w_created_by = u_id usr, w_created = now env, w_updated = now env \<rparr>]))"
    and "tenant db' = Some (py_strip v)" and "has_role db' v (u_id usr) Viewer"
    using assms(1)
    by (auto simp: create_workspace_def Let_def result_simps tenancy_simps unique_ok_def v has_role_def split: if_splits
        dest!: summarize_workspace_Inr)
  then show ?thesis by (auto simp: wrote_def may_write_def)
qed

lemma create_repository_writes:
  assumes "create_repository env usr w name branch vis req db = Inr (r, db')" and "rows_of db' v \<noteq> rows_of db v"
  shows "wrote st t db usr v db'"
proof -
  from assms create_repository_rows have "v = w" by blast
  then show ?thesis
    using assms(1)
    by (auto simp: create_repository_def Let_def result_simps tenancy_simps set_context_repository_def audit_def
        split: if_splits intro!: membership_for_writes)
qed

lemma create_invitation_writes:
  assumes "create_invitation env usr w email rl req ttl secret db = Inr (r, db')" and "rows_of db' v \<noteq> rows_of db v"
  shows "wrote st t db usr v db'"
proof -
  from assms create_invitation_rows have "v = w" by blast
  then show ?thesis
    using assms(1)
    by (auto simp: create_invitation_def Let_def result_simps tenancy_simps audit_def
        split: if_splits intro!: membership_for_writes)
qed

lemma revoke_invitation_writes:
  assumes "revoke_invitation (\<lambda>d. d) env usr w k req db = Inr (r, db')" and "tenancy_inv db" and "rows_of db' v \<noteq> rows_of db v"
  shows "wrote st t db usr v db'"
proof -
  from assms revoke_invitation_rows have "v = w" by blast
  then show ?thesis
    using assms(1)
    by (auto simp: revoke_invitation_def Let_def result_simps tenancy_simps audit_def update_invitation_def
        split: if_splits option.splits intro!: membership_for_writes)
qed

lemma accept_invitation_writes:
  assumes "accept_invitation (\<lambda>d. d) env usr raw req db = Inr (r, db')" and "tenancy_inv db" and "rows_of db' v \<noteq> rows_of db v"
  shows "wrote st (now env) db usr v db'"
  using assms(1,2)
proof (rule accept_invitation_rows)
  fix i assume i: "i \<in> set (invitations db)" "i_status i = Pending" "now env < i_expires i" "i_email i = u_email usr"
    "tenant db' = Some (py_strip (i_workspace i))" "has_role db' (i_workspace i) (u_id usr) Viewer"
    and "\<And>v. v \<noteq> i_workspace i \<Longrightarrow> rows_of db' v = rows_of db v"
  then have v: "v = i_workspace i" using assms(3) by blast
  have "may_write st (now env) db usr v" unfolding may_write_def v using i(1-4) by blast
  with i(5,6) show ?thesis by (simp add: wrote_def v)
qed

lemma put_context_rows [simp]: "rows_of (put_context c db) = rows_of db"
  by (simp add: rows_of_def fun_eq_iff)

lemma rows_of_tenant [simp]: "rows_of (db \<lparr> tenant := t \<rparr>) = rows_of db"
  by (simp add: rows_of_def fun_eq_iff)

lemma ensure_context_writes:
  assumes "ensure_context env legacy usr db = Inr (c, db')" and "rows_of db' v \<noteq> rows_of db v"
  shows "v = LEGACY_WORKSPACE_ID \<and> c_workspace c = v \<and> legacy"
  using assms(1)
proof (cases rule: ensure_context_cases)
  case (bootstrap m)
  have "v = LEGACY_WORKSPACE_ID"
    using assms(2) by (auto simp: bootstrap(7) rows_of_def bootstrap(4) legacy_membership_def split: if_splits)
  with bootstrap show ?thesis by simp
qed (use assms(2) in \<open>auto simp: rows_of_def\<close>)

lemma scope_writes:
  assumes "get_legacy_scope st env usr db = Inr (sc, db')" and "rows_of db' v \<noteq> rows_of db v"
  shows "wrote st t db usr v db'"
  using assms(1) unfolding get_legacy_scope_def
proof (rule resolve_tenant_scope_Inr)
  fix c db1 assume "ensure_context env (development_auth_available st \<and> seed_synthetic_data st) usr db = Inr (c, db1)"
    and "db' = db1 \<lparr> tenant := Some (py_strip (c_workspace c)) \<rparr>" "sc_workspace sc = c_workspace c"
    "has_role db' (sc_workspace sc) (u_id usr) Viewer"
  then show ?thesis using ensure_context_writes [of env _ usr db c db1 v] assms(2) by (auto simp: wrote_def may_write_def)
qed

lemma scenario_activate_writes:
  assumes "scenario_activate st env k usr db = (x, db')" and "rows_of db' v \<noteq> rows_of db v"
  shows "wrote st t db usr v db'"
  using assms(1)
proof (cases rule: scenario_activate_cases)
  case (activated sc db1 s c)
  have db': "db' = put_context c db1"
    using activated(4) by (auto simp: activate_context_scenario_def Let_def tenancy_simps split: option.splits)
  then have "wrote st t db usr v db1" using assms(2) by (intro scope_writes [OF activated(1)]) simp
  then show ?thesis by (simp add: db' wrote_def has_role_def)
qed (use assms(2) scope_writes in auto)

lemma development_session_rows:
  assumes "development_session st env email name db = Inr (y, db')"
  shows "rows_of db' = rows_of db"
proof -
  from assms obtain e n where "create_development_session env e n (access_token_ttl_hours st) db = Inr (y, db')"
    by (rule development_session_Inr)
  then obtain us ts where "stored db' = stored (db \<lparr> users := users db @ us, tokens := tokens db @ ts \<rparr>)"
    by (rule create_development_session_Inr)
  then have "rows_of db' = rows_of (db \<lparr> users := users db @ us, tokens := tokens db @ ts \<rparr>)" by (rule rows_of_stored_cong)
  then show ?thesis by (simp add: rows_of_def fun_eq_iff)
qed

lemma perform_writes:
  assumes "perform st rq usr db = (x, db')" and inv: "tenancy_inv db" and "rows_of db' v \<noteq> rows_of db v"
  shows "wrote st (now (rq_env rq)) db usr v db'"
proof -
  note write_rules = create_workspace_writes create_repository_writes create_invitation_writes
    revoke_invitation_writes accept_invitation_writes
  have "wrote st t db usr v d" if "repository_create st env usr w a b c r db = Inr (y, d)" "rows_of d v \<noteq> rows_of db v"
    for env w a b c r y d t
    using that by (auto simp: repository_create_def split: if_splits intro: write_rules)
  moreover have "wrote st t db usr v d" if "invitation_create st env usr w e rl r db = Inr (y, d)" "rows_of d v \<noteq> rows_of db v"
    for env w e rl r y d t
    using that by (auto simp: invitation_create_def result_simps split: if_splits intro: write_rules)
  moreover have "rows_of d = rows_of db" if "select_user_context env usr w repo scen db = Inr (c, d)" for env w repo scen c d
    unfolding select_user_context_Inr(3) [OF that inv] by simp
  ultimately show ?thesis
    using assms by (auto simp: perform_def dest!: atomic_cases intro: write_rules scenario_activate_writes split: action.splits)
qed


section \<open>Properties\<close>

definition demo_env :: "int \<Rightarrow> string \<Rightarrow> environment" where
  "demo_env t p = \<lparr> now = t, fresh = (\<lambda>n. p @ show_nat n), secret_token = p, sha = (\<lambda>s. s), hmac_token = (\<lambda>a b. a @ b) \<rparr>"

definition demo_user :: user where
  "demo_user = \<lparr> u_id = ''u1'', u_email = ''a@b.c'', u_display_name = ''A'', u_provider = ''development'',
     u_subject = ''development:a@b.c'', u_active = True, u_created = 0 \<rparr>"

definition demo_app :: app where
  "demo_app = empty_app \<lparr> users := [demo_user], tokens := [\<lparr> t_id = ''t1'', t_user = ''u1'', t_hash = ''raw'',
     t_provider = ''development'', t_created = 0, t_expires = 100, t_revoked = None \<rparr>] \<rparr>"

definition demo_request :: request where
  "demo_request = \<lparr> rq_env = demo_env 5 ''x'', rq_credentials = Some \<lparr> scheme = ''Bearer'', credential = ''raw'' \<rparr>,
     rq_request_id = ''r1'', rq_action = WorkspaceCreate ''Team'' ''team'' \<rparr>"

lemma demo_app_inv: "tenancy_inv demo_app"
  by (simp add: tenancy_inv_def unique_ok_def demo_app_def empty_app_def)

text \<open>
  C18. Whatever requests arrive at the workspace routes (development sign-in, creating workspaces, repositories and
  invitations, revoking and accepting invitations, selecting a context, activating a scenario), authenticated or not, in
  whatever order, each served after the one before, the tables stay well formed: unique keys hold, every workspace has an owner and a usable identifier, every user's current context names a workspace the
  user is a member of and a repository and scenario of that workspace, no invitation grants ownership, an invitation
  of an administrator comes from an owner, and its status agrees with its timestamps. Moreover no audit event,
  membership or workspace is ever removed or altered, and an accepted or revoked invitation stays as it is.
\<close>
theorem requests_keep_tenancy:
  assumes "tenancy_inv db"
  shows "tenancy_inv (run_events (request_step st decode) db rqs) \<and>
         history_kept db (run_events (request_step st decode) db rqs)"
  using requests.run_inv [OF assms] requests.run_rel [OF assms] by blast

theorem requests_keep_tenancy_witness:
  "tenancy_inv (run_events (request_step default_settings (\<lambda>_. None)) demo_app [demo_request, demo_request]) \<and>
   history_kept demo_app (run_events (request_step default_settings (\<lambda>_. None)) demo_app [demo_request, demo_request])"
  by (rule requests_keep_tenancy [OF demo_app_inv])

text \<open>
  C19. Tenant isolation of the workspace routes. If a request to one of them (development sign-in, creating workspaces,
  repositories and invitations, revoking and accepting invitations, selecting a context, activating a scenario), during
  which no other request commits, changes any row of a workspace, then its credentials identify a user who, before the request, was an administrator of that workspace or the addressee of a live pending invitation to it, or the
  workspace did not exist before; the only exception is the demonstration workspace when synthetic data and the
  development sign-in are both enabled. The session was bound to that workspace, and the user is a member of it
  afterwards.
\<close>
theorem tenant_isolation:
  assumes "tenancy_inv db" and "serve st decode rq db = (res, db')" and "rows_of db' v \<noteq> rows_of db v"
  shows "\<exists>usr. fst (get_legacy_user st decode (rq_env rq) (rq_credentials rq) (stored db)) = Inr usr \<and>
           tenant db' = Some (py_strip v) \<and> has_role db' v (u_id usr) Viewer \<and>
           (has_role db v (u_id usr) Admin \<or>
            (\<exists>i\<in>set (invitations db). i_workspace i = v \<and> i_status i = Pending \<and> i_email i = u_email usr \<and>
               now (rq_env rq) < i_expires i) \<or>
            \<not> (\<exists>w\<in>set (workspaces db). w_id w = v) \<or>
            v = LEGACY_WORKSPACE_ID \<and> development_auth_available st \<and> seed_synthetic_data st)"
proof -
  have u: "unique_ok db" using assms(1) by (simp add: tenancy_inv_def)
  show ?thesis
  proof (cases rule: serve_cases [of rq st decode db])
    case (signin email name)
    have "rows_of db' = rows_of db"
      using assms(2) development_session_rows unfolding signin(2) by (fastforce dest!: atomic_cases)
    with assms(3) show ?thesis by simp
  next
    case (as_user r)
    obtain a d where r: "r = (a, d)" by fastforce
    from as_user(1) [OF u] r have d: "only_users (stored db) d" "unique_ok d" by (simp_all add: resolved_def)
    then have rows: "rows_of d = rows_of db" and inv: "tenancy_inv d"
      using only_users_rows only_users_inv [of "stored db" d] assms(1) by simp_all
    obtain usr where a: "a = Inr usr" and p: "perform st rq usr d = (res, db')"
      using assms(2,3) rows unfolding as_user(2) r by (cases a) auto
    from perform_writes [OF p inv] assms(3) rows have "wrote st (now (rq_env rq)) d usr v db'" by simp
    moreover have "memberships d = memberships db" "invitations d = invitations db" "workspaces d = workspaces db"
      using only_users_fields [OF d(1)] by (simp_all add: stored_def)
    ultimately show ?thesis
      using as_user(3) r a by (auto simp: wrote_def may_write_def has_role_def)
  qed
qed

text \<open>
  Overlapping requests are another matter. An administrator revokes an invitation while it is being accepted: the
  acceptance read it as pending, so both succeed, the invitation ends as accepted with a time of revocation, and the user
  whose invitation was revoked is a member.
\<close>

definition demo_guest :: user where
  "demo_guest = demo_user \<lparr> u_id := ''u2'', u_email := ''b@c.d'', u_subject := ''development:b@c.d'' \<rparr>"

definition demo_invited :: app where
  "demo_invited = empty_app \<lparr> users := [demo_user, demo_guest],
     workspaces := [\<lparr> w_id = ''w1'', w_name = ''W'', w_slug = ''w'', w_created_by = ''u1'', w_created = 0, w_updated = 0 \<rparr>],
     memberships := [\<lparr> m_id = ''m1'', m_workspace = ''w1'', m_user = ''u1'', m_role = Owner, m_joined = 0 \<rparr>],
     invitations := [\<lparr> i_id = ''inv1'', i_workspace = ''w1'', i_email = ''b@c.d'', i_role = Viewer, i_token_hash = ''tok'',
       i_status = Pending, i_invited_by = ''u1'', i_created = 0, i_expires = 100, i_accepted = None, i_revoked = None \<rparr>] \<rparr>"

definition demo_revocation :: "app \<Rightarrow> app" where
  "demo_revocation db = (case revoke_invitation (\<lambda>d. d) (demo_env 6 ''r'') demo_user ''w1'' ''inv1'' ''q'' db of
     Inr (_, db') \<Rightarrow> db' | Inl _ \<Rightarrow> db)"

lemma acceptance_overtaken_by_revocation:
  "is_ok (revoke_invitation (\<lambda>d. d) (demo_env 6 ''r'') demo_user ''w1'' ''inv1'' ''q'' demo_invited)"
  "(case accept_invitation demo_revocation (demo_env 7 ''a'') demo_guest ''tok'' ''p'' demo_invited of
     Inr (_, db) \<Rightarrow> map (\<lambda>i. (i_status i, i_accepted i, i_revoked i)) (invitations db) = [(Accepted, Some 7, Some 6)] \<and>
       has_role db ''w1'' ''u2'' Viewer
   | Inl _ \<Rightarrow> False)"
  by code_simp+

text \<open>
  C20. In a production configuration that passed validation, a request acts for a user only when it carries a bearer
  token that the identity provider's key accepted with a verified email address; the user is the active row with the
  token's issuer and subject, and carries the token's email.
\<close>
theorem production_requires_identity:
  assumes "validate_auth_configuration s = Inr st" and "is_production s"
    and "get_legacy_user st decode env creds db = (Inr usr, db')"
  shows "\<exists>c cl. creds = Some c \<and> py_lower (scheme c) = ''bearer'' \<and> decode (credential c) = Some cl \<and>
           cl_email_verified cl \<and> u_email usr = py_lower (py_strip (cl_email cl)) \<and> u_email usr \<noteq> [] \<and>
           u_subject usr = ''oidc:'' @ sha env (cl_iss cl @ char_of (0 :: nat) # cl_sub cl) \<and>
           u_active usr \<and> usr \<in> set (users db')"
proof -
  note prod = production_auth [OF assms(1,2)]
  from assms(3) prod obtain c where c: "creds = Some c" "py_lower (scheme c) = ''bearer''"
    and r: "and_then (oidc_verify decode (credential c), db) (\<lambda>i d. and_then (synchronize_oidc_user env i d) bind_context) = (Inr usr, db')"
    by (auto simp: get_legacy_user_def resolve_authenticated_user_def split: if_splits option.splits)
  then obtain i d where i: "oidc_verify decode (credential c) = Inr i" and d: "synchronize_oidc_user env i db = (Inr usr, d)"
    and "users db' = users d"
    by (auto simp: and_then_eq dest!: sym [of "(Inr usr, db')"] bind_context_Inr)
  with synchronize_Inr [OF d] c show ?thesis
    by (auto simp: oidc_verify_def Let_def oidc_subject_def split: option.splits if_splits)
qed


definition demo_production :: settings where
  "demo_production = default_settings \<lparr> environment := ''production'', database_url := ''postgresql+psycopg://h/d'',
     run_migrations_on_startup := False, auth_provider := OIDC, oidc_issuer := ''https://i'', oidc_audience := ''a'',
     oidc_client_id := ''a'', oidc_jwks_url := ''https://i/keys'', frontend_public_url := ''https://app'', cors_origins := [''https://app''] \<rparr>"

definition demo_claims :: claims where
  "demo_claims = \<lparr> cl_iss = ''https://i'', cl_sub = ''42'', cl_email = ''A@b.c'', cl_email_verified = True, cl_name = ''A'',
     cl_preferred_username = [] \<rparr>"

theorem tenant_isolation_witness:
  "rows_of (snd (serve default_settings (\<lambda>_. None) demo_request demo_app)) ''x0'' \<noteq> rows_of demo_app ''x0'' \<and>
   (\<exists>usr. fst (get_legacy_user default_settings (\<lambda>_. None) (demo_env 5 ''x'') (rq_credentials demo_request) (stored demo_app)) = Inr usr \<and>
      has_role (snd (serve default_settings (\<lambda>_. None) demo_request demo_app)) ''x0'' (u_id usr) Viewer)"
proof -
  have change: "rows_of (snd (serve default_settings (\<lambda>_. None) demo_request demo_app)) ''x0'' \<noteq> rows_of demo_app ''x0''"
    by code_simp
  have env: "rq_env demo_request = demo_env 5 ''x''" by (simp add: demo_request_def)
  from tenant_isolation [OF demo_app_inv surjective_pairing change] change show ?thesis
    unfolding env by blast
qed

theorem production_requires_identity_witness:
  "validate_auth_configuration demo_production = Inr demo_production \<and>
   (\<exists>usr db'. get_legacy_user demo_production (\<lambda>_. Some demo_claims) (demo_env 5 ''x'')
      (Some \<lparr> scheme = ''Bearer'', credential = ''jwt'' \<rparr>) empty_app = (Inr usr, db') \<and>
      u_email usr = ''a@b.c'' \<and> u_active usr)"
proof -
  have ok: "validate_auth_configuration demo_production = Inr demo_production" "is_production demo_production" by code_simp+
  let ?r = "get_legacy_user demo_production (\<lambda>_. Some demo_claims) (demo_env 5 ''x'')
      (Some \<lparr> scheme = ''Bearer'', credential = ''jwt'' \<rparr>) empty_app"
  obtain usr where usr: "fst ?r = Inr usr"
  proof (cases "fst ?r")
    case (Inl e)
    moreover have "is_ok (fst ?r)" by code_simp
    ultimately show ?thesis by simp
  qed
  then have r: "?r = (Inr usr, snd ?r)" by (metis prod.collapse)
  have "py_lower (py_strip ''A@b.c'') = ''a@b.c''" by code_simp
  with production_requires_identity [OF ok r] have "u_email usr = ''a@b.c''" "u_active usr"
    by (auto simp: demo_claims_def)
  with ok r show ?thesis by blast
qed

text \<open>Without credentials the development user is looked up by email when its provider subject is unknown, and
  that lookup does not ask whether the user is active.\<close>

lemma inactive_development_user_admitted:
  "ensure_development_user (demo_env 5 ''x'') ''a@b.c'' ''A''
     (empty_app \<lparr> users := [demo_user \<lparr> u_active := False, u_subject := ''oidc:1'' \<rparr>] \<rparr>) =
   (Inr (demo_user \<lparr> u_active := False, u_subject := ''oidc:1'' \<rparr>),
    empty_app \<lparr> users := [demo_user \<lparr> u_active := False, u_subject := ''oidc:1'' \<rparr>] \<rparr>)"
proof -
  have "normalize_email ''a@b.c'' = ''a@b.c''" by code_simp
  then show ?thesis
    by (simp add: ensure_development_user_def user_by_subject_def user_by_email_def demo_user_def empty_app_def Let_def)
qed

end
