(* ===== verification/ServiceCatalog.thy ===== *)
theory ServiceCatalog
  imports TenantScope
begin

text \<open>
  The service catalogue of \<open>backend/app/operations_services.py\<close>: services with their dependencies, the depth-first
  search that refuses a dependency cycle, and the operations on the catalogue. The tables of the operations component
  extend a record that holds the tables of \<open>Tenancy\<close>.

  The recursion of \<open>visit\<close> is total here; the interpreter's recursion limit is not modelled. The request bodies are the
  validated ones of \<open>operations_schemas.py\<close>; the checks of that schema that shape the stored rows are modelled.
\<close>

section \<open>Dependency cycles\<close>

type_synonym dep_graph = "(string, string list) dict"
type_synonym colours = "(string, nat) dict"

definition successors :: "dep_graph \<Rightarrow> string \<Rightarrow> string list" where
  "successors g n = dict_get g n []"

definition colour :: "colours \<Rightarrow> string \<Rightarrow> nat" where
  "colour st n = dict_get st n 0"

definition paint :: "string \<Rightarrow> nat \<Rightarrow> colours \<Rightarrow> colours" where
  "paint n c st = AList.update n c st"

lemma colour_paint [simp]: "colour (paint n c st) m = (if m = n then c else colour st m)"
  by (simp add: colour_def paint_def dict_get_def update_conv')

datatype catalog_error = SelfDependency | UnknownDependency | DependencyCycle

text \<open>\<open>visit\<close>, with its loop over the dependencies as \<open>visit_all\<close>: 1 is on the stack, 2 is finished.\<close>

function visit :: "dep_graph \<Rightarrow> string \<Rightarrow> colours \<Rightarrow> catalog_error + colours"
  and visit_all :: "dep_graph \<Rightarrow> string list \<Rightarrow> colours \<Rightarrow> catalog_error + colours" where
  "visit g n st =
     (if colour st n = 1 then Inl DependencyCycle
      else if colour st n = 2 then Inr st
      else case visit_all g (successors g n) (paint n 1 st) of
             Inl e \<Rightarrow> Inl e
           | Inr st' \<Rightarrow> Inr (paint n 2 st'))"
| "visit_all g [] st = Inr st"
| "visit_all g (m # ms) st = (case visit g m st of Inl e \<Rightarrow> Inl e | Inr st' \<Rightarrow> visit_all g ms st')"
  by pat_completeness auto

definition whites :: "dep_graph \<Rightarrow> colours \<Rightarrow> string set" where
  "whites g st = {n \<in> fst ` set g. colour st n \<noteq> 1 \<and> colour st n \<noteq> 2}"

lemma finite_whites [simp]: "finite (whites g st)"
  by (simp add: whites_def)

lemma visit_whites:
  "visit_visit_all_dom (Inl (g, n, st)) \<Longrightarrow> visit g n st = Inr st' \<Longrightarrow> whites g st' \<subseteq> whites g st"
  "visit_visit_all_dom (Inr (g, ms, st)) \<Longrightarrow> visit_all g ms st = Inr st' \<Longrightarrow> whites g st' \<subseteq> whites g st"
proof (induction g n st and g ms st arbitrary: st' and st' rule: visit_visit_all.pinduct)
  case (1 g n st)
  show ?case
  proof (cases "colour st n = 1 \<or> colour st n = 2")
    case True
    with 1 show ?thesis by (auto simp: visit.psimps split: if_splits)
  next
    case False
    with "1.prems" "1.hyps" obtain st1 where st1: "visit_all g (successors g n) (paint n 1 st) = Inr st1" "st' = paint n 2 st1"
      by (auto simp: visit.psimps split: sum.splits)
    with "1.IH" False have "whites g st1 \<subseteq> whites g (paint n 1 st)" by blast
    then show ?thesis unfolding st1(2) by (auto simp: whites_def split: if_splits)
  qed
next
  case (3 g m ms st)
  then obtain st1 where "visit g m st = Inr st1" "visit_all g ms st1 = Inr st'"
    by (auto simp: visit_all.psimps split: sum.splits)
  with 3 show ?case by blast
qed (auto simp: visit_all.psimps)

termination visit
proof (relation "measures [\<lambda>x. case x of Inl (g, n, st) \<Rightarrow> card (whites g st) | Inr (g, ms, st) \<Rightarrow> card (whites g st),
    \<lambda>x. case x of Inl (g, n, st) \<Rightarrow> 1 | Inr (g, ms, st) \<Rightarrow> 2 * length ms]")
  fix g :: dep_graph and n st
  assume "colour st n \<noteq> 1" "colour st n \<noteq> 2"
  show "(Inr (g, successors g n, paint n 1 st), Inl (g, n, st)) \<in> measures
      [\<lambda>x. case x of Inl (g, n, st) \<Rightarrow> card (whites g st) | Inr (g, ms, st) \<Rightarrow> card (whites g st),
       \<lambda>x. case x of Inl (g, n, st) \<Rightarrow> 1 | Inr (g, ms, st) \<Rightarrow> 2 * length ms]"
  proof (cases "n \<in> fst ` set g")
    case True
    have "whites g (paint n 1 st) \<subset> whites g st"
      using True \<open>colour st n \<noteq> 1\<close> \<open>colour st n \<noteq> 2\<close> by (auto simp: whites_def)
    then show ?thesis by (simp add: psubset_card_mono)
  next
    case False
    then have "map_of g n = None" by (simp add: map_of_eq_None_iff)
    then have "successors g n = []" by (simp add: successors_def dict_get_def)
    moreover have "whites g (paint n 1 st) = whites g st" using False by (auto simp: whites_def)
    ultimately show ?thesis by simp
  qed
next
  fix g :: dep_graph and m ms st st'
  assume "visit g m st = Inr st'" "visit_visit_all_dom (Inl (g, m, st))"
  then have "card (whites g st') \<le> card (whites g st)" by (intro card_mono visit_whites) auto
  then show "(Inr (g, ms, st'), Inr (g, m # ms, st)) \<in> measures
      [\<lambda>x. case x of Inl (g, n, st) \<Rightarrow> card (whites g st) | Inr (g, ms, st) \<Rightarrow> card (whites g st),
       \<lambda>x. case x of Inl (g, n, st) \<Rightarrow> 1 | Inr (g, ms, st) \<Rightarrow> 2 * length ms]"
    by (auto simp: le_less)
qed auto

definition edges :: "dep_graph \<Rightarrow> (string \<times> string) set" where
  "edges g = {(n, m). m \<in> set (successors g n)}"

text \<open>The nodes of a colour: 1 grey, 2 black.\<close>

definition grey :: "colours \<Rightarrow> string set" where
  "grey st = {n. colour st n = 1}"

definition black :: "colours \<Rightarrow> string set" where
  "black st = {n. colour st n = 2}"

definition black_ok :: "dep_graph \<Rightarrow> colours \<Rightarrow> bool" where
  "black_ok g st \<longleftrightarrow> edges g `` black st \<subseteq> black st \<and> acyclic (edges g \<inter> black st \<times> black st)"

lemma closed_trancl: "(x, y) \<in> r\<^sup>+ \<Longrightarrow> x \<in> B \<Longrightarrow> r `` B \<subseteq> B \<Longrightarrow> y \<in> B"
  by (induction rule: trancl_induct) auto

text \<open>Adding a node below which everything is finished creates no cycle.\<close>

lemma acyclic_add_node:
  assumes acyc: "acyclic (r \<inter> B \<times> B)" and closed: "r `` B \<subseteq> B" and n: "n \<notin> B" "r `` {n} \<subseteq> B"
  shows "acyclic (r \<inter> insert n B \<times> insert n B)"
proof (rule acyclicI, rule allI, rule notI)
  let ?r = "r \<inter> insert n B \<times> insert n B"
  fix x assume cyc: "(x, x) \<in> ?r\<^sup>+"
  have into: "y \<in> B" if "(x, y) \<in> ?r" for x y
    using that closed n(2) by auto
  have ends: "y \<in> B" if "(x, y) \<in> ?r\<^sup>+" for x y
    using that by (rule tranclE) (erule into)+
  with cyc have "x \<in> B" by blast
  have "(x, y) \<in> (r \<inter> B \<times> B)\<^sup>+" if "(x, y) \<in> ?r\<^sup>+" for y
    using that
  proof (induction rule: trancl_induct)
    case (base y)
    then have "(x, y) \<in> r \<inter> B \<times> B" using into [OF base] \<open>x \<in> B\<close> by auto
    then show ?case by (rule r_into_trancl)
  next
    case (step y z)
    have "(y, z) \<in> r \<inter> B \<times> B" using step.hyps(2) into [OF step.hyps(2)] ends [OF step.hyps(1)] by auto
    with step.IH show ?case by (rule trancl_into_trancl)
  qed
  with cyc \<open>x \<in> B\<close> acyc show False by (auto simp: acyclic_def)
qed

lemma visit_result:
  "visit g n st = Inr st' \<Longrightarrow> black_ok g st \<Longrightarrow>
     black_ok g st' \<and> grey st' = grey st \<and> black st \<subseteq> black st' \<and> n \<in> black st'"
  "visit_all g ms st = Inr st' \<Longrightarrow> black_ok g st \<Longrightarrow>
     black_ok g st' \<and> grey st' = grey st \<and> black st \<subseteq> black st' \<and> set ms \<subseteq> black st'"
proof (induction g n st and g ms st arbitrary: st' and st' rule: visit_visit_all.induct)
  case (1 g n st)
  show ?case
  proof (cases "colour st n = 1 \<or> colour st n = 2")
    case True
    with "1.prems" show ?thesis by (auto simp: black_def split: if_splits)
  next
    case False
    with "1.prems"(1) obtain st1 where st1: "visit_all g (successors g n) (paint n 1 st) = Inr st1" and st': "st' = paint n 2 st1"
      by (auto split: sum.splits)
    have "black (paint n 1 st) = black st" using False by (auto simp: black_def)
    with "1.prems"(2) have "black_ok g (paint n 1 st)" by (simp add: black_ok_def)
    with "1.IH" False st1 have ok: "black_ok g st1" and gr: "grey st1 = grey (paint n 1 st)"
      and bl: "black st \<subseteq> black st1" "set (successors g n) \<subseteq> black st1"
      using \<open>black (paint n 1 st) = black st\<close> by auto
    have "n \<in> grey st1" unfolding gr by (simp add: grey_def)
    then have "n \<notin> black st1" by (simp add: grey_def black_def)
    moreover have b: "black st' = insert n (black st1)" by (auto simp: st' black_def)
    moreover have "edges g `` {n} \<subseteq> black st1" using bl(2) by (auto simp: edges_def)
    ultimately have "black_ok g st'"
      using ok acyclic_add_node [of "edges g" "black st1" n] by (auto simp: black_ok_def)
    moreover have "grey st' = grey st" using gr False by (auto simp: st' grey_def split: if_splits)
    ultimately show ?thesis using b bl by auto
  qed
next
  case (3 g m ms st)
  from "3.prems"(1) obtain st1 where "visit g m st = Inr st1" "visit_all g ms st1 = Inr st'" by (auto split: sum.splits)
  with "3.IH" "3.prems"(2) show ?case by fastforce
qed auto

lemma visit_cycle:
  "visit g n st = Inl e \<Longrightarrow> black_ok g st \<Longrightarrow> \<forall>x\<in>grey st. (x, n) \<in> (edges g)\<^sup>+ \<Longrightarrow> e = DependencyCycle \<and> \<not> acyclic (edges g)"
  "visit_all g ms st = Inl e \<Longrightarrow> black_ok g st \<Longrightarrow> \<forall>m\<in>set ms. \<forall>x\<in>grey st. (x, m) \<in> (edges g)\<^sup>+ \<Longrightarrow>
     e = DependencyCycle \<and> \<not> acyclic (edges g)"
proof (induction g n st and g ms st rule: visit_visit_all.induct)
  case (1 g n st)
  show ?case
  proof (cases "colour st n = 1 \<or> colour st n = 2")
    case True
    with 1 show ?thesis by (auto simp: grey_def acyclic_def split: if_splits)
  next
    case False
    with "1.prems"(1) have "visit_all g (successors g n) (paint n 1 st) = Inl e" by (auto split: sum.splits)
    moreover have "black (paint n 1 st) = black st" using False by (auto simp: black_def)
    then have "black_ok g (paint n 1 st)" using "1.prems"(2) by (simp add: black_ok_def)
    moreover have "(x, m) \<in> (edges g)\<^sup>+" if "m \<in> set (successors g n)" "x \<in> grey (paint n 1 st)" for m x
    proof -
      have "(n, m) \<in> edges g" using that(1) by (simp add: edges_def)
      moreover have "x = n \<or> (x, n) \<in> (edges g)\<^sup>+" using that(2) "1.prems"(3) by (auto simp: grey_def split: if_splits)
      ultimately show ?thesis by (metis trancl.simps)
    qed
    ultimately show ?thesis using "1.IH" False by blast
  qed
next
  case (3 g m ms st)
  show ?case
  proof (cases "visit g m st")
    case (Inl e')
    with 3 show ?thesis by simp
  next
    case (Inr st1)
    with visit_result(1) [OF Inr "3.prems"(2)] 3 show ?thesis by simp
  qed
qed auto

text \<open>The whole search, over the keys of the graph.\<close>

definition check_cycles :: "dep_graph \<Rightarrow> catalog_error + unit" where
  "check_cycles g = (case visit_all g (map fst g) [] of Inl e \<Rightarrow> Inl e | Inr _ \<Rightarrow> Inr ())"

lemma empty_colours [simp]: "grey [] = {}" "black [] = {}"
  by (simp_all add: grey_def black_def colour_def dict_get_def)

lemma edges_keys: "(n, m) \<in> edges g \<Longrightarrow> n \<in> fst ` set g"
  by (cases "map_of g n") (auto simp: edges_def successors_def dict_get_def dest: map_of_SomeD intro: rev_image_eqI)

lemma check_cycles_iff: "check_cycles g = Inr () \<longleftrightarrow> acyclic (edges g)"
proof (cases "visit_all g (map fst g) []")
  case (Inl e)
  then have "\<not> acyclic (edges g)" using visit_cycle(2) [OF Inl] by (simp add: black_ok_def acyclic_def)
  with Inl show ?thesis by (simp add: check_cycles_def)
next
  case (Inr st)
  then have "black_ok g st" "fst ` set g \<subseteq> black st"
    using visit_result(2) [OF Inr] by (auto simp: black_ok_def acyclic_def)
  moreover from this have "edges g \<subseteq> edges g \<inter> black st \<times> black st"
    using edges_keys by (fastforce simp: black_ok_def)
  ultimately have "acyclic (edges g)" unfolding black_ok_def by (meson acyclic_subset)
  with Inr show ?thesis by (simp add: check_cycles_def)
qed

lemma check_cycles_Inl: "check_cycles g = Inl e \<Longrightarrow> e = DependencyCycle \<and> \<not> acyclic (edges g)"
  using visit_cycle(2) [of g "map fst g" "[]" e]
  by (auto simp: check_cycles_def black_ok_def acyclic_def split: sum.splits)

section \<open>The catalogue\<close>

datatype tier = Tier1 | Tier2 | Tier3 | Tier4
datatype lifecycle = Active | Deprecated | Experimental

record service =
  sv_id :: string
  sv_workspace :: string
  sv_name :: string
  sv_slug :: string
  sv_description :: string
  sv_tier :: tier
  sv_lifecycle :: lifecycle
  sv_owner_team :: string
  sv_repository :: "string option"
  sv_dependencies :: "string list"
  sv_runbook_url :: "string option"
  sv_tags :: "string list"
  sv_created :: int
  sv_updated :: int

record catalog =
  base :: app
  services :: "service list"

definition services_unique :: "service list \<Rightarrow> bool" where
  "services_unique ss \<longleftrightarrow> distinct (map sv_id ss) \<and> distinct (map (\<lambda>s. (sv_workspace s, sv_slug s)) ss)"

text \<open>\<open>membership_for\<close> and \<open>audit\<close> on the extended tables; a commit checks the keys of both.\<close>

definition member_of :: "user \<Rightarrow> string \<Rightarrow> role \<Rightarrow> 'a catalog_scheme \<Rightarrow> app_error + membership \<times> 'a catalog_scheme" where
  "member_of usr w minimum c = rbind (membership_for usr w minimum (base c)) (\<lambda>(m, b). Inr (m, c \<lparr> base := b \<rparr>))"

definition audited ::
  "environment \<Rightarrow> nat \<Rightarrow> string \<Rightarrow> string option \<Rightarrow> string \<Rightarrow> string \<Rightarrow> string \<Rightarrow> string \<Rightarrow> (string \<times> string) list \<Rightarrow>
   'a catalog_scheme \<Rightarrow> 'a catalog_scheme" where
  "audited env n w actor action rtype rid req metadata c =
     c \<lparr> base := audit env n w actor action rtype rid req metadata (base c) \<rparr>"

definition service_conflict :: app_error where
  "service_conflict = conflict ''Service slug is already in use'' ''service_slug_exists''"

definition repository_for_workspace :: "app \<Rightarrow> string \<Rightarrow> string option \<Rightarrow> app_error + repository option" where
  "repository_for_workspace db w r = (case r of
     None \<Rightarrow> Inr None
   | Some k \<Rightarrow> (case find (\<lambda>x. r_id x = k \<and> r_workspace x = w) (repositories db) of
       None \<Rightarrow> Inl (not_found ''Repository not found'' ''repository_not_found'') | Some x \<Rightarrow> Inr (Some x)))"

definition service_not_found :: app_error where
  "service_not_found = not_found ''Service not found'' ''service_not_found''"

definition service_for_workspace :: "'a catalog_scheme \<Rightarrow> string \<Rightarrow> string \<Rightarrow> app_error + service" where
  "service_for_workspace c w k =
     (case find (\<lambda>s. sv_id s = k \<and> sv_workspace s = w) (services c) of None \<Rightarrow> Inl service_not_found | Some s \<Rightarrow> Inr s)"

definition workspace_graph :: "'a catalog_scheme \<Rightarrow> string \<Rightarrow> dep_graph" where
  "workspace_graph c w = map (\<lambda>s. (sv_id s, sv_dependencies s)) (filter (\<lambda>s. sv_workspace s = w) (services c))"

definition unprocessable :: "string \<Rightarrow> string \<Rightarrow> app_error" where
  "unprocessable detail code = DomainError detail code 422"

fun catalog_failure :: "catalog_error \<Rightarrow> app_error" where
  "catalog_failure SelfDependency = unprocessable ''A service cannot depend on itself'' ''service_self_dependency''"
| "catalog_failure UnknownDependency =
     unprocessable ''Every dependency must reference a service in this workspace'' ''invalid_service_dependency''"
| "catalog_failure DependencyCycle = unprocessable ''Service dependencies must not contain cycles'' ''service_dependency_cycle''"

definition validate_service_dependencies :: "'a catalog_scheme \<Rightarrow> string \<Rightarrow> string \<Rightarrow> string list \<Rightarrow> catalog_error + unit" where
  "validate_service_dependencies c w k deps =
     (if k \<in> set deps then Inl SelfDependency
      else let g = workspace_graph c w in
        if \<not> set deps \<subseteq> fst ` set g then Inl UnknownDependency
        else check_cycles (AList.update k deps g))"

definition checked_dependencies :: "'a catalog_scheme \<Rightarrow> string \<Rightarrow> string \<Rightarrow> string list \<Rightarrow> app_error + unit" where
  "checked_dependencies c w k deps =
     (case validate_service_dependencies c w k deps of Inl e \<Rightarrow> Inl (catalog_failure e) | Inr _ \<Rightarrow> Inr ())"

definition list_services :: "user \<Rightarrow> string \<Rightarrow> 'a catalog_scheme \<Rightarrow> app_error + service list \<times> 'a catalog_scheme" where
  "list_services usr w c = rbind (member_of usr w Viewer c) (\<lambda>(_, c0).
     Inr (sort_key (\<lambda>s. (sv_name s, sv_id s)) (filter (\<lambda>s. sv_workspace s = w) (services c0)), c0))"

text \<open>\<open>ServiceCreate\<close>, once validated: lists without duplicates, a trimmed http or https runbook.\<close>

record service_create =
  in_name :: string
  in_slug :: string
  in_description :: string
  in_tier :: tier
  in_lifecycle :: lifecycle
  in_owner_team :: string
  in_repository :: "string option"
  in_dependencies :: "string list"
  in_runbook_url :: "string option"
  in_tags :: "string list"

definition validate_runbook_url :: "string option \<Rightarrow> app_error + string option" where
  "validate_runbook_url v = (case v of
     None \<Rightarrow> Inr None
   | Some u \<Rightarrow> let t = py_strip u in
       if t = [] then Inr None
       else if py_startswith t ''https://'' \<or> py_startswith t ''http://'' then Inr (Some t) else Inl ValueError)"

text \<open>A unique violation at the commit reads as a slug conflict, whichever key it is.\<close>

definition commit_catalog :: "'a catalog_scheme \<Rightarrow> app_error + 'a catalog_scheme" where
  "commit_catalog c = (if services_unique (services c) \<and> unique_ok (base c) then Inr c else Inl service_conflict)"

definition create_service ::
  "environment \<Rightarrow> user \<Rightarrow> string \<Rightarrow> service_create \<Rightarrow> string \<Rightarrow> 'a catalog_scheme \<Rightarrow> app_error + service \<times> 'a catalog_scheme" where
  "create_service env usr w body req c =
     rbind (member_of usr w Admin c) (\<lambda>(_, c0).
     let slug = py_lower (py_strip (in_slug body)) in
     if list_ex (\<lambda>s. sv_workspace s = w \<and> sv_slug s = slug) (services c0) then Inl service_conflict
     else rbind (repository_for_workspace (base c0) w (in_repository body)) (\<lambda>_.
       let k = fresh env 0 in
       rbind (checked_dependencies c0 w k (in_dependencies body)) (\<lambda>_.
       let s = \<lparr> sv_id = k, sv_workspace = w, sv_name = py_strip (in_name body), sv_slug = slug,
                 sv_description = py_strip (in_description body), sv_tier = in_tier body, sv_lifecycle = in_lifecycle body,
                 sv_owner_team = py_strip (in_owner_team body), sv_repository = in_repository body,
                 sv_dependencies = in_dependencies body, sv_runbook_url = in_runbook_url body, sv_tags = in_tags body,
                 sv_created = now env, sv_updated = now env \<rparr>
       in rbind (commit_catalog (audited env 1 w (Some (u_id usr)) ''service.created'' ''service'' k req [(''slug'', slug)]
            (c0 \<lparr> services := services c0 @ [s] \<rparr>))) (\<lambda>c1. Inr (s, c1)))))"

definition service_by_id :: "'a catalog_scheme \<Rightarrow> string \<Rightarrow> service option" where
  "service_by_id c k = find (\<lambda>s. sv_id s = k) (services c)"

definition get_service :: "user \<Rightarrow> string \<Rightarrow> 'a catalog_scheme \<Rightarrow> app_error + service \<times> 'a catalog_scheme" where
  "get_service usr k c = (case service_by_id c k of
     None \<Rightarrow> Inl service_not_found
   | Some s \<Rightarrow> rbind (member_of usr (sv_workspace s) Viewer c) (\<lambda>(_, c0). Inr (s, c0)))"

text \<open>\<open>ServiceUpdate\<close>: the fields the client set; the outer option is whether the field is set. Only the repository and
  the runbook may be null.\<close>

record service_update =
  up_name :: "string option"
  up_slug :: "string option"
  up_description :: "string option"
  up_tier :: "tier option"
  up_lifecycle :: "lifecycle option"
  up_owner_team :: "string option"
  up_repository :: "string option option"
  up_dependencies :: "string list option"
  up_runbook_url :: "string option option"
  up_tags :: "string list option"

definition set_field :: "('b \<Rightarrow> service \<Rightarrow> service) \<Rightarrow> 'b option \<Rightarrow> service \<Rightarrow> service" where
  "set_field f v s = (case v of None \<Rightarrow> s | Some x \<Rightarrow> f x s)"

definition updated_service :: "environment \<Rightarrow> service_update \<Rightarrow> service \<Rightarrow> service" where
  "updated_service env up s =
     (set_field (\<lambda>v s. s \<lparr> sv_name := py_strip v \<rparr>) (up_name up)
     (set_field (\<lambda>v s. s \<lparr> sv_slug := py_lower (py_strip v) \<rparr>) (up_slug up)
     (set_field (\<lambda>v s. s \<lparr> sv_description := py_strip v \<rparr>) (up_description up)
     (set_field (\<lambda>v s. s \<lparr> sv_tier := v \<rparr>) (up_tier up)
     (set_field (\<lambda>v s. s \<lparr> sv_lifecycle := v \<rparr>) (up_lifecycle up)
     (set_field (\<lambda>v s. s \<lparr> sv_owner_team := py_strip v \<rparr>) (up_owner_team up)
     (set_field (\<lambda>v s. s \<lparr> sv_repository := v \<rparr>) (up_repository up)
     (set_field (\<lambda>v s. s \<lparr> sv_dependencies := v \<rparr>) (up_dependencies up)
     (set_field (\<lambda>v s. s \<lparr> sv_runbook_url := v \<rparr>) (up_runbook_url up)
     (set_field (\<lambda>v s. s \<lparr> sv_tags := v \<rparr>) (up_tags up) s))))))))))
     \<lparr> sv_updated := now env \<rparr>"

definition updated_fields :: "service_update \<Rightarrow> string list" where
  "updated_fields up = sort (map fst (filter snd
     [(''name'', up_name up \<noteq> None), (''slug'', up_slug up \<noteq> None), (''description'', up_description up \<noteq> None),
      (''tier'', up_tier up \<noteq> None), (''lifecycle'', up_lifecycle up \<noteq> None), (''owner_team'', up_owner_team up \<noteq> None),
      (''repository_id'', up_repository up \<noteq> None), (''dependencies'', up_dependencies up \<noteq> None),
      (''runbook_url'', up_runbook_url up \<noteq> None), (''tags'', up_tags up \<noteq> None)]))"

definition replace_service :: "string \<Rightarrow> service \<Rightarrow> 'a catalog_scheme \<Rightarrow> 'a catalog_scheme" where
  "replace_service k s c = c \<lparr> services := map (\<lambda>x. if sv_id x = k then s else x) (services c) \<rparr>"

definition update_service ::
  "environment \<Rightarrow> user \<Rightarrow> string \<Rightarrow> service_update \<Rightarrow> string \<Rightarrow> 'a catalog_scheme \<Rightarrow> app_error + service \<times> 'a catalog_scheme" where
  "update_service env usr k up req c =
     (case service_by_id c k of
        None \<Rightarrow> Inl service_not_found
      | Some s \<Rightarrow>
          rbind (member_of usr (sv_workspace s) Admin c) (\<lambda>(_, c0).
          if (case up_slug up of None \<Rightarrow> False | Some slug \<Rightarrow>
                list_ex (\<lambda>x. sv_workspace x = sv_workspace s \<and> sv_slug x = py_lower (py_strip slug) \<and> sv_id x \<noteq> sv_id s) (services c0))
          then Inl service_conflict
          else rbind (case up_repository up of None \<Rightarrow> Inr None | Some r \<Rightarrow> repository_for_workspace (base c0) (sv_workspace s) r) (\<lambda>_.
            rbind (case up_dependencies up of None \<Rightarrow> Inr () | Some ds \<Rightarrow> checked_dependencies c0 (sv_workspace s) (sv_id s) ds) (\<lambda>_.
            let s' = updated_service env up s
            in rbind (commit_catalog (audited env 0 (sv_workspace s) (Some (u_id usr)) ''service.updated'' ''service'' k req
                 [(''fields'', join_with '','' (updated_fields up))] (replace_service k s' c0))) (\<lambda>c1. Inr (s', c1))))))"

section \<open>The catalogue stays acyclic\<close>

definition workspace_ok :: "'a catalog_scheme \<Rightarrow> string \<Rightarrow> bool" where
  "workspace_ok c w \<longleftrightarrow> acyclic (edges (workspace_graph c w)) \<and>
     (\<forall>s\<in>set (services c). sv_workspace s = w \<longrightarrow> set (sv_dependencies s) \<subseteq> fst ` set (workspace_graph c w))"

definition catalog_inv :: "'a catalog_scheme \<Rightarrow> bool" where
  "catalog_inv c \<longleftrightarrow> services_unique (services c) \<and> (\<forall>w. workspace_ok c w)"

lemma edges_cong: "map_of g = map_of h \<Longrightarrow> edges g = edges h"
  by (simp add: edges_def successors_def dict_get_def)

lemma validate_service_dependencies_iff:
  "validate_service_dependencies c w k deps = Inr () \<longleftrightarrow>
     k \<notin> set deps \<and> set deps \<subseteq> fst ` set (workspace_graph c w) \<and> acyclic (edges (AList.update k deps (workspace_graph c w)))"
  by (auto simp: validate_service_dependencies_def Let_def check_cycles_iff)

lemma checked_dependencies_Inr: "checked_dependencies c w k deps = Inr u \<longleftrightarrow> validate_service_dependencies c w k deps = Inr ()"
  by (cases "validate_service_dependencies c w k deps") (auto simp: checked_dependencies_def)

lemma workspace_graph_cong: "services c' = services c \<Longrightarrow> workspace_graph c' w = workspace_graph c w"
  by (simp add: workspace_graph_def)

lemma validate_cong: "services c' = services c \<Longrightarrow> validate_service_dependencies c' w k deps = validate_service_dependencies c w k deps"
  by (simp add: validate_service_dependencies_def workspace_graph_def)

lemma catalog_inv_cong: "services c' = services c \<Longrightarrow> catalog_inv c' = catalog_inv c"
  by (simp add: catalog_inv_def workspace_ok_def workspace_graph_def)

lemma member_of_Inr:
  "member_of usr w minimum c = Inr (m, c') \<longleftrightarrow> (\<exists>b. membership_for usr w minimum (base c) = Inr (m, b) \<and> c' = c \<lparr> base := b \<rparr>)"
  by (auto simp: member_of_def result_simps)

text \<open>Adding or replacing one service whose dependencies passed the check.\<close>

lemma workspace_ok_put:
  assumes other: "\<And>v. v \<noteq> w \<Longrightarrow> workspace_graph c' v = workspace_graph c v"
    and own: "map_of (workspace_graph c' w) = (map_of (workspace_graph c w)) (k \<mapsto> deps)"
    and rows: "\<And>s. s \<in> set (services c') \<Longrightarrow> s \<in> set (services c) \<or> (sv_workspace s = w \<and> sv_dependencies s = deps)"
    and inv: "catalog_inv c" and ok: "validate_service_dependencies c w k deps = Inr ()"
  shows "workspace_ok c' v"
proof (cases "v = w")
  case True
  have "edges (workspace_graph c' w) = edges (AList.update k deps (workspace_graph c w))"
    by (rule edges_cong) (simp add: own update_conv')
  moreover have "fst ` set (workspace_graph c' w) = insert k (fst ` set (workspace_graph c w))"
    using arg_cong [OF own, of dom] by (simp add: dom_map_of_conv_image_fst)
  moreover have "set (sv_dependencies s) \<subseteq> insert k (fst ` set (workspace_graph c w))"
    if "s \<in> set (services c')" "sv_workspace s = w" for s
  proof (cases "s \<in> set (services c)")
    case True
    with that(2) inv show ?thesis unfolding catalog_inv_def workspace_ok_def by blast
  next
    case False
    with rows [OF that(1)] ok show ?thesis by (auto simp: validate_service_dependencies_iff)
  qed
  ultimately show ?thesis
    using True ok by (simp add: workspace_ok_def validate_service_dependencies_iff)
next
  case False
  have "workspace_ok c v" using inv by (simp add: catalog_inv_def)
  moreover have "s \<in> set (services c)" if "s \<in> set (services c')" "sv_workspace s = v" for s
    using rows [OF that(1)] that(2) False by auto
  ultimately show ?thesis by (simp add: workspace_ok_def other [OF False])
qed

lemma create_service_inv:
  assumes "create_service env usr w body req c = Inr (s, c')" and inv: "catalog_inv c"
  shows "catalog_inv c'"
proof -
  from assms(1) obtain b where ok: "validate_service_dependencies (c \<lparr> base := b \<rparr>) w (sv_id s) (sv_dependencies s) = Inr ()"
    and u: "services_unique (services c')" and c': "services c' = services c @ [s]" and w: "sv_workspace s = w"
    by (auto simp: create_service_def Let_def result_simps member_of_Inr checked_dependencies_Inr commit_catalog_def audited_def
        split: if_splits)
  have "sv_id s \<notin> sv_id ` set (services c)" using u by (auto simp: services_unique_def c')
  then have "map_of (workspace_graph c' w) = (map_of (workspace_graph c w)) (sv_id s \<mapsto> sv_dependencies s)"
    by (auto simp: workspace_graph_def c' w map_add_def fun_eq_iff split: option.splits dest!: map_of_SomeD)
  then have "workspace_ok c' v" for v
    using inv ok validate_cong [of "c \<lparr> base := b \<rparr>" c]
    by (intro workspace_ok_put [of w c' c "sv_id s" "sv_dependencies s"]) (auto simp: workspace_graph_def c' w)
  with u show ?thesis by (simp add: catalog_inv_def)
qed

lemma updated_service_fields:
  "sv_id (updated_service env up s) = sv_id s" "sv_workspace (updated_service env up s) = sv_workspace s"
  "sv_dependencies (updated_service env up s) = (case up_dependencies up of None \<Rightarrow> sv_dependencies s | Some ds \<Rightarrow> ds)"
  by (simp_all add: updated_service_def set_field_def split: option.splits)

lemma map_of_replace:
  assumes "distinct (map sv_id ss)" "s \<in> set ss" "sv_id s' = sv_id s" "sv_workspace s' = sv_workspace s"
  shows "map_of (map (\<lambda>s. (sv_id s, sv_dependencies s)) (filter (\<lambda>x. sv_workspace x = sv_workspace s)
           (map (\<lambda>x. if sv_id x = sv_id s then s' else x) ss))) =
         (map_of (map (\<lambda>s. (sv_id s, sv_dependencies s)) (filter (\<lambda>x. sv_workspace x = sv_workspace s) ss)))
           (sv_id s \<mapsto> sv_dependencies s')"
  using assms
proof (induction ss)
  case (Cons x ss)
  show ?case
  proof (cases "x = s")
    case True
    then have "map (\<lambda>x. if sv_id x = sv_id s then s' else x) ss = ss"
      using Cons.prems(1) by (intro map_idI) (auto simp: rev_image_eqI)
    with True Cons.prems show ?thesis by (simp add: fun_eq_iff)
  next
    case False
    then have "sv_id x \<noteq> sv_id s" using Cons.prems by auto
    with False Cons show ?thesis by (auto simp: fun_eq_iff fun_upd_twist)
  qed
qed simp

lemma unchanged_dependencies_ok:
  assumes inv: "catalog_inv c" and s: "s \<in> set (services c)"
  shows "validate_service_dependencies c (sv_workspace s) (sv_id s) (sv_dependencies s) = Inr ()"
proof -
  let ?g = "workspace_graph c (sv_workspace s)"
  have "distinct (map fst ?g)" "(sv_id s, sv_dependencies s) \<in> set ?g"
    using inv s by (auto simp: catalog_inv_def services_unique_def workspace_graph_def comp_def distinct_map_filter)
  then have m: "map_of ?g (sv_id s) = Some (sv_dependencies s)" by simp
  then have "map_of (AList.update (sv_id s) (sv_dependencies s) ?g) = map_of ?g"
    by (auto simp: update_conv' fun_eq_iff)
  then have e: "edges (AList.update (sv_id s) (sv_dependencies s) ?g) = edges ?g" by (rule edges_cong)
  have ok: "workspace_ok c (sv_workspace s)" using inv by (simp add: catalog_inv_def)
  then have "acyclic (edges ?g)" "set (sv_dependencies s) \<subseteq> fst ` set ?g" using s by (auto simp: workspace_ok_def)
  moreover have "sv_id s \<notin> set (sv_dependencies s)"
  proof
    assume "sv_id s \<in> set (sv_dependencies s)"
    with m have "(sv_id s, sv_id s) \<in> edges ?g" by (simp add: edges_def successors_def dict_get_def)
    with \<open>acyclic (edges ?g)\<close> show False by (auto simp: acyclic_def)
  qed
  ultimately show ?thesis by (simp add: validate_service_dependencies_iff e)
qed

lemma update_service_inv:
  assumes "update_service env usr k up req c = Inr (s', c')" and inv: "catalog_inv c"
  shows "catalog_inv c'"
proof -
  from assms(1) obtain s where s: "service_by_id c k = Some s" by (auto simp: update_service_def split: option.splits)
  then have mem: "s \<in> set (services c)" "sv_id s = k" by (auto simp: service_by_id_def dest: find_SomeD)
  from assms(1) s obtain b where c': "services c' = map (\<lambda>x. if sv_id x = k then s' else x) (services c)"
    and u: "services_unique (services c')" and s': "s' = updated_service env up s"
    and deps: "\<And>ds. up_dependencies up = Some ds \<Longrightarrow> validate_service_dependencies (c \<lparr> base := b \<rparr>) (sv_workspace s) k ds = Inr ()"
    using mem(2)
    by (auto simp: update_service_def Let_def result_simps member_of_Inr checked_dependencies_Inr commit_catalog_def audited_def
        replace_service_def split: if_splits option.splits)
  have d: "distinct (map sv_id (services c))" using inv by (simp add: catalog_inv_def services_unique_def)
  have own: "map_of (workspace_graph c' (sv_workspace s)) =
      (map_of (workspace_graph c (sv_workspace s))) (k \<mapsto> sv_dependencies s')"
    using map_of_replace [OF d mem(1), of s'] by (simp add: workspace_graph_def c' s' updated_service_fields mem(2))
  have other: "workspace_graph c' v = workspace_graph c v" if "v \<noteq> sv_workspace s" for v
  proof -
    have "filter (\<lambda>x. sv_workspace x = v) (services c') = filter (\<lambda>x. sv_workspace x = v) (services c)"
      unfolding c' using d mem that
      by (intro filter_map_same) (auto simp: s' updated_service_fields distinct_map dest: inj_onD)
    then show ?thesis by (simp add: workspace_graph_def)
  qed
  have ok: "validate_service_dependencies c (sv_workspace s) k (sv_dependencies s') = Inr ()"
  proof (cases "up_dependencies up")
    case None
    with unchanged_dependencies_ok [OF inv mem(1)] show ?thesis by (simp add: s' updated_service_fields mem(2))
  next
    case (Some ds)
    with deps [OF Some] show ?thesis using validate_cong [of "c \<lparr> base := b \<rparr>" c] by (simp add: s' updated_service_fields)
  qed
  have "workspace_ok c' v" for v
    by (rule workspace_ok_put [OF other own _ inv ok]) (auto simp: c' s' updated_service_fields split: if_splits)
  with u show ?thesis by (simp add: catalog_inv_def)
qed

section \<open>Properties\<close>

datatype catalog_event =
    ServiceCreated environment user string service_create string
  | ServiceUpdated environment user string service_update string

definition catalog_step :: "catalog \<Rightarrow> catalog_event \<Rightarrow> catalog option" where
  "catalog_step c e = (case e of
     ServiceCreated env usr w body req \<Rightarrow> (case create_service env usr w body req c of Inl _ \<Rightarrow> None | Inr (_, c') \<Rightarrow> Some c')
   | ServiceUpdated env usr k up req \<Rightarrow> (case update_service env usr k up req c of Inl _ \<Rightarrow> None | Inr (_, c') \<Rightarrow> Some c'))"

interpretation catalogue: invariant_system catalog_step catalog_inv
  by unfold_locales
    (auto simp: catalog_step_def split: catalog_event.splits sum.splits intro: create_service_inv update_service_inv)

text \<open>
  C22. The search for dependency cycles always terminates with a verdict, on any graph, and the verdict is right: it
  accepts exactly the graphs whose dependency relation is acyclic and otherwise reports a cycle. Hence a service's
  dependencies are accepted exactly when it does not depend on itself, they all name services of its workspace, and
  storing them leaves the workspace without a cycle.
\<close>
theorem dependency_check_exact:
  "(check_cycles g = Inr () \<and> acyclic (edges g) \<or> check_cycles g = Inl DependencyCycle \<and> \<not> acyclic (edges g)) \<and>
   (validate_service_dependencies c w k deps = Inr () \<longleftrightarrow>
      k \<notin> set deps \<and> set deps \<subseteq> fst ` set (workspace_graph c w) \<and>
      acyclic (edges (AList.update k deps (workspace_graph c w))))"
proof -
  have "check_cycles g = Inr () \<and> acyclic (edges g) \<or> check_cycles g = Inl DependencyCycle \<and> \<not> acyclic (edges g)"
  proof (cases "check_cycles g")
    case (Inl e)
    with check_cycles_Inl show ?thesis by blast
  next
    case (Inr u)
    with check_cycles_iff [of g] show ?thesis by simp
  qed
  then show ?thesis by (simp add: validate_service_dependencies_iff)
qed

text \<open>
  C21. However services are created and updated, in every workspace the dependencies stay acyclic, refer only to
  services of the same workspace, and identifiers and slugs stay unique.
\<close>
theorem catalog_stays_acyclic:
  assumes "services c = []"
  shows "services_unique (services (run_events catalog_step c es)) \<and>
         acyclic (edges (workspace_graph (run_events catalog_step c es) w)) \<and>
         (\<forall>s\<in>set (services (run_events catalog_step c es)).
            set (sv_dependencies s) \<subseteq> fst ` set (workspace_graph (run_events catalog_step c es) (sv_workspace s)))"
proof -
  have "catalog_inv c"
    using assms by (simp add: catalog_inv_def services_unique_def workspace_ok_def workspace_graph_def edges_def
        successors_def dict_get_def acyclic_def)
  from catalogue.run_inv [OF this] show ?thesis by (auto simp: catalog_inv_def workspace_ok_def)
qed

definition demo_catalog :: catalog where
  "demo_catalog = \<lparr> base = demo_app \<lparr> memberships := [\<lparr> m_id = ''m1'', m_workspace = ''w1'', m_user = ''u1'', m_role = Owner,
     m_joined = 0 \<rparr>] \<rparr>, services = [] \<rparr>"

definition demo_service :: "string \<Rightarrow> string list \<Rightarrow> service_create" where
  "demo_service slug deps = \<lparr> in_name = slug, in_slug = slug, in_description = [], in_tier = Tier1, in_lifecycle = Active,
     in_owner_team = ''team'', in_repository = None, in_dependencies = deps, in_runbook_url = None, in_tags = [] \<rparr>"

definition demo_services :: "catalog_event list" where
  "demo_services = [ServiceCreated (demo_env 1 ''a'') demo_user ''w1'' (demo_service ''db'' []) ''r1'',
     ServiceCreated (demo_env 2 ''b'') demo_user ''w1'' (demo_service ''api'' [''a0'']) ''r2'',
     ServiceUpdated (demo_env 3 ''c'') demo_user ''a0'' \<lparr> up_name = None, up_slug = None, up_description = None, up_tier = None,
       up_lifecycle = None, up_owner_team = None, up_repository = None, up_dependencies = Some [''b0''], up_runbook_url = None,
       up_tags = None \<rparr> ''r3'']"

theorem catalog_stays_acyclic_witness:
  "services demo_catalog = [] \<and>
   map (\<lambda>s. (sv_id s, sv_dependencies s)) (services (run_events catalog_step demo_catalog demo_services)) = [(''a0'', []), (''b0'', [''a0''])] \<and>
   acyclic (edges (workspace_graph (run_events catalog_step demo_catalog demo_services) ''w1''))"
proof -
  have "services demo_catalog = []" by (simp add: demo_catalog_def)
  moreover have "map (\<lambda>s. (sv_id s, sv_dependencies s)) (services (run_events catalog_step demo_catalog demo_services)) =
      [(''a0'', []), (''b0'', [''a0''])]" by code_simp
  ultimately show ?thesis using catalog_stays_acyclic [of demo_catalog demo_services "''w1''"] by simp
qed

end
