(* ===== verification/Operations.thy ===== *)
theory Operations
  imports ServiceCatalog Policy
begin

text \<open>
  The rest of \<open>backend/app/operations_services.py\<close>: risk policies with optimistic versioning, idempotent ingestion of
  operational events, the incident lifecycle, notes and notifications.

  The operational events of other writers that are committed between a read and a write are a function on the table.
  Times are microseconds in UTC. Audit metadata is kept as text. The arrow of the lifecycle messages is its UTF-8
  encoding, since strings here have code points below 256.
\<close>

section \<open>Tables\<close>

record risk_policy =
  p_workspace :: string
  p_enabled :: bool
  p_warn :: int
  p_block :: int
  p_tests :: bool
  p_rollback :: bool
  p_max_blast :: int
  p_version :: int
  p_created :: int
  p_updated :: int

record op_event =
  e_id :: string
  e_provider_id :: string
  e_workspace :: string
  e_repository :: "string option"
  e_service :: "string option"
  e_incident :: "string option"
  e_source :: string
  e_type :: string
  e_occurred :: int
  e_severity :: string
  e_summary :: string
  e_attributes :: pydict
  e_provenance :: pydict
  e_status :: string
  e_ingested :: int

record timeline_entry =
  te_id :: string
  te_timestamp :: int
  te_type :: string
  te_title :: string
  te_detail :: string
  te_service :: "string option"
  te_actor :: "string option"

record incident =
  n_id :: string
  n_workspace :: string
  n_repository :: string
  n_title :: string
  n_severity :: string
  n_status :: string
  n_assignee :: "string option"
  n_resolved :: "int option"
  n_timeline :: "timeline_entry list"

record notification =
  no_id :: string
  no_workspace :: string
  no_user :: string
  no_kind :: string
  no_title :: string
  no_message :: string
  no_resource_type :: string
  no_resource :: string
  no_read :: "int option"
  no_created :: int

record ops = catalog +
  policies :: "risk_policy list"
  op_events :: "op_event list"
  incidents :: "incident list"
  notifications :: "notification list"

definition ops_unique :: "ops \<Rightarrow> bool" where
  "ops_unique o' \<longleftrightarrow> unique_ok (base o') \<and> services_unique (services o') \<and> distinct (map p_workspace (policies o')) \<and>
     distinct (map e_id (op_events o')) \<and> distinct (map (\<lambda>e. (e_workspace e, e_source e, e_provider_id e)) (op_events o')) \<and>
     distinct (map n_id (incidents o')) \<and> distinct (map no_id (notifications o'))"

definition commit_ops :: "ops \<Rightarrow> app_error + ops" where
  "commit_ops o' = (if ops_unique o' then Inr o' else Inl IntegrityError)"

section \<open>Risk policies\<close>

definition default_risk_policy :: "environment \<Rightarrow> string \<Rightarrow> risk_policy" where
  "default_risk_policy env w =
     \<lparr> p_workspace = w, p_enabled = True, p_warn = 60, p_block = 80, p_tests = True, p_rollback = True, p_max_blast = 10,
       p_version = 1, p_created = now env, p_updated = now env \<rparr>"

definition policy_of :: "ops \<Rightarrow> string \<Rightarrow> risk_policy option" where
  "policy_of o' w = find (\<lambda>p. p_workspace p = w) (policies o')"

text \<open>\<open>others\<close> is what other requests commit between the read and the insert.\<close>

definition get_risk_policy ::
  "environment \<Rightarrow> (ops \<Rightarrow> ops) \<Rightarrow> user \<Rightarrow> string \<Rightarrow> ops \<Rightarrow> app_error + risk_policy \<times> ops" where
  "get_risk_policy env others usr w o' =
     rbind (member_of usr w Viewer o') (\<lambda>(_, o0).
     case policy_of o0 w of
       Some p \<Rightarrow> Inr (p, o0)
     | None \<Rightarrow>
         let p = default_risk_policy env w; o1 = others o0 in
         (case commit_ops (o1 \<lparr> policies := policies o1 @ [p] \<rparr>) of
            Inr o2 \<Rightarrow> Inr (p, o2)
          | Inl e \<Rightarrow> (case policy_of o1 w of None \<Rightarrow> Inl e | Some q \<Rightarrow> Inr (q, o1))))"

text \<open>\<open>RiskPolicyUpdate\<close>, once validated.\<close>

record policy_update =
  pu_enabled :: bool
  pu_warn :: int
  pu_block :: int
  pu_tests :: bool
  pu_rollback :: bool
  pu_max_blast :: int
  pu_version :: int

definition policy_update_ok :: "policy_update \<Rightarrow> bool" where
  "policy_update_ok u = (between 0 100 (pu_warn u) \<and> between 0 100 (pu_block u) \<and> between 1 10000 (pu_max_blast u) \<and>
     2 \<le> pu_version u \<and> pu_warn u < pu_block u)"

definition version_conflict :: "string \<Rightarrow> app_error" where
  "version_conflict detail = conflict detail ''risk_policy_version_conflict''"

definition apply_policy :: "environment \<Rightarrow> policy_update \<Rightarrow> risk_policy \<Rightarrow> risk_policy" where
  "apply_policy env u p =
     p \<lparr> p_enabled := pu_enabled u, p_warn := pu_warn u, p_block := pu_block u, p_tests := pu_tests u,
         p_rollback := pu_rollback u, p_max_blast := pu_max_blast u, p_version := pu_version u, p_updated := now env \<rparr>"

definition policy_or_default :: "environment \<Rightarrow> string \<Rightarrow> ops \<Rightarrow> risk_policy \<times> ops" where
  "policy_or_default env w o' = (case policy_of o' w of
     Some p \<Rightarrow> (p, o')
   | None \<Rightarrow> let p = default_risk_policy env w in (p, o' \<lparr> policies := policies o' @ [p] \<rparr>))"

text \<open>The conditional \<open>UPDATE\<close> counts the rows that still have the version that was read.\<close>

definition update_risk_policy ::
  "environment \<Rightarrow> (ops \<Rightarrow> ops) \<Rightarrow> user \<Rightarrow> string \<Rightarrow> policy_update \<Rightarrow> string \<Rightarrow> ops \<Rightarrow> app_error + risk_policy \<times> ops" where
  "update_risk_policy env others usr w u req o' =
     rbind (member_of usr w Admin o') (\<lambda>(_, o0).
     let (p, o1) = policy_or_default env w o0 in
     rbind (commit_ops o1) (\<lambda>_.
     if pu_version u \<noteq> p_version p + 1
     then Inl (version_conflict (''Risk policy version must be '' @ show_int (p_version p + 1)))
     else let o2 = others o1; hit = (\<lambda>q. p_workspace q = w \<and> p_version q = p_version p) in
       if length (filter hit (policies o2)) \<noteq> 1
       then Inl (version_conflict ''Risk policy was updated by another request'')
       else let o3 = audited env 0 w (Some (u_id usr)) ''risk_policy.updated'' ''risk_policy'' w req
                       [(''version'', show_int (pu_version u))]
                       (o2 \<lparr> policies := map (\<lambda>q. if hit q then apply_policy env u q else q) (policies o2) \<rparr>)
            in rbind (commit_ops o3) (\<lambda>o4.
               case policy_of o4 w of None \<Rightarrow> Inl KeyError | Some q \<Rightarrow> Inr (q, o4))))"

section \<open>Operational events\<close>

definition RESERVED_PROVIDER_SOURCE_NAMESPACES :: "string list" where
  "RESERVED_PROVIDER_SOURCE_NAMESPACES = [''github'', ''telemetry'', ''otel'', ''otlp'', ''opentelemetry'']"

definition source_is_provider_reserved :: "string \<Rightarrow> bool" where
  "source_is_provider_reserved source =
     (let s = py_lower (py_strip source) in
      list_ex (\<lambda>ns. s = ns \<or> list_ex (\<lambda>sep. py_startswith s (ns @ [sep])) ''.:/-_'') RESERVED_PROVIDER_SOURCE_NAMESPACES)"

text \<open>\<open>json.dumps\<close> with sorted keys and compact separators, for the JSON values of an event.\<close>

function json_dumps :: "(pyfloat \<Rightarrow> string) \<Rightarrow> pyval \<Rightarrow> string" where
  "json_dumps flt PNone = ''null''"
| "json_dumps flt (PBool b) = (if b then ''true'' else ''false'')"
| "json_dumps flt (PInt i) = show_int i"
| "json_dumps flt (PFloat x) = flt x"
| "json_dumps flt (PStr s) = json_string s"
| "json_dumps flt (PList vs) = ''['' @ join_with '','' (map (json_dumps flt) vs) @ '']''"
| "json_dumps flt (PDict d) =
     ''{'' @ join_with '','' (map (\<lambda>kv. json_string (as_str (fst kv)) @ '':'' @ json_dumps flt (snd kv))
       (sort_key (\<lambda>kv. as_str (fst kv)) d)) @ ''}''"
| "json_dumps flt (POther t h) = t"
  by pat_completeness auto
termination
proof (relation "measure (\<lambda>(_, v). size v)")
  fix flt :: "pyfloat \<Rightarrow> string" and d :: pydict and kv
  assume "kv \<in> set (sort_key (\<lambda>kv. as_str (fst kv)) d)"
  then have "kv \<in> set d" by simp
  then have "size (snd kv) < size (PDict d)" by (induction d) (auto simp: prod.size_neq)
  then show "((flt, snd kv), (flt, PDict d)) \<in> measure (\<lambda>(_, v). size v)" by simp
qed (auto simp: less_Suc_eq_le intro: size_list_estimation' trans_le_add1)

record material =
  ma_repository :: "string option"
  ma_service :: "string option"
  ma_incident :: "string option"
  ma_type :: string
  ma_occurred :: int
  ma_severity :: string
  ma_summary :: string
  ma_attributes :: string
  ma_provenance :: string
  ma_channel :: pyval
  ma_actor :: pyval

definition event_material ::
  "(pyfloat \<Rightarrow> string) \<Rightarrow> string option \<Rightarrow> string option \<Rightarrow> string option \<Rightarrow> string \<Rightarrow> int \<Rightarrow> string \<Rightarrow> string \<Rightarrow> pydict \<Rightarrow>
   pydict \<Rightarrow> material" where
  "event_material flt repo serv inc typ occurred severity summary attributes provenance =
     (let ingestion = as_dict (dget_or provenance ''_ingestion'' (PDict []));
          rest = filter (\<lambda>kv. fst kv \<noteq> PStr ''_ingestion'') provenance
      in \<lparr> ma_repository = repo, ma_service = serv, ma_incident = inc, ma_type = py_strip typ, ma_occurred = occurred,
           ma_severity = severity, ma_summary = py_strip summary, ma_attributes = json_dumps flt (PDict attributes),
           ma_provenance = json_dumps flt (PDict rest), ma_channel = dget_or ingestion ''channel'' PNone,
           ma_actor = dget_or ingestion ''actor_user_id'' PNone \<rparr>)"

definition stored_event_material :: "(pyfloat \<Rightarrow> string) \<Rightarrow> op_event \<Rightarrow> material" where
  "stored_event_material flt e =
     event_material flt (e_repository e) (e_service e) (e_incident e) (e_type e) (e_occurred e) (e_severity e) (e_summary e)
       (e_attributes e) (e_provenance e)"

text \<open>\<open>OperationalEventCreate\<close>, once validated.\<close>

record event_create =
  ec_provider_id :: string
  ec_repository :: "string option"
  ec_service :: "string option"
  ec_incident :: "string option"
  ec_source :: string
  ec_type :: string
  ec_occurred :: int
  ec_severity :: string
  ec_summary :: string
  ec_attributes :: pydict
  ec_provenance :: pydict

definition minutes :: "int \<Rightarrow> int" where "minutes n = n * 60000000"
definition days :: "int \<Rightarrow> int" where "days n = n * 86400000000"

definition occurred_at_ok :: "int \<Rightarrow> int \<Rightarrow> bool" where
  "occurred_at_ok now' t = (t \<le> now' + minutes 5 \<and> now' - days 366 \<le> t)"

definition effective_event_repository_id :: "string \<Rightarrow> event_create \<Rightarrow> ops \<Rightarrow> app_error + string option" where
  "effective_event_repository_id w ev o' =
     rbind (repository_for_workspace (base o') w (ec_repository ev)) (\<lambda>explicit.
     rbind (case ec_service ev of None \<Rightarrow> Inr None
            | Some k \<Rightarrow> rbind (service_for_workspace o' w k) (\<lambda>s. Inr (sv_repository s))) (\<lambda>from_service.
     rbind (case ec_incident ev of None \<Rightarrow> Inr None
            | Some k \<Rightarrow> (case find (\<lambda>n. n_id n = k \<and> n_workspace n = w) (incidents o') of
                None \<Rightarrow> Inl (not_found ''Incident not found'' ''incident_not_found'')
              | Some n \<Rightarrow> Inr (Some (n_repository n)))) (\<lambda>from_incident.
     let ids = remdups (List.map_filter id [map_option r_id explicit, from_service, from_incident]) in
     case ids of
       [] \<Rightarrow> Inr None
     | [r] \<Rightarrow> if explicit = None then rbind (repository_for_workspace (base o') w (Some r)) (\<lambda>_. Inr (Some r)) else Inr (Some r)
     | _ \<Rightarrow> Inl (unprocessable ''Repository, service, and incident scopes do not match'' ''operational_event_scope_mismatch''))))"

definition existing_event :: "ops \<Rightarrow> string \<Rightarrow> string \<Rightarrow> string \<Rightarrow> op_event option" where
  "existing_event o' w source pid =
     find (\<lambda>e. e_workspace e = w \<and> e_source e = source \<and> e_provider_id e = pid) (op_events o')"

definition idempotency_conflict :: "string \<Rightarrow> app_error" where
  "idempotency_conflict detail = conflict detail ''operational_event_idempotency_conflict''"

definition same_or_conflict ::
  "(pyfloat \<Rightarrow> string) \<Rightarrow> string \<Rightarrow> material \<Rightarrow> op_event \<Rightarrow> ops \<Rightarrow> app_error + op_event \<times> ops" where
  "same_or_conflict flt detail m e o' =
     (if stored_event_material flt e \<noteq> m then Inl (idempotency_conflict detail) else Inr (e, o'))"

definition new_event :: "environment \<Rightarrow> string \<Rightarrow> event_create \<Rightarrow> string option \<Rightarrow> pydict \<Rightarrow> op_event" where
  "new_event env w ev repo provenance =
     \<lparr> e_id = fresh env 0, e_provider_id = ec_provider_id ev, e_workspace = w, e_repository = repo,
       e_service = ec_service ev, e_incident = ec_incident ev, e_source = py_lower (py_strip (ec_source ev)),
       e_type = py_strip (ec_type ev), e_occurred = ec_occurred ev, e_severity = ec_severity ev,
       e_summary = py_strip (ec_summary ev), e_attributes = ec_attributes ev, e_provenance = provenance,
       e_status = (if ec_incident ev \<noteq> None then ''correlated'' else ''accepted''), e_ingested = now env \<rparr>"

text \<open>The insert and, when it meets the unique key, the second look at what another request stored.\<close>

definition insert_event ::
  "(pyfloat \<Rightarrow> string) \<Rightarrow> environment \<Rightarrow> string option \<Rightarrow> string \<Rightarrow> material \<Rightarrow> op_event \<Rightarrow> ops \<Rightarrow> app_error + op_event \<times> ops" where
  "insert_event flt env actor req m e o1 =
     (case commit_ops (audited env 1 (e_workspace e) actor ''operational_event.ingested'' ''operational_event'' (e_id e) req
             [(''source'', e_source e), (''event_type'', e_type e), (''ingestion_status'', e_status e)]
             (o1 \<lparr> op_events := op_events o1 @ [e] \<rparr>)) of
        Inr o2 \<Rightarrow> Inr (e, o2)
      | Inl err \<Rightarrow>
          (case existing_event o1 (e_workspace e) (e_source e) (e_provider_id e) of
             None \<Rightarrow> Inl err
           | Some x \<Rightarrow>
               same_or_conflict flt ''Provider event ID was concurrently used with different event data'' m x o1))"

definition record_normalized_operational_event ::
  "(pyfloat \<Rightarrow> string) \<Rightarrow> environment \<Rightarrow> (ops \<Rightarrow> ops) \<Rightarrow> string \<Rightarrow> event_create \<Rightarrow> string \<Rightarrow> string option \<Rightarrow> pydict \<Rightarrow> ops \<Rightarrow>
   app_error + op_event \<times> ops" where
  "record_normalized_operational_event flt env others w ev req actor provenance o' =
     rbind (effective_event_repository_id w ev o') (\<lambda>repo.
     let m = event_material flt repo (ec_service ev) (ec_incident ev) (ec_type ev) (ec_occurred ev) (ec_severity ev)
               (ec_summary ev) (ec_attributes ev) provenance in
     case existing_event o' w (py_lower (py_strip (ec_source ev))) (ec_provider_id ev) of
       Some e \<Rightarrow> same_or_conflict flt ''Provider event ID was already used with different event data'' m e o'
     | None \<Rightarrow> insert_event flt env actor req m (new_event env w ev repo provenance) (others o'))"

definition py_opt :: "string option \<Rightarrow> pyval" where
  "py_opt v = (case v of None \<Rightarrow> PNone | Some s \<Rightarrow> PStr s)"

definition ingestion_of :: "string \<Rightarrow> string option \<Rightarrow> string \<Rightarrow> pyval" where
  "ingestion_of channel actor req =
     PDict [(PStr ''channel'', PStr channel), (PStr ''actor_user_id'', py_opt actor), (PStr ''request_id'', PStr req)]"

definition record_trusted_operational_event ::
  "(pyfloat \<Rightarrow> string) \<Rightarrow> environment \<Rightarrow> (ops \<Rightarrow> ops) \<Rightarrow> string \<Rightarrow> event_create \<Rightarrow> string \<Rightarrow> ops \<Rightarrow> app_error + op_event \<times> ops" where
  "record_trusted_operational_event flt env others w ev req o' =
     record_normalized_operational_event flt env others w ev req None
       (AList.update (PStr ''_ingestion'') (ingestion_of ''trusted_internal'' None req) (ec_provenance ev)) o'"

definition ingest_operational_event ::
  "(pyfloat \<Rightarrow> string) \<Rightarrow> environment \<Rightarrow> (ops \<Rightarrow> ops) \<Rightarrow> user \<Rightarrow> string \<Rightarrow> event_create \<Rightarrow> string \<Rightarrow> ops \<Rightarrow> app_error + op_event \<times> ops" where
  "ingest_operational_event flt env others usr w ev req o' =
     rbind (member_of usr w Responder o') (\<lambda>(_, o0).
     if source_is_provider_reserved (py_lower (py_strip (ec_source ev)))
     then Inl (unprocessable ''This event source is reserved for an authenticated provider adapter''
                 ''operational_event_source_reserved'')
     else record_normalized_operational_event flt env others w ev req (Some (u_id usr))
            [(PStr ''origin'', PStr ''authenticated_member''),
             (PStr ''_ingestion'', ingestion_of ''member_api'' (Some (u_id usr)) req)] o0)"

record event_filter =
  ef_source :: "string option"
  ef_type :: "string option"
  ef_severity :: "string option"
  ef_repository :: "string option"
  ef_service :: "string option"
  ef_status :: "string option"
  ef_after :: "int option"
  ef_before :: "int option"

definition matches :: "'a option \<Rightarrow> 'a \<Rightarrow> bool" where
  "matches f v = (case f of None \<Rightarrow> True | Some x \<Rightarrow> v = x)"

definition event_matches :: "event_filter \<Rightarrow> op_event \<Rightarrow> bool" where
  "event_matches f e =
     (matches (case ef_source f of None \<Rightarrow> None | Some s \<Rightarrow> if s = [] then None else Some (py_lower (py_strip s))) (e_source e) \<and>
      matches (ef_type f) (e_type e) \<and> matches (ef_severity f) (e_severity e) \<and>
      (case ef_repository f of None \<Rightarrow> True | Some r \<Rightarrow> e_repository e = Some r) \<and>
      (case ef_service f of None \<Rightarrow> True | Some s \<Rightarrow> e_service e = Some s) \<and>
      matches (ef_status f) (e_status e) \<and>
      (case ef_after f of None \<Rightarrow> True | Some t \<Rightarrow> t \<le> e_occurred e) \<and>
      (case ef_before f of None \<Rightarrow> True | Some t \<Rightarrow> e_occurred e \<le> t))"

definition list_operational_events ::
  "user \<Rightarrow> string \<Rightarrow> event_filter \<Rightarrow> nat \<Rightarrow> ops \<Rightarrow> app_error + op_event list \<times> ops" where
  "list_operational_events usr w f limit o' =
     rbind (member_of usr w Viewer o') (\<lambda>(_, o0).
     Inr (take limit (rev (sort_key (\<lambda>e. (e_occurred e, e_id e))
            (filter (\<lambda>e. e_workspace e = w \<and> event_matches f e) (op_events o0)))), o0))"


section \<open>Incidents\<close>

definition INCIDENT_STATUS_ORDER :: "string list" where
  "INCIDENT_STATUS_ORDER = [''open'', ''acknowledged'', ''investigating'', ''mitigated'', ''resolved'']"

text \<open>The position of a status in the order, past the end for another text.\<close>

definition status_rank :: "string \<Rightarrow> nat" where
  "status_rank s = length (takeWhile (\<lambda>x. x \<noteq> s) INCIDENT_STATUS_ORDER)"

definition normalize_incident_status :: "string \<Rightarrow> app_error + string" where
  "normalize_incident_status v =
     (let s = py_lower (py_strip v) in
      if s \<in> set INCIDENT_STATUS_ORDER then Inr s
      else Inl (conflict ''Incident has an unsupported lifecycle status'' ''invalid_incident_status''))"

definition SEVERITIES :: "string list" where
  "SEVERITIES = [''sev1'', ''sev2'', ''sev3'', ''sev4'']"

definition normalize_incident_severity :: "string \<Rightarrow> app_error + string" where
  "normalize_incident_severity v =
     (let s = py_replace_char CHR ''-'' [] (py_lower (py_strip v)) in
      if s \<in> set SEVERITIES then Inr s
      else Inl (conflict ''Incident has an unsupported severity'' ''invalid_incident_severity''))"

definition stored_incident_severity :: "string \<Rightarrow> string" where
  "stored_incident_severity v = ''SEV-'' @ [last v]"

definition timeline_entry_of ::
  "environment \<Rightarrow> nat \<Rightarrow> string \<Rightarrow> string \<Rightarrow> string \<Rightarrow> string \<Rightarrow> timeline_entry" where
  "timeline_entry_of env i typ title detail actor =
     \<lparr> te_id = ''timeline-'' @ fresh env i, te_timestamp = now env, te_type = typ, te_title = title, te_detail = detail,
       te_service = None, te_actor = Some actor \<rparr>"

definition workspace_notifications ::
  "environment \<Rightarrow> nat \<Rightarrow> string \<Rightarrow> string \<Rightarrow> string \<Rightarrow> string \<Rightarrow> string \<Rightarrow> ops \<Rightarrow> notification list" where
  "workspace_notifications env i w kind title msg inc o' =
     map (\<lambda>(n, m). \<lparr> no_id = fresh env (i + n), no_workspace = w, no_user = m_user m, no_kind = kind, no_title = take 240 title,
            no_message = take 1000 msg, no_resource_type = ''incident'', no_resource = inc, no_read = None,
            no_created = now env \<rparr>)
       (enumerate 0 (filter (\<lambda>m. m_workspace m = w) (memberships (base o'))))"

definition incident_not_found :: app_error where
  "incident_not_found = not_found ''Incident not found'' ''incident_not_found''"

definition find_incident :: "ops \<Rightarrow> string \<Rightarrow> string \<Rightarrow> incident option" where
  "find_incident o' w k = find (\<lambda>n. n_id n = k \<and> n_workspace n = w) (incidents o')"

definition replace_incident :: "incident \<Rightarrow> ops \<Rightarrow> ops" where
  "replace_incident n o' = o' \<lparr> incidents := map (\<lambda>x. if n_id x = n_id n then n else x) (incidents o') \<rparr>"

record lifecycle_response =
  lr_incident :: string
  lr_workspace :: string
  lr_status :: string
  lr_severity :: string
  lr_assignee :: "string option"
  lr_resolved :: "int option"
  lr_timeline :: "timeline_entry list"

definition lifecycle_response_of :: "incident \<Rightarrow> app_error + lifecycle_response" where
  "lifecycle_response_of n =
     rbind (normalize_incident_status (n_status n)) (\<lambda>s.
     rbind (normalize_incident_severity (n_severity n)) (\<lambda>v.
     Inr \<lparr> lr_incident = n_id n, lr_workspace = n_workspace n, lr_status = s, lr_severity = v, lr_assignee = n_assignee n,
           lr_resolved = n_resolved n, lr_timeline = n_timeline n \<rparr>))"

text \<open>\<open>IncidentLifecycleUpdate\<close>: the fields that are set; an assignee may be set to null.\<close>

record lifecycle_update =
  lu_status :: "string option"
  lu_assignee :: "string option option"
  lu_severity :: "string option"

definition ARROW :: string where
  "ARROW = '' '' @ map char_of [226 :: nat, 134, 146] @ '' ''"

definition change_status :: "environment \<Rightarrow> string \<Rightarrow> string option \<Rightarrow> incident \<Rightarrow> app_error + incident \<times> string list" where
  "change_status env current st n = (case st of
     None \<Rightarrow> Inr (n, [])
   | Some s \<Rightarrow>
       if status_rank s < status_rank current
       then Inl (conflict ''Incident lifecycle cannot move backwards'' ''invalid_incident_transition'')
       else if s = current then Inr (n, [])
       else Inr (n \<lparr> n_status := s, n_resolved := (if s = ''resolved'' then Some (now env) else n_resolved n) \<rparr>,
                 [''status '' @ current @ ARROW @ s]))"

definition active_member :: "app \<Rightarrow> string \<Rightarrow> string \<Rightarrow> bool" where
  "active_member db w u =
     (find_membership db w u \<noteq> None \<and> (case user_by_id db u of None \<Rightarrow> False | Some x \<Rightarrow> u_active x))"

definition change_assignee :: "app \<Rightarrow> string \<Rightarrow> string option option \<Rightarrow> incident \<Rightarrow> app_error + incident \<times> string list" where
  "change_assignee db w a n = (case a of
     None \<Rightarrow> Inr (n, [])
   | Some v \<Rightarrow>
       if (case v of None \<Rightarrow> False | Some u \<Rightarrow> \<not> active_member db w u)
       then Inl (unprocessable ''Assignee must be a member of this workspace'' ''invalid_incident_assignee'')
       else if n_assignee n = v then Inr (n, [])
       else Inr (n \<lparr> n_assignee := v \<rparr>, [if v \<noteq> None then ''assignee updated'' else ''assignee cleared'']))"

definition change_severity :: "string option \<Rightarrow> incident \<Rightarrow> app_error + incident \<times> string list" where
  "change_severity sv n = (case sv of
     None \<Rightarrow> Inr (n, [])
   | Some v \<Rightarrow>
       rbind (normalize_incident_severity (n_severity n)) (\<lambda>current.
       if current = v then Inr (n, [])
       else Inr (n \<lparr> n_severity := stored_incident_severity v \<rparr>, [''severity '' @ current @ ARROW @ v])))"

text \<open>The response is built after the commit; when the stored severity is not supported, that fails and the commit stays.
  So the state is returned next to the result.\<close>

definition lifecycle_commit ::
  "environment \<Rightarrow> user \<Rightarrow> string \<Rightarrow> string \<Rightarrow> lifecycle_update \<Rightarrow> string \<Rightarrow> ops \<Rightarrow> app_error + incident \<times> ops" where
  "lifecycle_commit env usr w k lu req o' =
     rbind (member_of usr w Responder o') (\<lambda>(_, o0).
     case find_incident o0 w k of
       None \<Rightarrow> Inl incident_not_found
     | Some n \<Rightarrow>
         rbind (normalize_incident_status (n_status n)) (\<lambda>current.
         if current = ''resolved''
         then Inl (conflict ''Resolved incident lifecycle records are immutable'' ''incident_already_resolved'')
         else rbind (change_status env current (lu_status lu) n) (\<lambda>(n1, c1).
           rbind (change_assignee (base o0) w (lu_assignee lu) n1) (\<lambda>(n2, c2).
           rbind (change_severity (lu_severity lu) n2) (\<lambda>(n3, c3).
           let changes = c1 @ c2 @ c3 in
           if changes = [] then Inr (n3, o0)
           else let detail = join_with ''; '' changes;
                    n4 = n3 \<lparr> n_timeline := n_timeline n3 @
                           [timeline_entry_of env 0 ''incident_lifecycle'' ''Incident lifecycle updated'' detail (u_id usr)] \<rparr>;
                    o1 = replace_incident n4 o0;
                    o2 = o1 \<lparr> notifications := notifications o1 @
                           workspace_notifications env 2 w ''incident_lifecycle'' (''Incident updated: '' @ n_title n) detail k o1 \<rparr>
                in rbind (commit_ops (audited env 1 w (Some (u_id usr)) ''incident.lifecycle_updated'' ''incident'' k req
                     [(''changes'', detail)] o2)) (\<lambda>o3. Inr (n4, o3)))))))"

definition update_incident_lifecycle ::
  "environment \<Rightarrow> user \<Rightarrow> string \<Rightarrow> string \<Rightarrow> lifecycle_update \<Rightarrow> string \<Rightarrow> ops \<Rightarrow> (app_error + lifecycle_response) \<times> ops" where
  "update_incident_lifecycle env usr w k lu req o' =
     (case lifecycle_commit env usr w k lu req o' of
        Inl e \<Rightarrow> (Inl e, o')
      | Inr (n, o1) \<Rightarrow> (lifecycle_response_of n, o1))"

definition add_incident_note ::
  "environment \<Rightarrow> user \<Rightarrow> string \<Rightarrow> string \<Rightarrow> string \<Rightarrow> string \<Rightarrow> ops \<Rightarrow> app_error + timeline_entry \<times> ops" where
  "add_incident_note env usr w k note req o' =
     rbind (member_of usr w Responder o') (\<lambda>(_, o0).
     case find_incident o0 w k of
       None \<Rightarrow> Inl incident_not_found
     | Some n \<Rightarrow>
         let entry = timeline_entry_of env 0 ''incident_note'' ''Investigation note'' (py_strip note) (u_id usr);
             o1 = replace_incident (n \<lparr> n_timeline := n_timeline n @ [entry] \<rparr>) o0;
             o2 = o1 \<lparr> notifications := notifications o1 @
                    workspace_notifications env 2 w ''incident_note'' (''New note: '' @ n_title n) (py_strip note) k o1 \<rparr>
         in rbind (commit_ops (audited env 1 w (Some (u_id usr)) ''incident.note_added'' ''incident'' k req [] o2))
              (\<lambda>o3. Inr (entry, o3)))"

section \<open>Notifications\<close>

definition list_notifications ::
  "user \<Rightarrow> string option \<Rightarrow> bool \<Rightarrow> nat \<Rightarrow> ops \<Rightarrow> app_error + notification list \<times> ops" where
  "list_notifications usr w unread limit o' =
     rbind (case w of None \<Rightarrow> Inr o' | Some v \<Rightarrow> rbind (member_of usr v Viewer o') (\<lambda>(_, o0). Inr o0)) (\<lambda>o0.
     Inr (take limit (rev (sort_key (\<lambda>x. (no_created x, no_id x))
            (filter (\<lambda>x. no_user x = u_id usr \<and> matches w (no_workspace x) \<and> (unread \<longrightarrow> no_read x = None)) (notifications o0)))), o0))"

definition mark_notification_read :: "environment \<Rightarrow> user \<Rightarrow> string \<Rightarrow> ops \<Rightarrow> app_error + notification \<times> ops" where
  "mark_notification_read env usr k o' =
     (case find (\<lambda>x. no_id x = k \<and> no_user x = u_id usr) (notifications o') of
        None \<Rightarrow> Inl (not_found ''Notification not found'' ''notification_not_found'')
      | Some x \<Rightarrow>
          if no_read x \<noteq> None then Inr (x, o')
          else let x' = x \<lparr> no_read := Some (now env) \<rparr>
               in rbind (commit_ops (o' \<lparr> notifications := map (\<lambda>y. if no_id y = k then x' else y) (notifications o') \<rparr>))
                    (\<lambda>o1. Inr (x', o1)))"


section \<open>The lifecycle as a state machine\<close>

datatype phase = Open | Acknowledged | Investigating | Mitigated | Resolved

fun phase_text :: "phase \<Rightarrow> string" where
  "phase_text Open = ''open''"
| "phase_text Acknowledged = ''acknowledged''"
| "phase_text Investigating = ''investigating''"
| "phase_text Mitigated = ''mitigated''"
| "phase_text Resolved = ''resolved''"

definition phases :: "phase list" where
  "phases = [Open, Acknowledged, Investigating, Mitigated, Resolved]"

definition phase_of :: "string \<Rightarrow> phase option" where
  "phase_of v = find (\<lambda>p. phase_text p = py_lower (py_strip v)) phases"

fun phase_rank :: "phase \<Rightarrow> nat" where
  "phase_rank Open = 0" | "phase_rank Acknowledged = 1" | "phase_rank Investigating = 2" | "phase_rank Mitigated = 3"
| "phase_rank Resolved = 4"

text \<open>The abstract machine: incidents by identifier, each in a phase with its time of resolution. An incident that is not
  resolved may move to the same or a later phase; reaching the last one fixes the time.\<close>

type_synonym incident_spec = "string \<Rightarrow> (phase \<times> int option) option"

inductive spec_step :: "incident_spec \<Rightarrow> incident_spec \<Rightarrow> bool" where
  stay: "spec_step s s"
| advance: "s k = Some (p, r) \<Longrightarrow> p \<noteq> Resolved \<Longrightarrow> phase_rank p \<le> phase_rank q \<Longrightarrow> q \<noteq> Resolved \<Longrightarrow> spec_step s (s(k \<mapsto> (q, r)))"
| resolve: "s k = Some (p, r) \<Longrightarrow> p \<noteq> Resolved \<Longrightarrow> spec_step s (s(k \<mapsto> (Resolved, Some t)))"

definition spec_of :: "ops \<Rightarrow> incident_spec" where
  "spec_of o' k = (case find (\<lambda>n. n_id n = k) (incidents o') of
     None \<Rightarrow> None | Some n \<Rightarrow> map_option (\<lambda>p. (p, n_resolved n)) (phase_of (n_status n)))"

text \<open>A request body has one of the five statuses.\<close>

definition lifecycle_update_ok :: "lifecycle_update \<Rightarrow> bool" where
  "lifecycle_update_ok lu =
     ((case lu_status lu of None \<Rightarrow> True | Some s \<Rightarrow> s \<in> set INCIDENT_STATUS_ORDER) \<and>
      (case lu_severity lu of None \<Rightarrow> True | Some v \<Rightarrow> v \<in> set SEVERITIES))"

datatype ops_event =
    CatalogEvent catalog_event
  | PolicyRead environment user string
  | PolicyUpdate environment user string policy_update string
  | TrustedEvent environment string event_create string
  | MemberEvent environment user string event_create string
  | LifecycleUpdate environment user string string lifecycle_update string
  | NoteAdded environment user string string string string
  | NotificationRead environment user string

definition keep_or :: "'s \<Rightarrow> 'e + 'x \<times> 's \<Rightarrow> 's" where
  "keep_or s r = (case r of Inl _ \<Rightarrow> s | Inr (_, s') \<Rightarrow> s')"

definition ops_step :: "(pyfloat \<Rightarrow> string) \<Rightarrow> ops \<Rightarrow> ops_event \<Rightarrow> ops option" where
  "ops_step flt o' e = Some (case e of
     CatalogEvent (ServiceCreated env usr w body req) \<Rightarrow> keep_or o' (create_service env usr w body req o')
   | CatalogEvent (ServiceUpdated env usr k up req) \<Rightarrow> keep_or o' (update_service env usr k up req o')
   | PolicyRead env usr w \<Rightarrow> keep_or o' (get_risk_policy env id usr w o')
   | PolicyUpdate env usr w u req \<Rightarrow> keep_or o' (update_risk_policy env id usr w u req o')
   | TrustedEvent env w ev req \<Rightarrow> keep_or o' (record_trusted_operational_event flt env id w ev req o')
   | MemberEvent env usr w ev req \<Rightarrow> keep_or o' (ingest_operational_event flt env id usr w ev req o')
   | LifecycleUpdate env usr w k lu req \<Rightarrow>
       if lifecycle_update_ok lu then snd (update_incident_lifecycle env usr w k lu req o') else o'
   | NoteAdded env usr w k note req \<Rightarrow> keep_or o' (add_incident_note env usr w k note req o')
   | NotificationRead env usr k \<Rightarrow> keep_or o' (mark_notification_read env usr k o'))"

section \<open>Incidents through the operations\<close>

lemma member_of_ops:
  "member_of usr w minimum o' = Inr (m, o'') \<Longrightarrow>
     incidents o'' = incidents o' \<and> op_events o'' = op_events o' \<and> policies o'' = policies o' \<and> notifications o'' = notifications o' \<and>
     services o'' = services o'"
  by (auto simp: member_of_Inr)

lemma audited_ops [simp]:
  "incidents (audited env n w a b c d e f o') = incidents o'" "op_events (audited env n w a b c d e f o') = op_events o'"
  "policies (audited env n w a b c d e f o') = policies o'" "notifications (audited env n w a b c d e f o') = notifications o'"
  "services (audited env n w a b c d e f o') = services o'"
  by (simp_all add: audited_def)

lemma commit_ops_Inr [tenancy_simps]: "commit_ops o' = Inr o'' \<longleftrightarrow> ops_unique o' \<and> o'' = o'"
  by (auto simp: commit_ops_def)

lemma create_service_incidents:
  fixes o' :: ops
  shows "create_service env usr w body req o' = Inr (s, o'') \<Longrightarrow> incidents o'' = incidents o'"
  by (auto simp: create_service_def Let_def result_simps commit_catalog_def split: if_splits dest!: member_of_ops)

lemma update_service_incidents:
  fixes o' :: ops
  shows "update_service env usr k up req o' = Inr (s, o'') \<Longrightarrow> incidents o'' = incidents o'"
  by (auto simp: update_service_def Let_def result_simps commit_catalog_def replace_service_def split: if_splits option.splits
      dest!: member_of_ops)

lemma get_risk_policy_incidents: "get_risk_policy env id usr w o' = Inr (p, o'') \<Longrightarrow> incidents o'' = incidents o'"
  by (auto simp: get_risk_policy_def Let_def result_simps tenancy_simps split: option.splits sum.splits dest!: member_of_ops)

lemma policy_or_default_incidents: "policy_or_default env w o' = (p, o'') \<Longrightarrow> incidents o'' = incidents o'"
  by (auto simp: policy_or_default_def Let_def split: option.splits)

lemma update_risk_policy_cases:
  assumes "update_risk_policy env others usr w u req o' = Inr (p, o'')"
  obtains m o0 q o1 where "member_of usr w Admin o' = Inr (m, o0)" "policy_or_default env w o0 = (q, o1)" "ops_unique o1"
    "pu_version u = p_version q + 1"
    "length (filter (\<lambda>x. p_workspace x = w \<and> p_version x = p_version q) (policies (others o1))) = 1"
    "o'' = audited env 0 w (Some (u_id usr)) ''risk_policy.updated'' ''risk_policy'' w req [(''version'', show_int (pu_version u))]
      ((others o1) \<lparr> policies := map (\<lambda>x. if p_workspace x = w \<and> p_version x = p_version q then apply_policy env u x else x)
        (policies (others o1)) \<rparr>)"
    "ops_unique o''" "policy_of o'' w = Some p"
proof -
  from assms obtain m o0 where m: "member_of usr w Admin o' = Inr (m, o0)"
    by (auto simp: update_risk_policy_def result_simps)
  obtain q o1 where q: "policy_or_default env w o0 = (q, o1)" by fastforce
  from assms m q show ?thesis
    by (intro that [of m o0 q o1])
      (auto simp: update_risk_policy_def Let_def result_simps tenancy_simps split: if_splits option.splits)
qed

lemma update_risk_policy_incidents: "update_risk_policy env id usr w u req o' = Inr (p, o'') \<Longrightarrow> incidents o'' = incidents o'"
  by (erule update_risk_policy_cases) (auto dest!: member_of_ops policy_or_default_incidents)

lemma existing_event_SomeD: "existing_event o' w src pid = Some e \<Longrightarrow> e_source e = src \<and> e_workspace e = w"
  by (auto simp: existing_event_def dest: find_SomeD)

lemma same_or_conflict_Inr: "same_or_conflict flt d m x o' = Inr (e, o'') \<longleftrightarrow> stored_event_material flt x = m \<and> e = x \<and> o'' = o'"
  by (auto simp: same_or_conflict_def)

lemma insert_event_Inr:
  "insert_event flt env actor req m e0 o' = Inr (e, o'') \<Longrightarrow>
     e_source e = e_source e0 \<and> e_workspace e = e_workspace e0 \<and> incidents o'' = incidents o'"
  by (auto simp: insert_event_def same_or_conflict_Inr tenancy_simps split: sum.splits option.splits
      dest!: existing_event_SomeD)

lemma recorded_event:
  assumes "record_normalized_operational_event flt env others w ev req actor pr o' = Inr (e, o'')"
  shows "e_source e = py_lower (py_strip (ec_source ev)) \<and> e_workspace e = w \<and>
    (incidents o'' = incidents o' \<or> incidents o'' = incidents (others o'))"
proof (cases "existing_event o' w (py_lower (py_strip (ec_source ev))) (ec_provider_id ev)")
  case None
  with assms show ?thesis
    by (auto simp: record_normalized_operational_event_def Let_def result_simps new_event_def dest!: insert_event_Inr)
next
  case (Some x)
  with assms existing_event_SomeD [OF Some] show ?thesis
    by (auto simp: record_normalized_operational_event_def Let_def result_simps same_or_conflict_Inr)
qed

lemma record_event_incidents:
  "record_normalized_operational_event flt env id w ev req a pr o' = Inr (e, o'') \<Longrightarrow> incidents o'' = incidents o'"
  by (drule recorded_event) simp

lemma ingest_event_incidents: "ingest_operational_event flt env id usr w ev req o' = Inr (e, o'') \<Longrightarrow> incidents o'' = incidents o'"
  by (auto simp: ingest_operational_event_def result_simps split: if_splits dest!: member_of_ops record_event_incidents)

lemma mark_read_incidents: "mark_notification_read env usr k o' = Inr (x, o'') \<Longrightarrow> incidents o'' = incidents o'"
  by (auto simp: mark_notification_read_def Let_def result_simps tenancy_simps split: option.splits if_splits)

lemma spec_of_cong: "incidents o'' = incidents o' \<Longrightarrow> spec_of o'' = spec_of o'"
  by (simp add: spec_of_def fun_eq_iff)

lemma find_incident_SomeD: "find_incident o' w k = Some n \<Longrightarrow> n \<in> set (incidents o') \<and> n_id n = k \<and> n_workspace n = w"
  by (auto simp: find_incident_def dest: find_SomeD)

lemma find_replaced:
  "find (\<lambda>n. n_id n = k) (map (\<lambda>x. if n_id x = n_id n then n else x) ns) =
     (if k = n_id n then (if n_id n \<in> n_id ` set ns then Some n else None) else find (\<lambda>n. n_id n = k) ns)"
  by (induction ns) auto

lemma spec_of_replace:
  assumes "incidents o'' = map (\<lambda>x. if n_id x = n_id n then n else x) (incidents o')" "n_id n \<in> n_id ` set (incidents o')"
  shows "spec_of o'' = (spec_of o') (n_id n := map_option (\<lambda>p. (p, n_resolved n)) (phase_of (n_status n)))"
  using assms by (auto simp: spec_of_def find_replaced fun_eq_iff)

text \<open>Normalised statuses are the texts of the phases, in order.\<close>

lemma status_texts_fixed:
  "py_lower (py_strip ''open'') = ''open''" "py_lower (py_strip ''acknowledged'') = ''acknowledged''"
  "py_lower (py_strip ''investigating'') = ''investigating''" "py_lower (py_strip ''mitigated'') = ''mitigated''"
  "py_lower (py_strip ''resolved'') = ''resolved''"
  by code_simp+

lemma phase_of_text: "py_lower (py_strip v) = phase_text p \<Longrightarrow> phase_of v = Some p"
  by (cases p) (simp_all add: phase_of_def phases_def)

lemma normalize_status_phase:
  assumes "normalize_incident_status v = Inr s"
  obtains p where "phase_of v = Some p" "s = phase_text p" "phase_of s = Some p" "status_rank s = phase_rank p"
proof -
  from assms have s: "s = py_lower (py_strip v)" "s \<in> set INCIDENT_STATUS_ORDER"
    by (auto simp: normalize_incident_status_def Let_def split: if_splits)
  have fixed: "py_lower (py_strip (phase_text p)) = phase_text p" for p
    using status_texts_fixed by (cases p) simp_all
  from s(2) obtain p where p: "s = phase_text p" by (auto simp: INCIDENT_STATUS_ORDER_def intro: that [of Open] that [of Acknowledged]
        that [of Investigating] that [of Mitigated] that [of Resolved])
  have "phase_of v = Some p" using s(1) p by (intro phase_of_text) simp
  moreover have "phase_of s = Some p" using p fixed [of p] by (intro phase_of_text) simp
  moreover have "status_rank s = phase_rank p" using p by (cases p) (simp_all add: status_rank_def INCIDENT_STATUS_ORDER_def)
  ultimately show ?thesis using that p by blast
qed

lemma valid_status_phase:
  assumes "s \<in> set INCIDENT_STATUS_ORDER"
  obtains p where "s = phase_text p" "phase_of s = Some p" "status_rank s = phase_rank p"
proof -
  have "py_lower (py_strip s) = s" using assms status_texts_fixed by (auto simp: INCIDENT_STATUS_ORDER_def)
  then have "normalize_incident_status s = Inr s" using assms by (simp add: normalize_incident_status_def)
  then show ?thesis by (rule normalize_status_phase) (rule that)
qed

lemma change_assignee_fields:
  "change_assignee db w a n = Inr (n', c) \<Longrightarrow> n_id n' = n_id n \<and> n_status n' = n_status n \<and> n_resolved n' = n_resolved n \<and>
     n_timeline n' = n_timeline n \<and> n_severity n' = n_severity n \<and> (c = [] \<longrightarrow> n' = n)"
  by (auto simp: change_assignee_def split: option.splits if_splits)

lemma change_severity_fields:
  "change_severity v n = Inr (n', c) \<Longrightarrow> n_id n' = n_id n \<and> n_status n' = n_status n \<and> n_resolved n' = n_resolved n \<and>
     n_timeline n' = n_timeline n \<and> (c = [] \<longrightarrow> n' = n)"
  by (auto simp: change_severity_def result_simps split: option.splits if_splits)

text \<open>The change of status is a step of the abstract machine.\<close>

lemma change_status_step:
  assumes "change_status env current st n = Inr (n', c)" and "normalize_incident_status (n_status n) = Inr current"
    and "current \<noteq> ''resolved''" and "\<And>s. st = Some s \<Longrightarrow> s \<in> set INCIDENT_STATUS_ORDER"
  obtains p q where "phase_of (n_status n) = Some p" "phase_of (n_status n') = Some q" "p \<noteq> Resolved"
    "phase_rank p \<le> phase_rank q" "n_resolved n' = (if q = Resolved then Some (now env) else n_resolved n)"
    "n_id n' = n_id n" "n_timeline n' = n_timeline n" "c = [] \<Longrightarrow> n' = n"
proof -
  obtain p where p: "phase_of (n_status n) = Some p" "current = phase_text p" "status_rank current = phase_rank p"
    using assms(2) by (rule normalize_status_phase)
  with assms(3) have "p \<noteq> Resolved" by auto
  show ?thesis
  proof (cases "st = None \<or> st = Some current")
    case True
    with assms(1) have "n' = n" by (auto simp: change_status_def split: if_splits)
    with p \<open>p \<noteq> Resolved\<close> that [of p p] show ?thesis by simp
  next
    case False
    then obtain s where s: "st = Some s" "s \<noteq> current" by auto
    then obtain q where q: "s = phase_text q" "phase_of s = Some q" "status_rank s = phase_rank q"
      using assms(4) valid_status_phase by metis
    have "(s = ''resolved'') = (q = Resolved)" using q(1) by (cases q) simp_all
    with assms(1) s q p \<open>p \<noteq> Resolved\<close> show ?thesis
      by (intro that [of p q]) (auto simp: change_status_def split: if_splits)
  qed
qed

lemma lifecycle_commit_cases:
  assumes "lifecycle_commit env usr w k lu req o' = Inr (n4, o3)" and ok: "lifecycle_update_ok lu"
  obtains (same) "incidents o3 = incidents o'"
  | (moved) n p q entry where "n \<in> set (incidents o')" "n_id n = k" "n_workspace n = w" "n_id n4 = k"
      "incidents o3 = map (\<lambda>x. if n_id x = k then n4 else x) (incidents o')"
      "phase_of (n_status n) = Some p" "phase_of (n_status n4) = Some q" "p \<noteq> Resolved" "phase_rank p \<le> phase_rank q"
      "n_resolved n4 = (if q = Resolved then Some (now env) else n_resolved n)" "n_timeline n4 = n_timeline n @ [entry]"
proof -
  from assms(1) obtain m o0 n current n1 c1 n2 c2 n3 c3 where o0: "member_of usr w Responder o' = Inr (m, o0)"
    and n: "find_incident o0 w k = Some n" and cur: "normalize_incident_status (n_status n) = Inr current" "current \<noteq> ''resolved''"
    and n1: "change_status env current (lu_status lu) n = Inr (n1, c1)"
    and n2: "change_assignee (base o0) w (lu_assignee lu) n1 = Inr (n2, c2)"
    and n3: "change_severity (lu_severity lu) n2 = Inr (n3, c3)"
    by (auto simp: lifecycle_commit_def result_simps split: option.splits if_splits)
  note o0' = member_of_ops [OF o0]
  show ?thesis
  proof (cases "c1 @ c2 @ c3 = []")
    case True
    with assms(1) o0 n cur n1 n2 n3 o0' show ?thesis
      by (intro same) (auto simp: lifecycle_commit_def Let_def)
  next
    case False
    let ?entry = "timeline_entry_of env 0 ''incident_lifecycle'' ''Incident lifecycle updated'' (join_with ''; '' (c1 @ c2 @ c3)) (u_id usr)"
    from False assms(1) o0 n cur n1 n2 n3
    have n4: "n4 = n3 \<lparr> n_timeline := n_timeline n3 @ [?entry] \<rparr>" and inc: "incidents o3 = map (\<lambda>x. if n_id x = n_id n4 then n4 else x) (incidents o0)"
      by (auto simp: lifecycle_commit_def Let_def result_simps tenancy_simps replace_incident_def)
    have st: "\<And>s. lu_status lu = Some s \<Longrightarrow> s \<in> set INCIDENT_STATUS_ORDER" using ok by (auto simp: lifecycle_update_ok_def)
    obtain p q where pq: "phase_of (n_status n) = Some p" "phase_of (n_status n1) = Some q" "p \<noteq> Resolved"
      "phase_rank p \<le> phase_rank q" "n_resolved n1 = (if q = Resolved then Some (now env) else n_resolved n)"
      "n_id n1 = n_id n" "n_timeline n1 = n_timeline n"
      using change_status_step [OF n1 cur st] by metis
    with change_assignee_fields [OF n2] change_severity_fields [OF n3] find_incident_SomeD [OF n] inc o0' show ?thesis
      by (intro moved [of n p q ?entry]) (auto simp: n4)
  qed
qed

lemma update_lifecycle_refines:
  assumes "lifecycle_update_ok lu" and d: "distinct (map n_id (incidents o'))"
    and o'': "o'' = snd (update_incident_lifecycle env usr w k lu req o')"
  shows "spec_step (spec_of o') (spec_of o'') \<and> map n_id (incidents o'') = map n_id (incidents o')"
proof (cases "lifecycle_commit env usr w k lu req o'")
  case (Inl e)
  then show ?thesis by (simp add: o'' update_incident_lifecycle_def stay)
next
  case (Inr r)
  then obtain n4 where c: "lifecycle_commit env usr w k lu req o' = Inr (n4, o'')"
    using o'' by (cases r) (simp add: update_incident_lifecycle_def)
  show ?thesis
    using c assms(1)
  proof (cases rule: lifecycle_commit_cases)
    case same
    then show ?thesis by (simp add: spec_of_cong [OF same] stay)
  next
    case (moved n p q entry)
    have "find (\<lambda>x. n_id x = k) (incidents o') = Some n"
      using find_unique [OF d moved(1)] moved(2) by simp
    then have k: "spec_of o' k = Some (p, n_resolved n)" using moved by (simp add: spec_of_def)
    have "spec_of o'' = (spec_of o') (k \<mapsto> (q, n_resolved n4))"
      using spec_of_replace [of o'' n4 o'] moved by (auto simp: rev_image_eqI)
    moreover have "map n_id (incidents o'') = map n_id (incidents o')" using moved by simp
    ultimately show ?thesis
      using advance [of "spec_of o'" k p "n_resolved n" q] resolve [of "spec_of o'" k p "n_resolved n" "now env"] k moved
      by auto
  qed
qed

lemma note_refines:
  assumes "add_incident_note env usr w k note req o' = Inr (t, o'')" and d: "distinct (map n_id (incidents o'))"
  shows "spec_of o'' = spec_of o' \<and> map n_id (incidents o'') = map n_id (incidents o')"
proof -
  from assms(1) obtain m o0 n where o0: "member_of usr w Responder o' = Inr (m, o0)" and n: "find_incident o0 w k = Some n"
    by (auto simp: add_incident_note_def result_simps split: option.splits)
  let ?n = "n \<lparr> n_timeline := n_timeline n @ [timeline_entry_of env 0 ''incident_note'' ''Investigation note'' (py_strip note) (u_id usr)] \<rparr>"
  from assms(1) o0 n member_of_ops [OF o0]
  have inc: "incidents o'' = map (\<lambda>x. if n_id x = n_id ?n then ?n else x) (incidents o')"
    by (auto simp: add_incident_note_def Let_def result_simps tenancy_simps replace_incident_def)
  have mem: "n \<in> set (incidents o')" using find_incident_SomeD [OF n] member_of_ops [OF o0] by simp
  have "spec_of o' (n_id n) = map_option (\<lambda>p. (p, n_resolved n)) (phase_of (n_status n))"
    using find_unique [OF d mem] by (simp add: spec_of_def)
  moreover have "n_id ?n \<in> n_id ` set (incidents o')" using mem by simp
  ultimately show ?thesis using spec_of_replace [OF inc] by (auto simp: inc fun_eq_iff)
qed

lemma keep_or_refines:
  assumes "distinct (map n_id (incidents o'))"
    and "\<And>x o1. r = Inr (x, o1) \<Longrightarrow> spec_of o1 = spec_of o' \<and> map n_id (incidents o1) = map n_id (incidents o')"
  shows "spec_step (spec_of o') (spec_of (keep_or o' r)) \<and> distinct (map n_id (incidents (keep_or o' r)))"
proof (cases r)
  case (Inr y)
  then obtain x o1 where r: "r = Inr (x, o1)" by (cases y) simp
  from assms(2) [OF this] assms(1) show ?thesis by (simp add: r keep_or_def stay)
qed (simp add: keep_or_def assms(1) stay)

lemma keep_or_incidents:
  assumes "distinct (map n_id (incidents o'))" and "\<And>x o1. r = Inr (x, o1) \<Longrightarrow> incidents o1 = incidents o'"
  shows "spec_step (spec_of o') (spec_of (keep_or o' r)) \<and> distinct (map n_id (incidents (keep_or o' r)))"
  using assms(1) by (rule keep_or_refines) (metis assms(2) spec_of_cong)

lemma ops_step_refines:
  assumes "ops_step flt o' e = Some o''" and d: "distinct (map n_id (incidents o'))"
  shows "spec_step (spec_of o') (spec_of o'') \<and> distinct (map n_id (incidents o''))"
proof (cases e)
  case (LifecycleUpdate env usr w k lu req)
  then show ?thesis
    using assms update_lifecycle_refines [of lu o' o'' env usr w k req] by (auto simp: ops_step_def stay split: if_splits)
next
  case (NoteAdded env usr w k n req)
  then have o'': "o'' = keep_or o' (add_incident_note env usr w k n req o')" using assms(1) by (simp add: ops_step_def)
  show ?thesis unfolding o'' using d by (rule keep_or_refines) (erule note_refines, rule d)
next
  case (CatalogEvent c)
  then show ?thesis
    using assms(1) by (cases c) (auto simp: ops_step_def intro!: keep_or_incidents [OF d]
        intro: create_service_incidents update_service_incidents)
qed (use assms(1) in \<open>auto simp: ops_step_def record_trusted_operational_event_def intro!: keep_or_incidents [OF d]
      intro: get_risk_policy_incidents update_risk_policy_incidents record_event_incidents ingest_event_incidents mark_read_incidents\<close>)

interpretation operations: monotone_system "ops_step flt" "\<lambda>o'. distinct (map n_id (incidents o'))"
  "\<lambda>o' o''. spec_step\<^sup>*\<^sup>* (spec_of o') (spec_of o'')" for flt
  by unfold_locales (auto dest: ops_step_refines)

text \<open>The abstract machine never touches a resolved incident.\<close>

lemma spec_resolved: "spec_step\<^sup>*\<^sup>* s s' \<Longrightarrow> s k = Some (Resolved, r) \<Longrightarrow> s' k = Some (Resolved, r)"
  by (induction rule: rtranclp_induct) (auto elim!: spec_step.cases)

lemma spec_forward:
  "spec_step\<^sup>*\<^sup>* s s' \<Longrightarrow> s k = Some (p, r) \<Longrightarrow> \<exists>q t. s' k = Some (q, t) \<and> phase_rank p \<le> phase_rank q"
proof (induction rule: rtranclp_induct)
  case (step t u)
  then obtain q v where q: "t k = Some (q, v)" "phase_rank p \<le> phase_rank q" by blast
  have "phase_rank x \<le> 4" for x by (cases x) simp_all
  with step.hyps(2) q show ?case by (cases rule: spec_step.cases) (auto intro: order_trans split: if_splits)
qed auto

section \<open>Optimistic versions and idempotent events\<close>

text \<open>A policy update that succeeds was made against the version that is still stored when it is written, whatever other
  requests committed meanwhile, and moves it by exactly one; the stored thresholds stay ordered.\<close>

lemma apply_policy_fields [simp]:
  "p_workspace (apply_policy env u p) = p_workspace p" "p_version (apply_policy env u p) = pu_version u"
  "p_warn (apply_policy env u p) = pu_warn u" "p_block (apply_policy env u p) = pu_block u"
  by (simp_all add: apply_policy_def)

lemma update_risk_policy_versions:
  assumes "update_risk_policy env others usr w u req o' = Inr (p, o'')" and "policy_update_ok u"
  obtains o1 q where "q \<in> set (policies (others o1))" "p_workspace q = w" "pu_version u = p_version q + 1"
    "p = apply_policy env u q" "p_warn p < p_block p" "p_version p = p_version q + 1" "policy_of o'' w = Some p"
  using assms(1)
proof (rule update_risk_policy_cases)
  fix m o0 r o1
  let ?hit = "\<lambda>x. p_workspace x = w \<and> p_version x = p_version r"
  assume v: "pu_version u = p_version r + 1" and one: "length (filter ?hit (policies (others o1))) = 1"
    and o'': "o'' = audited env 0 w (Some (u_id usr)) ''risk_policy.updated'' ''risk_policy'' w req [(''version'', show_int (pu_version u))]
      ((others o1) \<lparr> policies := map (\<lambda>x. if ?hit x then apply_policy env u x else x) (policies (others o1)) \<rparr>)"
    and uniq: "ops_unique o''" and p: "policy_of o'' w = Some p"
  from one obtain q where "filter ?hit (policies (others o1)) = [q]" by (auto simp: length_Suc_conv)
  then have q: "q \<in> set (policies (others o1))" "?hit q" by (auto simp: filter_eq_Cons_iff)
  then have mem: "apply_policy env u q \<in> set (policies o'')" by (force simp: o'')
  have "distinct (map p_workspace (policies o''))" using uniq by (simp add: ops_unique_def)
  from find_unique [OF this mem] q(2) p have "p = apply_policy env u q" by (simp add: policy_of_def)
  with q v assms(2) p show thesis by (intro that [of q o1]) (auto simp: policy_update_ok_def)
qed

text \<open>Sending an event again, under another request identifier, returns the stored event and changes nothing.\<close>

definition ingested :: "op_event \<Rightarrow> pydict \<Rightarrow> string \<Rightarrow> event_create \<Rightarrow> string option \<Rightarrow> bool" where
  "ingested e provenance w ev repo \<longleftrightarrow>
     e_provider_id e = ec_provider_id ev \<and> e_workspace e = w \<and> e_repository e = repo \<and> e_service e = ec_service ev \<and>
     e_incident e = ec_incident ev \<and> e_source e = py_lower (py_strip (ec_source ev)) \<and> e_type e = py_strip (ec_type ev) \<and>
     e_occurred e = ec_occurred ev \<and> e_severity e = ec_severity ev \<and> e_summary e = py_strip (ec_summary ev) \<and>
     e_attributes e = ec_attributes ev \<and> e_provenance e = provenance"

lemma replayed_event_unchanged:
  assumes "effective_event_repository_id w ev o' = Inr repo" and "e \<in> set (op_events o')" and u: "ops_unique o'"
    and e: "ingested e provenance w ev repo"
    and prov: "event_material flt repo s i t oc sv su attrs provenance' = event_material flt repo s i t oc sv su attrs provenance"
  shows "record_normalized_operational_event flt env others w ev req actor provenance' o' = Inr (e, o')"
proof -
  have d: "distinct (map (\<lambda>e. (e_workspace e, e_source e, e_provider_id e)) (op_events o'))" using u by (simp add: ops_unique_def)
  have ex: "existing_event o' w (py_lower (py_strip (ec_source ev))) (ec_provider_id ev) = Some e"
    using find_unique [OF d assms(2)] e by (simp add: existing_event_def ingested_def)
  have "stored_event_material flt e = event_material flt repo (ec_service ev) (ec_incident ev) (ec_type ev) (ec_occurred ev)
      (ec_severity ev) (ec_summary ev) (ec_attributes ev) provenance'"
    using e prov by (auto simp: stored_event_material_def ingested_def event_material_def Let_def)
  then show ?thesis
    using assms(1) ex by (simp add: record_normalized_operational_event_def Let_def same_or_conflict_def)
qed

text \<open>The request identifier is not part of what is compared.\<close>

lemma ingestion_request_id:
  "event_material flt r s i t oc sv su attrs (prov @ [(PStr ''_ingestion'', ingestion_of ch a req)]) =
   event_material flt r s i t oc sv su attrs (prov @ [(PStr ''_ingestion'', ingestion_of ch a req')])"
  if "PStr ''_ingestion'' \<notin> fst ` set prov"
proof -
  have "map_of prov (PStr ''_ingestion'') = None" using that by (simp add: map_of_eq_None_iff)
  then show ?thesis
    by (simp add: event_material_def Let_def dget_or_def dget_def ingestion_of_def map_add_def)
qed

text \<open>Members cannot write under a provider's name.\<close>

lemma member_event_source:
  assumes "ingest_operational_event flt env others usr w ev req o' = Inr (e, o'')"
  shows "\<not> source_is_provider_reserved (e_source e)"
proof -
  from assms obtain o0 actor pr where "\<not> source_is_provider_reserved (py_lower (py_strip (ec_source ev)))"
    and "record_normalized_operational_event flt env others w ev req actor pr o0 = Inr (e, o'')"
    by (auto simp: ingest_operational_event_def result_simps split: if_splits)
  with recorded_event show ?thesis by metis
qed

section \<open>Properties\<close>

text \<open>
  C23. The operations refine the incident state machine: any run of catalogue changes, policy reads and updates, event
  ingestion, lifecycle updates, notes and notification reads moves the incidents only along the machine's steps, so an
  incident's phase never goes back, a resolved incident keeps its phase and its time of resolution, and no
  incident is lost.
\<close>
theorem incident_lifecycle_refines:
  assumes "distinct (map n_id (incidents o'))"
  shows "spec_step\<^sup>*\<^sup>* (spec_of o') (spec_of (run_events (ops_step flt) o' es)) \<and>
         (spec_of o' k = Some (Resolved, r) \<longrightarrow> spec_of (run_events (ops_step flt) o' es) k = Some (Resolved, r)) \<and>
         (spec_of o' k = Some (p, t) \<longrightarrow>
            (\<exists>q t'. spec_of (run_events (ops_step flt) o' es) k = Some (q, t') \<and> phase_rank p \<le> phase_rank q))"
  using operations.run_rel [OF assms, of flt es] spec_resolved spec_forward by blast

definition demo_ops :: ops where
  "demo_ops = \<lparr> base = base demo_catalog, services = [], policies = [], op_events = [],
     incidents = [\<lparr> n_id = ''i1'', n_workspace = ''w1'', n_repository = ''r1'', n_title = ''Outage'', n_severity = ''SEV-2'',
       n_status = ''Open'', n_assignee = None, n_resolved = None, n_timeline = [] \<rparr>], notifications = [] \<rparr>"

definition demo_lifecycle :: "ops_event list" where
  "demo_lifecycle = [LifecycleUpdate (demo_env 7 ''a'') demo_user ''w1'' ''i1'' \<lparr> lu_status = Some ''resolved'', lu_assignee = None, lu_severity = None \<rparr> ''r1'',
     LifecycleUpdate (demo_env 9 ''b'') demo_user ''w1'' ''i1'' \<lparr> lu_status = Some ''open'', lu_assignee = None, lu_severity = None \<rparr> ''r2'']"

theorem incident_lifecycle_refines_witness:
  "distinct (map n_id (incidents demo_ops)) \<and> spec_of demo_ops ''i1'' = Some (Open, None) \<and>
   spec_step\<^sup>*\<^sup>* (spec_of demo_ops) (spec_of (run_events (ops_step (\<lambda>_. [])) demo_ops demo_lifecycle)) \<and>
   spec_of (run_events (ops_step (\<lambda>_. [])) demo_ops demo_lifecycle) ''i1'' = Some (Resolved, Some 7)"
proof -
  have d: "distinct (map n_id (incidents demo_ops))" by (simp add: demo_ops_def)
  moreover have "spec_of demo_ops ''i1'' = Some (Open, None)" by code_simp
  moreover have "spec_of (run_events (ops_step (\<lambda>_. [])) demo_ops demo_lifecycle) ''i1'' = Some (Resolved, Some 7)" by code_simp
  ultimately show ?thesis using incident_lifecycle_refines [OF d, of "\<lambda>_. []" demo_lifecycle] by blast
qed

end
