(* ===== verification/JobQueue.thy ===== *)
theory JobQueue
  imports PyValue
begin

text \<open>
  \<open>backend/app/job_queue.py\<close> and \<open>job_models.py\<close>: the durable background-job queue.

  The table \<open>background_jobs\<close> is a list of rows in insertion order; an operation takes the committed
  table and returns the next one, or the exception it raises, in which case nothing is committed. Times
  are microseconds. Identifiers come from \<open>uuid4\<close> and are arguments. The foreign key to workspaces is left
  to the database.

  No operation locks a row, so every read can be overtaken. \<open>enqueue_job\<close> and \<open>claim_next_job\<close> take the
  effect of the others between their read and their write as a function on the table; their writes are
  checked by the database (a unique key, a compare-and-set). The operations that settle a job are not:
  \<open>complete_job\<close>, \<open>fail_job\<close>, \<open>replay_dead_letter_job\<close> and \<open>requeue_expired_jobs\<close> take two tables, the one in
  which the session loaded the row and the one it writes to, decide on the former and write the changed
  columns to the latter. In a worker the row is the one of the claim.

  The queue runs over the history of its tables, each operation on rows of any earlier one. It is an
  instance of \<open>invariant_system\<close> and \<open>monotone_system\<close> (what holds and is kept whatever is overtaken); the
  stronger row invariant, the finality of a success and the attempt limit hold for a job none of whose
  settlements is overtaken, and the limit is exceeded by at most one delivery for each that is.
\<close>

section \<open>Rows and errors\<close>

datatype job_status = Queued | Running | Succeeded | Failed | DeadLetter

record job =
  j_id :: string
  job_type :: string
  workspace_id :: "string option"
  payload :: pydict
  idempotency_key :: "string option"
  status :: job_status
  attempts :: int
  max_attempts :: int
  available_at :: int
  locked_at :: "int option"
  locked_by :: "string option"
  last_error :: "string option"
  result :: "pydict option"
  request_id :: "string option"
  created_at :: int
  updated_at :: int
  completed_at :: "int option"

type_synonym jobs = "job list"

datatype queue_error =
    BadJobType | BadIdempotencyKey | BadMaxAttempts | SecretInPayload string | NotJson string
  | IntegrityError | BadWorkerId | NegativeBackoff | BackoffOrder | JobNotFound string | JobStateError string

definition MAX_ERROR_LENGTH :: nat where "MAX_ERROR_LENGTH = 4000"
definition DEFAULT_BACKOFF_SECONDS :: int where "DEFAULT_BACKOFF_SECONDS = 30"
definition DEFAULT_MAX_BACKOFF_SECONDS :: int where "DEFAULT_MAX_BACKOFF_SECONDS = 3600"

section \<open>Payload validation\<close>

definition sensitive_words :: "string list" where
  "sensitive_words = [''token'', ''secret'', ''password'', ''passwd'', ''private_key'', ''api_key'',
     ''authorization'', ''credential'']"

text \<open>\<open>re.sub(r"(?<!^)([A-Z])", r"_\1", key)\<close>: an underscore before every capital but a leading one.\<close>

definition is_capital :: "char \<Rightarrow> bool" where
  "is_capital c = (65 \<le> nat_of_char c \<and> nat_of_char c \<le> 90)"

fun split_capitals :: "string \<Rightarrow> string" where
  "split_capitals [] = []"
| "split_capitals (c # cs) = (if is_capital c then [CHR ''_'', c] else [c]) @ split_capitals cs"

definition snake_key :: "string \<Rightarrow> string" where
  "snake_key s = (case s of [] \<Rightarrow> [] | c # cs \<Rightarrow> c # split_capitals cs)"

text \<open>The search of \<open>_SENSITIVE_PAYLOAD_KEY\<close>: a word between boundaries, where \<open>$\<close> also matches before a
  final newline.\<close>

definition word_end :: "string \<Rightarrow> bool" where
  "word_end rest = (rest = [] \<or> hd rest = CHR ''_'' \<or> rest = [char_of (10 :: nat)])"

fun sensitive_from :: "bool \<Rightarrow> string \<Rightarrow> bool" where
  "sensitive_from boundary [] = False"
| "sensitive_from boundary (c # cs) =
     ((boundary \<and> list_ex (\<lambda>w. py_startswith (c # cs) w \<and> word_end (drop (length w) (c # cs))) sensitive_words)
      \<or> sensitive_from (c = CHR ''_'') cs)"

definition sensitive_key :: "string \<Rightarrow> bool" where
  "sensitive_key k = sensitive_from True (py_lower (snake_key k))"

text \<open>\<open>str(key)\<close>; a key of another type than the usual ones is named by the parameter.\<close>

fun key_text :: "(pyval \<Rightarrow> string) \<Rightarrow> pyval \<Rightarrow> string" where
  "key_text other (PStr s) = s"
| "key_text other (PInt n) = show_int n"
| "key_text other (PBool b) = (if b then ''True'' else ''False'')"
| "key_text other PNone = ''None''"
| "key_text other k = other k"

text \<open>What \<open>json.dumps\<close> accepts.\<close>

fun json_key :: "pyval \<Rightarrow> bool" where
  "json_key (PList _) = False"
| "json_key (PDict _) = False"
| "json_key (POther _ _) = False"
| "json_key _ = True"

fun json_ok :: "pyval \<Rightarrow> bool" where
  "json_ok (POther _ _) = False"
| "json_ok (PList xs) = list_all json_ok xs"
| "json_ok (PDict d) = list_all (\<lambda>(k, v). json_key k \<and> json_ok v) d"
| "json_ok _ = True"

fun validate_payload :: "(pyval \<Rightarrow> string) \<Rightarrow> string \<Rightarrow> pyval \<Rightarrow> queue_error + unit"
  and validate_entries :: "(pyval \<Rightarrow> string) \<Rightarrow> string \<Rightarrow> pydict \<Rightarrow> queue_error + unit"
  and validate_elements :: "(pyval \<Rightarrow> string) \<Rightarrow> string \<Rightarrow> nat \<Rightarrow> pyval list \<Rightarrow> queue_error + unit" where
  "validate_payload other path (PDict d) =
     rbind (validate_entries other path d) (\<lambda>_. rguard (json_ok (PDict d)) (NotJson path))"
| "validate_payload other path (PList xs) =
     rbind (validate_elements other path 0 xs) (\<lambda>_. rguard (json_ok (PList xs)) (NotJson path))"
| "validate_payload other path v = rguard (json_ok v) (NotJson path)"
| "validate_entries other path [] = Inr ()"
| "validate_entries other path ((k, v) # d) =
     (let name = path @ ''.'' @ key_text other k in
      if sensitive_key (key_text other k) then Inl (SecretInPayload name)
      else rbind (validate_payload other name v) (\<lambda>_. validate_entries other path d))"
| "validate_elements other path index [] = Inr ()"
| "validate_elements other path index (v # vs) =
     rbind (validate_payload other (path @ ''['' @ show_nat index @ '']'') v)
       (\<lambda>_. validate_elements other path (index + 1) vs)"

section \<open>Operations\<close>

text \<open>The commit of a session that loaded the row \<open>old\<close> and made it \<open>new\<close>; the operations below assign only these columns.\<close>

definition flush_job :: "job \<Rightarrow> job \<Rightarrow> job \<Rightarrow> job" where
  "flush_job old new j =
     j \<lparr> status := dirty (status old) (status new) (status j),
         attempts := dirty (attempts old) (attempts new) (attempts j),
         available_at := dirty (available_at old) (available_at new) (available_at j),
         locked_at := dirty (locked_at old) (locked_at new) (locked_at j),
         locked_by := dirty (locked_by old) (locked_by new) (locked_by j),
         last_error := dirty (last_error old) (last_error new) (last_error j),
         result := dirty (result old) (result new) (result j),
         updated_at := dirty (updated_at old) (updated_at new) (updated_at j),
         completed_at := dirty (completed_at old) (completed_at new) (completed_at j) \<rparr>"

definition find_job :: "jobs \<Rightarrow> string \<Rightarrow> job option" where
  "find_job db i = find (\<lambda>j. j_id j = i) db"

definition job_or_raise :: "jobs \<Rightarrow> string \<Rightarrow> queue_error + job" where
  "job_or_raise db i = (case find_job db i of None \<Rightarrow> Inl (JobNotFound i) | Some j \<Rightarrow> Inr j)"

definition update_job :: "string \<Rightarrow> (job \<Rightarrow> job) \<Rightarrow> jobs \<Rightarrow> jobs" where
  "update_job i f db = map (\<lambda>j. if j_id j = i then f j else j) db"

definition write_job :: "job \<Rightarrow> job \<Rightarrow> jobs \<Rightarrow> jobs" where
  "write_job old new db = update_job (j_id old) (flush_job old new) db"

record job_request =
  rq_type :: string
  rq_payload :: pydict
  rq_key :: "string option"
  rq_workspace :: "string option"
  rq_request_id :: "string option"
  rq_available_at :: "int option"
  rq_max_attempts :: int

definition by_key :: "jobs \<Rightarrow> string \<Rightarrow> job option" where
  "by_key db k = find (\<lambda>j. idempotency_key j = Some k) db"

definition existing_job :: "jobs \<Rightarrow> string option \<Rightarrow> job option" where
  "existing_job db k = (case k of None \<Rightarrow> None | Some key \<Rightarrow> by_key db key)"

text \<open>The primary key and the unique idempotency key.\<close>

definition insertable :: "jobs \<Rightarrow> job \<Rightarrow> bool" where
  "insertable db j = (find_job db (j_id j) = None \<and> existing_job db (idempotency_key j) = None)"

definition new_job :: "string \<Rightarrow> int \<Rightarrow> job_request \<Rightarrow> job" where
  "new_job uuid now rq =
     \<lparr> j_id = uuid, job_type = py_strip (rq_type rq), workspace_id = rq_workspace rq, payload = rq_payload rq,
       idempotency_key = map_option py_strip (rq_key rq), status = Queued, attempts = 0,
       max_attempts = rq_max_attempts rq,
       available_at = (case rq_available_at rq of None \<Rightarrow> now | Some t \<Rightarrow> t),
       locked_at = None, locked_by = None, last_error = None, result = None, request_id = rq_request_id rq,
       created_at = now, updated_at = now, completed_at = None \<rparr>"

definition check_request :: "(pyval \<Rightarrow> string) \<Rightarrow> job_request \<Rightarrow> queue_error + unit" where
  "check_request other rq =
     (let t = py_strip (rq_type rq) in
      if t = [] \<or> length t > 120 then Inl BadJobType
      else if (case rq_key rq of None \<Rightarrow> False | Some k \<Rightarrow> py_strip k = [] \<or> length (py_strip k) > 160)
      then Inl BadIdempotencyKey
      else if \<not> (1 \<le> rq_max_attempts rq \<and> rq_max_attempts rq \<le> 100) then Inl BadMaxAttempts
      else validate_payload other ''payload'' (PDict (rq_payload rq)))"

text \<open>\<open>enqueue_job\<close>; \<open>others\<close> is what concurrent producers commit between the lookup and the insert. With
  \<open>commit=False\<close> the flush raises instead of falling back to the winner's row.\<close>

definition enqueue_job ::
  "(pyval \<Rightarrow> string) \<Rightarrow> (jobs \<Rightarrow> jobs) \<Rightarrow> string \<Rightarrow> int \<Rightarrow> job_request \<Rightarrow> bool \<Rightarrow> jobs \<Rightarrow> queue_error + job \<times> jobs" where
  "enqueue_job other others uuid now rq commit db =
     rbind (check_request other rq) (\<lambda>_.
     let key = map_option py_strip (rq_key rq) in
     case existing_job db key of
       Some j \<Rightarrow> Inr (j, db)
     | None \<Rightarrow>
         let j = new_job uuid now rq; db' = others db in
         if insertable db' j then Inr (j, db' @ [j])
         else if \<not> commit then Inl IntegrityError
         else (case existing_job db' key of Some k \<Rightarrow> Inr (k, db') | None \<Rightarrow> Inl IntegrityError))"

definition lease_expired :: "int \<Rightarrow> job \<Rightarrow> bool" where
  "lease_expired cutoff j =
     (status j = Running \<and> (case locked_at j of None \<Rightarrow> False | Some t \<Rightarrow> t < cutoff))"

definition expire_lease :: "int \<Rightarrow> job \<Rightarrow> job" where
  "expire_lease now j =
     (let j' = j \<lparr> locked_at := None, locked_by := None, updated_at := now,
                   last_error := Some ''worker lease expired'' \<rparr> in
      if attempts j \<ge> max_attempts j then j' \<lparr> status := DeadLetter, completed_at := Some now \<rparr>
      else j' \<lparr> status := Queued, available_at := now \<rparr>)"

text \<open>The rows are selected in \<open>seen\<close> and written to \<open>db\<close>.\<close>

definition requeue_expired_jobs :: "int \<Rightarrow> int \<Rightarrow> jobs \<Rightarrow> jobs \<Rightarrow> nat \<times> jobs" where
  "requeue_expired_jobs lease_timeout now seen db =
     (let expired = filter (lease_expired (now - lease_timeout)) seen in
      (length expired,
       map (\<lambda>j. case find_job expired (j_id j) of None \<Rightarrow> j | Some x \<Rightarrow> flush_job x (expire_lease now x) j) db))"

definition ready :: "int \<Rightarrow> job \<Rightarrow> bool" where
  "ready now j = (status j = Queued \<and> available_at j \<le> now)"

definition claim_candidates :: "int \<Rightarrow> jobs \<Rightarrow> jobs" where
  "claim_candidates now db = take 20 (sort_key (\<lambda>j. (available_at j, created_at j)) (filter (ready now) db))"

definition claimed :: "string \<Rightarrow> int \<Rightarrow> job \<Rightarrow> job" where
  "claimed worker now j =
     j \<lparr> status := Running, attempts := attempts j + 1, locked_at := Some now, locked_by := Some worker,
         updated_at := now \<rparr>"

text \<open>The compare-and-set update: it counts a row only if the job is still ready in the current table.\<close>

fun claim_from :: "string \<Rightarrow> int \<Rightarrow> string list \<Rightarrow> jobs \<Rightarrow> (string \<times> jobs) option" where
  "claim_from worker now [] db = None"
| "claim_from worker now (i # is) db =
     (if list_ex (\<lambda>j. j_id j = i \<and> ready now j) db
      then Some (i, map (\<lambda>j. if j_id j = i \<and> ready now j then claimed worker now j else j) db)
      else claim_from worker now is db)"

definition claim_next_job ::
  "(jobs \<Rightarrow> jobs) \<Rightarrow> string \<Rightarrow> int \<Rightarrow> jobs \<Rightarrow> queue_error + job option \<times> jobs" where
  "claim_next_job others worker_id now db =
     (let worker = py_strip worker_id in
      if worker = [] \<or> length worker > 160 then Inl BadWorkerId
      else case claim_from worker now (map j_id (claim_candidates now db)) (others db) of
        None \<Rightarrow> Inr (None, others db)
      | Some (i, db') \<Rightarrow> Inr (find_job db' i, db'))"

definition completed_job :: "pydict option \<Rightarrow> int \<Rightarrow> job \<Rightarrow> job" where
  "completed_job res now j = j \<lparr> status := Succeeded, result := res, locked_at := None, locked_by := None,
     updated_at := now, completed_at := Some now \<rparr>"

text \<open>\<open>seen\<close> is the table in which the session loaded the row: \<open>session.get\<close> returns the loaded one, and its
  status is what is checked.\<close>

definition complete_job ::
  "(pyval \<Rightarrow> string) \<Rightarrow> string \<Rightarrow> pydict option \<Rightarrow> int \<Rightarrow> jobs \<Rightarrow> jobs \<Rightarrow> queue_error + job \<times> jobs" where
  "complete_job other i res now seen db =
     rbind (job_or_raise seen i) (\<lambda>j.
     if status j \<noteq> Running then Inl (JobStateError i)
     else rbind (case res of None \<Rightarrow> Inr () | Some d \<Rightarrow> validate_payload other ''result'' (PDict d)) (\<lambda>_.
     let j' = completed_job res now j in Inr (j', write_job j j' db)))"

definition or_default :: "string \<Rightarrow> string \<Rightarrow> string" where
  "or_default s d = (if s \<noteq> [] then s else d)"

definition backoff_delay :: "int \<Rightarrow> int \<Rightarrow> int \<Rightarrow> int" where
  "backoff_delay backoff max_backoff tries = min (backoff * 2 ^ nat (max (tries - 1) 0)) max_backoff"

definition seconds :: "int \<Rightarrow> int" where "seconds n = n * 1000000"

definition failed_job :: "string \<Rightarrow> bool \<Rightarrow> int \<Rightarrow> int \<Rightarrow> int \<Rightarrow> job \<Rightarrow> job" where
  "failed_job error retryable now backoff max_backoff j =
     (let j' = j \<lparr> last_error := Some (or_default (take MAX_ERROR_LENGTH (py_strip error)) ''job failed''),
                   locked_at := None, locked_by := None, updated_at := now \<rparr> in
      if retryable \<and> attempts j < max_attempts j
      then j' \<lparr> status := Queued, available_at := now + seconds (backoff_delay backoff max_backoff (attempts j)) \<rparr>
      else if retryable then j' \<lparr> status := DeadLetter, completed_at := Some now \<rparr>
      else j' \<lparr> status := Failed, completed_at := Some now \<rparr>)"

definition fail_job ::
  "string \<Rightarrow> string \<Rightarrow> bool \<Rightarrow> int \<Rightarrow> int \<Rightarrow> int \<Rightarrow> jobs \<Rightarrow> jobs \<Rightarrow> queue_error + job \<times> jobs" where
  "fail_job i error retryable now backoff max_backoff seen db =
     (if backoff < 0 \<or> max_backoff < 0 then Inl NegativeBackoff
      else if max_backoff < backoff then Inl BackoffOrder
      else rbind (job_or_raise seen i) (\<lambda>j.
        if status j \<noteq> Running then Inl (JobStateError i)
        else let j' = failed_job error retryable now backoff max_backoff j
             in Inr (j', write_job j j' db)))"

definition replayed_job :: "int option \<Rightarrow> int \<Rightarrow> job \<Rightarrow> job" where
  "replayed_job available now j =
     j \<lparr> status := Queued, attempts := 0, available_at := (case available of None \<Rightarrow> now | Some t \<Rightarrow> t),
         locked_at := None, locked_by := None, last_error := None, result := None, updated_at := now,
         completed_at := None \<rparr>"

definition replay_dead_letter_job :: "string \<Rightarrow> int option \<Rightarrow> int \<Rightarrow> jobs \<Rightarrow> jobs \<Rightarrow> queue_error + job \<times> jobs" where
  "replay_dead_letter_job i available now seen db =
     rbind (job_or_raise seen i) (\<lambda>j.
     if status j \<notin> {Failed, DeadLetter} then Inl (JobStateError i)
     else let j' = replayed_job available now j in Inr (j', write_job j j' db))"

section \<open>Handlers\<close>

record job_context =
  ctx_job_id :: string
  ctx_job_type :: string
  ctx_workspace_id :: "string option"
  ctx_request_id :: "string option"
  ctx_attempt :: int

datatype handler_outcome = Returned "pydict option" | RaisedPermanent string | Raised string

text \<open>A handler starts from the rest of the state it works on and the table of the claim. It returns its outcome, that
  rest, the table in which the session now has the job's row (the one of the claim, or a later one when the handler
  rolled the session back, after which rows are loaded again), and the table that the settlement is committed to,
  with what the handler and all others committed while it ran.\<close>

type_synonym 's handler = "pydict \<Rightarrow> job_context \<Rightarrow> 's \<Rightarrow> jobs \<Rightarrow> handler_outcome \<times> 's \<times> jobs \<times> jobs"

definition context_of :: "job \<Rightarrow> job_context" where
  "context_of j = \<lparr> ctx_job_id = j_id j, ctx_job_type = job_type j, ctx_workspace_id = workspace_id j,
     ctx_request_id = request_id j, ctx_attempt = attempts j \<rparr>"

definition run_one_job ::
  "(pyval \<Rightarrow> string) \<Rightarrow> (jobs \<Rightarrow> jobs) \<Rightarrow> string \<Rightarrow> (string \<Rightarrow> 's handler option) \<Rightarrow> int \<Rightarrow> 's \<Rightarrow> jobs \<Rightarrow>
   queue_error + job option \<times> 's \<times> jobs" where
  "run_one_job other others worker_id handlers now s db =
     rbind (claim_next_job others worker_id now db) (\<lambda>(claim, db1).
     let some = (\<lambda>t r. rbind r (\<lambda>(j, d). Inr (Some j, t, d)));
         fail = (\<lambda>t i error retryable seen d.
           some t (fail_job i error retryable now DEFAULT_BACKOFF_SECONDS DEFAULT_MAX_BACKOFF_SECONDS seen d)) in
     case claim of
       None \<Rightarrow> Inr (None, s, db1)
     | Some j \<Rightarrow>
         (case handlers (job_type j) of
            None \<Rightarrow> fail s (j_id j) (''no handler registered for job type '' @ job_type j) False db1 db1
          | Some h \<Rightarrow>
              (case h (payload j) (context_of j) s db1 of
                 (RaisedPermanent e, t, seen, db2) \<Rightarrow> fail t (j_id j) e False seen db2
               | (Raised e, t, seen, db2) \<Rightarrow> fail t (j_id j) e True seen db2
               | (Returned out, t, seen, db2) \<Rightarrow> some t (complete_job other (j_id j) out now seen db2))))"

section \<open>Validated payloads\<close>

text \<open>The keys at every depth of a value.\<close>

fun all_keys :: "pyval \<Rightarrow> pyval list" where
  "all_keys (PDict d) = concat (map (\<lambda>(k, v). k # all_keys v) d)"
| "all_keys (PList xs) = concat (map all_keys xs)"
| "all_keys _ = []"

lemma validate_payload_keys:
  "validate_payload other path v = Inr u \<Longrightarrow> json_ok v \<and> (\<forall>k\<in>set (all_keys v). \<not> sensitive_key (key_text other k))"
  "validate_entries other path d = Inr u \<Longrightarrow> (\<forall>k\<in>set (all_keys (PDict d)). \<not> sensitive_key (key_text other k))"
  "validate_elements other path n xs = Inr u \<Longrightarrow> (\<forall>k\<in>set (all_keys (PList xs)). \<not> sensitive_key (key_text other k))"
proof (induction other path v and other path d and other path n xs arbitrary: u and u and u
    rule: validate_payload_validate_entries_validate_elements.induct)
  case (1 other path d)
  then show ?case by (auto simp: result_simps simp del: json_ok.simps all_keys.simps)
next
  case (2 other path xs)
  then show ?case by (auto simp: result_simps simp del: json_ok.simps all_keys.simps)
next
  case (5 other path k v d)
  have "\<not> sensitive_key (key_text other k)"
    and v: "validate_payload other (path @ ''.'' @ key_text other k) v = Inr ()"
    and d: "validate_entries other path d = Inr u"
    using "5.prems" by (auto simp: result_simps Let_def split: if_splits)
  with "5.IH"(1) [OF refl _ v] "5.IH"(2) [OF refl _ d] show ?case by auto
next
  case (7 other path index v vs)
  have v: "validate_payload other (path @ ''['' @ show_nat index @ '']'') v = Inr ()"
    and d: "validate_elements other path (index + 1) vs = Inr u"
    using "7.prems" by (auto simp: result_simps)
  with "7.IH"(1) [OF v] "7.IH"(2) [OF d] show ?case by auto
qed (simp_all add: result_simps)

section \<open>What holds of a row\<close>

text \<open>\<open>job_safe\<close> holds whatever is overtaken, \<open>job_ok\<close> of a job whose settlements are not.\<close>

definition result_ok :: "(pyval \<Rightarrow> string) \<Rightarrow> pydict option \<Rightarrow> bool" where
  "result_ok other res = (case res of None \<Rightarrow> True | Some d \<Rightarrow> is_ok (validate_payload other ''result'' (PDict d)))"

definition job_safe :: "(pyval \<Rightarrow> string) \<Rightarrow> job \<Rightarrow> bool" where
  "job_safe other j \<longleftrightarrow>
     1 \<le> max_attempts j \<and> max_attempts j \<le> 100 \<and> 0 \<le> attempts j \<and>
     (status j = Running \<longrightarrow> 1 \<le> attempts j \<and> locked_at j \<noteq> None \<and> locked_by j \<noteq> None) \<and>
     is_ok (validate_payload other ''payload'' (PDict (payload j))) \<and> result_ok other (result j)"

definition job_ok :: "(pyval \<Rightarrow> string) \<Rightarrow> job \<Rightarrow> bool" where
  "job_ok other j \<longleftrightarrow>
     1 \<le> max_attempts j \<and> max_attempts j \<le> 100 \<and> 0 \<le> attempts j \<and> attempts j \<le> max_attempts j \<and>
     (status j = Queued \<longrightarrow> attempts j < max_attempts j) \<and>
     (status j = Running \<longrightarrow> 1 \<le> attempts j) \<and>
     (status j = DeadLetter \<longrightarrow> attempts j = max_attempts j) \<and>
     (status j = Running \<longleftrightarrow> locked_at j \<noteq> None) \<and> (status j = Running \<longleftrightarrow> locked_by j \<noteq> None) \<and>
     (status j \<in> {Succeeded, Failed, DeadLetter} \<longleftrightarrow> completed_at j \<noteq> None) \<and>
     (status j \<in> {Failed, DeadLetter} \<longrightarrow> last_error j \<noteq> None) \<and>
     (result j \<noteq> None \<longrightarrow> status j = Succeeded) \<and>
     is_ok (validate_payload other ''payload'' (PDict (payload j))) \<and> result_ok other (result j)"

text \<open>What the producer asked for.\<close>

definition intent :: "job \<Rightarrow> string \<times> string \<times> string option \<times> pydict \<times> string option \<times> int \<times> string option \<times> int" where
  "intent j = (j_id j, job_type j, workspace_id j, payload j, idempotency_key j, max_attempts j, request_id j, created_at j)"

text \<open>The settlements of a job: what a session makes of the row it has loaded.\<close>

inductive job_change :: "(pyval \<Rightarrow> string) \<Rightarrow> job \<Rightarrow> job \<Rightarrow> bool" for other where
  Expired: "status x = Running \<Longrightarrow> job_change other x (expire_lease now x)"
| Completed: "status x = Running \<Longrightarrow> result_ok other res \<Longrightarrow> job_change other x (completed_job res now x)"
| FailedRun: "status x = Running \<Longrightarrow> job_change other x (failed_job error retryable now b mb x)"
| Replayed: "status x \<in> {Failed, DeadLetter} \<Longrightarrow> job_change other x (replayed_job av now x)"

lemmas change_defs = expire_lease_def completed_job_def failed_job_def replayed_job_def Let_def

text \<open>What one commit makes of the row with a given id. The copy \<open>x\<close> is the row itself unless the settlement is late.\<close>

inductive row_step :: "(pyval \<Rightarrow> string) \<Rightarrow> bool \<Rightarrow> job option \<Rightarrow> job option \<Rightarrow> bool" for other late where
  Kept: "row_step other late r r"
| Inserted: "check_request other rq = Inr () \<Longrightarrow> row_step other late None (Some (new_job uuid now rq))"
| Claimed: "ready now j \<Longrightarrow> row_step other late (Some j) (Some (claimed w now j))"
| Written: "job_change other x x' \<Longrightarrow> j_id x = j_id j \<Longrightarrow> (\<not> late \<Longrightarrow> x = j) \<Longrightarrow>
    row_step other late (Some j) (Some (flush_job x x' j))"

lemma job_change_intent: "job_change other x x' \<Longrightarrow> intent x' = intent x"
  by (induction rule: job_change.induct) (auto simp: intent_def change_defs)

lemma flush_job_intent [simp]: "intent (flush_job x x' j) = intent j"
  by (simp add: intent_def flush_job_def)

lemma flush_job_keeps [simp]:
  "j_id (flush_job x x' j) = j_id j" "idempotency_key (flush_job x x' j) = idempotency_key j"
  "max_attempts (flush_job x x' j) = max_attempts j" "payload (flush_job x x' j) = payload j"
  by (simp_all add: flush_job_def)

lemma flush_loaded: "intent x' = intent x \<Longrightarrow> flush_job x x' x = x'"
  by (cases x; cases x') (simp add: flush_job_def intent_def)

lemma row_step_on_time:
  assumes "row_step other False (Some j) (Some j')"
  shows "j' = j \<or> (\<exists>now w. ready now j \<and> j' = claimed w now j) \<or> job_change other j j'"
  using assms by (cases rule: row_step.cases) (auto simp: flush_loaded [OF job_change_intent])

lemma row_step_intent:
  assumes "row_step other late (Some j) r"
  shows "\<exists>j'. r = Some j' \<and> intent j' = intent j"
  using assms by (cases rule: row_step.cases) (auto simp: intent_def claimed_def flush_job_def)

lemma success_final:
  assumes "row_step other False (Some j) (Some j')" and "status j = Succeeded"
  shows "j' = j"
  using row_step_on_time [OF assms(1)] assms(2) by (auto simp: ready_def elim: job_change.cases)

lemma new_job_ok: "check_request other rq = Inr u \<Longrightarrow> job_ok other (new_job uuid now rq)"
  by (auto simp: job_ok_def result_ok_def new_job_def check_request_def is_ok_iff Let_def split: if_splits)

lemma job_ok_safe: "job_ok other j \<Longrightarrow> job_safe other j"
  by (auto simp: job_ok_def job_safe_def)

lemma job_change_ok:
  assumes "job_change other j j'" and "job_ok other j"
  shows "job_ok other j'"
  using assms by (induction rule: job_change.induct) (auto simp: job_ok_def result_ok_def change_defs)

lemma claimed_ok: "job_ok other j \<Longrightarrow> ready now j \<Longrightarrow> job_ok other (claimed w now j)"
  by (auto simp: job_ok_def claimed_def ready_def)

lemma row_step_ok:
  assumes "row_step other False r r'" and "\<And>j. r = Some j \<Longrightarrow> job_ok other j" and "r' = Some j'"
  shows "job_ok other j'"
proof (cases r)
  case None
  with assms(1,3) show ?thesis by (auto intro: new_job_ok elim: row_step.cases)
next
  case (Some j)
  with assms row_step_on_time [of other j j'] show ?thesis by (auto intro: claimed_ok job_change_ok)
qed

text \<open>A late settlement still releases the row it was computed for, and stores only what was validated.\<close>

lemma job_change_moves: "job_change other x x' \<Longrightarrow> status x' \<noteq> status x \<and> status x' \<noteq> Running"
  by (induction rule: job_change.induct) (auto simp: change_defs)

lemma job_change_columns:
  "job_change other x x' \<Longrightarrow> (attempts x' = attempts x \<or> attempts x' = 0) \<and> (result x' = result x \<or> result_ok other (result x'))"
  by (induction rule: job_change.induct) (auto simp: change_defs result_ok_def)

lemma written_safe:
  assumes "job_change other x x'" and "job_safe other j"
  shows "job_safe other (flush_job x x' j)"
proof -
  have "status (flush_job x x' j) \<noteq> Running"
    using job_change_moves [OF assms(1)] by (simp add: flush_job_def dirty_def)
  moreover have "0 \<le> attempts (flush_job x x' j)" "result_ok other (result (flush_job x x' j))"
    using job_change_columns [OF assms(1)] assms(2) by (auto simp: flush_job_def dirty_def job_safe_def)
  ultimately show ?thesis using assms(2) by (simp add: job_safe_def)
qed

lemma row_step_safe:
  assumes "row_step other late r (Some j')" and "\<And>j. r = Some j \<Longrightarrow> job_safe other j"
  shows "job_safe other j'"
  using assms
proof (cases rule: row_step.cases)
  case (Claimed now j w)
  with assms(2) show ?thesis by (auto simp: job_safe_def claimed_def)
qed (auto intro: written_safe job_ok_safe new_job_ok)

text \<open>The budget of a job: its attempts stay within the limit, plus one for every late settlement.\<close>

definition within_budget :: "nat \<Rightarrow> job \<Rightarrow> bool" where
  "within_budget n j \<longleftrightarrow> attempts j \<le> max_attempts j + int n \<and> (status j = Queued \<longrightarrow> attempts j < max_attempts j + int n)"

lemma job_change_budget:
  "job_change other j j' \<Longrightarrow> job_safe other j \<Longrightarrow> within_budget n j \<Longrightarrow> within_budget n j'"
  by (induction rule: job_change.induct) (auto simp: within_budget_def job_safe_def change_defs)

lemma row_step_budget:
  assumes "row_step other late r (Some j')" and "\<And>j. r = Some j \<Longrightarrow> job_safe other j \<and> within_budget n j"
  shows "within_budget (n + (if late then 1 else 0)) j'"
  using assms(1)
proof (cases rule: row_step.cases)
  case (Written x x' j)
  show ?thesis
  proof (cases late)
    case True
    with Written assms(2) [of j] job_change_columns [of other x x'] show ?thesis
      by (auto simp: within_budget_def flush_job_def dirty_def job_safe_def)
  next
    case False
    with Written assms(2) [of j] show ?thesis
      by (auto simp: flush_loaded [OF job_change_intent] intro: job_change_budget)
  qed
next
  case (Inserted rq uuid now)
  with new_job_ok [of other rq "()" uuid now] show ?thesis by (auto simp: within_budget_def job_ok_def new_job_def)
qed (use assms(2) in \<open>auto simp: within_budget_def claimed_def ready_def\<close>)

section \<open>Tables\<close>

definition queue_safe :: "(pyval \<Rightarrow> string) \<Rightarrow> jobs \<Rightarrow> bool" where
  "queue_safe other db \<longleftrightarrow> distinct (map j_id db) \<and> distinct (List.map_filter idempotency_key db) \<and>
     list_all (job_safe other) db"

lemma queue_safe_Nil [simp]: "queue_safe other []"
  by (simp add: queue_safe_def map_filter_def)

lemma find_job_map:
  "(\<And>j. j_id (g j) = j_id j) \<Longrightarrow> find_job (map g db) i = map_option g (find_job db i)"
  by (induction db) (auto simp: find_job_def)

lemma find_job_SomeD: "find_job db i = Some j \<Longrightarrow> j \<in> set db \<and> j_id j = i"
  by (auto simp: find_job_def find_Some_iff)

lemma find_job_None_iff: "find_job db i = None \<longleftrightarrow> i \<notin> j_id ` set db"
  by (auto simp: find_job_def find_None_iff)

lemma by_key_None_iff: "by_key db k = None \<longleftrightarrow> (\<forall>j\<in>set db. idempotency_key j \<noteq> Some k)"
  by (auto simp: by_key_def find_None_iff)

lemma find_job_unique: "distinct (map j_id db) \<Longrightarrow> j \<in> set db \<Longrightarrow> find_job db (j_id j) = Some j"
  by (induction db) (auto simp: find_job_def rev_image_eqI)

lemma find_job_snoc: "find_job (db @ [j]) i = (if find_job db i = None \<and> j_id j = i then Some j else find_job db i)"
  by (induction db) (auto simp: find_job_def)

lemma update_job_find:
  assumes "\<And>j. j_id (f j) = j_id j"
  shows "find_job (update_job k f db) i = map_option (if i = k then f else id) (find_job db i)"
proof -
  have "find_job (update_job k f db) i = map_option (\<lambda>j. if j_id j = k then f j else j) (find_job db i)"
    unfolding update_job_def using assms by (intro find_job_map) auto
  then show ?thesis by (cases "find_job db i") (auto dest: find_job_SomeD)
qed

lemma write_job_find:
  "find_job (write_job x x' db) i = map_option (if i = j_id x then flush_job x x' else id) (find_job db i)"
  unfolding write_job_def by (rule update_job_find) simp

lemma write_loaded:
  assumes "distinct (map j_id db)" and "find_job db (j_id x) = Some x" and "intent x' = intent x"
  shows "write_job x x' db = update_job (j_id x) (\<lambda>_. x') db"
proof -
  have "k = x" if "k \<in> set db" "j_id k = j_id x" for k
    using find_job_unique [OF assms(1) that(1)] that(2) assms(2) by simp
  then show ?thesis unfolding write_job_def update_job_def by (intro map_cong) (use flush_loaded [OF assms(3)] in auto)
qed

lemma map_filter_key_map:
  "(\<And>j. idempotency_key (g j) = idempotency_key j) \<Longrightarrow>
     List.map_filter idempotency_key (map g db) = List.map_filter idempotency_key db"
  by (induction db) (auto simp: map_filter_simps split: option.splits)

text \<open>A commit keeps the keys unique, and every row takes a step.\<close>

definition table_step :: "(pyval \<Rightarrow> string) \<Rightarrow> (string \<Rightarrow> bool) \<Rightarrow> jobs \<Rightarrow> jobs \<Rightarrow> bool" where
  "table_step other late db db' \<longleftrightarrow>
     (distinct (map j_id db) \<longrightarrow> distinct (map j_id db')) \<and>
     (distinct (List.map_filter idempotency_key db) \<longrightarrow> distinct (List.map_filter idempotency_key db')) \<and>
     (\<forall>i. row_step other (late i) (find_job db i) (find_job db' i))"

lemma table_step_refl [simp]: "table_step other late db db"
  by (simp add: table_step_def row_step.Kept)

lemma table_step_map:
  assumes "\<And>j. j_id (g j) = j_id j" and "\<And>j. idempotency_key (g j) = idempotency_key j"
    and "\<And>i j. find_job db i = Some j \<Longrightarrow> row_step other (late i) (Some j) (Some (g j))"
  shows "table_step other late db (map g db)"
proof -
  have "row_step other (late i) (find_job db i) (find_job (map g db) i)" for i
    using assms(3) [of i] find_job_map [of g db i] assms(1) by (cases "find_job db i") (auto intro: row_step.Kept)
  then show ?thesis using assms(1,2) by (simp add: table_step_def comp_def map_filter_key_map)
qed

lemma table_step_write:
  assumes "job_change other x x'" and "\<And>j. find_job db (j_id x) = Some j \<Longrightarrow> \<not> late (j_id x) \<Longrightarrow> x = j"
  shows "table_step other late db (write_job x x' db)"
  unfolding write_job_def update_job_def
proof (rule table_step_map)
  fix i j assume j: "find_job db i = Some j"
  then have i: "j_id j = i" by (auto dest: find_job_SomeD)
  show "row_step other (late i) (Some j) (Some (if j_id j = j_id x then flush_job x x' j else j))"
  proof (cases "i = j_id x")
    case True
    then show ?thesis using i j assms(2) by (simp add: row_step.Written [OF assms(1)])
  next
    case False
    then show ?thesis using i by (simp add: row_step.Kept)
  qed
qed auto

lemma table_step_snoc:
  assumes "insertable db (new_job uuid now rq)" and "check_request other rq = Inr ()"
  shows "table_step other late db (db @ [new_job uuid now rq])"
proof -
  let ?j = "new_job uuid now rq"
  have "j_id ?j \<notin> j_id ` set db" using assms(1) by (simp add: insertable_def find_job_None_iff)
  moreover have "k \<notin> set (List.map_filter idempotency_key db)" if "idempotency_key ?j = Some k" for k
    using assms(1) that by (auto simp: insertable_def existing_job_def by_key_None_iff map_filter_def)
  moreover have "row_step other (late i) (find_job db i) (find_job (db @ [?j]) i)" for i
    using assms(2) by (auto simp: find_job_snoc intro: row_step.Kept row_step.Inserted)
  ultimately show ?thesis by (auto simp: table_step_def map_filter_def)
qed

lemma table_step_rows:
  assumes "table_step other late db db'" and "distinct (map j_id db)"
    and "\<And>i r j. row_step other (late i) r (Some j) \<Longrightarrow> (\<And>k. r = Some k \<Longrightarrow> P k) \<Longrightarrow> P j" and "list_all P db"
  shows "list_all P db'"
proof -
  have "P j" if "j \<in> set db'" for j
  proof -
    have "find_job db' (j_id j) = Some j"
      using assms(1,2) that by (intro find_job_unique) (auto simp: table_step_def)
    then have "row_step other (late (j_id j)) (find_job db (j_id j)) (Some j)" using assms(1) by (metis table_step_def)
    then show ?thesis by (rule assms(3)) (use assms(4) find_job_SomeD in \<open>fastforce simp: list_all_iff\<close>)
  qed
  then show ?thesis by (simp add: list_all_iff)
qed

lemma table_step_safe: "table_step other late db db' \<Longrightarrow> queue_safe other db \<Longrightarrow> queue_safe other db'"
  using table_step_rows [of other late db db' "job_safe other"] row_step_safe
  by (auto simp: queue_safe_def table_step_def)

lemma job_safe_member: "queue_safe other db \<Longrightarrow> find_job db i = Some j \<Longrightarrow> job_safe other j"
  by (auto simp: queue_safe_def list_all_iff dest: find_job_SomeD)

section \<open>Every operation is such a step\<close>

lemma enqueue_cases:
  assumes "enqueue_job other others uuid now rq commit db = Inr (j, db')"
  shows "check_request other rq = Inr () \<and> (existing_job db (map_option py_strip (rq_key rq)) = Some j \<and> db' = db \<or>
    db' = others db \<or> insertable (others db) j \<and> j = new_job uuid now rq \<and> db' = others db @ [j])"
  using assms by (auto simp: enqueue_job_def result_simps Let_def split: option.splits if_splits)

lemma claim_from_SomeD:
  assumes "claim_from w now is db = Some (i, db')"
  shows "i \<in> set is \<and> (\<exists>j\<in>set db. j_id j = i \<and> ready now j) \<and>
    db' = map (\<lambda>j. if j_id j = i \<and> ready now j then claimed w now j else j) db"
  using assms by (induction "is") (auto simp: list_ex_iff split: if_splits)

lemma claimed_keeps [simp]:
  "j_id (claimed w now j) = j_id j" "idempotency_key (claimed w now j) = idempotency_key j"
  by (simp_all add: claimed_def)

lemma claim_step:
  assumes "claim_next_job others w now db = Inr (r, db')"
  shows "table_step other late (others db) db'"
proof -
  have "table_step other late (others db) (map (\<lambda>j. if j_id j = i \<and> ready now j then claimed u now j else j) (others db))" for u i
    by (rule table_step_map) (auto intro: row_step.Kept row_step.Claimed)
  with assms show ?thesis
    by (auto simp: claim_next_job_def Let_def dest!: claim_from_SomeD split: if_splits option.splits prod.splits)
qed

lemma complete_job_SomeD:
  assumes "complete_job other i res now seen db = Inr (j', db')"
  shows "\<exists>j. find_job seen i = Some j \<and> j_id j = i \<and> status j = Running \<and> j' = completed_job res now j \<and>
    db' = write_job j j' db \<and> result_ok other res"
  using assms
  by (auto simp: complete_job_def job_or_raise_def result_simps Let_def is_ok_iff result_ok_def
      split: option.splits if_splits dest: find_job_SomeD)

lemma fail_job_SomeD:
  assumes "fail_job i error retryable now b mb seen db = Inr (j', db')"
  shows "0 \<le> b \<and> b \<le> mb \<and> (\<exists>j. find_job seen i = Some j \<and> j_id j = i \<and> status j = Running \<and>
    j' = failed_job error retryable now b mb j \<and> db' = write_job j j' db)"
  using assms
  by (auto simp: fail_job_def job_or_raise_def result_simps Let_def split: option.splits if_splits dest: find_job_SomeD)

lemma replay_job_SomeD:
  assumes "replay_dead_letter_job i av now seen db = Inr (j', db')"
  shows "\<exists>j. find_job seen i = Some j \<and> j_id j = i \<and> status j \<in> {Failed, DeadLetter} \<and> j' = replayed_job av now j \<and>
    db' = write_job j j' db"
  using assms
  by (auto simp: replay_dead_letter_job_def job_or_raise_def result_simps Let_def split: option.splits if_splits
      dest: find_job_SomeD)

lemma requeue_step:
  assumes "\<And>i x j. find_job (filter (lease_expired (now - lease)) seen) i = Some x \<Longrightarrow> find_job db i = Some j \<Longrightarrow>
    \<not> late i \<Longrightarrow> x = j"
  shows "table_step other late db (snd (requeue_expired_jobs lease now seen db))"
  unfolding requeue_expired_jobs_def Let_def snd_conv
proof (rule table_step_map)
  fix i j assume j: "find_job db i = Some j"
  let ?expired = "filter (lease_expired (now - lease)) seen"
  show "row_step other (late i) (Some j)
      (Some (case find_job ?expired (j_id j) of None \<Rightarrow> j | Some x \<Rightarrow> flush_job x (expire_lease now x) j))"
  proof (cases "find_job ?expired (j_id j)")
    case (Some x)
    then have "status x = Running" "j_id x = j_id j" by (auto simp: lease_expired_def dest!: find_job_SomeD)
    with Some assms [of i x j] j find_job_SomeD [OF j] show ?thesis
      by (auto intro!: row_step.Written job_change.Expired)
  qed (simp add: row_step.Kept)
qed (auto split: option.splits)

lemma settle_steps:
  "complete_job other i res now seen db = Inr (j', db') \<Longrightarrow> (\<And>j. find_job db i = Some j \<Longrightarrow> \<not> late i \<Longrightarrow> find_job seen i = Some j) \<Longrightarrow>
     table_step other late db db'"
  "fail_job i error retryable now b mb seen db = Inr (j', db') \<Longrightarrow> (\<And>j. find_job db i = Some j \<Longrightarrow> \<not> late i \<Longrightarrow> find_job seen i = Some j) \<Longrightarrow>
     table_step other late db db'"
  "replay_dead_letter_job i av now seen db = Inr (j', db') \<Longrightarrow> (\<And>j. find_job db i = Some j \<Longrightarrow> \<not> late i \<Longrightarrow> find_job seen i = Some j) \<Longrightarrow>
     table_step other late db db'"
  by ((drule complete_job_SomeD fail_job_SomeD replay_job_SomeD, fastforce intro!: table_step_write intro: job_change.intros)+)

text \<open>Whatever was loaded, no operation leaves an unsafe table.\<close>

lemma enqueue_safe:
  assumes "enqueue_job other others uuid now rq commit db = Inr (j, db')" and "queue_safe other db" and "queue_safe other (others db)"
  shows "queue_safe other db'"
  using enqueue_cases [OF assms(1)] assms(2,3) table_step_safe [OF table_step_snoc] by auto

lemma settle_safe:
  "claim_next_job others w now db = Inr (r, db') \<Longrightarrow> queue_safe other (others db) \<Longrightarrow> queue_safe other db'"
  "complete_job other i res now seen db = Inr (j', db') \<Longrightarrow> queue_safe other db \<Longrightarrow> queue_safe other db'"
  "fail_job i error retryable now b mb seen db = Inr (j', db') \<Longrightarrow> queue_safe other db \<Longrightarrow> queue_safe other db'"
  "replay_dead_letter_job i av now seen db = Inr (j', db') \<Longrightarrow> queue_safe other db \<Longrightarrow> queue_safe other db'"
  "queue_safe other db \<Longrightarrow> queue_safe other (snd (requeue_expired_jobs lease now seen db))"
  by ((blast intro: table_step_safe [OF claim_step [where late = "\<lambda>_. True"]] table_step_safe [OF settle_steps(1) [where late = "\<lambda>_. True"]]
      table_step_safe [OF settle_steps(2) [where late = "\<lambda>_. True"]] table_step_safe [OF settle_steps(3) [where late = "\<lambda>_. True"]]
      table_step_safe [OF requeue_step [where late = "\<lambda>_. True"]])+)

section \<open>The queue as a transition system\<close>

text \<open>The state is the history of the committed tables. An event names the age of what its session had loaded.\<close>

datatype job_event =
    Enqueue nat string int job_request bool
  | RequeueExpired nat int int
  | Claim nat string int
  | Complete nat string "pydict option" int
  | Fail nat string string bool int int int
  | Replay nat string "int option" int

definition ok_state :: "'e + 'a \<times> 's \<Rightarrow> 's option" where
  "ok_state r = (case r of Inl _ \<Rightarrow> None | Inr (_, s) \<Rightarrow> Some s)"

lemma ok_state_eq_Some: "ok_state r = Some s \<longleftrightarrow> (\<exists>x. r = Inr (x, s))"
  by (auto simp: ok_state_def split: sum.splits)

definition pushed :: "jobs list \<Rightarrow> jobs option \<Rightarrow> jobs list option" where
  "pushed hist r = map_option (\<lambda>db. db # hist) r"

text \<open>A producer that finds the key when it looks it up writes nothing.\<close>

fun job_step :: "(pyval \<Rightarrow> string) \<Rightarrow> jobs list \<Rightarrow> job_event \<Rightarrow> jobs list option" where
  "job_step other hist (Enqueue age uuid now rq commit) =
     (if existing_job (seen_at age hist) (map_option py_strip (rq_key rq)) \<noteq> None then None
      else pushed hist (ok_state (enqueue_job other (\<lambda>_. hd hist) uuid now rq commit (seen_at age hist))))"
| "job_step other hist (RequeueExpired age lease now) =
     pushed hist (Some (snd (requeue_expired_jobs lease now (seen_at age hist) (hd hist))))"
| "job_step other hist (Claim age worker now) =
     pushed hist (ok_state (claim_next_job (\<lambda>_. hd hist) worker now (seen_at age hist)))"
| "job_step other hist (Complete age i res now) =
     pushed hist (ok_state (complete_job other i res now (seen_at age hist) (hd hist)))"
| "job_step other hist (Fail age i error retryable now b mb) =
     pushed hist (ok_state (fail_job i error retryable now b mb (seen_at age hist) (hd hist)))"
| "job_step other hist (Replay age i av now) =
     pushed hist (ok_state (replay_dead_letter_job i av now (seen_at age hist) (hd hist)))"

text \<open>A settlement of the job is late when the row has changed since it was loaded.\<close>

fun late :: "string \<Rightarrow> jobs list \<Rightarrow> job_event \<Rightarrow> bool" where
  "late i hist (RequeueExpired age lease now) =
     (case find_job (filter (lease_expired (now - lease)) (seen_at age hist)) i of None \<Rightarrow> False
      | Some x \<Rightarrow> find_job (hd hist) i \<noteq> Some x)"
| "late i hist (Complete age k res now) = (k = i \<and> find_job (hd hist) i \<noteq> find_job (seen_at age hist) i)"
| "late i hist (Fail age k error retryable now b mb) = (k = i \<and> find_job (hd hist) i \<noteq> find_job (seen_at age hist) i)"
| "late i hist (Replay age k av now) = (k = i \<and> find_job (hd hist) i \<noteq> find_job (seen_at age hist) i)"
| "late i hist _ = False"

text \<open>The late settlements of a job in a run.\<close>

fun lates :: "(pyval \<Rightarrow> string) \<Rightarrow> string \<Rightarrow> jobs list \<Rightarrow> job_event list \<Rightarrow> nat" where
  "lates other i hist [] = 0"
| "lates other i hist (e # es) =
     (case job_step other hist e of None \<Rightarrow> lates other i hist es
      | Some hist' \<Rightarrow> (if late i hist e then 1 else 0) + lates other i hist' es)"

lemma job_step_table:
  assumes "job_step other hist e = Some hist'"
  shows "\<exists>db. hist' = db # hist \<and> table_step other (\<lambda>i. late i hist e) (hd hist) db"
proof (cases e)
  case (Enqueue age uuid now rq commit)
  with assms obtain j db where "hist' = db # hist" "existing_job (seen_at age hist) (map_option py_strip (rq_key rq)) = None"
    "enqueue_job other (\<lambda>_. hd hist) uuid now rq commit (seen_at age hist) = Inr (j, db)"
    by (auto simp: pushed_def ok_state_eq_Some split: if_splits)
  with enqueue_cases [OF this(3)] show ?thesis by (auto intro: table_step_snoc)
next
  case (RequeueExpired age lease now)
  with assms show ?thesis by (auto simp: pushed_def intro!: requeue_step)
next
  case (Claim age w now)
  with assms claim_step [of "\<lambda>_. hd hist"] show ?thesis by (auto simp: pushed_def ok_state_eq_Some)
next
  case (Complete age i res now)
  with assms show ?thesis by (auto simp: pushed_def ok_state_eq_Some intro!: settle_steps(1))
next
  case (Fail age i error retryable now b mb)
  with assms show ?thesis by (auto simp: pushed_def ok_state_eq_Some intro!: settle_steps(2))
next
  case (Replay age i av now)
  with assms show ?thesis by (auto simp: pushed_def ok_state_eq_Some intro!: settle_steps(3))
qed

text \<open>What no run changes: no row disappears, and the accepted intent of a row stays as it was enqueued.\<close>

definition keeps_rows :: "jobs list \<Rightarrow> jobs list \<Rightarrow> bool" where
  "keeps_rows hist hist' \<longleftrightarrow>
     (\<forall>i j. find_job (hd hist) i = Some j \<longrightarrow> (\<exists>j'. find_job (hd hist') i = Some j' \<and> intent j' = intent j))"

interpretation queue: monotone_system "job_step other" "\<lambda>hist. queue_safe other (hd hist)" keeps_rows for other
proof (unfold_locales, goal_cases)
  case (1 s e s')
  then show ?case using job_step_table [OF 1(2)] table_step_safe by auto
next
  case (2 s)
  then show ?case by (simp add: keeps_rows_def)
next
  case (3 s t u)
  then show ?case unfolding keeps_rows_def by metis
next
  case (4 s e s')
  then obtain db where "s' = db # s" "table_step other (\<lambda>i. late i s e) (hd s) db" using job_step_table by blast
  then show ?case unfolding keeps_rows_def table_step_def by (metis list.sel(1) row_step_intent)
qed

text \<open>A predicate on the row of one job, indexed by its late settlements so far, that every step keeps, holds after a run.\<close>

lemma row_run:
  assumes "\<And>n late r j. row_step other late r (Some j) \<Longrightarrow> (\<And>k. r = Some k \<Longrightarrow> job_safe other k \<and> P n k) \<Longrightarrow>
      P (n + (if late then 1 else 0)) j"
    and "queue_safe other (hd hist)" and "\<And>j. find_job (hd hist) i = Some j \<Longrightarrow> P n j"
    and "find_job (hd (run_events (job_step other) hist es)) i = Some j"
  shows "P (n + lates other i hist es) j"
  using assms(2-)
proof (induction es arbitrary: hist n)
  case (Cons e es)
  show ?case
  proof (cases "job_step other hist e")
    case (Some hist')
    then obtain db where db: "hist' = db # hist" "row_step other (late i hist e) (find_job (hd hist) i) (find_job db i)"
      using job_step_table by (metis table_step_def)
    have "queue_safe other (hd hist')" using queue.step_inv Cons.prems(1) Some by blast
    moreover have "P (n + (if late i hist e then 1 else 0)) k" if k: "find_job (hd hist') i = Some k" for k
      using db k Cons.prems(2) job_safe_member [OF Cons.prems(1)] by (intro assms(1)) auto
    ultimately show ?thesis
      using Cons.IH [of hist' "n + (if late i hist e then 1 else 0)"] Some Cons.prems(3) by (simp add: add.assoc)
  qed (use Cons in auto)
qed simp

lemma run_ok:
  assumes "queue_safe other (hd hist)" and "\<And>j. find_job (hd hist) i = Some j \<Longrightarrow> job_ok other j"
    and "lates other i hist es = 0" and "find_job (hd (run_events (job_step other) hist es)) i = Some j"
  shows "job_ok other j"
proof -
  have "0 + lates other i hist es = 0 \<longrightarrow> job_ok other j"
  proof (rule row_run [where P = "\<lambda>n j. n = 0 \<longrightarrow> job_ok other j"])
    fix n late r j
    assume "row_step other late r (Some j)" "\<And>k. r = Some k \<Longrightarrow> job_safe other k \<and> (n = (0 :: nat) \<longrightarrow> job_ok other k)"
    then show "n + (if late then 1 else 0) = 0 \<longrightarrow> job_ok other j" using row_step_ok [of other r "Some j" j] by (cases late) auto
  qed (use assms in auto)
  with assms(3) show ?thesis by simp
qed

lemma run_budget:
  assumes "queue_safe other (hd hist)" and "\<And>j. find_job (hd hist) i = Some j \<Longrightarrow> within_budget n j"
    and "find_job (hd (run_events (job_step other) hist es)) i = Some j"
  shows "within_budget (n + lates other i hist es) j"
  using row_step_budget assms by (rule row_run)

lemma run_final:
  assumes "find_job (hd hist) i = Some j" and "status j = Succeeded" and "lates other i hist es = 0"
  shows "find_job (hd (run_events (job_step other) hist es)) i = Some j"
  using assms
proof (induction es arbitrary: hist)
  case (Cons e es)
  show ?case
  proof (cases "job_step other hist e")
    case (Some hist')
    with Cons.prems have "\<not> late i hist e" "lates other i hist' es = 0" by (auto split: if_splits)
    moreover obtain db where db: "hist' = db # hist" "row_step other (late i hist e) (find_job (hd hist) i) (find_job db i)"
      using Some job_step_table by (metis table_step_def)
    ultimately have step: "row_step other False (Some j) (find_job db i)" using Cons.prems(1) by simp
    then obtain j' where j': "find_job db i = Some j'" using row_step_intent by blast
    with step Cons.prems(2) have "find_job (hd hist') i = Some j" using success_final db(1) by fastforce
    with Cons Some \<open>lates other i hist' es = 0\<close> show ?thesis by simp
  qed (use Cons in simp)
qed simp

text \<open>A lease protects the row: as long as nobody settles the job and it is not requeued before its lease runs out, the row
  stays as it was claimed, so the settlement of the worker that claimed it is not late.\<close>

fun settles :: "string \<Rightarrow> job_event \<Rightarrow> bool" where
  "settles i (Complete age k res now) = (k = i)"
| "settles i (Fail age k error retryable now b mb) = (k = i)"
| "settles i (Replay age k av now) = (k = i)"
| "settles i _ = False"

fun revokes :: "int \<Rightarrow> job_event \<Rightarrow> bool" where
  "revokes t (RequeueExpired age lease now) = (t < now - lease)"
| "revokes t _ = False"

lemma lease_step:
  assumes "job_step other hist e = Some hist'" and "find_job (hd hist) i = Some j" and "status j = Running" and "locked_at j = Some t"
    and "\<not> late i hist e" and "\<not> settles i e" and "\<not> revokes t e"
  shows "find_job (hd hist') i = Some j"
proof (cases e)
  case (Enqueue age uuid now rq commit)
  with assms(1) obtain k db where "hist' = db # hist" "existing_job (seen_at age hist) (map_option py_strip (rq_key rq)) = None"
    "enqueue_job other (\<lambda>_. hd hist) uuid now rq commit (seen_at age hist) = Inr (k, db)"
    by (auto simp: pushed_def ok_state_eq_Some split: if_splits)
  with enqueue_cases [OF this(3)] assms(2) show ?thesis by (auto simp: find_job_snoc)
next
  case (RequeueExpired age lease now)
  let ?expired = "filter (lease_expired (now - lease)) (seen_at age hist)"
  have "find_job ?expired i = None"
  proof (rule ccontr)
    assume "find_job ?expired i \<noteq> None"
    then obtain x where x: "find_job ?expired i = Some x" by blast
    with assms(2,5) RequeueExpired have "x = j" by simp
    with x assms(4,7) RequeueExpired show False by (auto simp: lease_expired_def dest!: find_job_SomeD)
  qed
  moreover have "find_job (snd (requeue_expired_jobs lease now (seen_at age hist) (hd hist))) i =
      map_option (\<lambda>j. case find_job ?expired (j_id j) of None \<Rightarrow> j | Some x \<Rightarrow> flush_job x (expire_lease now x) j) (find_job (hd hist) i)"
    unfolding requeue_expired_jobs_def Let_def snd_conv by (rule find_job_map) (auto split: option.splits)
  ultimately show ?thesis using assms(1,2) RequeueExpired find_job_SomeD [OF assms(2)] by (auto simp: pushed_def)
next
  case (Claim age w now)
  then obtain r where "claim_next_job (\<lambda>_. hd hist) w now (seen_at age hist) = Inr (r, hd hist')"
    using assms(1) by (auto simp: pushed_def ok_state_eq_Some)
  then have "hd hist' = hd hist \<or> (\<exists>k u. hd hist' = map (\<lambda>j. if j_id j = k \<and> ready now j then claimed u now j else j) (hd hist))"
    by (auto simp: claim_next_job_def Let_def dest!: claim_from_SomeD split: if_splits option.splits prod.splits)
  moreover have "find_job (map (\<lambda>j. if j_id j = k \<and> ready now j then claimed u now j else j) (hd hist)) i = Some j" for k u
    using find_job_map [of "\<lambda>j. if j_id j = k \<and> ready now j then claimed u now j else j" "hd hist" i] assms(2,3)
    by (simp add: ready_def)
  ultimately show ?thesis using assms(2) by auto
qed (use assms in \<open>auto simp: pushed_def ok_state_eq_Some write_job_find dest!: complete_job_SomeD fail_job_SomeD replay_job_SomeD\<close>)

lemma lease_protects:
  assumes "find_job (hd hist) i = Some j" and "status j = Running" and "locked_at j = Some t"
    and "lates other i hist es = 0" and "list_all (\<lambda>e. \<not> settles i e \<and> \<not> revokes t e) es"
  shows "find_job (hd (run_events (job_step other) hist es)) i = Some j"
  using assms
proof (induction es arbitrary: hist)
  case (Cons e es)
  show ?case
  proof (cases "job_step other hist e")
    case (Some hist')
    with Cons.prems have "\<not> late i hist e" "lates other i hist' es = 0" by (auto split: if_splits)
    moreover have "find_job (hd hist') i = Some j"
      using lease_step [OF Some Cons.prems(1-3) \<open>\<not> late i hist e\<close>] Cons.prems(5) by simp
    ultimately show ?thesis using Cons.IH [of hist'] Cons.prems Some by simp
  qed (use Cons in simp)
qed simp

section \<open>Deliveries\<close>

text \<open>How often a run hands a job to a worker.\<close>

definition hands_out :: "string \<Rightarrow> jobs list \<Rightarrow> job_event \<Rightarrow> bool" where
  "hands_out i hist e = (case e of
     Claim age worker now \<Rightarrow> (case claim_next_job (\<lambda>_. hd hist) worker now (seen_at age hist) of
       Inr (Some j, _) \<Rightarrow> j_id j = i | _ \<Rightarrow> False)
   | _ \<Rightarrow> False)"

fun deliveries :: "(pyval \<Rightarrow> string) \<Rightarrow> string \<Rightarrow> jobs list \<Rightarrow> job_event list \<Rightarrow> nat" where
  "deliveries other i hist [] = 0"
| "deliveries other i hist (e # es) =
     (case job_step other hist e of None \<Rightarrow> deliveries other i hist es
      | Some hist' \<Rightarrow> (if hands_out i hist e then 1 else 0) + deliveries other i hist' es)"

fun replays :: "string \<Rightarrow> job_event \<Rightarrow> bool" where
  "replays i (Replay age k av now) = (k = i)"
| "replays i _ = False"

definition attempts_of :: "jobs \<Rightarrow> string \<Rightarrow> int" where
  "attempts_of db i = (case find_job db i of None \<Rightarrow> 0 | Some j \<Rightarrow> attempts j)"

lemma attempts_of_write:
  "i \<noteq> j_id x \<or> attempts x' = attempts x \<Longrightarrow> attempts_of (write_job x x' db) i = attempts_of db i"
  by (cases "find_job db i") (auto simp: attempts_of_def write_job_find flush_job_def)

lemma attempts_of_requeue: "attempts_of (snd (requeue_expired_jobs lease now seen db)) i = attempts_of db i"
proof -
  let ?g = "\<lambda>j. case find_job (filter (lease_expired (now - lease)) seen) (j_id j) of None \<Rightarrow> j
    | Some x \<Rightarrow> flush_job x (expire_lease now x) j"
  have "find_job (map ?g db) i = map_option ?g (find_job db i)"
    by (rule find_job_map) (auto split: option.splits)
  then show ?thesis
    by (auto simp: requeue_expired_jobs_def Let_def attempts_of_def flush_job_def expire_lease_def split: option.splits)
qed

lemma attempts_of_enqueue:
  assumes "enqueue_job other (\<lambda>_. db) uuid now rq commit seen = Inr (j, db')"
    and "existing_job seen (map_option py_strip (rq_key rq)) = None"
  shows "attempts_of db' i = attempts_of db i"
proof -
  have "attempts (new_job uuid now rq) = 0" by (simp add: new_job_def)
  then show ?thesis
    using enqueue_cases [OF assms(1)] assms(2) by (cases "find_job db i") (auto simp: attempts_of_def find_job_snoc)
qed

lemma claim_result:
  assumes "claim_next_job others w now db = Inr (Some j, db')" and "distinct (map j_id (others db))"
  shows "\<exists>k\<in>set (others db). ready now k \<and> j = claimed (py_strip w) now k \<and>
    db' = update_job (j_id k) (claimed (py_strip w) now) (others db) \<and>
    j_id k \<in> j_id ` set (claim_candidates now db)"
proof -
  from assms(1) obtain i where cf: "claim_from (py_strip w) now (map j_id (claim_candidates now db)) (others db) = Some (i, db')"
    and fj: "find_job db' i = Some j"
    by (auto simp: claim_next_job_def Let_def split: if_splits option.splits prod.splits)
  from claim_from_SomeD [OF cf] obtain k where k: "k \<in> set (others db)" "j_id k = i" "ready now k"
    "i \<in> j_id ` set (claim_candidates now db)"
    and db': "db' = map (\<lambda>j. if j_id j = i \<and> ready now j then claimed (py_strip w) now j else j) (others db)"
    by auto
  have uniq: "x = k" if "x \<in> set (others db)" "j_id x = i" for x
    using find_job_unique [OF assms(2) that(1)] find_job_unique [OF assms(2) k(1)] that(2) k(2) by simp
  then have upd: "db' = update_job i (claimed (py_strip w) now) (others db)"
    using k(3) unfolding db' update_job_def by (intro map_cong) auto
  have "find_job db' i = map_option (\<lambda>j. if j_id j = i \<and> ready now j then claimed (py_strip w) now j else j) (find_job (others db) i)"
    unfolding db' by (rule find_job_map) simp
  then have "j = claimed (py_strip w) now k"
    using fj find_job_unique [OF assms(2) k(1)] k(2,3) by auto
  with k upd show ?thesis by blast
qed

lemma claim_none:
  assumes "claim_next_job others w now db = Inr (None, db')"
  shows "db' = others db"
  using assms
proof -
  have "find_job db'' i \<noteq> None" if cf: "claim_from u now is d = Some (i, db'')" for u "is" d i db''
  proof -
    from claim_from_SomeD [OF cf] obtain k where k: "k \<in> set d" "j_id k = i"
      and d: "db'' = map (\<lambda>j. if j_id j = i \<and> ready now j then claimed u now j else j) d" by blast
    have "find_job db'' i = map_option (\<lambda>j. if j_id j = i \<and> ready now j then claimed u now j else j) (find_job d i)"
      unfolding d by (rule find_job_map) simp
    moreover have "find_job d i \<noteq> None" using k by (auto simp: find_job_None_iff)
    ultimately show ?thesis by simp
  qed
  with assms show ?thesis
    by (auto simp: claim_next_job_def Let_def split: if_splits option.splits prod.splits) (metis option.distinct(1))
qed

lemma attempts_of_claim:
  assumes "claim_next_job others w now seen = Inr (r, db')" and "distinct (map j_id (others seen))"
  shows "attempts_of db' i = attempts_of (others seen) i + (if \<exists>j. r = Some j \<and> j_id j = i then 1 else 0)"
proof (cases r)
  case None
  with assms claim_none [of others] show ?thesis by fastforce
next
  case (Some j)
  then obtain k where k: "k \<in> set (others seen)" "j = claimed (py_strip w) now k"
    "db' = update_job (j_id k) (claimed (py_strip w) now) (others seen)"
    using claim_result [of others w now seen j db'] assms by auto
  have fk: "find_job (others seen) (j_id k) = Some k" using assms(2) k(1) by (rule find_job_unique)
  have "find_job db' i = map_option (if i = j_id k then claimed (py_strip w) now else id) (find_job (others seen) i)"
    unfolding k(3) by (rule update_job_find) simp
  then show ?thesis
    using fk Some k(2) by (cases "find_job (others seen) i") (auto simp: attempts_of_def claimed_def)
qed

lemma attempts_of_step:
  assumes "queue_safe other (hd hist)" and "job_step other hist e = Some hist'" and "\<not> replays i e"
  shows "attempts_of (hd hist') i = attempts_of (hd hist) i + (if hands_out i hist e then 1 else 0)"
proof (cases e)
  case (Enqueue age uuid now rq commit)
  with assms show ?thesis
    by (auto simp: pushed_def ok_state_eq_Some hands_out_def attempts_of_enqueue split: if_splits)
next
  case (RequeueExpired age lease now)
  with assms show ?thesis by (auto simp: pushed_def hands_out_def attempts_of_requeue)
next
  case (Claim age w now)
  then obtain r where r: "claim_next_job (\<lambda>_. hd hist) w now (seen_at age hist) = Inr (r, hd hist')"
    using assms by (auto simp: pushed_def ok_state_eq_Some)
  from attempts_of_claim [OF r, of i] show ?thesis
    using Claim r assms(1) by (cases r) (auto simp: hands_out_def queue_safe_def)
next
  case (Complete age k res now)
  with assms show ?thesis
    by (auto simp: pushed_def ok_state_eq_Some hands_out_def completed_job_def dest!: complete_job_SomeD intro!: attempts_of_write)
next
  case (Fail age k error retryable now b mb)
  with assms show ?thesis
    by (auto simp: pushed_def ok_state_eq_Some hands_out_def failed_job_def Let_def dest!: fail_job_SomeD intro!: attempts_of_write)
next
  case (Replay age k av now)
  with assms show ?thesis
    by (auto simp: pushed_def ok_state_eq_Some hands_out_def dest!: replay_job_SomeD intro!: attempts_of_write)
qed

lemma attempts_of_run:
  assumes "queue_safe other (hd hist)" and "list_all (\<lambda>e. \<not> replays i e) es"
  shows "attempts_of (hd (run_events (job_step other) hist es)) i = attempts_of (hd hist) i + int (deliveries other i hist es)"
  using assms
proof (induction es arbitrary: hist)
  case (Cons e es)
  show ?case
  proof (cases "job_step other hist e")
    case (Some hist')
    with Cons.prems have "queue_safe other (hd hist')" using queue.step_inv by blast
    with Cons Some attempts_of_step [of other hist e hist' i] show ?thesis by auto
  qed (use Cons in auto)
qed simp

section \<open>Lookup by idempotency key\<close>

lemma by_key_unique:
  assumes "distinct (List.map_filter idempotency_key db)" and "j \<in> set db" and "idempotency_key j = Some k"
  shows "by_key db k = Some j"
  using assms
proof (induction db)
  case (Cons x db)
  show ?case
  proof (cases "idempotency_key x = Some k")
    case True
    then have "k \<notin> set (List.map_filter idempotency_key db)"
      using Cons.prems by (simp add: map_filter_simps)
    then have "j = x"
      using Cons.prems by (auto simp: map_filter_def image_iff)
    with True show ?thesis by (simp add: by_key_def)
  next
    case False
    then have "distinct (List.map_filter idempotency_key db)" "j \<in> set db"
      using Cons.prems by (auto simp: map_filter_simps split: option.splits)
    with Cons False show ?thesis by (simp add: by_key_def)
  qed
qed simp

lemma enqueue_stores:
  assumes "enqueue_job other others uuid now rq commit db = Inr (j, db')" and "rq_key rq = Some k"
  shows "j \<in> set db' \<and> idempotency_key j = Some (py_strip k)"
  using assms
  by (auto simp: enqueue_job_def result_simps Let_def existing_job_def by_key_def new_job_def find_Some_iff
      split: option.splits if_splits)

lemma enqueue_again:
  assumes "queue_safe other db" and "j \<in> set db" and "idempotency_key j = Some (py_strip k)"
    and "rq_key rq = Some k" and "check_request other rq = Inr u"
  shows "enqueue_job other others uuid now rq commit db = Inr (j, db)"
  using assms by_key_unique [of db j "py_strip k"]
  by (simp add: enqueue_job_def existing_job_def queue_safe_def)

section \<open>Running a job\<close>

lemma run_one_job_safe:
  assumes "run_one_job other others w handlers now s db = Inr (r, s', db')" and "queue_safe other (others db)"
    and "\<And>t h p c u d. handlers t = Some h \<Longrightarrow> queue_safe other d \<Longrightarrow> queue_safe other (snd (snd (snd (h p c u d))))"
  shows "queue_safe other db'"
proof -
  from assms(1) obtain claim db1 where claim: "claim_next_job others w now db = Inr (claim, db1)"
    by (auto simp: run_one_job_def result_simps)
  with assms(2) have inv1: "queue_safe other db1" by (blast intro: settle_safe)
  show ?thesis
  proof (cases claim)
    case None
    with assms(1) claim inv1 show ?thesis by (simp add: run_one_job_def)
  next
    case (Some j)
    show ?thesis
    proof (cases "handlers (job_type j)")
      case None
      with assms(1) claim Some inv1 show ?thesis by (auto simp: run_one_job_def result_simps intro: settle_safe)
    next
      case h: (Some h)
      obtain out s2 seen db2 where out: "h (payload j) (context_of j) s db1 = (out, s2, seen, db2)" by (metis prod.exhaust)
      with assms(3) [OF h inv1, of "payload j" "context_of j" s] have "queue_safe other db2" by simp
      with assms(1) claim Some h out show ?thesis
        by (cases out) (auto simp: run_one_job_def result_simps intro: settle_safe)
    qed
  qed
qed

section \<open>Properties of the job queue\<close>

text \<open>
  C4. Every table reachable by queue operations from the empty one is safe, however the operations are overtaken (each
  may act on rows loaded any number of commits ago): ids and idempotency keys are unique, attempt limits lie between 1 and
  100, a running job is locked and has been counted, payloads and results passed validation. Moreover the row of every job
  none of whose settlements was late (committed over a row that had changed since it was loaded) is well formed: attempts
  stay between 0 and the limit, below it for a queued job and at it for a dead letter; it is locked exactly when it runs,
  and has a completion time exactly when it is finished; failures carry an error; results belong to successes.
\<close>
theorem queue_reachable_ok:
  "queue_safe other (hd (run_events (job_step other) [[]] es)) \<and>
   (\<forall>j. j \<in> set (hd (run_events (job_step other) [[]] es)) \<longrightarrow> lates other (j_id j) [[]] es = 0 \<longrightarrow> job_ok other j)"
proof -
  have safe: "queue_safe other (hd (run_events (job_step other) [[]] es))" by (rule queue.run_inv) simp
  moreover have "job_ok other j" if "j \<in> set (hd (run_events (job_step other) [[]] es))" "lates other (j_id j) [[]] es = 0" for j
    using run_ok [of other "[[]]" "j_id j" es j] that find_job_unique [of _ j] safe
    by (simp add: queue_safe_def find_job_def)
  ultimately show ?thesis by blast
qed

text \<open>
  C14. Nothing accepted is lost or rewritten: whatever operations follow, and however they are overtaken, every job of a
  reachable table is still there with the same type, workspace, payload, idempotency key, attempt limit, request id and
  creation time; and a succeeded job is unchanged altogether if none of the operations that follow is a late settlement
  of it (one committed over a row that had changed since it was loaded).
\<close>
theorem queue_history_kept:
  assumes "find_job (hd (run_events (job_step other) [[]] es)) i = Some j"
  shows "\<exists>j'. find_job (hd (run_events (job_step other) [[]] (es @ fs))) i = Some j' \<and> intent j' = intent j \<and>
    (status j = Succeeded \<and> lates other i (run_events (job_step other) [[]] es) fs = 0 \<longrightarrow> j' = j)"
proof -
  let ?h = "run_events (job_step other) [[]] es"
  have "queue_safe other (hd ?h)" by (rule queue.run_inv) simp
  then have "keeps_rows ?h (run_events (job_step other) ?h fs)" by (rule queue.run_rel)
  with assms obtain j' where j': "find_job (hd (run_events (job_step other) ?h fs)) i = Some j'" "intent j' = intent j"
    unfolding keeps_rows_def by blast
  have "j' = j" if "status j = Succeeded \<and> lates other i ?h fs = 0"
    using run_final [OF assms, of other fs] that j'(1) by simp
  with j' show ?thesis unfolding queue.run_append by (intro exI [of _ j'] conjI impI)
qed

text \<open>
  C6. In every run in which a job is not explicitly replayed, the number of times a claim handed it to a worker equals its
  attempts column, and exceeds its attempt limit, which is at most 100, by no more than the number of its late settlements:
  a job is delivered at most as often as the limit allows unless a settlement was committed over a row that had
  changed since it was loaded, and each such settlement allows one delivery more.
\<close>
theorem deliveries_bounded:
  assumes "list_all (\<lambda>e. \<not> replays i e) es"
  shows "deliveries other i [[]] es \<le> 100 + lates other i [[]] es \<and>
    (\<forall>j. find_job (hd (run_events (job_step other) [[]] es)) i = Some j \<longrightarrow>
       int (deliveries other i [[]] es) = attempts j \<and> attempts j \<le> max_attempts j + int (lates other i [[]] es))"
proof -
  let ?db = "hd (run_events (job_step other) [[]] es)"
  have run: "attempts_of ?db i = int (deliveries other i [[]] es)"
    using attempts_of_run [of other "[[]]" i es] assms by (simp add: attempts_of_def find_job_def)
  have safe: "queue_safe other ?db" by (rule queue.run_inv) simp
  have budget: "within_budget (lates other i [[]] es) j" if "find_job ?db i = Some j" for j
    using run_budget [of other "[[]]" i 0 es j] that by (simp add: find_job_def)
  show ?thesis
  proof (cases "find_job ?db i")
    case None
    with run show ?thesis by (simp add: attempts_of_def)
  next
    case (Some j)
    with run budget [OF Some] job_safe_member [OF safe Some] show ?thesis
      by (auto simp: attempts_of_def within_budget_def job_safe_def)
  qed
qed

text \<open>
  C7. Enqueueing is idempotent: once a request with an idempotency key was accepted, any later valid
  request with the same key, whatever its type and payload and whatever happened to the table in between
  (operations on rows loaded long before included), stores nothing and returns the row of the first request, with the
  intent as it was accepted.
\<close>
theorem enqueue_idempotent:
  assumes "enqueue_job other (\<lambda>d. d) uuid now rq commit db = Inr (j, db1)" and "queue_safe other db"
    and "rq_key rq = Some k" and "rq_key rq' = Some k'" and "py_strip k' = py_strip k"
    and "check_request other rq' = Inr ()"
  shows "\<exists>j'. enqueue_job other others uuid' now' rq' commit' (hd (run_events (job_step other) (db1 # earlier) es))
            = Inr (j', hd (run_events (job_step other) (db1 # earlier) es)) \<and> intent j' = intent j"
proof -
  let ?db = "hd (run_events (job_step other) (db1 # earlier) es)"
  have safe1: "queue_safe other (hd (db1 # earlier))" using enqueue_safe [OF assms(1,2,2)] by simp
  have "j \<in> set db1" and key: "idempotency_key j = Some (py_strip k)"
    using enqueue_stores [OF assms(1,3)] by auto
  then have "find_job (hd (db1 # earlier)) (j_id j) = Some j"
    using find_job_unique [of db1 j] safe1 by (simp add: queue_safe_def)
  with queue.run_rel [OF safe1, of es] obtain j' where "find_job ?db (j_id j) = Some j'" and i: "intent j' = intent j"
    unfolding keeps_rows_def by blast
  then have "j' \<in> set ?db" "idempotency_key j' = Some (py_strip k')"
    using key assms(5) by (auto simp: intent_def dest: find_job_SomeD)
  with enqueue_again [OF queue.run_inv [OF safe1, of es] _ _ assms(4,6)] i show ?thesis by blast
qed

text \<open>
  C5. A claim is exclusive. Whatever other transactions did between the query and the compare-and-set,
  the returned job was queued and due at the update, is now running for this worker with one more
  attempt, no other row changed, and no later claim on the resulting table returns the same job.
\<close>
theorem claim_exclusive:
  assumes "claim_next_job others w now db = Inr (Some j, db')" and "queue_safe other (others db)"
  shows "(\<exists>k\<in>set (others db). status k = Queued \<and> available_at k \<le> now \<and> j = claimed (py_strip w) now k \<and>
            db' = update_job (j_id k) (claimed (py_strip w) now) (others db)) \<and>
         (\<forall>w' now' j2 db2. claim_next_job (\<lambda>d. d) w' now' db' = Inr (Some j2, db2) \<longrightarrow> j_id j2 \<noteq> j_id j)"
proof -
  obtain k where k: "k \<in> set (others db)" "ready now k" "j = claimed (py_strip w) now k"
    "db' = update_job (j_id k) (claimed (py_strip w) now) (others db)"
    using claim_result [OF assms(1)] assms(2) by (auto simp: queue_safe_def)
  have inv': "queue_safe other db'" using settle_safe(1) [OF assms] .
  have "j_id j2 \<noteq> j_id j" if claim2: "claim_next_job (\<lambda>d. d) w' now' db' = Inr (Some j2, db2)" for w' now' j2 db2
  proof
    assume eq: "j_id j2 = j_id j"
    obtain k2 where k2: "k2 \<in> set db'" "ready now' k2" "j_id j2 = j_id k2"
      using claim_result [OF claim2] inv' by (auto simp: queue_safe_def)
    have "j \<in> set db'" using k by (auto simp: update_job_def)
    then have "k2 = j"
      using find_job_unique [of db'] inv' k2 eq by (metis option.inject queue_safe_def)
    with k2(2) k(3) show False by (simp add: ready_def claimed_def)
  qed
  with k show ?thesis by (auto simp: ready_def)
qed

text \<open>
  A retryable failure of a running job below its attempt limit schedules the next attempt after
  exactly the exponential backoff \<open>min (backoff * 2 ^ (attempts - 1)) max_backoff\<close> seconds, which lies
  between zero and the maximum; the lock is released and the stored error has at most 4000 characters. The attempts
  are those of the row the session has loaded.
\<close>
theorem retry_backoff:
  assumes "fail_job i error True now backoff max_backoff seen db = Inr (j', db')" and "find_job seen i = Some j"
    and "attempts j < max_attempts j" and "1 \<le> attempts j"
  shows "status j' = Queued \<and> locked_by j' = None \<and>
    available_at j' = now + seconds (min (backoff * 2 ^ nat (attempts j - 1)) max_backoff) \<and>
    now \<le> available_at j' \<and> available_at j' \<le> now + seconds max_backoff \<and>
    (case last_error j' of None \<Rightarrow> False | Some e \<Rightarrow> e \<noteq> [] \<and> length e \<le> 4000)"
proof -
  have b: "0 \<le> backoff" "backoff \<le> max_backoff" and j': "j' = failed_job error True now backoff max_backoff j"
    using fail_job_SomeD [OF assms(1)] assms(2) by auto
  have "0 \<le> min (backoff * 2 ^ nat (attempts j - 1)) max_backoff" using b by simp
  with b j' assms(3,4) show ?thesis
    by (simp add: failed_job_def Let_def backoff_delay_def seconds_def or_default_def MAX_ERROR_LENGTH_def max_def)
qed

text \<open>
  The runner fails closed: when the claimed job's type has no registered handler, the run returns that
  job as failed, with no retry, and the only change to the claimed table, and to the state the handlers work on,
  is that job's row.
\<close>
theorem unknown_job_type_fails:
  assumes "claim_next_job others w now db = Inr (Some c, db1)" and "handlers (job_type c) = None"
    and "queue_safe other (others db)"
  shows "\<exists>j. run_one_job other others w handlers now s db = Inr (Some j, s, update_job (j_id c) (\<lambda>_. j) db1) \<and>
    j_id j = j_id c \<and> status j = Failed \<and> completed_at j = Some now \<and> locked_by j = None \<and>
    attempts j = attempts c"
proof -
  have inv1: "queue_safe other db1" using settle_safe(1) [OF assms(1,3)] .
  obtain k where k: "k \<in> set (others db)" "c = claimed (py_strip w) now k"
    "db1 = update_job (j_id k) (claimed (py_strip w) now) (others db)"
    using claim_result [OF assms(1)] assms(3) by (auto simp: queue_safe_def)
  have "c \<in> set db1" using k by (auto simp: update_job_def)
  then have fj: "find_job db1 (j_id c) = Some c" "status c = Running"
    using inv1 find_job_unique [of db1 c] k(2) by (simp_all add: queue_safe_def claimed_def)
  let ?j = "failed_job (''no handler registered for job type '' @ job_type c) False now
         DEFAULT_BACKOFF_SECONDS DEFAULT_MAX_BACKOFF_SECONDS c"
  have "intent ?j = intent c" using job_change_intent [OF job_change.FailedRun [OF fj(2)]] .
  then have row: "write_job c ?j db1 = update_job (j_id c) (\<lambda>_. ?j) db1"
    using inv1 unfolding queue_safe_def by (intro write_loaded [OF _ fj(1)]) simp_all
  have "DEFAULT_BACKOFF_SECONDS \<le> DEFAULT_MAX_BACKOFF_SECONDS" "0 \<le> DEFAULT_BACKOFF_SECONDS"
    by (simp_all add: DEFAULT_BACKOFF_SECONDS_def DEFAULT_MAX_BACKOFF_SECONDS_def)
  then have "fail_job (j_id c) (''no handler registered for job type '' @ job_type c) False now
      DEFAULT_BACKOFF_SECONDS DEFAULT_MAX_BACKOFF_SECONDS db1 db1 = Inr (?j, update_job (j_id c) (\<lambda>_. ?j) db1)"
    using fj unfolding row [symmetric] by (simp add: fail_job_def job_or_raise_def Let_def)
  then show ?thesis
    using assms(1,2) by (simp add: run_one_job_def Let_def) (simp add: failed_job_def Let_def)
qed

section \<open>Witnesses\<close>

definition sample_request :: job_request where
  "sample_request = \<lparr> rq_type = ''invitation.email.deliver.v1'', rq_payload = [(PStr ''invitation_id'', PStr ''inv-1'')],
     rq_key = Some ''invitation-email:inv-1'', rq_workspace = Some ''ws-1'', rq_request_id = None,
     rq_available_at = None, rq_max_attempts = 5 \<rparr>"

definition no_other :: "pyval \<Rightarrow> string" where
  "no_other v = ''?''"

definition sample_job :: job where
  "sample_job = new_job ''job-1'' 10 sample_request"

lemma sample_enqueue: "enqueue_job no_other (\<lambda>d. d) ''job-1'' 10 sample_request True [] = Inr (sample_job, [sample_job])"
  by code_simp

lemma sample_check: "check_request no_other sample_request = Inr ()"
  by code_simp

lemma sample_safe: "queue_safe no_other [sample_job]"
  using enqueue_safe [OF sample_enqueue] by simp

lemma sample_claim:
  "claim_next_job (\<lambda>d. d) ''w1'' 20 [sample_job] = Inr (Some (claimed ''w1'' 20 sample_job), [claimed ''w1'' 20 sample_job])"
  by code_simp

lemma sample_fail:
  "fail_job ''job-1'' ''timeout'' True 30 30 3600 [claimed ''w1'' 20 sample_job] [claimed ''w1'' 20 sample_job] =
     Inr (failed_job ''timeout'' True 30 30 3600 (claimed ''w1'' 20 sample_job),
          [failed_job ''timeout'' True 30 30 3600 (claimed ''w1'' 20 sample_job)])"
  by code_simp

text \<open>
  A worker that outlives its lease. The limit is two. The first worker claims the job, its lease is revoked, a second
  worker claims the job and dead-letters it; then the first one reports its failure on the row it loaded at its claim, three
  commits ago: one attempt of two. The dead letter is queued again, with a completion time, and is delivered a third time.
\<close>

definition two_attempts :: job_request where
  "two_attempts = sample_request \<lparr> rq_max_attempts := 2 \<rparr>"

definition late_worker_run :: "job_event list" where
  "late_worker_run = [Enqueue 0 ''job-1'' 10 two_attempts True, Claim 0 ''w1'' 20, RequeueExpired 0 5 40, Claim 0 ''w2'' 50,
     Fail 0 ''job-1'' ''timeout'' True 60 0 0, Fail 3 ''job-1'' ''timeout'' True 70 0 0]"

lemma late_worker_extra_delivery:
  "lates no_other ''job-1'' [[]] late_worker_run = 1"
  "map (\<lambda>j. (status j, attempts j, max_attempts j, completed_at j)) (hd (run_events (job_step no_other) [[]] late_worker_run)) =
     [(Queued, 2, 2, Some 60)]"
  "deliveries no_other ''job-1'' [[]] (late_worker_run @ [Claim 0 ''w3'' 80]) = 3"
  by code_simp+

text \<open>In the same way a success is undone: the second worker's success, then the failure the first one reports late.\<close>

lemma late_worker_undoes_success:
  "map status (hd (run_events (job_step no_other) [[]] (take 4 late_worker_run @ [Complete 0 ''job-1'' None 60]))) = [Succeeded]"
  "map status (hd (run_events (job_step no_other) [[]]
     (take 4 late_worker_run @ [Complete 0 ''job-1'' None 60, Fail 3 ''job-1'' ''timeout'' True 70 0 0]))) = [Queued]"
  by code_simp+

definition sample_run :: "job_event list" where
  "sample_run = [Enqueue 0 ''job-1'' 10 sample_request True, Claim 0 ''w1'' 20, Enqueue 1 ''job-2'' 25 (sample_request \<lparr> rq_key := None \<rparr>) True,
     Complete 1 ''job-1'' None 30]"

lemma sample_run_row:
  "map (\<lambda>j. (j_id j, status j)) (hd (run_events (job_step no_other) [[]] sample_run)) = [(''job-1'', Succeeded), (''job-2'', Queued)]"
  "lates no_other ''job-1'' [[]] sample_run = 0"
  by code_simp+

theorem queue_reachable_ok_witness:
  "\<exists>j. j \<in> set (hd (run_events (job_step no_other) [[]] sample_run)) \<and> j_id j = ''job-1'' \<and> completed_at j \<noteq> None"
proof -
  obtain j k where j: "hd (run_events (job_step no_other) [[]] sample_run) = [j, k]" "j_id j = ''job-1''" "status j = Succeeded"
    using sample_run_row(1) by (auto simp: map_eq_Cons_conv)
  with queue_reachable_ok [of no_other sample_run] sample_run_row(2) have "job_ok no_other j" by simp
  with j show ?thesis by (intro exI [of _ j]) (simp add: job_ok_def)
qed

theorem queue_history_kept_witness:
  "\<exists>j. find_job (hd (run_events (job_step no_other) [[]] sample_run)) ''job-1'' = Some j \<and> status j = Succeeded \<and>
     find_job (hd (run_events (job_step no_other) [[]] (sample_run @ [Claim 0 ''w1'' 40]))) ''job-1'' = Some j"
proof -
  obtain j where j: "find_job (hd (run_events (job_step no_other) [[]] sample_run)) ''job-1'' = Some j" "status j = Succeeded"
    using sample_run_row(1) by (auto simp: map_eq_Cons_conv find_job_def)
  moreover have "lates no_other ''job-1'' (run_events (job_step no_other) [[]] sample_run) [Claim 0 ''w1'' 40] = 0" by code_simp
  ultimately show ?thesis using queue_history_kept [OF j(1), of "[Claim 0 ''w1'' 40]"] by blast
qed

theorem deliveries_bounded_witness:
  "deliveries no_other ''job-1'' [[]] (late_worker_run @ [Claim 0 ''w3'' 80]) \<le> 100 + lates no_other ''job-1'' [[]] (late_worker_run @ [Claim 0 ''w3'' 80])"
  using deliveries_bounded [of "''job-1''" "late_worker_run @ [Claim 0 ''w3'' 80]" no_other] by (simp add: late_worker_run_def)

theorem enqueue_idempotent_witness:
  "\<exists>j'. enqueue_job no_other (\<lambda>d. d) ''job-2'' 40 sample_request True
           (hd (run_events (job_step no_other) [[sample_job], []] [Claim 0 ''w1'' 20]))
         = Inr (j', hd (run_events (job_step no_other) [[sample_job], []] [Claim 0 ''w1'' 20])) \<and> intent j' = intent sample_job"
  by (rule enqueue_idempotent [OF sample_enqueue _ _ _ _ sample_check]) (simp_all add: sample_request_def)

theorem claim_exclusive_witness:
  "\<not> (\<exists>w' now' j2 db2. claim_next_job (\<lambda>d. d) w' now' [claimed ''w1'' 20 sample_job] = Inr (Some j2, db2) \<and>
     j_id j2 = j_id (claimed ''w1'' 20 sample_job))"
  using claim_exclusive [OF sample_claim sample_safe] by blast

theorem retry_backoff_witness:
  "available_at (failed_job ''timeout'' True 30 30 3600 (claimed ''w1'' 20 sample_job)) = 30 + seconds 30"
proof -
  have "find_job [claimed ''w1'' 20 sample_job] ''job-1'' = Some (claimed ''w1'' 20 sample_job)"
    "attempts (claimed ''w1'' 20 sample_job) = 1" "max_attempts (claimed ''w1'' 20 sample_job) = 5"
    by code_simp+
  then show ?thesis using retry_backoff [OF sample_fail] by simp
qed

theorem unknown_job_type_fails_witness:
  "\<exists>j. run_one_job no_other (\<lambda>d. d) ''w1'' (\<lambda>_. None) 20 () [sample_job] =
     Inr (Some j, (), update_job (j_id (claimed ''w1'' 20 sample_job)) (\<lambda>_. j) [claimed ''w1'' 20 sample_job]) \<and> status j = Failed"
  using unknown_job_type_fails [OF sample_claim, of "\<lambda>_. None" no_other "()"] sample_safe by blast

end
