(* ===== verification/JobContracts.thy ===== *)
theory JobContracts
  imports JobQueue TenantScope
begin

text \<open>
  \<open>backend/app/job_contracts.py\<close>, \<open>job_producers.py\<close> and \<open>job_services.py\<close>: the versioned payloads of the two allowed
  job types, the W3C trace context they carry, the producers that enqueue them, and the administrative replay of a
  failed job. A pydantic \<open>ValidationError\<close> is \<open>ValueError\<close>.
\<close>

section \<open>Trace context\<close>

definition is_lower_hex :: "char \<Rightarrow> bool" where
  "is_lower_hex c = (is_digit c \<or> (97 \<le> nat_of_char c \<and> nat_of_char c \<le> 102))"

definition hex_of_length :: "nat \<Rightarrow> string \<Rightarrow> bool" where
  "hex_of_length n s = (length s = n \<and> list_all is_lower_hex s)"

text \<open>The full match of \<open>_TRACEPARENT_RE\<close>, and the three refused values.\<close>

definition traceparent_ok :: "string \<Rightarrow> bool" where
  "traceparent_ok s = (case py_split CHR ''-'' s of
     [version, trace, parent, flags] \<Rightarrow>
       hex_of_length 2 version \<and> hex_of_length 32 trace \<and> hex_of_length 16 parent \<and> hex_of_length 2 flags \<and>
       version \<noteq> ''ff'' \<and> trace \<noteq> replicate 32 CHR ''0'' \<and> parent \<noteq> replicate 16 CHR ''0''
   | _ \<Rightarrow> False)"

definition validate_traceparent :: "string \<Rightarrow> app_error + string" where
  "validate_traceparent v = (let s = py_lower (py_strip v) in if traceparent_ok s then Inr s else Inl ValueError)"

definition key_start :: "char \<Rightarrow> bool" where
  "key_start c = (is_digit c \<or> (97 \<le> nat_of_char c \<and> nat_of_char c \<le> 122))"

definition key_char :: "char \<Rightarrow> bool" where
  "key_char c = (key_start c \<or> c \<in> set ''_-*/'')"

definition simple_key :: "nat \<Rightarrow> string \<Rightarrow> bool" where
  "simple_key n s = (case s of [] \<Rightarrow> False | c # cs \<Rightarrow> key_start c \<and> length cs \<le> n \<and> list_all key_char cs)"

text \<open>The full match of \<open>_TRACESTATE_KEY_RE\<close>: a key, or a tenant key of two parts around an at-sign.\<close>

definition tracestate_key_ok :: "string \<Rightarrow> bool" where
  "tracestate_key_ok s =
     (simple_key 255 s \<or> (case py_split CHR ''@'' s of [a, b] \<Rightarrow> simple_key 240 a \<and> simple_key 13 b | _ \<Rightarrow> False))"

definition before_eq :: "string \<Rightarrow> string" where
  "before_eq s = takeWhile (\<lambda>c. c \<noteq> CHR ''='') s"

definition after_eq :: "string \<Rightarrow> string" where
  "after_eq s = tl (dropWhile (\<lambda>c. c \<noteq> CHR ''='') s)"

definition blank_char :: "char \<Rightarrow> bool" where
  "blank_char c = (nat_of_char c \<in> {32, 9})"

definition member_ok :: "string list \<Rightarrow> string \<Rightarrow> bool" where
  "member_ok keys m =
     (let k = before_eq m; v = after_eq m in
      CHR ''='' \<in> set m \<and> tracestate_key_ok k \<and> v \<noteq> [] \<and> length v \<le> 256 \<and> \<not> blank_char (hd v) \<and> \<not> blank_char (last v) \<and>
      CHR '','' \<notin> set v \<and> CHR ''='' \<notin> set v \<and> k \<notin> set keys)"

fun members_ok :: "string list \<Rightarrow> string list \<Rightarrow> bool" where
  "members_ok keys [] = True"
| "members_ok keys (m # ms) = (member_ok keys m \<and> members_ok (before_eq m # keys) ms)"

definition validate_tracestate :: "string option \<Rightarrow> app_error + string option" where
  "validate_tracestate v = (case v of
     None \<Rightarrow> Inr None
   | Some t \<Rightarrow>
       let s = py_strip t in
       if s = [] then Inr None
       else if length s > 512 \<or> list_ex (\<lambda>c. nat_of_char c < 32 \<or> nat_of_char c > 126) s then Inl ValueError
       else let ms = map py_strip (py_split CHR '','' s) in
         if length ms > 32 \<or> \<not> members_ok [] ms then Inl ValueError else Inr (Some (join_with '','' ms)))"

record trace_context =
  traceparent :: string
  tracestate :: "string option"

definition make_trace_context :: "string \<Rightarrow> string option \<Rightarrow> app_error + trace_context" where
  "make_trace_context p s =
     rbind (validate_traceparent p) (\<lambda>p'. rbind (validate_tracestate s) (\<lambda>s'. Inr \<lparr> traceparent = p', tracestate = s' \<rparr>))"

definition validated_trace_context :: "string option \<Rightarrow> string option \<Rightarrow> trace_context option" where
  "validated_trace_context p s = (case p of
     None \<Rightarrow> None
   | Some v \<Rightarrow> if v = [] then None
       else (case make_trace_context v s of Inl _ \<Rightarrow> None | Inr t \<Rightarrow> Some t))"

section \<open>Payloads\<close>

definition GITHUB_CHECK_PUBLISH_JOB :: string where "GITHUB_CHECK_PUBLISH_JOB = ''github.check.publish.v1''"
definition INVITATION_EMAIL_DELIVER_JOB :: string where "INVITATION_EMAIL_DELIVER_JOB = ''invitation.email.deliver.v1''"

record check_payload =
  cp_connection :: string
  cp_repository :: string
  cp_change :: string
  cp_trace :: "trace_context option"

definition validate_reference :: "string \<Rightarrow> app_error + string" where
  "validate_reference v = (let s = py_strip v in if s = [] \<or> length s > 160 then Inl ValueError else Inr s)"

definition make_check_payload :: "string \<Rightarrow> string \<Rightarrow> string \<Rightarrow> trace_context option \<Rightarrow> app_error + check_payload" where
  "make_check_payload c r ch t =
     rbind (validate_reference c) (\<lambda>c'. rbind (validate_reference r) (\<lambda>r'. rbind (validate_reference ch) (\<lambda>ch'.
     Inr \<lparr> cp_connection = c', cp_repository = r', cp_change = ch', cp_trace = t \<rparr>)))"

text \<open>\<open>model_dump(mode="json", exclude_none=True)\<close>.\<close>

definition dump_trace :: "trace_context \<Rightarrow> pydict" where
  "dump_trace t = (PStr ''traceparent'', PStr (traceparent t)) #
     (case tracestate t of None \<Rightarrow> [] | Some s \<Rightarrow> [(PStr ''tracestate'', PStr s)])"

definition dump_check :: "check_payload \<Rightarrow> pydict" where
  "dump_check p = [(PStr ''schema_version'', PInt 1), (PStr ''connection_id'', PStr (cp_connection p)),
     (PStr ''repository_id'', PStr (cp_repository p)), (PStr ''change_id'', PStr (cp_change p))] @
     (case cp_trace p of None \<Rightarrow> [] | Some t \<Rightarrow> [(PStr ''trace_context'', PDict (dump_trace t))])"

text \<open>\<open>model_validate\<close>: no unknown keys, the schema version one when given, strings where strings are declared.\<close>

definition str_field :: "pydict \<Rightarrow> string \<Rightarrow> app_error + string" where
  "str_field d k = (case dget d k of Some (PStr s) \<Rightarrow> Inr s | _ \<Rightarrow> Inl ValueError)"

definition opt_str_field :: "pydict \<Rightarrow> string \<Rightarrow> app_error + string option" where
  "opt_str_field d k = (case dget d k of
     None \<Rightarrow> Inr None | Some PNone \<Rightarrow> Inr None | Some (PStr s) \<Rightarrow> Inr (Some s) | _ \<Rightarrow> Inl ValueError)"

definition known_keys :: "pydict \<Rightarrow> string list \<Rightarrow> app_error + unit" where
  "known_keys d allowed = rguard (unknown_keys d allowed = []) ValueError"

definition schema_version_ok :: "pydict \<Rightarrow> app_error + unit" where
  "schema_version_ok d = rguard (case dget d ''schema_version'' of None \<Rightarrow> True | Some v \<Rightarrow> v = PInt 1) ValueError"

definition parse_trace :: "pydict \<Rightarrow> app_error + trace_context" where
  "parse_trace d = rbind (known_keys d [''traceparent'', ''tracestate'']) (\<lambda>_.
     rbind (str_field d ''traceparent'') (\<lambda>p. rbind (opt_str_field d ''tracestate'') (\<lambda>s. make_trace_context p s)))"

definition parse_check :: "pydict \<Rightarrow> app_error + check_payload" where
  "parse_check d =
     rbind (known_keys d [''schema_version'', ''connection_id'', ''repository_id'', ''change_id'', ''trace_context'']) (\<lambda>_.
     rbind (schema_version_ok d) (\<lambda>_.
     rbind (str_field d ''connection_id'') (\<lambda>c. rbind (str_field d ''repository_id'') (\<lambda>r. rbind (str_field d ''change_id'') (\<lambda>ch.
     rbind (case dget d ''trace_context'' of
              None \<Rightarrow> Inr None | Some PNone \<Rightarrow> Inr None
            | Some (PDict t) \<Rightarrow> rbind (parse_trace t) (\<lambda>x. Inr (Some x)) | _ \<Rightarrow> Inl ValueError) (\<lambda>t.
     make_check_payload c r ch t))))))"

definition dump_invitation :: "string \<Rightarrow> pydict" where
  "dump_invitation i = [(PStr ''schema_version'', PInt 1), (PStr ''invitation_id'', PStr i)]"

definition parse_invitation :: "pydict \<Rightarrow> app_error + string" where
  "parse_invitation d = rbind (known_keys d [''schema_version'', ''invitation_id'']) (\<lambda>_.
     rbind (schema_version_ok d) (\<lambda>_. rbind (str_field d ''invitation_id'') validate_reference))"

section \<open>Producers\<close>

text \<open>\<open>ProviderConnection\<close>, and the columns of \<open>ChangeRecord\<close> that publishing a check and recording a deployment read or write; JSON columns are dictionaries.\<close>

record connection =
  cn_id :: string
  cn_workspace :: string
  cn_provider :: string
  cn_installation :: string
  cn_account_id :: string
  cn_account_login :: string
  cn_account_type :: string
  cn_state :: string
  cn_permissions :: pydict
  cn_selection :: string
  cn_created_by :: string
  cn_created :: int
  cn_updated :: int
  cn_last_synced :: "int option"
  cn_error :: "string option"

record change =
  ch_id :: string
  ch_workspace :: string
  ch_repository :: string
  ch_scenario :: string
  ch_data_mode :: string
  ch_commit_sha :: string
  ch_test_coverage :: "pyfloat option"
  ch_rollback_ready :: "bool option"
  ch_risk :: pydict
  ch_blast_radius :: pydict
  ch_created :: int
  ch_changed_services :: "string list"
  ch_deployment_status :: string
  ch_deployment_environment :: string
  ch_title :: string
  ch_repository_name :: string
  ch_author :: string
  ch_branch :: string
  ch_files_changed :: int
  ch_lines_added :: int
  ch_lines_deleted :: int
  ch_flags :: "string list"
  ch_observability :: "pyfloat option"
  ch_previous_failures :: "int option"
  ch_schema_version :: string
  ch_engine_version :: string
  ch_policy_version :: string
  ch_graph_version :: string

datatype producer_error = Contract app_error | Queue queue_error

fun lift_app :: "app_error + 'a \<Rightarrow> producer_error + 'a" where
  "lift_app (Inl e) = Inl (Contract e)" | "lift_app (Inr x) = Inr x"

fun lift_queue :: "queue_error + 'a \<Rightarrow> producer_error + 'a" where
  "lift_queue (Inl e) = Inl (Queue e)" | "lift_queue (Inr x) = Inr x"

text \<open>\<open>str((connection.permissions or {}).get("checks", "")).lower() != "write"\<close>; the text of a value that is not a string
  is a parameter.\<close>

definition checks_permission :: "(pyval \<Rightarrow> string) \<Rightarrow> connection \<Rightarrow> string" where
  "checks_permission str_of c = py_lower (case dget_or (cn_permissions c) ''checks'' (PStr []) of PStr s \<Rightarrow> s | v \<Rightarrow> str_of v)"

definition check_job :: "connection \<Rightarrow> repository \<Rightarrow> change \<Rightarrow> string \<Rightarrow> check_payload \<Rightarrow> job_request" where
  "check_job c r ch req contract =
     \<lparr> rq_type = GITHUB_CHECK_PUBLISH_JOB, rq_payload = dump_check contract,
       rq_key = Some (''github-check:'' @ r_id r @ '':'' @ ch_id ch), rq_workspace = Some (cn_workspace c),
       rq_request_id = Some req, rq_available_at = None, rq_max_attempts = 5 \<rparr>"

definition enqueue_github_check_publication ::
  "settings \<Rightarrow> (pyval \<Rightarrow> string) \<Rightarrow> (jobs \<Rightarrow> jobs) \<Rightarrow> string \<Rightarrow> int \<Rightarrow> connection \<Rightarrow> repository \<Rightarrow> change \<Rightarrow> string \<Rightarrow>
   string option \<Rightarrow> string option \<Rightarrow> bool \<Rightarrow> jobs \<Rightarrow> producer_error + job option \<times> jobs" where
  "enqueue_github_check_publication st str_of others uuid t0 c r ch req tp ts commit db =
     (if \<not> github_checks_enabled st \<or> cn_state c \<noteq> ''connected'' \<or> checks_permission str_of c \<noteq> ''write'' then Inr (None, db)
      else if r_workspace r \<noteq> cn_workspace c \<or> ch_workspace ch \<noteq> cn_workspace c \<or> ch_repository ch \<noteq> r_id r \<or>
        r_provider r \<noteq> ''github'' \<or> \<not> r_selected r \<or> ch_data_mode ch \<noteq> ''connected'' then Inr (None, db)
      else rbind (lift_app (make_check_payload (cn_id c) (r_id r) (ch_id ch) (validated_trace_context tp ts))) (\<lambda>contract.
        rbind (lift_queue (enqueue_job str_of others uuid t0 (check_job c r ch req contract) commit db)) (\<lambda>(j, db').
        Inr (Some j, db'))))"

definition enqueue_invitation_email_delivery ::
  "(pyval \<Rightarrow> string) \<Rightarrow> (jobs \<Rightarrow> jobs) \<Rightarrow> string \<Rightarrow> int \<Rightarrow> invitation \<Rightarrow> string \<Rightarrow> bool \<Rightarrow> jobs \<Rightarrow> producer_error + job \<times> jobs" where
  "enqueue_invitation_email_delivery str_of others uuid t0 i req commit db =
     rbind (lift_app (validate_reference (i_id i))) (\<lambda>k.
     lift_queue (enqueue_job str_of others uuid t0
       \<lparr> rq_type = INVITATION_EMAIL_DELIVER_JOB, rq_payload = dump_invitation k,
         rq_key = Some (''invitation-email:'' @ i_id i), rq_workspace = Some (i_workspace i), rq_request_id = Some req,
         rq_available_at = None, rq_max_attempts = 1 \<rparr> commit db))"

section \<open>Administration of failed jobs\<close>

record job_tables =
  job_app :: app
  job_rows :: jobs

fun status_text :: "job_status \<Rightarrow> string" where
  "status_text Queued = ''queued''" | "status_text Running = ''running''" | "status_text Succeeded = ''succeeded''"
| "status_text Failed = ''failed''" | "status_text DeadLetter = ''dead_letter''"

definition list_jobs_requiring_attention ::
  "user \<Rightarrow> string \<Rightarrow> nat \<Rightarrow> job_tables \<Rightarrow> app_error + jobs \<times> job_tables" where
  "list_jobs_requiring_attention usr w limit s =
     rbind (membership_for usr w Responder (job_app s)) (\<lambda>(_, db).
     Inr (take limit (sort_key (\<lambda>j. (- updated_at j, j_id j))
            (filter (\<lambda>j. workspace_id j = Some w \<and> status j \<in> {Failed, DeadLetter}) (job_rows s))), s \<lparr> job_app := db \<rparr>))"

text \<open>\<open>others\<close> is what workers and producers commit between the query and the write.\<close>

definition replay_failed_job ::
  "(jobs \<Rightarrow> jobs) \<Rightarrow> environment \<Rightarrow> user \<Rightarrow> string \<Rightarrow> string \<Rightarrow> string \<Rightarrow> job_tables \<Rightarrow> app_error + job \<times> job_tables" where
  "replay_failed_job others env usr w k req s =
     rbind (membership_for usr w Admin (job_app s)) (\<lambda>(_, db).
     case find (\<lambda>j. j_id j = k \<and> workspace_id j = Some w) (job_rows s) of
       None \<Rightarrow> Inl (not_found ''Background job not found'' ''job_not_found'')
     | Some j \<Rightarrow>
         (case replay_dead_letter_job k None (now env) (job_rows s) (others (job_rows s)) of
            Inl _ \<Rightarrow> Inl (conflict ''Background job is not replayable'' ''job_not_replayable'')
          | Inr (j', rows) \<Rightarrow>
              rbind (commit_db (audit env 0 w (Some (u_id usr)) ''background_job.replayed'' ''background_job'' k req
                [(''previous_status'', status_text (status j))] db)) (\<lambda>db'.
              Inr (j', s \<lparr> job_app := db', job_rows := rows \<rparr>))))"

section \<open>Normal forms of strings\<close>

lemma strip_by_fixed: "strip_by p s = s \<longleftrightarrow> s = [] \<or> (\<not> p (hd s) \<and> \<not> p (last s))"
proof
  assume *: "strip_by p s = s"
  show "s = [] \<or> (\<not> p (hd s) \<and> \<not> p (last s))"
  proof (cases s rule: rev_cases)
    case (snoc ys y)
    have "dropWhile p s = s" by (metis * dropWhile_strip_by)
    then have "\<not> p (hd s)" using snoc by (metis hd_dropWhile append_is_Nil_conv not_Cons_self2)
    moreover have "dropWhile p (rev s) = rev s"
      using * \<open>dropWhile p s = s\<close> unfolding strip_by_def by (metis rev_rev_ident)
    then have "\<not> p (last s)" using snoc by (metis hd_dropWhile hd_rev list.discI rev_is_Nil_conv snoc_eq_iff_butlast)
    ultimately show ?thesis by simp
  qed simp
next
  assume *: "s = [] \<or> (\<not> p (hd s) \<and> \<not> p (last s))"
  show "strip_by p s = s"
  proof (cases "s = []")
    case False
    with * have "dropWhile p s = s" by (cases s) auto
    moreover have "dropWhile p (rev s) = rev s"
      using * False by (cases s rule: rev_cases) auto
    ultimately show ?thesis by (simp add: strip_by_def)
  qed (simp add: strip_by_def)
qed

lemma set_strip_by: "set (strip_by p s) \<subseteq> set s"
  by (auto simp: strip_by_def dest!: set_dropWhileD)

lemma lower_char_space [simp]: "is_space (lower_char c) \<longleftrightarrow> is_space c"
  by (auto simp: is_space_def lower_char_def nat_of_char_def Let_def)

lemma py_strip_lower: "py_strip (py_lower s) = py_lower (py_strip s)"
  by (simp add: py_strip_def strip_by_def py_lower_def dropWhile_map rev_map comp_def)

lemma py_split_chars: "w \<in> set (py_split c s) \<Longrightarrow> c \<notin> set w \<and> set w \<subseteq> set s"
proof (induction s arbitrary: w)
  case (Cons d s)
  then show ?case by (cases "py_split c s") (fastforce split: if_splits)+
qed simp

lemma join_with_Cons: "join_with d (w # ws) = w @ (if ws = [] then [] else d @ join_with d ws)"
  by (cases ws) (auto simp: join_with_def)

lemma join_py_split: "join_with [c] (py_split c s) = s"
proof (induction s)
  case (Cons d s)
  then show ?case by (cases "py_split c s") (auto simp: join_with_Cons)
qed (simp add: join_with_def)

lemma py_split_word: "c \<notin> set w \<Longrightarrow> py_split c w = [w]"
  by (induction w) auto

lemma py_split_append: "c \<notin> set w \<Longrightarrow> py_split c (w @ c # s) = w # py_split c s"
  by (induction w) auto

lemma py_split_join:
  "ws \<noteq> [] \<Longrightarrow> \<forall>w\<in>set ws. c \<notin> set w \<Longrightarrow> py_split c (join_with [c] ws) = ws"
proof (induction ws)
  case (Cons w ws)
  then show ?case by (cases "ws = []") (simp_all add: join_with_Cons py_split_word py_split_append)
qed simp

lemma length_join_strip: "length (join_with d (map py_strip ws)) \<le> length (join_with d ws)"
proof (induction ws)
  case (Cons w ws)
  then show ?case using length_strip_by [of is_space w] by (simp add: join_with_Cons py_strip_def)
qed (simp add: join_with_def)

lemma set_join_with: "set (join_with d ws) \<subseteq> set d \<union> \<Union> (set ` set ws)"
  by (induction ws) (auto simp: join_with_Cons, simp add: join_with_def)

lemma hd_join_with: "ws \<noteq> [] \<Longrightarrow> hd ws \<noteq> [] \<Longrightarrow> hd (join_with d ws) = hd (hd ws)"
  by (cases ws) (auto simp: join_with_Cons)

lemma last_join_with: "ws \<noteq> [] \<Longrightarrow> last ws \<noteq> [] \<Longrightarrow> last (join_with d ws) = last (last ws) \<and> join_with d ws \<noteq> []"
proof (induction ws)
  case (Cons w ws)
  then show ?case by (cases "ws = []") (auto simp: join_with_Cons)
qed simp

section \<open>Round trips\<close>

lemma validate_traceparent_idem: "validate_traceparent v = Inr s \<Longrightarrow> validate_traceparent s = Inr s"
  by (auto simp: validate_traceparent_def Let_def py_strip_lower split: if_splits)

lemma simple_key_chars: "simple_key n s \<Longrightarrow> list_all key_char s"
  by (auto simp: simple_key_def key_char_def split: list.splits)

lemma tracestate_key_chars: "tracestate_key_ok s \<Longrightarrow> list_all (\<lambda>c. key_char c \<or> c = CHR ''@'') s"
proof -
  assume "tracestate_key_ok s"
  then consider "simple_key 255 s"
    | a b where "py_split CHR ''@'' s = [a, b]" "simple_key 240 a" "simple_key 13 b"
    by (auto simp: tracestate_key_ok_def split: list.splits)
  then show ?thesis
  proof cases
    case 1
    then show ?thesis by (auto dest!: simple_key_chars simp: list_all_iff)
  next
    case 2
    then have "s = a @ CHR ''@'' # b"
      using join_py_split [of "CHR ''@''" s] by (simp add: join_with_Cons)
    with 2 show ?thesis by (auto dest!: simple_key_chars simp: list_all_iff)
  qed
qed

lemma key_char_not_comma: "\<not> key_char CHR '',''"
  by code_simp

lemma takeWhile_neq_split: "e \<in> set m \<Longrightarrow> m = takeWhile (\<lambda>c. c \<noteq> e) m @ e # tl (dropWhile (\<lambda>c. c \<noteq> e) m)"
  by (induction m) auto

lemma eq_split: "CHR ''='' \<in> set m \<Longrightarrow> m = before_eq m @ CHR ''='' # after_eq m"
  unfolding before_eq_def after_eq_def by (rule takeWhile_neq_split)

lemma member_ok_chars:
  assumes "member_ok keys m"
  shows "m \<noteq> [] \<and> CHR '','' \<notin> set m"
proof -
  have eq: "CHR ''='' \<in> set m" and key: "tracestate_key_ok (before_eq m)" and val: "CHR '','' \<notin> set (after_eq m)"
    using assms by (simp_all add: member_ok_def Let_def)
  have "set m = set (before_eq m @ CHR ''='' # after_eq m)" using eq_split [OF eq] by (rule arg_cong)
  moreover have "CHR '','' \<notin> set (before_eq m)"
    using tracestate_key_chars [OF key] key_char_not_comma by (auto simp: list_all_iff)
  ultimately have "CHR '','' \<notin> set m" using val by (simp del: set_takeWhileD)
  then show ?thesis using eq by auto
qed

lemma members_ok_chars: "members_ok keys ms \<Longrightarrow> m \<in> set ms \<Longrightarrow> m \<noteq> [] \<and> CHR '','' \<notin> set m"
  by (induction ms arbitrary: keys) (use member_ok_chars in auto)

lemma validate_tracestate_idem:
  assumes "validate_tracestate (Some t) = Inr (Some u)"
  shows "validate_tracestate (Some u) = Inr (Some u)"
proof -
  define s where "s = py_strip t"
  define ms where "ms = map py_strip (py_split CHR '','' s)"
  have s: "length s \<le> 512" "list_all (\<lambda>c. 32 \<le> nat_of_char c \<and> nat_of_char c \<le> 126) s"
    and ms: "length ms \<le> 32" "members_ok [] ms" and u: "u = join_with '','' ms"
    using assms by (auto simp: validate_tracestate_def Let_def s_def ms_def list_ex_iff list_all_iff not_less split: if_splits)
  have ne: "ms \<noteq> []" by (simp add: ms_def)
  have word: "m \<noteq> []" "CHR '','' \<notin> set m" if "m \<in> set ms" for m using members_ok_chars [OF ms(2) that] by auto
  have strip: "py_strip m = m" if "m \<in> set ms" for m using that by (auto simp: ms_def)
  have end1: "hd u = hd (hd ms)" "last u = last (last ms)" "u \<noteq> []"
    using ne word hd_join_with [of ms] last_join_with [of ms] unfolding u by auto
  moreover have "\<not> is_space (hd (hd ms))" "\<not> is_space (last (last ms))"
    using strip [of "hd ms"] strip [of "last ms"] word ne by (auto simp: py_strip_def strip_by_fixed)
  ultimately have "py_strip u = u" by (simp add: py_strip_def strip_by_fixed)
  moreover have "length u \<le> 512"
    using length_join_strip [of "'',''" "py_split CHR '','' s"] s(1) by (simp add: u ms_def join_py_split)
  moreover have "list_all (\<lambda>c. 32 \<le> nat_of_char c \<and> nat_of_char c \<le> 126) u"
  proof -
    have "set m \<subseteq> set s" if "m \<in> set ms" for m
      using that set_strip_by py_split_chars unfolding ms_def py_strip_def by fastforce
    then have "set u \<subseteq> {CHR '',''} \<union> set s" using set_join_with [of "'',''" ms] unfolding u by auto
    moreover have "nat_of_char CHR '','' = 44" by (simp add: nat_of_char_def)
    ultimately show ?thesis using s(2) by (auto simp: list_all_iff)
  qed
  moreover have "py_split CHR '','' u = ms" unfolding u using ne word by (intro py_split_join) auto
  moreover have "map py_strip ms = ms" using strip by (simp add: map_idI)
  ultimately show ?thesis using ms end1(3)
    by (auto simp: validate_tracestate_def Let_def u list_ex_iff list_all_iff not_less)
qed

lemma parse_dump_trace:
  assumes "make_trace_context p s = Inr t"
  shows "parse_trace (dump_trace t) = Inr t"
proof -
  have p: "validate_traceparent (traceparent t) = Inr (traceparent t)"
    using assms by (auto simp: make_trace_context_def result_simps dest: validate_traceparent_idem)
  have s: "validate_tracestate (tracestate t) = Inr (tracestate t)"
  proof (cases "tracestate t")
    case (Some u)
    with assms have "validate_tracestate s = Inr (Some u)" by (auto simp: make_trace_context_def result_simps)
    then obtain v where "validate_tracestate (Some v) = Inr (Some u)"
      by (cases s) (auto simp: validate_tracestate_def)
    then show ?thesis using Some validate_tracestate_idem by simp
  qed (simp add: validate_tracestate_def)
  show ?thesis
    using p s by (cases "tracestate t")
      (auto simp: parse_trace_def dump_trace_def known_keys_def unknown_keys_def rguard_def str_field_def opt_str_field_def
        dget_def make_trace_context_def)
qed

lemma validated_trace_context_Some:
  "validated_trace_context p s = Some t \<Longrightarrow> \<exists>v. make_trace_context v s = Inr t"
  by (auto simp: validated_trace_context_def split: option.splits if_splits sum.splits)

lemma validate_reference_Inr: "validate_reference v = Inr s \<longleftrightarrow> s = py_strip v \<and> s \<noteq> [] \<and> length s \<le> 160"
  by (auto simp: validate_reference_def Let_def)

lemma make_check_payload_Inr:
  "make_check_payload c r ch t = Inr p \<longleftrightarrow>
     (\<forall>x\<in>{c, r, ch}. py_strip x \<noteq> [] \<and> length (py_strip x) \<le> 160) \<and>
     p = \<lparr> cp_connection = py_strip c, cp_repository = py_strip r, cp_change = py_strip ch, cp_trace = t \<rparr>"
  by (auto simp: make_check_payload_def result_simps validate_reference_Inr)

lemma parse_dump_check:
  assumes "make_check_payload c r ch (validated_trace_context tp ts) = Inr p"
  shows "parse_check (dump_check p) = Inr p"
proof -
  have p: "make_check_payload (cp_connection p) (cp_repository p) (cp_change p) (cp_trace p) = Inr p"
    using assms by (auto simp: make_check_payload_Inr)
  have t: "parse_trace (dump_trace t) = Inr t" if "cp_trace p = Some t" for t
    using assms that parse_dump_trace by (auto simp: make_check_payload_Inr dest!: validated_trace_context_Some)
  show ?thesis
    using p t by (cases "cp_trace p")
      (auto simp: parse_check_def dump_check_def known_keys_def unknown_keys_def schema_version_ok_def rguard_def
        str_field_def dget_def)
qed

lemma payload_keys_not_sensitive:
  "list_all (\<lambda>k. \<not> sensitive_key k) [''schema_version'', ''connection_id'', ''repository_id'', ''change_id'',
     ''trace_context'', ''traceparent'', ''tracestate'', ''invitation_id'']"
  by code_simp

lemma dump_check_accepted: "validate_payload other path (PDict (dump_check p)) = Inr ()"
  using payload_keys_not_sensitive
  by (cases "cp_trace p"; cases "tracestate (the (cp_trace p))")
    (auto simp: dump_check_def dump_trace_def rguard_def Let_def)

lemma parse_dump_invitation: "validate_reference i = Inr k \<Longrightarrow> parse_invitation (dump_invitation k) = Inr k"
  by (auto simp: parse_invitation_def dump_invitation_def known_keys_def unknown_keys_def schema_version_ok_def rguard_def
      str_field_def dget_def validate_reference_Inr)

lemma dump_invitation_accepted: "validate_payload other path (PDict (dump_invitation k)) = Inr ()"
  using payload_keys_not_sensitive by (auto simp: dump_invitation_def rguard_def Let_def)

section \<open>What the producers enqueue\<close>

lemma lift_Inr [result_simps]:
  "lift_app x = Inr y \<longleftrightarrow> x = Inr y" "lift_queue z = Inr w \<longleftrightarrow> z = Inr w"
  by (cases x; auto) (cases z; auto)

text \<open>A row returned by \<open>enqueue_job\<close> that was not in the table before is the requested one.\<close>

lemma enqueue_job_new:
  assumes "enqueue_job other others uuid t0 rq commit db = Inr (j, db')" and "j \<notin> set db" and "j \<notin> set (others db)"
  shows "j = new_job uuid t0 rq \<and> db' = others db @ [j]"
proof -
  have "existing_job d k = Some j \<Longrightarrow> j \<in> set d" for d k
    by (auto simp: existing_job_def by_key_def find_Some_iff split: option.splits)
  then show ?thesis
    using assms by (auto simp: enqueue_job_def result_simps Let_def split: option.splits if_splits)
qed

lemma job_types_stripped: "py_strip GITHUB_CHECK_PUBLISH_JOB = GITHUB_CHECK_PUBLISH_JOB"
    "py_strip INVITATION_EMAIL_DELIVER_JOB = INVITATION_EMAIL_DELIVER_JOB"
  by code_simp+

text \<open>
  C28. A job for publishing a GitHub check survives its trip through the queue: whenever the producer adds a new row
  to the table, the payload it stored passes the worker's contract validation and gives back exactly the references
  of the connection, the repository and the change, with the inbound trace context in its validated normal form, all
  three records being of the workspace the row names.
\<close>
theorem check_job_roundtrip:
  assumes "enqueue_github_check_publication st str_of others uuid t0 c r ch req tp ts commit db = Inr (Some j, db')"
    and "j \<notin> set db" and "j \<notin> set (others db)"
  shows "parse_check (payload j) = Inr \<lparr> cp_connection = py_strip (cn_id c), cp_repository = py_strip (r_id r),
           cp_change = py_strip (ch_id ch), cp_trace = validated_trace_context tp ts \<rparr>
         \<and> job_type j = GITHUB_CHECK_PUBLISH_JOB \<and> workspace_id j = Some (cn_workspace c)
         \<and> r_workspace r = cn_workspace c \<and> ch_workspace ch = cn_workspace c \<and> db' = others db @ [j]"
proof -
  obtain p where p: "make_check_payload (cn_id c) (r_id r) (ch_id ch) (validated_trace_context tp ts) = Inr p"
    and ws: "r_workspace r = cn_workspace c" "ch_workspace ch = cn_workspace c"
    and e: "enqueue_job str_of others uuid t0 (check_job c r ch req p) commit db = Inr (j, db')"
    using assms(1) by (auto simp: enqueue_github_check_publication_def result_simps split: if_splits)
  have "payload j = dump_check p" "job_type j = GITHUB_CHECK_PUBLISH_JOB" "workspace_id j = Some (cn_workspace c)"
    "db' = others db @ [j]"
    using enqueue_job_new [OF e assms(2,3)] by (auto simp: new_job_def check_job_def job_types_stripped)
  then show ?thesis using parse_dump_check [OF p] p ws by (auto simp: make_check_payload_Inr)
qed


definition demo_traceparent :: string where
  "demo_traceparent = '' 00-4BF92F3577B34DA6A3CE929D0E0E4736-00f067aa0ba902b7-01 ''"

definition demo_connection :: connection where
  "demo_connection = \<lparr> cn_id = ''c1'', cn_workspace = ''w1'', cn_provider = ''github'', cn_installation = ''42'',
     cn_account_id = ''7'', cn_account_login = ''acme'', cn_account_type = ''Organization'', cn_state = ''connected'',
     cn_permissions = [(PStr ''checks'', PStr ''write'')], cn_selection = ''selected'', cn_created_by = ''u1'',
     cn_created = 0, cn_updated = 0, cn_last_synced = None, cn_error = None \<rparr>"

definition demo_repository :: repository where
  "demo_repository = \<lparr> r_id = ''r1'', r_workspace = ''w1'', r_provider = ''github'', r_provider_id = ''77'',
     r_full_name = ''acme/shop'', r_branch = ''main'', r_visibility = ''private'',
     r_connection_state = ''connected'', r_data_mode = ''connected'', r_selected = True, r_last_synced = None, r_created = 0 \<rparr>"

definition demo_change :: change where
  "demo_change = \<lparr> ch_id = ''ch1'', ch_workspace = ''w1'', ch_repository = ''r1'', ch_scenario = ''s1'',
     ch_data_mode = ''connected'', ch_commit_sha = ''0123abc'', ch_test_coverage = None, ch_rollback_ready = None,
     ch_risk = [(PStr ''overall_score'', PInt 10), (PStr ''level'', PStr ''low'')], ch_blast_radius = [], ch_created = 0,
     ch_changed_services = [], ch_deployment_status = ''unknown'', ch_deployment_environment = ''unknown'',
     ch_title = ''Retry'', ch_repository_name = ''acme/shop'', ch_author = ''ann'', ch_branch = ''main'', ch_files_changed = 1, ch_lines_added = 1,
     ch_lines_deleted = 0, ch_flags = [], ch_observability = None, ch_previous_failures = None, ch_schema_version = ''1.0.0'',
     ch_engine_version = ''1.0.0'', ch_policy_version = ''risk-weighted-v1'', ch_graph_version = ''dependency-bfs-v1'' \<rparr>"

definition demo_publication :: "producer_error + job option \<times> jobs" where
  "demo_publication = enqueue_github_check_publication (default_settings \<lparr> github_checks_enabled := True \<rparr>) (\<lambda>_. [])
     (\<lambda>d. d) ''j1'' 5 demo_connection demo_repository demo_change ''req'' (Some demo_traceparent) (Some ''a=1 , b=2'') False []"

definition demo_check_job :: job where
  "demo_check_job = new_job ''j1'' 5 (check_job demo_connection demo_repository demo_change ''req''
     \<lparr> cp_connection = ''c1'', cp_repository = ''r1'', cp_change = ''ch1'',
       cp_trace = validated_trace_context (Some demo_traceparent) (Some ''a=1 , b=2'') \<rparr>)"

lemma demo_publication_runs: "demo_publication = Inr (Some demo_check_job, [demo_check_job])"
  by code_simp

theorem check_job_roundtrip_witness:
  "parse_check (payload demo_check_job) = Inr \<lparr> cp_connection = py_strip ''c1'', cp_repository = py_strip ''r1'',
     cp_change = py_strip ''ch1'', cp_trace = validated_trace_context (Some demo_traceparent) (Some ''a=1 , b=2'') \<rparr>"
  using check_job_roundtrip [OF demo_publication_runs [unfolded demo_publication_def]]
  by (simp add: demo_connection_def demo_repository_def demo_change_def)

end
