(* ===== verification/GithubClient.thy ===== *)
theory GithubClient
  imports Operations JobContracts
begin

text \<open>
  \<open>backend/app/github_client.py\<close>: the GitHub App client. The HTTP transport, the JWT encoder and the text of a time are
  parameters, gathered in the record \<open>github\<close>. A reply may depend on all earlier requests, which the client's state
  records in order, so that what was sent is part of what is proved. JSON documents are Python values.
\<close>

section \<open>Standard library\<close>

definition unreserved :: "char \<Rightarrow> bool" where
  "unreserved c = (let n = nat_of_char c in
     is_digit c \<or> (65 \<le> n \<and> n \<le> 90) \<or> (97 \<le> n \<and> n \<le> 122) \<or> n \<in> {45, 46, 95, 126})"

definition hex_digit :: "nat \<Rightarrow> char" where
  "hex_digit n = char_of (if n < 10 then 48 + n else 55 + n)"

definition percent_byte :: "nat \<Rightarrow> string" where
  "percent_byte b = [CHR ''%'', hex_digit (b div 16), hex_digit (b mod 16)]"

definition utf8_bytes :: "char \<Rightarrow> nat list" where
  "utf8_bytes c = (let n = nat_of_char c in if n < 128 then [n] else [192 + n div 64, 128 + n mod 64])"

text \<open>\<open>urllib.parse.quote(s, safe="")\<close> and \<open>quote_plus\<close>.\<close>

definition url_quote :: "string \<Rightarrow> string" where
  "url_quote s = concat (map (\<lambda>c. if unreserved c then [c] else concat (map percent_byte (utf8_bytes c))) s)"

definition url_quote_plus :: "string \<Rightarrow> string" where
  "url_quote_plus s = concat (map (\<lambda>c. if c = CHR '' '' then ''+'' else url_quote [c]) s)"

definition urlencode :: "(string \<times> string) list \<Rightarrow> string" where
  "urlencode kvs = join_with ''&'' (map (\<lambda>(k, v). url_quote_plus k @ ''='' @ url_quote_plus v) kvs)"

definition rstrip_char :: "char \<Rightarrow> string \<Rightarrow> string" where
  "rstrip_char c s = rev (dropWhile (\<lambda>x. x = c) (rev s))"

text \<open>\<open>str.replace\<close> of the two characters backslash and n by a newline.\<close>

fun unescape_newlines :: "string \<Rightarrow> string" where
  "unescape_newlines (c # d # cs) =
     (if nat_of_char c = 92 \<and> d = CHR ''n'' then char_of (10 :: nat) # unescape_newlines cs
      else c # unescape_newlines (d # cs))"
| "unescape_newlines cs = cs"

text \<open>\<open>value.get(key)\<close> and \<open>value.get(key, default)\<close> on a value that may not be a dictionary.\<close>

definition vget :: "pyval \<Rightarrow> string \<Rightarrow> pyval \<Rightarrow> app_error + pyval" where
  "vget v k d = (case v of PDict e \<Rightarrow> Inr (dget_or e k d) | _ \<Rightarrow> Inl PyAttributeError)"

text \<open>\<open>x or y\<close>.\<close>

definition py_or :: "pyval \<Rightarrow> pyval \<Rightarrow> pyval" where
  "py_or x y = (if truthy x then x else y)"

text \<open>The elements a \<open>for\<close> loop or \<open>list.extend\<close> sees.\<close>

fun iter_of :: "pyval \<Rightarrow> app_error + pyval list" where
  "iter_of (PList xs) = Inr xs"
| "iter_of (PDict d) = Inr (map fst d)"
| "iter_of (PStr s) = Inr (map (\<lambda>c. PStr [c]) s)"
| "iter_of _ = Inl PyTypeError"

text \<open>\<open>s[:n]\<close>; the test keeps the evaluation of short strings cheap.\<close>

definition py_prefix :: "int \<Rightarrow> string \<Rightarrow> string" where
  "py_prefix n s = (if int (length s) \<le> n then s else take (nat n) s)"

lemma py_prefix_take: "py_prefix n s = take (nat n) s"
  by (simp add: py_prefix_def)

section \<open>Transport\<close>

record http_request =
  hr_method :: string
  hr_url :: string
  hr_token :: string
  hr_version :: string
  hr_body :: "pydict option"

datatype http_reply =
    Document pyval
  | BadJson
  | BadUtf8
  | Unreachable
  | HttpError nat "string option" "string option" \<comment> \<open>status, \<open>Retry-After\<close>, \<open>X-RateLimit-Remaining\<close>\<close>

type_synonym http_log = "http_request list"

record github =
  gh_api_url :: string \<comment> \<open>the settings \<open>github_api_url\<close> and \<open>github_api_version\<close>, read only here\<close>
  gh_api_version :: string
  gh_http :: "http_log \<Rightarrow> http_request \<Rightarrow> http_reply"
  gh_jwt :: "string \<Rightarrow> string \<Rightarrow> int \<Rightarrow> string"
  gh_iso :: "int \<Rightarrow> string"
  gh_str :: "pyval \<Rightarrow> string" \<comment> \<open>\<open>str\<close> of a float or a container\<close>
  gh_float :: "string \<Rightarrow> pyfloat option" \<comment> \<open>\<open>float\<close> of a string\<close>

record github_client =
  cl_app_id :: string
  cl_private_key :: string
  cl_api_url :: string
  cl_api_version :: string
  cl_now :: int

text \<open>An operation of the client: the requests sent before it to its result and the requests sent after it.\<close>

type_synonym 'a gh = "http_log \<Rightarrow> (app_error + 'a) \<times> http_log"

definition gh_return :: "app_error + 'a \<Rightarrow> 'a gh" where
  "gh_return r = (\<lambda>log. (r, log))"

definition gh_bind :: "'a gh \<Rightarrow> ('a \<Rightarrow> 'b gh) \<Rightarrow> 'b gh" where
  "gh_bind m f = (\<lambda>log. case m log of (Inl e, log') \<Rightarrow> (Inl e, log') | (Inr x, log') \<Rightarrow> f x log')"

definition new_client :: "github \<Rightarrow> settings \<Rightarrow> int \<Rightarrow> github_client" where
  "new_client g st t =
     \<lparr> cl_app_id = github_app_id st, cl_private_key = unescape_newlines (github_app_private_key st),
       cl_api_url = rstrip_char CHR ''/'' (gh_api_url g), cl_api_version = gh_api_version g, cl_now = t \<rparr>"

definition provider_failed :: "string \<Rightarrow> string \<Rightarrow> app_error" where
  "provider_failed detail code = DomainError detail code 502"

definition github_unavailable :: app_error where
  "github_unavailable = provider_failed ''GitHub API is unavailable'' ''github_api_unavailable''"

definition http_error_code :: "nat \<Rightarrow> string option \<Rightarrow> string option \<Rightarrow> string" where
  "http_error_code code retry remaining =
     (if code \<in> {403, 429} \<and> (retry \<notin> {None, Some []} \<or> remaining = Some ''0'') then ''github_rate_limited''
      else if 500 \<le> code \<or> code \<in> {408, 409, 425} then ''github_api_unavailable''
      else ''github_api_rejected'')"

fun reply_value :: "http_reply \<Rightarrow> app_error + pyval" where
  "reply_value (Document v) = Inr v"
| "reply_value BadJson = Inl github_unavailable"
| "reply_value BadUtf8 = Inl ValueError"
| "reply_value Unreachable = Inl github_unavailable"
| "reply_value (HttpError code retry remaining) =
     Inl (provider_failed (''GitHub API request failed with status '' @ show_nat code) (http_error_code code retry remaining))"

definition gh_request :: "github \<Rightarrow> github_client \<Rightarrow> string \<Rightarrow> string \<Rightarrow> string \<Rightarrow> pydict option \<Rightarrow> pyval gh" where
  "gh_request g c method path token body = (\<lambda>log.
     let r = \<lparr> hr_method = method, hr_url = cl_api_url c @ path, hr_token = token, hr_version = cl_api_version c, hr_body = body \<rparr>
     in (reply_value (gh_http g log r), log @ [r]))"

definition app_jwt :: "github \<Rightarrow> github_client \<Rightarrow> app_error + string" where
  "app_jwt g c =
     (if cl_app_id c = [] \<or> cl_private_key c = [] then Inl (DomainError ''GitHub App is not configured'' ''github_app_not_configured'' 503)
      else Inr (gh_jwt g (cl_app_id c) (cl_private_key c) (cl_now c)))"

definition installation_token :: "github \<Rightarrow> github_client \<Rightarrow> string \<Rightarrow> string gh" where
  "installation_token g c i =
     gh_bind (gh_return (app_jwt g c)) (\<lambda>jwt.
     gh_bind (gh_request g c ''POST'' (''/app/installations/'' @ i @ ''/access_tokens'') jwt (Some [])) (\<lambda>v.
     gh_return (rbind (vget v ''token'' PNone) (\<lambda>t. case t of
       PStr s \<Rightarrow> if s \<noteq> [] then Inr s
         else Inl (provider_failed ''GitHub did not return an installation token'' ''github_token_exchange_failed'')
     | _ \<Rightarrow> Inl (provider_failed ''GitHub did not return an installation token'' ''github_token_exchange_failed'')))))"

definition installation :: "github \<Rightarrow> github_client \<Rightarrow> string \<Rightarrow> pyval gh" where
  "installation g c i = gh_bind (gh_return (app_jwt g c)) (\<lambda>jwt. gh_request g c ''GET'' (''/app/installations/'' @ i) jwt None)"

section \<open>Repositories\<close>

text \<open>The loop over pages; \<open>left\<close> is the number of pages the safety limit still allows.\<close>

fun list_pages :: "github \<Rightarrow> github_client \<Rightarrow> string \<Rightarrow> nat \<Rightarrow> nat \<Rightarrow> pyval list \<Rightarrow> pyval list gh" where
  "list_pages g c token 0 page acc =
     gh_return (Inl (provider_failed ''GitHub repository pagination exceeded the safety limit'' ''github_pagination_limit''))"
| "list_pages g c token (Suc left) page acc =
     gh_bind (gh_request g c ''GET'' (''/installation/repositories?per_page=100&page='' @ show_nat page) token None) (\<lambda>v.
     gh_bind (gh_return (rbind (vget v ''repositories'' (PList [])) iter_of)) (\<lambda>batch.
     if length batch < 100 then gh_return (Inr (acc @ batch)) else list_pages g c token left (page + 1) (acc @ batch)))"

definition list_installation_repositories :: "github \<Rightarrow> github_client \<Rightarrow> string \<Rightarrow> pyval list gh" where
  "list_installation_repositories g c i = gh_bind (installation_token g c i) (\<lambda>token. list_pages g c token 100 1 [])"

section \<open>Check runs\<close>

definition check_input_invalid :: app_error where
  "check_input_invalid = DomainError ''GitHub check run input is invalid'' ''github_check_input_invalid'' 400"

definition repository_parts :: "string \<Rightarrow> app_error + string \<times> string" where
  "repository_parts full =
     (let owner = takeWhile (\<lambda>c. c \<noteq> CHR ''/'') full; repo = tl (dropWhile (\<lambda>c. c \<noteq> CHR ''/'') full) in
      if CHR ''/'' \<notin> set full \<or> owner = [] \<or> repo = [] \<or> CHR ''/'' \<in> set repo then Inl check_input_invalid
      else Inr (owner, repo))"

definition is_hex :: "char \<Rightarrow> bool" where
  "is_hex c = (let n = nat_of_char c in is_digit c \<or> (65 \<le> n \<and> n \<le> 70) \<or> (97 \<le> n \<and> n \<le> 102))"

definition sha_ok :: "string \<Rightarrow> bool" where
  "sha_ok s = (7 \<le> length s \<and> length s \<le> 64 \<and> list_all is_hex s)"

record check_run =
  ck_installation :: string
  ck_repository :: string
  ck_head_sha :: string
  ck_external_id :: string
  ck_conclusion :: string
  ck_title :: string
  ck_summary :: string
  ck_details_url :: string

definition check_name :: string where "check_name = ''DeployGuard change risk''"

definition check_run_body :: "github \<Rightarrow> github_client \<Rightarrow> check_run \<Rightarrow> bool \<Rightarrow> app_error + pydict" where
  "check_run_body g c k include_head =
     (if \<not> sha_ok (ck_head_sha k) \<or> py_strip (ck_external_id k) = [] \<or>
         ck_conclusion k \<notin> {''action_required'', ''failure'', ''neutral'', ''success''} then Inl check_input_invalid
      else Inr ([(PStr ''name'', PStr check_name), (PStr ''status'', PStr ''completed''), (PStr ''conclusion'', PStr (ck_conclusion k)),
        (PStr ''external_id'', PStr (ck_external_id k)), (PStr ''completed_at'', PStr (gh_iso g (cl_now c))),
        (PStr ''output'', PDict [(PStr ''title'', PStr (py_prefix 255 (ck_title k))), (PStr ''summary'', PStr (py_prefix 65535 (ck_summary k)))])] @
        (if include_head then [(PStr ''head_sha'', PStr (ck_head_sha k))] else []) @
        (if ck_details_url k \<noteq> [] then [(PStr ''details_url'', PStr (ck_details_url k))] else [])))"

definition repo_path :: "string \<times> string \<Rightarrow> string" where
  "repo_path p = ''/repos/'' @ url_quote (fst p) @ ''/'' @ url_quote (snd p)"

definition create_check_run :: "github \<Rightarrow> github_client \<Rightarrow> check_run \<Rightarrow> pyval gh" where
  "create_check_run g c k =
     gh_bind (gh_return (repository_parts (ck_repository k))) (\<lambda>p.
     gh_bind (gh_return (check_run_body g c k True)) (\<lambda>body.
     gh_bind (installation_token g c (ck_installation k)) (\<lambda>token.
     gh_request g c ''POST'' (repo_path p @ ''/check-runs'') token (Some body))))"

definition update_check_run :: "github \<Rightarrow> github_client \<Rightarrow> string \<Rightarrow> check_run \<Rightarrow> pyval gh" where
  "update_check_run g c i k =
     gh_bind (gh_return (repository_parts (ck_repository k))) (\<lambda>p.
     if \<not> py_isdigit i then gh_return (Inl check_input_invalid)
     else gh_bind (gh_return (check_run_body g c k False)) (\<lambda>body.
     gh_bind (installation_token g c (ck_installation k)) (\<lambda>token.
     gh_request g c ''PATCH'' (repo_path p @ ''/check-runs/'' @ url_quote i) token (Some body))))"

text \<open>\<open>str(value)\<close>.\<close>

definition str_of :: "github \<Rightarrow> pyval \<Rightarrow> string" where
  "str_of g v = key_text (gh_str g) v"

definition run_matches :: "github \<Rightarrow> string \<Rightarrow> pyval \<Rightarrow> bool" where
  "run_matches g external v = (case v of
     PDict d \<Rightarrow> str_of g (py_or (dget_or d ''external_id'' PNone) (PStr [])) = external | _ \<Rightarrow> False)"

definition find_check_run :: "github \<Rightarrow> github_client \<Rightarrow> string \<Rightarrow> string \<Rightarrow> string \<Rightarrow> string \<Rightarrow> pyval option gh" where
  "find_check_run g c inst repo head external =
     gh_bind (gh_return (repository_parts repo)) (\<lambda>p.
     if \<not> sha_ok head \<or> py_strip external = [] then gh_return (Inl check_input_invalid)
     else gh_bind (installation_token g c inst) (\<lambda>token.
     gh_bind (gh_request g c ''GET'' (repo_path p @ ''/commits/'' @ url_quote head @ ''/check-runs?check_name='' @
       url_quote check_name @ ''&filter=all&per_page=100'') token None) (\<lambda>v.
     gh_return (rbind (vget v ''check_runs'' PNone) (\<lambda>rs. case rs of
       PList xs \<Rightarrow> Inr (find (run_matches g external) xs)
     | _ \<Rightarrow> Inl (provider_failed ''GitHub returned an invalid Check Runs response'' ''github_api_invalid_response''))))))"

end
