(* ===== verification/GithubChecks.thy ===== *)
theory GithubChecks
  imports GithubClient
begin

text \<open>
  The publication of GitHub checks in \<open>backend/app/provider_services.py\<close>: the text of the check, the durable publication
  row, the provider calls with recovery after an uncertain outcome, and the failure bookkeeping.

  An operation that commits before it fails returns its exception together with the state it leaves. \<open>others\<close> is what
  concurrent publishers commit between the lookup and the insert of the publication row.
\<close>

section \<open>Tables\<close>

record publication =
  g_id :: string
  g_workspace :: string
  g_repository :: string
  g_change :: string
  g_head_sha :: string
  g_external_id :: string
  g_check_id :: "string option"
  g_status :: string
  g_conclusion :: "string option"
  g_details_url :: string
  g_attempts :: int
  g_last_error :: "string option"
  g_next_retry :: "int option"
  g_created :: int
  g_updated :: int
  g_published :: "int option"

record auth_state =
  st_id :: string
  st_hash :: string
  st_provider :: string
  st_workspace :: string
  st_user :: string
  st_created :: int
  st_expires :: int
  st_consumed :: "int option"

record webhook_delivery =
  wd_id :: string
  wd_provider :: string
  wd_delivery :: string
  wd_event :: string
  wd_installation :: "string option"
  wd_workspace :: "string option"
  wd_repository :: "string option"
  wd_status :: string
  wd_created :: int

record provider = ops +
  connections :: "connection list"
  changes :: "change list"
  publications :: "publication list"
  auth_states :: "auth_state list"
  webhooks :: "webhook_delivery list"
  requests_sent :: http_log

definition provider_unique :: "provider \<Rightarrow> bool" where
  "provider_unique s \<longleftrightarrow> ops_unique (ops.truncate s) \<and>
     distinct (map cn_id (connections s)) \<and> distinct (map (\<lambda>c. (cn_workspace c, cn_provider c)) (connections s)) \<and>
     distinct (map cn_installation (connections s)) \<and> distinct (map ch_id (changes s)) \<and>
     distinct (map g_id (publications s)) \<and> distinct (map (\<lambda>p. (g_repository p, g_head_sha p)) (publications s)) \<and>
     distinct (map st_id (auth_states s)) \<and> distinct (map st_hash (auth_states s)) \<and>
     distinct (map wd_id (webhooks s)) \<and> distinct (map (\<lambda>d. (wd_provider d, wd_delivery d)) (webhooks s))"

definition commit_provider :: "provider \<Rightarrow> app_error + provider" where
  "commit_provider s = (if provider_unique s then Inr s else Inl app_error.IntegrityError)"

section \<open>Conversions\<close>

fun int_of :: "pyval \<Rightarrow> app_error + int" where
  "int_of (PInt n) = Inr n"
| "int_of (PBool b) = Inr (if b then 1 else 0)"
| "int_of (PFloat (Fin x)) = Inr (if x < 0 then \<lceil>x\<rceil> else \<lfloor>x\<rfloor>)"
| "int_of (PFloat NaN) = Inl ValueError"
| "int_of (PFloat _) = Inl PyOverflowError"
| "int_of (PStr s) = (case py_int s of None \<Rightarrow> Inl ValueError | Some n \<Rightarrow> Inr n)"
| "int_of _ = Inl PyTypeError"

fun float_of :: "github \<Rightarrow> pyval \<Rightarrow> app_error + pyfloat" where
  "float_of g (PFloat f) = Inr f"
| "float_of g (PBool b) = Inr (Fin (if b then 1 else 0))"
| "float_of g (PInt n) = (case float_of_int n of Inl _ \<Rightarrow> Inl PyOverflowError | Inr x \<Rightarrow> Inr (Fin x))"
| "float_of g (PStr s) = (case gh_float g s of None \<Rightarrow> Inl ValueError | Some f \<Rightarrow> Inr f)"
| "float_of g _ = Inl PyTypeError"

fun percent_text :: "pyfloat \<Rightarrow> string" where
  "percent_text (Fin x) = fmt_percent 0 x"
| "percent_text PosInf = ''inf%''"
| "percent_text NegInf = ''-inf%''"
| "percent_text NaN = ''nan%''"

text \<open>\<open>x is None or x <= 0\<close>.\<close>

fun not_positive :: "pyfloat option \<Rightarrow> bool" where
  "not_positive None = True"
| "not_positive (Some (Fin x)) = (x \<le> 0)"
| "not_positive (Some NegInf) = True"
| "not_positive (Some _) = False"

section \<open>The text of a check\<close>

record check_inputs =
  in_score :: int
  in_level :: string
  in_quality :: pyfloat
  in_recommendations :: "string list"

definition check_inputs_of :: "github \<Rightarrow> change \<Rightarrow> app_error + check_inputs" where
  "check_inputs_of g ch =
     rbind (int_of (dget_or (ch_risk ch) ''overall_score'' (PInt 0))) (\<lambda>score.
     rbind (float_of g (dget_or (ch_risk ch) ''data_quality'' (PFloat (Fin 0)))) (\<lambda>quality.
     rbind (iter_of (dget_or (ch_risk ch) ''recommendations'' (PList []))) (\<lambda>items.
     Inr \<lparr> in_score = score, in_level = str_of g (dget_or (ch_risk ch) ''level'' (PStr ''unknown'')), in_quality = quality,
           in_recommendations = map (str_of g) items \<rparr>)))"

definition check_policy :: "environment \<Rightarrow> string \<Rightarrow> provider \<Rightarrow> risk_policy" where
  "check_policy env w s = (case find (\<lambda>p. p_workspace p = w) (policies s) of Some p \<Rightarrow> p | None \<Rightarrow> default_risk_policy env w)"

definition impacted_services :: "change \<Rightarrow> app_error + int" where
  "impacted_services ch =
     rbind (iter_of (dget_or (ch_blast_radius ch) ''nodes'' (PList []))) (\<lambda>nodes.
     rbind (rmap (\<lambda>n. rbind (vget n ''impact_score'' (PInt 0)) int_of) nodes) (\<lambda>scores.
     Inr (int (length (filter (\<lambda>x. x > 0) scores)))))"

definition risk_findings :: "risk_policy \<Rightarrow> int \<Rightarrow> string list" where
  "risk_findings p score =
     (if score \<ge> p_block p then [''Risk score meets the escalation threshold ('' @ show_int (p_block p) @ '').'']
      else if score \<ge> p_warn p then [''Risk score meets the review threshold ('' @ show_int (p_warn p) @ '').'']
      else [])"

definition policy_findings :: "risk_policy \<Rightarrow> int \<Rightarrow> change \<Rightarrow> app_error + string list" where
  "policy_findings p score ch =
     (if \<not> p_enabled p then Inr []
      else rbind (impacted_services ch) (\<lambda>n.
        Inr (risk_findings p score @
          (if p_tests p \<and> not_positive (ch_test_coverage ch) then [''Required test coverage evidence is missing.''] else []) @
          (if p_rollback p \<and> ch_rollback_ready ch \<noteq> Some True then [''Required rollback readiness is missing.''] else []) @
          (if n > p_max_blast p
           then [''Blast radius exceeds the workspace maximum ('' @ show_int n @ ''/'' @ show_int (p_max_blast p) @ '' services).'']
           else []))))"

definition receipt_missing :: "change \<Rightarrow> bool" where
  "receipt_missing ch = (ch_data_mode ch = ''connected'')"

definition RECEIPT_FINDING :: string where
  "RECEIPT_FINDING = ''No SHA-matched DeployGuard Evidence Receipt has been ingested; '' @
     ''provider metadata is not executable verification evidence.''"

definition all_findings :: "change \<Rightarrow> string list \<Rightarrow> string list" where
  "all_findings ch fs = (if receipt_missing ch then RECEIPT_FINDING # fs else fs)"

definition check_conclusion :: "change \<Rightarrow> string list \<Rightarrow> string" where
  "check_conclusion ch fs = (if fs \<noteq> [] \<or> receipt_missing ch then ''neutral'' else ''success'')"

text \<open>The middle dot of the titles.\<close>

definition risk_suffix :: "int \<Rightarrow> string" where
  "risk_suffix score = '' '' @ [char_of (183 :: nat)] @ '' risk '' @ show_int score @ ''/100''"

definition check_title :: "risk_policy \<Rightarrow> change \<Rightarrow> int \<Rightarrow> string list \<Rightarrow> string" where
  "check_title p ch score fs =
     (if receipt_missing ch then ''Evidence review required - receipt missing''
      else if score \<ge> p_block p \<and> p_enabled p then ''Escalated review'' @ risk_suffix score
      else if check_conclusion ch fs = ''neutral'' then ''Review recommended'' @ risk_suffix score
      else ''Normal review'' @ risk_suffix score)"

definition bullet :: "string \<Rightarrow> string" where "bullet s = ''- '' @ s"

definition check_summary :: "risk_policy \<Rightarrow> change \<Rightarrow> check_inputs \<Rightarrow> string list \<Rightarrow> string" where
  "check_summary p ch i fs = join_with [char_of (10 :: nat)]
     ([(if receipt_missing ch then ''Metadata-derived risk prior: **'' else ''Deterministic change risk: **'') @
         show_int (in_score i) @ ''/100 ('' @ in_level i @ '')**.'',
       ''Evidence quality: **'' @ percent_text (in_quality i) @ ''**.'',
       ''Workspace policy: **v'' @ show_int (p_version p) @ '' ('' @ (if p_enabled p then ''enabled'' else ''disabled'') @ '')**.''] @
      (if fs \<noteq> [] then [[], ''### Policy findings''] @ map bullet fs else []) @
      [[], ''### Verify next''] @
      (if in_recommendations i \<noteq> [] then map bullet (in_recommendations i) else [''- Continue with the normal review path.'']) @
      [[], ''DeployGuard provides decision support only. This check does not '' @
           ''deploy, roll back, or remediate infrastructure.''])"

definition details_url :: "settings \<Rightarrow> connection \<Rightarrow> repository \<Rightarrow> change \<Rightarrow> string" where
  "details_url st c r ch = rstrip_char CHR ''/'' (frontend_public_url st) @ ''/?'' @
     urlencode [(''view'', ''change_risk''), (''workspace'', cn_workspace c), (''repository'', r_id r),
       (''scenario'', ch_scenario ch), (''change'', ch_id ch)]"

section \<open>The publication row\<close>

definition find_publication :: "provider \<Rightarrow> string \<Rightarrow> string \<Rightarrow> publication option" where
  "find_publication s r head = find (\<lambda>p. g_repository p = r \<and> g_head_sha p = head) (publications s)"

definition update_publication :: "string \<Rightarrow> (publication \<Rightarrow> publication) \<Rightarrow> provider \<Rightarrow> provider" where
  "update_publication i f s = s \<lparr> publications := map (\<lambda>p. if g_id p = i then f p else p) (publications s) \<rparr>"

definition new_publication :: "environment \<Rightarrow> connection \<Rightarrow> repository \<Rightarrow> change \<Rightarrow> string \<Rightarrow> string \<Rightarrow> publication" where
  "new_publication env c r ch conclusion url =
     \<lparr> g_id = fresh env 0, g_workspace = cn_workspace c, g_repository = r_id r, g_change = ch_id ch,
       g_head_sha = ch_commit_sha ch, g_external_id = fresh env 0, g_check_id = None, g_status = ''pending'',
       g_conclusion = Some conclusion, g_details_url = url, g_attempts = 0, g_last_error = None, g_next_retry = None,
       g_created = now env, g_updated = now env, g_published = None \<rparr>"

definition github_check_publication ::
  "environment \<Rightarrow> (provider \<Rightarrow> provider) \<Rightarrow> connection \<Rightarrow> repository \<Rightarrow> change \<Rightarrow> string \<Rightarrow> string \<Rightarrow> provider \<Rightarrow>
   (app_error + publication) \<times> provider" where
  "github_check_publication env others c r ch conclusion url s =
     (let refresh = (\<lambda>p. p \<lparr> g_change := ch_id ch, g_conclusion := Some conclusion, g_details_url := url, g_updated := now env \<rparr>);
          finish = (\<lambda>p s'. (Inr (refresh p), update_publication (g_id p) refresh s')) in
      case find_publication s (r_id r) (ch_commit_sha ch) of
        Some p \<Rightarrow> finish p s
      | None \<Rightarrow>
          let p = new_publication env c r ch conclusion url; s1 = others s in
          (case commit_provider (s1 \<lparr> publications := publications s1 @ [p] \<rparr>) of
             Inr s2 \<Rightarrow> finish p s2
           | Inl e \<Rightarrow> (case find_publication s1 (r_id r) (ch_commit_sha ch) of
               None \<Rightarrow> (Inl e, s1)
             | Some q \<Rightarrow> finish q s1)))"

definition github_check_retry_delay :: "int \<Rightarrow> int" where
  "github_check_retry_delay attempt_count = seconds (min 3600 (30 * 2 ^ nat (min (max (attempt_count - 1) 0) 7)))"

definition GITHUB_CHECK_RETRYABLE_ERRORS :: "string list" where
  "GITHUB_CHECK_RETRYABLE_ERRORS = [''github_api_error'', ''github_api_invalid_response'', ''github_api_unavailable'',
     ''github_check_publish_failed'', ''github_rate_limited'', ''github_token_exchange_failed'']"

definition begin_attempt :: "environment \<Rightarrow> publication \<Rightarrow> publication" where
  "begin_attempt env p = p \<lparr> g_status := ''publishing'', g_attempts := g_attempts p + 1, g_last_error := None,
     g_next_retry := None, g_updated := now env \<rparr>"

definition failed_attempt :: "environment \<Rightarrow> string \<Rightarrow> publication \<Rightarrow> publication" where
  "failed_attempt env code p =
     (let retryable = code \<in> set GITHUB_CHECK_RETRYABLE_ERRORS in
      p \<lparr> g_status := (if retryable then ''retryable_failed'' else ''permanent_failed''), g_last_error := Some code,
          g_next_retry := (if retryable then Some (now env + github_check_retry_delay (g_attempts p)) else None),
          g_updated := now env \<rparr>)"

definition published_as :: "environment \<Rightarrow> string \<Rightarrow> string \<Rightarrow> string \<Rightarrow> publication \<Rightarrow> publication" where
  "published_as env check_id conclusion url p =
     p \<lparr> g_check_id := Some check_id, g_status := ''published'', g_conclusion := Some conclusion, g_details_url := url,
         g_last_error := None, g_next_retry := None, g_updated := now env, g_published := Some (now env) \<rparr>"

section \<open>Talking to GitHub\<close>

definition recover_check_id :: "github \<Rightarrow> github_client \<Rightarrow> check_run \<Rightarrow> int \<Rightarrow> string option \<Rightarrow> string option gh" where
  "recover_check_id g cl k previous known =
     (if known = None \<and> previous > 0
      then gh_bind (find_check_run g cl (ck_installation k) (ck_repository k) (ck_head_sha k) (ck_external_id k)) (\<lambda>found.
        gh_return (case found of None \<Rightarrow> Inr None
          | Some v \<Rightarrow> rbind (vget v ''id'' PNone) (\<lambda>x. Inr (Some (str_of g (py_or x (PStr [])))))))
      else gh_return (Inr known))"

definition send_check :: "github \<Rightarrow> github_client \<Rightarrow> check_run \<Rightarrow> int \<Rightarrow> string option \<Rightarrow> (string \<times> pyval) gh" where
  "send_check g cl k previous known =
     gh_bind (recover_check_id g cl k previous known) (\<lambda>i.
     gh_bind (case i of None \<Rightarrow> create_check_run g cl k
       | Some x \<Rightarrow> if x = [] then create_check_run g cl k else update_check_run g cl x k) (\<lambda>res.
     gh_return (rbind (vget res ''id'' PNone) (\<lambda>x.
       let check_id = str_of g (py_or (py_or x (case i of None \<Rightarrow> PNone | Some t \<Rightarrow> PStr t)) (PStr [])) in
       if check_id = [] then Inl (provider_failed ''GitHub did not return a Check Run ID'' ''github_check_publish_failed'')
       else Inr (check_id, res)))))"

record check_response =
  cr_check_id :: string
  cr_change :: string
  cr_status :: string
  cr_conclusion :: string
  cr_details_url :: string
  cr_published :: int

definition update_connection :: "string \<Rightarrow> (connection \<Rightarrow> connection) \<Rightarrow> provider \<Rightarrow> provider" where
  "update_connection i f s = s \<lparr> connections := map (\<lambda>c. if cn_id c = i then f c else c) (connections s) \<rparr>"

definition find_connection :: "provider \<Rightarrow> string \<Rightarrow> connection option" where
  "find_connection s i = find (\<lambda>c. cn_id c = i) (connections s)"

text \<open>The \<open>except DomainError\<close> branch: the row, the connection and the audit trail record the failure.\<close>

definition record_failure ::
  "environment \<Rightarrow> connection \<Rightarrow> change \<Rightarrow> string option \<Rightarrow> string \<Rightarrow> string \<Rightarrow> string \<Rightarrow> provider \<Rightarrow> provider" where
  "record_failure env c ch actor req code pid s =
     (let s1 = update_publication pid (failed_attempt env code) s in
      case find_connection s1 (cn_id c) of
        None \<Rightarrow> s1
      | Some c' \<Rightarrow> audited env 1 (cn_workspace c') actor ''provider.github.check_publish_failed'' ''change'' (ch_id ch) req
          [(''error_code'', code), (''retryable'', if code \<in> set GITHUB_CHECK_RETRYABLE_ERRORS then ''true'' else ''false''),
           (''publication_id'', pid)]
          (update_connection (cn_id c) (\<lambda>x. x \<lparr> cn_error := Some code, cn_updated := now env \<rparr>) s1))"

definition record_success ::
  "environment \<Rightarrow> connection \<Rightarrow> change \<Rightarrow> string option \<Rightarrow> string \<Rightarrow> string \<Rightarrow> string \<Rightarrow> string \<Rightarrow> int \<Rightarrow> publication \<Rightarrow> provider \<Rightarrow> provider" where
  "record_success env c ch actor req check_id conclusion url score p s =
     audited env 1 (g_workspace p) actor ''provider.github.check_published'' ''change'' (ch_id ch) req
       [(''provider_check_id'', check_id), (''publication_id'', g_id p), (''conclusion'', conclusion),
        (''risk_score'', show_int score), (''attempt_count'', show_int (g_attempts p))]
       (update_connection (cn_id c) (\<lambda>x. x \<lparr> cn_error := None, cn_updated := now env \<rparr>)
         (update_publication (g_id p) (published_as env check_id conclusion url) s))"

text \<open>A commit that fails raises and leaves the last committed state.\<close>

definition committing :: "app_error + 'a \<Rightarrow> provider \<Rightarrow> provider \<Rightarrow> (app_error + 'a) \<times> provider" where
  "committing res committed s = (case commit_provider s of Inl e \<Rightarrow> (Inl e, committed) | Inr s' \<Rightarrow> (res, s'))"

definition attempt_run :: "settings \<Rightarrow> connection \<Rightarrow> repository \<Rightarrow> change \<Rightarrow> check_inputs \<Rightarrow> risk_policy \<Rightarrow> string list \<Rightarrow> publication \<Rightarrow> check_run" where
  "attempt_run st c r ch i pol fs p =
     \<lparr> ck_installation = cn_installation c, ck_repository = r_full_name r, ck_head_sha = ch_commit_sha ch,
       ck_external_id = g_external_id p, ck_conclusion = check_conclusion ch fs, ck_title = check_title pol ch (in_score i) fs,
       ck_summary = check_summary pol ch i fs, ck_details_url = details_url st c r ch \<rparr>"

definition publish_attempt ::
  "github \<Rightarrow> environment \<Rightarrow> settings \<Rightarrow> connection \<Rightarrow> repository \<Rightarrow> change \<Rightarrow> string option \<Rightarrow> string \<Rightarrow> check_inputs \<Rightarrow>
   risk_policy \<Rightarrow> string list \<Rightarrow> publication \<Rightarrow> provider \<Rightarrow> (app_error + check_response) \<times> provider" where
  "publish_attempt g env st c r ch actor req i pol fs p s =
     (if \<not> github_app_available st then (Inl (DomainError ''GitHub App is not configured'' ''github_app_not_configured'' 503), s)
      else let url = details_url st c r ch; conclusion = check_conclusion ch fs; k = attempt_run st c r ch i pol fs p in
      case send_check g (new_client g st (now env)) k (g_attempts p - 1) (g_check_id p) (requests_sent s) of
        (Inl (DomainError d code n), sent) \<Rightarrow>
          let s1 = s \<lparr> requests_sent := sent \<rparr> in
          committing (Inl (DomainError d code n)) s1 (record_failure env c ch actor req code (g_id p) s1)
      | (Inl e, sent) \<Rightarrow> (Inl e, s \<lparr> requests_sent := sent \<rparr>)
      | (Inr (check_id, res), sent) \<Rightarrow>
          let s1 = s \<lparr> requests_sent := sent \<rparr>;
              answer = \<lparr> cr_check_id = check_id, cr_change = ch_id ch,
                cr_status = (case vget res ''status'' PNone of Inr v \<Rightarrow> str_of g (py_or v (PStr ''completed'')) | Inl _ \<Rightarrow> ''completed''),
                cr_conclusion = conclusion, cr_details_url = url, cr_published = now env \<rparr>
          in if find (\<lambda>q. g_id q = g_id p) (publications s1) = None
             then (Inl (DomainError ''GitHub Check publication state was lost'' ''github_check_publication_missing'' 500), s1)
             else committing (Inr answer) s1 (record_success env c ch actor req check_id conclusion url (in_score i) p s1))"

definition publish_change_check ::
  "github \<Rightarrow> environment \<Rightarrow> (provider \<Rightarrow> provider) \<Rightarrow> settings \<Rightarrow> connection \<Rightarrow> repository \<Rightarrow> change \<Rightarrow> string option \<Rightarrow> string \<Rightarrow>
   provider \<Rightarrow> (app_error + check_response) \<times> provider" where
  "publish_change_check g env others st c r ch actor req s =
     (let pol = check_policy env (cn_workspace c) s in
      case rbind (check_inputs_of g ch) (\<lambda>i. rbind (policy_findings pol (in_score i) ch) (\<lambda>fs. Inr (i, all_findings ch fs))) of
        Inl e \<Rightarrow> (Inl e, s)
      | Inr (i, fs) \<Rightarrow>
          (case github_check_publication env others c r ch (check_conclusion ch fs) (details_url st c r ch) s of
             (Inl e, s1) \<Rightarrow> (Inl e, s1)
           | (Inr p, s1) \<Rightarrow>
               publish_attempt g env st c r ch actor req i pol fs (begin_attempt env p)
                 (update_publication (g_id p) (begin_attempt env) s1)))"

section \<open>What the client sends\<close>

text \<open>Every request an operation sends, whatever the replies, satisfies a predicate, and earlier requests stay.\<close>

definition gh_sends :: "(http_request \<Rightarrow> bool) \<Rightarrow> 'a gh \<Rightarrow> bool" where
  "gh_sends P m \<longleftrightarrow> (\<forall>sent. \<exists>new. snd (m sent) = sent @ new \<and> list_all P new)"

lemma gh_sends_return [simp]: "gh_sends P (gh_return r)"
  by (simp add: gh_sends_def gh_return_def)

lemma gh_sends_request:
  "P \<lparr> hr_method = method, hr_url = cl_api_url c @ path, hr_token = token, hr_version = cl_api_version c, hr_body = body \<rparr> \<Longrightarrow>
   gh_sends P (gh_request g c method path token body)"
  by (simp add: gh_sends_def gh_request_def Let_def)

lemma gh_sends_bind:
  assumes "gh_sends P m" and "\<And>x sent. fst (m sent) = Inr x \<Longrightarrow> gh_sends P (f x)"
  shows "gh_sends P (gh_bind m f)"
  unfolding gh_sends_def
proof
  fix sent
  obtain res sent1 where m: "m sent = (res, sent1)" by fastforce
  obtain new where new: "sent1 = sent @ new" "list_all P new"
    using assms(1) m unfolding gh_sends_def by (metis snd_conv)
  show "\<exists>new. snd (gh_bind m f sent) = sent @ new \<and> list_all P new"
  proof (cases res)
    case (Inl e)
    then show ?thesis using m new by (simp add: gh_bind_def)
  next
    case (Inr x)
    then obtain new' where "snd (f x sent1) = sent1 @ new'" "list_all P new'"
      using assms(2) [of sent x] m unfolding gh_sends_def by fastforce
    then show ?thesis using m new Inr by (intro exI [of _ "new @ new'"]) (simp add: gh_bind_def)
  qed
qed

lemma gh_sends_if [intro]: "(b \<Longrightarrow> gh_sends P x) \<Longrightarrow> (\<not> b \<Longrightarrow> gh_sends P y) \<Longrightarrow> gh_sends P (if b then x else y)"
  by simp

text \<open>A request that creates a check run, and the conclusion a request reports.\<close>

definition creates_check :: "http_request \<Rightarrow> bool" where
  "creates_check q = (hr_method q = ''POST'' \<and> py_endswith (hr_url q) ''/check-runs'')"

text \<open>A request that changes something on GitHub (it neither reads nor asks for a token), and one that updates a check run.\<close>

definition writes :: "http_request \<Rightarrow> bool" where
  "writes q = (hr_method q \<noteq> ''GET'' \<and> \<not> py_endswith (hr_url q) ''/access_tokens'')"

definition updates_check :: "string \<Rightarrow> http_request \<Rightarrow> bool" where
  "updates_check i q = (hr_method q = ''PATCH'' \<and> py_endswith (hr_url q) (''/check-runs/'' @ url_quote i))"

definition only_updates :: "string \<Rightarrow> http_request \<Rightarrow> bool" where
  "only_updates i q = (\<not> creates_check q \<and> (writes q \<longrightarrow> updates_check i q))"

text \<open>GitHub's answer to an update names the check run that was updated, or none.\<close>

definition echoes :: "github \<Rightarrow> string \<Rightarrow> bool" where
  "echoes g i \<longleftrightarrow> (\<forall>sent q v x. updates_check i q \<longrightarrow> gh_http g sent q = Document v \<longrightarrow> vget v ''id'' PNone = Inr x \<longrightarrow>
     str_of g (py_or (py_or x (PStr i)) (PStr [])) = i)"

definition reports :: "http_request \<Rightarrow> string list" where
  "reports q = (case hr_body q of None \<Rightarrow> []
     | Some b \<Rightarrow> (case dget b ''conclusion'' of Some (PStr v) \<Rightarrow> [v] | Some _ \<Rightarrow> [[]] | None \<Rightarrow> []))"

definition harmless :: "string \<Rightarrow> http_request \<Rightarrow> bool" where
  "harmless conclusion q = (\<not> creates_check q \<and> set (reports q) \<subseteq> {conclusion})"

lemma not_check_runs:
  "\<not> py_endswith (s @ ''/access_tokens'') ''/check-runs''"
  by (auto simp: py_endswith_iff append_eq_append_conv2 append_eq_Cons_conv)

lemma installation_token_harmless: "gh_sends (harmless v) (installation_token g c i)"
proof -
  have "harmless v \<lparr> hr_method = ''POST'', hr_url = u @ ''/access_tokens'', hr_token = t, hr_version = w, hr_body = Some [] \<rparr>" for u t w
    using not_check_runs [of u] by (simp add: harmless_def creates_check_def reports_def dget_def)
  from this [of "cl_api_url c @ ''/app/installations/'' @ i"] show ?thesis
    unfolding installation_token_def
    by (intro gh_sends_bind gh_sends_return gh_sends_request) simp
qed

lemma harmless_get: "harmless v \<lparr> hr_method = ''GET'', hr_url = u, hr_token = t, hr_version = w, hr_body = None \<rparr>"
  by (simp add: harmless_def creates_check_def reports_def)

lemma find_check_run_harmless: "gh_sends (harmless v) (find_check_run g c i r h e)"
  unfolding find_check_run_def
  by (intro gh_sends_bind gh_sends_return gh_sends_request gh_sends_if installation_token_harmless harmless_get)

lemma recover_check_id_harmless: "gh_sends (harmless v) (recover_check_id g c k n x)"
  unfolding recover_check_id_def
  by (intro gh_sends_bind gh_sends_return gh_sends_if find_check_run_harmless)

lemma check_run_body_conclusion:
  "check_run_body g c k h = Inr b \<Longrightarrow> dget b ''conclusion'' = Some (PStr (ck_conclusion k))"
  by (auto simp: check_run_body_def dget_def split: if_splits)

lemma gh_return_fst [simp]: "fst (gh_return r sent) = r"
  by (simp add: gh_return_def)

lemma update_check_run_harmless: "gh_sends (harmless (ck_conclusion k)) (update_check_run g c i k)"
  unfolding update_check_run_def
  by (intro gh_sends_bind gh_sends_return gh_sends_if installation_token_harmless gh_sends_request)
    (auto simp: harmless_def creates_check_def reports_def dest!: check_run_body_conclusion)

text \<open>A creation reports the same conclusion.\<close>

lemma gh_sends_mono: "gh_sends P m \<Longrightarrow> (\<And>q. P q \<Longrightarrow> Q q) \<Longrightarrow> gh_sends Q m"
  unfolding gh_sends_def by (metis (mono_tags, lifting) list_all_iff)

lemma create_check_run_reports: "gh_sends (\<lambda>q. set (reports q) \<subseteq> {ck_conclusion k}) (create_check_run g c k)"
  unfolding create_check_run_def
  by (intro gh_sends_bind gh_sends_return gh_sends_request gh_sends_mono [OF installation_token_harmless [of "ck_conclusion k"]])
    (auto simp: harmless_def reports_def dest!: check_run_body_conclusion)

lemma send_check_reports: "gh_sends (\<lambda>q. set (reports q) \<subseteq> {ck_conclusion k}) (send_check g c k n x)"
proof -
  note mono = gh_sends_mono [where P = "harmless (ck_conclusion k)"]
  have upd: "gh_sends (\<lambda>q. set (reports q) \<subseteq> {ck_conclusion k}) (update_check_run g c i k)" for i
    using mono [OF update_check_run_harmless] by (simp add: harmless_def)
  have rec: "gh_sends (\<lambda>q. set (reports q) \<subseteq> {ck_conclusion k}) (recover_check_id g c k n x)"
    using mono [OF recover_check_id_harmless] by (simp add: harmless_def)
  show ?thesis
    unfolding send_check_def
    by (intro gh_sends_bind gh_sends_return rec) (auto simp: upd create_check_run_reports split: option.splits)
qed

text \<open>Once the identifier of the check run is known, nothing is created, and nothing else is updated.\<close>

lemma py_endswith_append [simp]: "py_endswith (s @ t) t"
  by (auto simp: py_endswith_iff)

lemma only_updates_token: "only_updates i \<lparr> hr_method = ''POST'', hr_url = u @ ''/access_tokens'', hr_token = t, hr_version = w, hr_body = b \<rparr>"
  using not_check_runs [of u] py_endswith_append [of u "''/access_tokens''"]
  by (simp only: only_updates_def creates_check_def writes_def http_request.simps) simp

lemma installation_token_only_updates: "gh_sends (only_updates x) (installation_token g c i)"
  using only_updates_token [of x "cl_api_url c @ ''/app/installations/'' @ i"]
  unfolding installation_token_def by (intro gh_sends_bind gh_sends_return gh_sends_request) simp

lemma update_is_update:
  "updates_check i \<lparr> hr_method = ''PATCH'', hr_url = u @ p @ ''/check-runs/'' @ url_quote i, hr_token = t, hr_version = w, hr_body = b \<rparr>"
  using py_endswith_append [of "u @ p" "''/check-runs/'' @ url_quote i"] by (simp add: updates_check_def)

lemma update_only_updates:
  "only_updates i \<lparr> hr_method = ''PATCH'', hr_url = u @ p @ ''/check-runs/'' @ url_quote i, hr_token = t, hr_version = w, hr_body = b \<rparr>"
  using update_is_update [of i u p t w b] by (simp add: only_updates_def creates_check_def)

lemma update_check_run_only_updates: "gh_sends (only_updates i) (update_check_run g c i k)"
  unfolding update_check_run_def
  by (intro gh_sends_bind gh_sends_return gh_sends_if installation_token_only_updates gh_sends_request update_only_updates)

lemma send_check_only_updates:
  assumes "x \<noteq> []"
  shows "gh_sends (only_updates x) (send_check g c k n (Some x))"
  unfolding send_check_def recover_check_id_def
  using assms by (intro gh_sends_bind gh_sends_return) (auto simp: update_check_run_only_updates)

lemma gh_request_reply: "fst (gh_request g c m p t b sent) = Inr v \<Longrightarrow> gh_http g sent
    \<lparr> hr_method = m, hr_url = cl_api_url c @ p, hr_token = t, hr_version = cl_api_version c, hr_body = b \<rparr> = Document v"
  by (auto simp: gh_request_def Let_def elim: reply_value.elims)

lemma gh_bind_Inr: "fst (gh_bind m f sent) = Inr y \<Longrightarrow> \<exists>x. fst (m sent) = Inr x \<and> fst (f x (snd (m sent))) = Inr y"
  by (cases "m sent"; cases "fst (m sent)") (auto simp: gh_bind_def)

lemma update_check_run_reply:
  assumes "fst (update_check_run g c i k sent) = Inr v"
  shows "\<exists>sent' q. updates_check i q \<and> gh_http g sent' q = Document v"
  using assms update_is_update unfolding update_check_run_def
  by (fastforce dest!: gh_bind_Inr gh_request_reply split: if_splits)

lemma send_check_echo:
  assumes "echoes g x" and "x \<noteq> []" and "fst (send_check g c k n (Some x) sent) = Inr (i, res)"
  shows "i = x"
proof -
  from assms(2,3) obtain sent1 v y where "fst (update_check_run g c x k sent1) = Inr v" "vget v ''id'' PNone = Inr y"
    "i = str_of g (py_or (py_or y (PStr x)) (PStr []))"
    unfolding send_check_def recover_check_id_def
    by (fastforce simp: Let_def result_simps gh_return_def dest!: gh_bind_Inr split: if_splits)
  with update_check_run_reply [OF this(1)] assms(1) show ?thesis unfolding echoes_def by blast
qed


section \<open>One attempt\<close>

lemma requests_sent_kept [simp]:
  "requests_sent (update_publication i f s) = requests_sent s"
  "requests_sent (update_connection i h s) = requests_sent s"
  "requests_sent (audited env n w actor action rtype rid req metadata s) = requests_sent s"
  by (simp_all add: update_publication_def update_connection_def audited_def)

lemma record_requests [simp]:
  "requests_sent (record_failure env c ch actor req code pid s) = requests_sent s"
  "requests_sent (record_success env c ch actor req check_id conclusion url score p s) = requests_sent s"
  by (simp_all add: record_failure_def record_success_def Let_def split: option.splits)

lemma committing_state: "snd (committing res t s) = (if provider_unique s then s else t)"
  by (simp add: committing_def commit_provider_def)

lemma committing_Inr: "committing res t s = (Inr a, s') \<longleftrightarrow> provider_unique s \<and> res = Inr a \<and> s' = s"
  by (auto simp: committing_def commit_provider_def)

lemma publish_attempt_requests:
  "requests_sent (snd (publish_attempt g env st c r ch actor req i pol fs p s)) =
     (if github_app_available st
      then snd (send_check g (new_client g st (now env)) (attempt_run st c r ch i pol fs p) (g_attempts p - 1) (g_check_id p) (requests_sent s))
      else requests_sent s)"
proof -
  obtain out sent where out: "send_check g (new_client g st (now env)) (attempt_run st c r ch i pol fs p) (g_attempts p - 1)
      (g_check_id p) (requests_sent s) = (out, sent)" by fastforce
  show ?thesis
  proof (cases out)
    case (Inl e)
    with out show ?thesis
      by (cases e) (simp_all add: publish_attempt_def Let_def committing_state)
  next
    case (Inr x)
    with out show ?thesis
      by (cases x) (simp add: publish_attempt_def Let_def committing_state)
  qed
qed

lemma publish_attempt_sends:
  assumes "gh_sends P (send_check g (new_client g st (now env)) (attempt_run st c r ch i pol fs p) (g_attempts p - 1) (g_check_id p))"
  shows "\<exists>new. requests_sent (snd (publish_attempt g env st c r ch actor req i pol fs p s)) = requests_sent s @ new \<and> list_all P new"
  using assms unfolding publish_attempt_requests gh_sends_def by simp

text \<open>The row after a success.\<close>

lemma send_check_id: "fst (send_check g c k n x sent) = Inr (i, res) \<Longrightarrow> i \<noteq> []"
  by (auto simp: send_check_def gh_bind_def gh_return_def Let_def result_simps split: prod.splits sum.splits if_splits)

lemma publications_kept [simp]:
  "publications (update_connection i h s) = publications s"
  "publications (audited env n w actor action rtype rid req metadata s) = publications s"
  by (simp_all add: update_connection_def audited_def)

lemma publish_attempt_Inr:
  assumes "publish_attempt g env st c r ch actor req i pol fs p s = (Inr a, s')"
  shows "cr_check_id a \<noteq> [] \<and> cr_change a = ch_id ch \<and> cr_conclusion a = check_conclusion ch fs \<and>
    publications s' = map (\<lambda>q. if g_id q = g_id p
      then published_as env (cr_check_id a) (check_conclusion ch fs) (details_url st c r ch) q else q) (publications s)"
proof -
  obtain out sent where out: "send_check g (new_client g st (now env)) (attempt_run st c r ch i pol fs p) (g_attempts p - 1)
      (g_check_id p) (requests_sent s) = (out, sent)" by fastforce
  have app: "github_app_available st" using assms by (rule_tac ccontr) (simp add: publish_attempt_def)
  obtain check_id res where o: "out = Inr (check_id, res)"
  proof (cases out)
    case (Inl e)
    with out app assms show ?thesis
      by (cases e) (auto simp: publish_attempt_def Let_def committing_Inr)
  qed (use that in force)
  have "check_id \<noteq> []" using send_check_id [of g _ _ _ _ _ check_id res] out o by (metis fst_conv)
  with out o app assms show ?thesis
    by (auto simp: publish_attempt_def Let_def committing_Inr record_success_def
        update_publication_def split: if_splits)
qed

lemma publish_attempt_id:
  assumes "publish_attempt g env st c r ch actor req i pol fs p s = (Inr a, s')"
  shows "\<exists>res sent. fst (send_check g (new_client g st (now env)) (attempt_run st c r ch i pol fs p) (g_attempts p - 1) (g_check_id p) sent) =
    Inr (cr_check_id a, res)"
proof -
  obtain out sent where out: "send_check g (new_client g st (now env)) (attempt_run st c r ch i pol fs p) (g_attempts p - 1)
      (g_check_id p) (requests_sent s) = (out, sent)" by fastforce
  have app: "github_app_available st" using assms by (rule_tac ccontr) (simp add: publish_attempt_def)
  show ?thesis
  proof (cases out)
    case (Inl e)
    with out app assms show ?thesis by (cases e) (auto simp: publish_attempt_def Let_def committing_Inr)
  next
    case (Inr x)
    with out app assms have "fst (send_check g (new_client g st (now env)) (attempt_run st c r ch i pol fs p) (g_attempts p - 1)
        (g_check_id p) (requests_sent s)) = Inr (cr_check_id a, snd x)"
      by (cases x) (auto simp: publish_attempt_def Let_def committing_Inr split: if_splits)
    then show ?thesis by blast
  qed
qed

section \<open>The publication row of a commit\<close>

lemma find_publication_map:
  assumes "\<And>p. g_repository (f p) = g_repository p" "\<And>p. g_head_sha (f p) = g_head_sha p" "publications s' = map f (publications s)"
  shows "find_publication s' r h = map_option f (find_publication s r h)"
proof -
  have "find (\<lambda>p. g_repository p = r \<and> g_head_sha p = h) (map f xs) =
      map_option f (find (\<lambda>p. g_repository p = r \<and> g_head_sha p = h) xs)" for xs
    by (induction xs) (auto simp: assms(1,2))
  then show ?thesis by (simp add: find_publication_def assms(3))
qed

lemma find_publication_SomeD: "find_publication s r h = Some p \<Longrightarrow> p \<in> set (publications s) \<and> g_repository p = r \<and> g_head_sha p = h"
  by (auto simp: find_publication_def find_Some_iff)

lemma update_publication_find:
  assumes "\<And>p. g_repository (f p) = g_repository p" "\<And>p. g_head_sha (f p) = g_head_sha p"
  shows "find_publication (update_publication i f s) r h = map_option (\<lambda>p. if g_id p = i then f p else p) (find_publication s r h)"
  using assms by (intro find_publication_map) (auto simp: update_publication_def)

lemma find_append: "find P (xs @ ys) = (case find P xs of None \<Rightarrow> find P ys | Some x \<Rightarrow> Some x)"
  by (induction xs) auto

lemma publication_row:
  assumes "github_check_publication env others c r ch v url s = (Inr p, s')"
  shows "find_publication s' (r_id r) (ch_commit_sha ch) = Some p"
proof -
  let ?f = "\<lambda>p. p \<lparr> g_change := ch_id ch, g_conclusion := Some v, g_details_url := url, g_updated := now env \<rparr>"
  have upd: "find_publication (update_publication (g_id q) ?f t) (r_id r) (ch_commit_sha ch) = Some (?f q)"
    if "find_publication t (r_id r) (ch_commit_sha ch) = Some q" for q t
    using that by (subst update_publication_find) simp_all
  show ?thesis
  proof (cases "find_publication s (r_id r) (ch_commit_sha ch)")
    case (Some q)
    with assms show ?thesis by (auto simp: github_check_publication_def Let_def upd)
  next
    case None
    let ?p = "new_publication env c r ch v url" and ?s1 = "others s"
    show ?thesis
    proof (cases "provider_unique (?s1 \<lparr> publications := publications ?s1 @ [?p] \<rparr>)")
      case True
      have "find_publication ?s1 (r_id r) (ch_commit_sha ch) = None"
      proof (rule ccontr)
        assume "\<not> ?thesis"
        then obtain q where q: "q \<in> set (publications ?s1)" "g_repository q = r_id r" "g_head_sha q = ch_commit_sha ch"
          using find_publication_SomeD by blast
        then have "(g_repository ?p, g_head_sha ?p) \<in> (\<lambda>p. (g_repository p, g_head_sha p)) ` set (publications ?s1)"
          by (force simp: new_publication_def)
        with True show False by (simp add: provider_unique_def)
      qed
      then have "find_publication (?s1 \<lparr> publications := publications ?s1 @ [?p] \<rparr>) (r_id r) (ch_commit_sha ch) = Some ?p"
        by (simp add: find_publication_def find_append new_publication_def)
      with None True assms show ?thesis
        by (auto simp: github_check_publication_def Let_def commit_provider_def upd)
    next
      case False
      with None assms show ?thesis
        by (auto simp: github_check_publication_def Let_def commit_provider_def upd split: option.splits)
    qed
  qed
qed


definition has_check :: "publication \<Rightarrow> bool" where
  "has_check p = (g_check_id p \<notin> {None, Some []})"

text \<open>What an attempt does to the rows: it keeps their keys, and their check runs unless it stores one of \<open>ids\<close>.\<close>

definition row_progress :: "string set \<Rightarrow> (publication \<Rightarrow> publication) \<Rightarrow> bool" where
  "row_progress ids f \<longleftrightarrow> (\<forall>p. g_id (f p) = g_id p \<and> g_repository (f p) = g_repository p \<and> g_head_sha (f p) = g_head_sha p \<and>
     (g_check_id (f p) = g_check_id p \<or> g_check_id (f p) \<in> Some ` (ids - {[]})))"

definition rows_progress :: "string set \<Rightarrow> publication list \<Rightarrow> publication list \<Rightarrow> bool" where
  "rows_progress ids ps qs \<longleftrightarrow> (\<exists>f. qs = map f ps \<and> row_progress ids f)"

lemma rows_progress_refl [simp]: "rows_progress ids ps ps"
  unfolding rows_progress_def row_progress_def by (intro exI [of _ "\<lambda>p. p"]) simp

lemma rows_progress_map: "row_progress ids f \<Longrightarrow> rows_progress ids ps (map (\<lambda>p. if g_id p = i then f p else p) ps)"
  unfolding rows_progress_def row_progress_def by (intro exI [of _ "\<lambda>p. if g_id p = i then f p else p"]) simp

lemma rows_progress_find:
  assumes "rows_progress ids (publications s) (publications s')" and "find_publication s r h = Some p"
  shows "\<exists>q. find_publication s' r h = Some q \<and> (g_check_id q = g_check_id p \<or> g_check_id q \<in> Some ` (ids - {[]}))"
proof -
  obtain f where f: "publications s' = map f (publications s)" and row: "row_progress ids f"
    using assms(1) unfolding rows_progress_def by blast
  have "find_publication s' r h = Some (f p)"
    using find_publication_map [of f s' s r h] row f assms(2) by (simp add: row_progress_def)
  with row show ?thesis unfolding row_progress_def by blast
qed

lemma rows_progress_trans:
  assumes "rows_progress ids ps qs" and "rows_progress ids qs rs"
  shows "rows_progress ids ps rs"
proof -
  from assms obtain f h where "qs = map f ps" "rs = map h qs" and row: "row_progress ids f" "row_progress ids h"
    unfolding rows_progress_def by blast
  moreover have "row_progress ids (h \<circ> f)" using row unfolding row_progress_def comp_def by metis
  ultimately show ?thesis unfolding rows_progress_def by (intro exI [of _ "h \<circ> f"]) simp
qed

lemma attempt_rows:
  "rows_progress ids ps (map (\<lambda>p. if g_id p = i then begin_attempt env p else p) ps)"
  "rows_progress ids ps (map (\<lambda>p. if g_id p = i then failed_attempt env code p else p) ps)"
  "check_id \<noteq> [] \<Longrightarrow> check_id \<in> ids \<Longrightarrow>
     rows_progress ids ps (map (\<lambda>p. if g_id p = i then published_as env check_id v url p else p) ps)"
  by (auto intro!: rows_progress_map simp: row_progress_def begin_attempt_def failed_attempt_def published_as_def Let_def)

lemma record_failure_publications:
  "publications (record_failure env c ch actor req code pid s) =
     map (\<lambda>p. if g_id p = pid then failed_attempt env code p else p) (publications s)"
  by (simp add: record_failure_def Let_def update_publication_def split: option.splits)

definition answered :: "app_error + check_response \<Rightarrow> string set" where
  "answered res = (case res of Inl _ \<Rightarrow> {} | Inr a \<Rightarrow> {cr_check_id a})"

lemma publish_attempt_rows:
  assumes "publish_attempt g env st c r ch actor req i pol fs p s = (res, s')"
  shows "rows_progress (answered res) (publications s) (publications s')"
proof (cases res)
  case (Inr a)
  with assms show ?thesis
    using publish_attempt_Inr [of g env st c r ch actor req i pol fs p s a s'] by (simp add: attempt_rows answered_def)
next
  case (Inl e)
  obtain out sent where out: "send_check g (new_client g st (now env)) (attempt_run st c r ch i pol fs p) (g_attempts p - 1)
      (g_check_id p) (requests_sent s) = (out, sent)" by fastforce
  have fail: "rows_progress ids (publications s) (publications (snd (committing x (s \<lparr> requests_sent := sent \<rparr>)
      (record_failure env c ch actor req code (g_id p) (s \<lparr> requests_sent := sent \<rparr>)))))" for x :: "app_error + check_response" and code ids
    by (simp add: committing_state record_failure_publications attempt_rows)
  have "rows_progress (answered res) (publications s) (publications (snd (publish_attempt g env st c r ch actor req i pol fs p s)))"
  proof (cases out)
    case (Inl e)
    with out fail show ?thesis by (cases e) (simp_all add: publish_attempt_def Let_def)
  next
    case o: (Inr x)
    with out assms Inl show ?thesis
      by (cases x) (auto simp: publish_attempt_def Let_def committing_def split: if_splits sum.splits)
  qed
  with assms show ?thesis by simp
qed

lemma publication_rows:
  assumes "find_publication s (r_id r) (ch_commit_sha ch) = Some q"
  shows "\<exists>p. github_check_publication env others c r ch v url s = (Inr p, snd (github_check_publication env others c r ch v url s)) \<and>
    g_id p = g_id q \<and> g_check_id p = g_check_id q \<and> g_external_id p = g_external_id q \<and>
    rows_progress ids (publications s) (publications (snd (github_check_publication env others c r ch v url s))) \<and>
    requests_sent (snd (github_check_publication env others c r ch v url s)) = requests_sent s"
  using assms by (auto simp: github_check_publication_def Let_def update_publication_def row_progress_def intro!: rows_progress_map)

lemma publish_cases:
  assumes "publish_change_check g env others st c r ch actor req s = (res, s')"
  obtains (refused) e where "res = Inl e" "s' = s"
  | (lost) fs e where "github_check_publication env others c r ch (check_conclusion ch (all_findings ch fs)) (details_url st c r ch) s = (Inl e, s')"
      "res = Inl e"
  | (attempt) i fs p s1 where
      "github_check_publication env others c r ch (check_conclusion ch (all_findings ch fs)) (details_url st c r ch) s = (Inr p, s1)"
      "publish_attempt g env st c r ch actor req i (check_policy env (cn_workspace c) s) (all_findings ch fs) (begin_attempt env p)
         (update_publication (g_id p) (begin_attempt env) s1) = (res, s')"
proof -
  let ?in = "rbind (check_inputs_of g ch) (\<lambda>i. rbind (policy_findings (check_policy env (cn_workspace c) s) (in_score i) ch)
    (\<lambda>fs. Inr (i, all_findings ch fs)))"
  show ?thesis
  proof (cases ?in)
    case (Inl e)
    with assms show ?thesis by (intro refused [of e]) (simp_all add: publish_change_check_def Let_def)
  next
    case (Inr x)
    then obtain i fs where x: "?in = Inr (i, all_findings ch fs)" by (auto simp: result_simps)
    obtain out s1 where row: "github_check_publication env others c r ch (check_conclusion ch (all_findings ch fs))
        (details_url st c r ch) s = (out, s1)" by fastforce
    show ?thesis
    proof (cases out)
      case (Inl e)
      with assms x row show ?thesis by (intro lost [of fs e]) (simp_all add: publish_change_check_def Let_def)
    next
      case (Inr p)
      with assms x row show ?thesis by (intro attempt [of fs p s1 i]) (simp_all add: publish_change_check_def Let_def)
    qed
  qed
qed

lemma published_row:
  assumes "publish_change_check g env others st c r ch actor req s = (Inr a, s')"
  shows "\<exists>p. find_publication s' (r_id r) (ch_commit_sha ch) = Some p \<and> has_check p \<and> g_status p = ''published'' \<and>
    g_check_id p = Some (cr_check_id a)"
proof -
  obtain i fs p s1 where row: "github_check_publication env others c r ch (check_conclusion ch fs) (details_url st c r ch) s = (Inr p, s1)"
    and att: "publish_attempt g env st c r ch actor req i (check_policy env (cn_workspace c) s) fs (begin_attempt env p)
      (update_publication (g_id p) (begin_attempt env) s1) = (Inr a, s')"
    using assms by (cases rule: publish_cases) auto
  let ?s2 = "update_publication (g_id p) (begin_attempt env) s1"
  let ?f = "published_as env (cr_check_id a) (check_conclusion ch fs) (details_url st c r ch)"
  have "find_publication ?s2 (r_id r) (ch_commit_sha ch) = Some (begin_attempt env p)"
    using publication_row [OF row] by (subst update_publication_find) (simp_all add: begin_attempt_def)
  moreover have "publications s' = map (\<lambda>q. if g_id q = g_id p then ?f q else q) (publications ?s2)" "cr_check_id a \<noteq> []"
    using publish_attempt_Inr [OF att] by (simp_all add: begin_attempt_def)
  then have "find_publication s' (r_id r) (ch_commit_sha ch) =
      map_option (\<lambda>q. if g_id q = g_id p then ?f q else q) (find_publication ?s2 (r_id r) (ch_commit_sha ch))"
    by (intro find_publication_map) (auto simp: published_as_def)
  ultimately show ?thesis
    using \<open>cr_check_id a \<noteq> []\<close> by (simp add: begin_attempt_def published_as_def has_check_def)
qed

text \<open>An attempt on a commit whose check run is known.\<close>

lemma publish_known:
  assumes "find_publication s (r_id r) (ch_commit_sha ch) = Some q" and "g_check_id q = Some x" and "x \<noteq> []"
    and "publish_change_check g env others st c r ch actor req s = (res, s')"
  shows "(\<exists>new. requests_sent s' = requests_sent s @ new \<and> list_all (only_updates x) new) \<and>
    rows_progress (answered res) (publications s) (publications s') \<and> (echoes g x \<longrightarrow> answered res \<subseteq> {x})"
  using assms(4)
proof (cases rule: publish_cases)
  case refused
  then show ?thesis by (simp add: answered_def)
next
  case (lost fs e)
  with publication_rows [OF assms(1)] show ?thesis by (metis Inl_Inr_False fst_conv)
next
  case (attempt i fs p s1)
  then have p: "g_id p = g_id q" "g_check_id p = Some x" and s1: "rows_progress (answered res) (publications s) (publications s1)"
    "requests_sent s1 = requests_sent s"
    using publication_rows [OF assms(1), of env others c "check_conclusion ch (all_findings ch fs)" "details_url st c r ch" "answered res"]
      assms(2) by auto
  let ?s2 = "update_publication (g_id p) (begin_attempt env) s1" and ?pol = "check_policy env (cn_workspace c) s"
  let ?k = "attempt_run st c r ch i ?pol (all_findings ch fs) (begin_attempt env p)"
  have known: "g_check_id (begin_attempt env p) = Some x" using p(2) by (simp add: begin_attempt_def)
  have "gh_sends (only_updates x) (send_check g (new_client g st (now env)) ?k (g_attempts (begin_attempt env p) - 1)
      (g_check_id (begin_attempt env p)))"
    unfolding known by (rule send_check_only_updates [OF assms(3)])
  from publish_attempt_sends [OF this, of actor req ?s2] attempt(2)
  have "\<exists>new. requests_sent s' = requests_sent s @ new \<and> list_all (only_updates x) new" using s1(2) by simp
  moreover have "rows_progress (answered res) (publications ?s2) (publications s')" by (rule publish_attempt_rows [OF attempt(2)])
  then have "rows_progress (answered res) (publications s) (publications s')"
    using s1(1) attempt_rows(1) [of "answered res" "publications s1" "g_id p" env]
    by (auto simp: update_publication_def intro: rows_progress_trans)
  moreover have "cr_check_id a = x" if "res = Inr a" "echoes g x" for a
    using publish_attempt_id [OF attempt(2) [unfolded that(1)]] send_check_echo [OF that(2) assms(3)] unfolding known by blast
  ultimately show ?thesis by (auto simp: answered_def split: sum.splits)
qed

section \<open>Properties of publication\<close>

text \<open>A call of \<open>_publish_github_change_check\<close> with everything it depends on.\<close>

record publish_call =
  pc_github :: github
  pc_env :: environment
  pc_others :: "provider \<Rightarrow> provider"
  pc_settings :: settings
  pc_connection :: connection
  pc_repository :: repository
  pc_change :: change
  pc_actor :: "string option"
  pc_request :: string

definition call_publish :: "publish_call \<Rightarrow> provider \<Rightarrow> (app_error + check_response) \<times> provider" where
  "call_publish pc s = publish_change_check (pc_github pc) (pc_env pc) (pc_others pc) (pc_settings pc) (pc_connection pc)
     (pc_repository pc) (pc_change pc) (pc_actor pc) (pc_request pc) s"

definition publish_step :: "string \<Rightarrow> string \<Rightarrow> provider \<Rightarrow> publish_call \<Rightarrow> provider option" where
  "publish_step r h s pc =
     (if r_id (pc_repository pc) = r \<and> ch_commit_sha (pc_change pc) = h then Some (snd (call_publish pc s)) else None)"

definition knows_check :: "string \<Rightarrow> string \<Rightarrow> string set \<Rightarrow> provider \<Rightarrow> bool" where
  "knows_check r h ids s = (\<exists>p x. find_publication s r h = Some p \<and> g_check_id p = Some x \<and> x \<in> ids \<and> x \<noteq> [])"

definition sends_only :: "(http_request \<Rightarrow> bool) \<Rightarrow> provider \<Rightarrow> provider \<Rightarrow> bool" where
  "sends_only P s s' = (\<exists>new. requests_sent s' = requests_sent s @ new \<and> list_all P new)"

lemma publish_step_known:
  assumes "knows_check r h ids s" and "publish_step r h s pc = Some s'" and "ids = UNIV \<or> ids = {x} \<and> echoes (pc_github pc) x"
  shows "knows_check r h ids s' \<and> sends_only (\<lambda>q. \<exists>i\<in>ids. only_updates i q) s s'"
proof -
  from assms(2) have eq: "r = r_id (pc_repository pc)" "h = ch_commit_sha (pc_change pc)" "s' = snd (call_publish pc s)"
    by (auto simp: publish_step_def split: if_splits)
  from assms(1) obtain p i where p: "find_publication s (r_id (pc_repository pc)) (ch_commit_sha (pc_change pc)) = Some p"
    "g_check_id p = Some i" "i \<in> ids" "i \<noteq> []" unfolding knows_check_def eq by blast
  obtain res where res: "call_publish pc s = (res, s')" unfolding eq(3) by (metis prod.collapse)
  note known = publish_known [OF p(1,2,4) res [unfolded call_publish_def]]
  obtain q where q: "find_publication s' r h = Some q" "g_check_id q = g_check_id p \<or> g_check_id q \<in> Some ` (answered res - {[]})"
    using rows_progress_find [OF _ p(1)] known unfolding eq(1,2) by blast
  have "answered res \<subseteq> ids" using known assms(3) p(3) by auto
  with p q have "knows_check r h ids s'" unfolding knows_check_def by auto
  moreover have "sends_only (\<lambda>q. \<exists>i\<in>ids. only_updates i q) s s'"
    using known p(3) unfolding sends_only_def list_all_iff by blast
  ultimately show ?thesis by blast
qed

lemma sends_only_refl: "sends_only P s s"
  by (simp add: sends_only_def)

lemma sends_only_trans: "sends_only P s t \<Longrightarrow> sends_only P t u \<Longrightarrow> sends_only P s u"
  unfolding sends_only_def by (metis append.assoc list_all_append)

interpretation publishing: monotone_system "publish_step r h" "knows_check r h UNIV" "sends_only (\<lambda>q. \<exists>i\<in>UNIV. only_updates i q)"
proof
  fix s e s' assume known: "knows_check r h UNIV s" and "publish_step r h s e = Some s'"
  from publish_step_known [OF this]
  show "knows_check r h UNIV s'" "sends_only (\<lambda>q. \<exists>i\<in>UNIV. only_updates i q) s s'" by blast+
qed (rule sends_only_refl, rule sends_only_trans)

text \<open>The attempts whose updates GitHub answers with the check run it updated.\<close>

definition echoed_step :: "string \<Rightarrow> string \<Rightarrow> string \<Rightarrow> provider \<Rightarrow> publish_call \<Rightarrow> provider option" where
  "echoed_step r h x s pc = (if echoes (pc_github pc) x then publish_step r h s pc else None)"

interpretation echoed: monotone_system "echoed_step r h x" "knows_check r h {x}" "sends_only (\<lambda>q. \<exists>i\<in>{x}. only_updates i q)"
proof
  fix s e s' assume known: "knows_check r h {x} s" and "echoed_step r h x s e = Some s'"
  then have "publish_step r h s e = Some s'" "{x} = UNIV \<or> {x} = {x} \<and> echoes (pc_github e) x"
    by (simp_all add: echoed_step_def split: if_splits)
  from publish_step_known [OF known this]
  show "knows_check r h {x} s'" "sends_only (\<lambda>q. \<exists>i\<in>{x}. only_updates i q) s s'" by blast+
qed (rule sends_only_refl, rule sends_only_trans)

lemma echoed_run: "\<forall>pc\<in>set calls. echoes (pc_github pc) x \<Longrightarrow> run_events (echoed_step r h x) s calls = run_events (publish_step r h) s calls"
  by (induction calls arbitrary: s) (auto simp: echoed_step_def split: option.splits)


text \<open>
  C27. A connected change never gets a green check: whatever its score, its policy and GitHub's replies, every request
  sent while its check is published reports the conclusion \<open>neutral\<close> or none, and so does the answer, because no
  evidence receipt matches it. Earlier requests stay as they were, when the concurrent publishers keep them.
\<close>
theorem connected_check_neutral:
  assumes "ch_data_mode (pc_change pc) = ''connected''" and "\<And>t. requests_sent (pc_others pc t) = requests_sent t"
    and "call_publish pc s = (res, s')"
  shows "(\<exists>new. requests_sent s' = requests_sent s @ new \<and> (\<forall>q\<in>set new. set (reports q) \<subseteq> {''neutral''})) \<and>
    (\<forall>a. res = Inr a \<longrightarrow> cr_conclusion a = ''neutral'')"
proof -
  have neutral: "check_conclusion (pc_change pc) fs = ''neutral''" for fs
    using assms(1) by (simp add: check_conclusion_def receipt_missing_def)
  have row: "requests_sent (snd (github_check_publication env (pc_others pc) c r ch v url s)) = requests_sent s" for env c r ch v url
    using assms(2) by (auto simp: github_check_publication_def Let_def commit_provider_def split: option.splits sum.splits)
  show ?thesis
    using assms(3) [unfolded call_publish_def]
  proof (cases rule: publish_cases)
    case (lost fs e)
    then show ?thesis
      using row [of "pc_env pc" "pc_connection pc" "pc_repository pc" "pc_change pc"
          "check_conclusion (pc_change pc) (all_findings (pc_change pc) fs)" "details_url (pc_settings pc) (pc_connection pc) (pc_repository pc) (pc_change pc)"]
      by simp
  next
    case (attempt i fs p s1)
    have "requests_sent s1 = requests_sent s"
      using row [of "pc_env pc" "pc_connection pc" "pc_repository pc" "pc_change pc"
          "check_conclusion (pc_change pc) (all_findings (pc_change pc) fs)" "details_url (pc_settings pc) (pc_connection pc) (pc_repository pc) (pc_change pc)"]
        attempt(1) by simp
    moreover have "cr_conclusion a = ''neutral''" if "res = Inr a" for a
      using publish_attempt_Inr [OF attempt(2) [unfolded that]] neutral by simp
    moreover have "gh_sends (\<lambda>q. set (reports q) \<subseteq> {''neutral''})
        (send_check g cl (attempt_run st c r (pc_change pc) i pol (all_findings (pc_change pc) fs) q) n x)" for g cl st c r pol q n x
      using send_check_reports [of "attempt_run st c r (pc_change pc) i pol (all_findings (pc_change pc) fs) q"]
      by (simp add: attempt_run_def neutral)
    from publish_attempt_sends [OF this [of "pc_github pc" _ "pc_settings pc" "pc_connection pc" "pc_repository pc"
          "check_policy (pc_env pc) (cn_workspace (pc_connection pc)) s" "begin_attempt (pc_env pc) p"],
        of "pc_env pc" "pc_actor pc" "pc_request pc" "update_publication (g_id p) (begin_attempt (pc_env pc)) s1"]
    have "\<exists>new. requests_sent s' = requests_sent s1 @ new \<and> (\<forall>q\<in>set new. set (reports q) \<subseteq> {''neutral''})"
      unfolding attempt(2) by (simp add: list_all_iff)
    ultimately show ?thesis by simp
  qed (simp)
qed


section \<open>Witnesses\<close>

definition demo_github :: github where
  "demo_github = \<lparr> gh_api_url = ''https://api.github.com/'', gh_api_version = ''2026-03-10'',
     gh_http = (\<lambda>sent q. Document (PDict (if py_endswith (hr_url q) ''/access_tokens'' then [(PStr ''token'', PStr ''t'')]
       else [(PStr ''id'', PInt 5)]))),
     gh_jwt = (\<lambda>a k t. ''jwt''), gh_iso = (\<lambda>t. ''2026-01-01T00:00:00Z''), gh_str = (\<lambda>v. ''?''), gh_float = (\<lambda>s. None) \<rparr>"

definition demo_provider :: provider where
  "demo_provider = ops.extend demo_ops \<lparr> connections = [demo_connection], changes = [demo_change], publications = [],
     auth_states = [], webhooks = [], requests_sent = [] \<rparr>"

definition demo_call :: publish_call where
  "demo_call = \<lparr> pc_github = demo_github, pc_env = demo_env 5 ''g'', pc_others = (\<lambda>s. s),
     pc_settings = default_settings \<lparr> github_app_id := ''1'', github_app_slug := ''dg'', github_app_private_key := ''k'',
       github_webhook_secret := ''s'', github_checks_enabled := True \<rparr>,
     pc_connection = demo_connection, pc_repository = demo_repository, pc_change = demo_change, pc_actor = None,
     pc_request = ''req'' \<rparr>"

lemma demo_call_publishes: "is_ok (fst (call_publish demo_call demo_provider))"
  by code_simp

lemma demo_call_answer: "(case fst (call_publish demo_call demo_provider) of Inl _ \<Rightarrow> [] | Inr a \<Rightarrow> cr_check_id a) = ''5''"
  by code_simp

lemma demo_echoes: "echoes demo_github ''5''"
proof -
  have "py_or (PInt 5) (PStr ''5'') = PInt 5" "str_of demo_github (py_or (PInt 5) (PStr [])) = ''5''" by code_simp+
  moreover have "v = PDict [(PStr ''id'', PInt 5)]" if "updates_check ''5'' q" "gh_http demo_github sent q = Document v" for sent q v
  proof -
    have five: "url_quote ''5'' = ''5''" by code_simp
    have "\<not> py_endswith (hr_url q) ''/access_tokens''"
    proof
      assume "py_endswith (hr_url q) ''/access_tokens''"
      moreover have "py_endswith (hr_url q) (''/check-runs/'' @ ''5'')"
        using that(1) unfolding updates_check_def five by blast
      ultimately have "last (hr_url q) = CHR ''s''" "last (hr_url q) = CHR ''5''" by (auto simp: py_endswith_iff)
      then show False by simp
    qed
    with that(2) show ?thesis by (simp add: demo_github_def)
  qed
  moreover have "vget (PDict [(PStr ''id'', PInt 5)]) ''id'' PNone = Inr (PInt 5)" by code_simp
  ultimately show ?thesis unfolding echoes_def by fastforce
qed


theorem connected_check_neutral_witness:
  "\<exists>new. requests_sent (snd (call_publish demo_call demo_provider)) = requests_sent demo_provider @ new \<and>
     (\<forall>q\<in>set new. set (reports q) \<subseteq> {''neutral''})"
  using connected_check_neutral [of demo_call demo_provider "fst (call_publish demo_call demo_provider)"
      "snd (call_publish demo_call demo_provider)"]
  by (simp add: demo_call_def demo_change_def)

end
