(* ===== verification/Providers.thy ===== *)
theory Providers
  imports GithubChecks
begin

text \<open>
  The rest of \<open>backend/app/provider_services.py\<close>: the GitHub App installation handshake, the health of connectors, the
  selection of repositories, disconnecting, and the two entries to the publication of a check.

  A request to GitHub is logged in the state even when the operation fails afterwards, so operations that send requests
  return their exception together with the state. The set of requested repositories is visited in the order of the
  request. The permissions of an installation are the object GitHub documents.
\<close>

section \<open>Installation\<close>

definition app_not_configured :: app_error where
  "app_not_configured = DomainError ''GitHub App is not configured'' ''github_app_not_configured'' 503"

definition begin_github_installation ::
  "environment \<Rightarrow> settings \<Rightarrow> user \<Rightarrow> string \<Rightarrow> string \<Rightarrow> provider \<Rightarrow> app_error + (string \<times> int) \<times> provider" where
  "begin_github_installation env st usr w req s =
     rbind (member_of usr w Admin s) (\<lambda>(_, s0).
     if \<not> github_app_available st then Inl app_not_configured
     else let expires = now env + minutes 10;
              row = \<lparr> st_id = fresh env 0, st_hash = sha env (secret_token env), st_provider = ''github'', st_workspace = w,
                st_user = u_id usr, st_created = now env, st_expires = expires, st_consumed = None \<rparr>;
              s1 = audited env 1 w (Some (u_id usr)) ''provider.github.install_started'' ''provider_connection'' ''github'' req []
                (s0 \<lparr> auth_states := auth_states s0 @ [row] \<rparr>)
          in rbind (commit_provider s1) (\<lambda>s2.
             Inr ((''https://github.com/apps/'' @ github_app_slug st @ ''/installations/new?'' @
               urlencode [(''state'', secret_token env)], expires), s2)))"

definition find_auth_state :: "provider \<Rightarrow> string \<Rightarrow> auth_state option" where
  "find_auth_state s h = find (\<lambda>a. st_hash a = h \<and> st_provider a = ''github'') (auth_states s)"

definition invalid_state :: app_error where
  "invalid_state = DomainError ''GitHub installation state is invalid or expired'' ''invalid_provider_state'' 400"

definition signed_installation_event :: "provider \<Rightarrow> string \<Rightarrow> bool" where
  "signed_installation_event s i = list_ex (\<lambda>d. wd_provider d = ''github'' \<and> wd_installation d = Some i \<and>
     wd_event d \<in> {''installation'', ''installation_repositories''} \<and> wd_status d \<in> {''verified'', ''verified_unmapped''}) (webhooks s)"

record account =
  ac_id :: string
  ac_login :: string
  ac_type :: string
  ac_permissions :: pydict
  ac_selection :: string

text \<open>The fields read from the installation document.\<close>

definition account_of :: "github \<Rightarrow> pyval \<Rightarrow> app_error + account" where
  "account_of g doc =
     rbind (vget doc ''account'' PNone) (\<lambda>v. let a = py_or v (PDict []) in
     rbind (vget a ''id'' PNone) (\<lambda>i. rbind (vget a ''login'' PNone) (\<lambda>l.
     if \<not> truthy i \<or> \<not> truthy l
     then Inl (provider_failed ''GitHub installation account is incomplete'' ''github_installation_invalid'')
     else rbind (vget a ''type'' (PStr ''Account'')) (\<lambda>ty.
       rbind (vget doc ''permissions'' PNone) (\<lambda>ps. rbind (vget doc ''repository_selection'' (PStr ''selected'')) (\<lambda>sel.
       Inr \<lparr> ac_id = str_of g i, ac_login = str_of g l, ac_type = str_of g ty, ac_permissions = as_dict (py_or ps (PDict [])),
             ac_selection = str_of g sel \<rparr>))))))"

definition workspace_connection :: "provider \<Rightarrow> string \<Rightarrow> connection option" where
  "workspace_connection s w = find (\<lambda>c. cn_workspace c = w \<and> cn_provider c = ''github'') (connections s)"

definition linked_connection ::
  "environment \<Rightarrow> auth_state \<Rightarrow> string \<Rightarrow> account \<Rightarrow> string \<Rightarrow> connection option \<Rightarrow> connection" where
  "linked_connection env a i ac verified existing =
     (let c = (case existing of Some c \<Rightarrow> c | None \<Rightarrow>
        \<lparr> cn_id = fresh env 0, cn_workspace = st_workspace a, cn_provider = ''github'', cn_installation = i, cn_account_id = [],
          cn_account_login = [], cn_account_type = [], cn_state = verified, cn_permissions = [], cn_selection = [],
          cn_created_by = st_user a, cn_created = now env, cn_updated = now env, cn_last_synced = None, cn_error = None \<rparr>)
      in c \<lparr> cn_installation := i, cn_account_id := ac_id ac, cn_account_login := ac_login ac, cn_account_type := ac_type ac,
             cn_state := verified, cn_permissions := ac_permissions ac, cn_selection := ac_selection ac,
             cn_updated := now env, cn_error := None \<rparr>)"

definition link_installation ::
  "environment \<Rightarrow> auth_state \<Rightarrow> string \<Rightarrow> string \<Rightarrow> account \<Rightarrow> provider \<Rightarrow> app_error + connection \<times> provider" where
  "link_installation env a i req ac s =
     (if (case find (\<lambda>c. cn_installation c = i) (connections s) of None \<Rightarrow> False | Some c \<Rightarrow> cn_workspace c \<noteq> st_workspace a)
      then Inl (conflict ''GitHub installation is already linked to another workspace'' ''github_installation_already_linked'')
      else let old = workspace_connection s (st_workspace a);
               verified = (if signed_installation_event s i then ''connected'' else ''pending_verification'');
               c = linked_connection env a i ac verified old;
               s1 = (case old of None \<Rightarrow> s \<lparr> connections := connections s @ [c] \<rparr>
                     | Some o' \<Rightarrow> update_connection (cn_id o') (\<lambda>_. c) s);
               s2 = s1 \<lparr> auth_states := map (\<lambda>x. if st_id x = st_id a then x \<lparr> st_consumed := Some (now env) \<rparr> else x) (auth_states s1) \<rparr>;
               s3 = audited env 1 (st_workspace a) (Some (st_user a))
                 (if verified = ''connected'' then ''provider.github.connected'' else ''provider.github.pending_verification'')
                 ''provider_connection'' (cn_id c) req [(''account_login'', cn_account_login c), (''installation_id'', i)] s2
           in rbind (commit_provider s3) (\<lambda>s4. Inr (c, s4)))"

definition complete_github_installation ::
  "github \<Rightarrow> environment \<Rightarrow> settings \<Rightarrow> string \<Rightarrow> string \<Rightarrow> string \<Rightarrow> string \<Rightarrow> provider \<Rightarrow> (app_error + connection) \<times> provider" where
  "complete_github_installation g env st i raw_state setup_action req s =
     (case find_auth_state s (sha env raw_state) of
        None \<Rightarrow> (Inl invalid_state, s)
      | Some a \<Rightarrow>
          if st_consumed a \<noteq> None \<or> st_expires a \<le> now env then (Inl invalid_state, s)
          else if setup_action \<notin> {''install'', ''update''}
          then (Inl (DomainError ''GitHub installation was not completed'' ''github_installation_incomplete'' 400), s)
          else case set_tenant_context (st_workspace a) (base s) of
            Inl e \<Rightarrow> (Inl e, s)
          | Inr b \<Rightarrow>
              let s0 = s \<lparr> base := b \<rparr> in
              if \<not> github_app_available st then (Inl app_not_configured, s0)
              else (case installation g (new_client g st (now env)) i (requests_sent s0) of
                (Inl e, sent) \<Rightarrow> (Inl e, s0 \<lparr> requests_sent := sent \<rparr>)
              | (Inr doc, sent) \<Rightarrow>
                  let s1 = s0 \<lparr> requests_sent := sent \<rparr> in
                  (case rbind (account_of g doc) (\<lambda>ac. link_installation env a i req ac s1) of
                     Inl e \<Rightarrow> (Inl e, s1)
                   | Inr (c, s2) \<Rightarrow> (Inr c, s2))))"

definition permissions_text :: "github \<Rightarrow> connection \<Rightarrow> (string \<times> string) list" where
  "permissions_text g c = map (\<lambda>(k, v). (str_of g k, str_of g v)) (cn_permissions c)"

section \<open>Health\<close>

record connector_health =
  he_connection :: string
  he_provider :: string
  he_status :: string
  he_state :: string
  he_selected :: nat
  he_last_synced :: "int option"
  he_last_delivery :: "(int \<times> string) option"
  he_last_success :: "int option"
  he_last_failure :: "int option"
  he_stuck :: nat
  he_retrying :: nat
  he_permanent :: nat
  he_error :: "string option"
  he_reasons :: "string list"

definition latest_time :: "int list \<Rightarrow> int option" where
  "latest_time ts = (case ts of [] \<Rightarrow> None | t # ts' \<Rightarrow> Some (fold max ts' t))"

definition provider_deliveries :: "provider \<Rightarrow> string \<Rightarrow> string \<Rightarrow> webhook_delivery list" where
  "provider_deliveries s w p = filter (\<lambda>d. wd_workspace d = Some w \<and> wd_provider d = p) (webhooks s)"

definition publication_count :: "provider \<Rightarrow> string \<Rightarrow> string \<Rightarrow> nat" where
  "publication_count s w state = length (filter (\<lambda>p. g_workspace p = w \<and> g_status p = state) (publications s))"

definition failure_newer :: "int option \<Rightarrow> int option \<Rightarrow> bool" where
  "failure_newer failure success = (case failure of None \<Rightarrow> False
     | Some f \<Rightarrow> (case success of None \<Rightarrow> True | Some t \<Rightarrow> t < f))"

definition degraded_reasons :: "connection \<Rightarrow> int option \<Rightarrow> int option \<Rightarrow> nat \<Rightarrow> nat \<Rightarrow> string list" where
  "degraded_reasons c failure success stuck permanent =
     (if cn_state c \<noteq> ''connected'' then [''provider_connection_unavailable''] else []) @
     (if cn_error c \<notin> {None, Some []} then [''provider_error_recorded''] else []) @
     (if failure_newer failure success then [''latest_delivery_failed''] else []) @
     (if stuck > 0 then [''stuck_webhook_delivery''] else []) @
     (if permanent > 0 then [''permanent_publication_failure''] else [])"

definition health_of :: "environment \<Rightarrow> string \<Rightarrow> provider \<Rightarrow> connection \<Rightarrow> connector_health" where
  "health_of env w s c =
     (let ds = provider_deliveries s w (cn_provider c);
          success = latest_time (map wd_created (filter (\<lambda>d. wd_status d \<in> {''processed'', ''verified'', ''ignored''}) ds));
          failure = latest_time (map wd_created (filter (\<lambda>d. wd_status d = ''failed'') ds));
          stuck = length (filter (\<lambda>d. wd_status d = ''processing'' \<and> wd_created d < now env - minutes 5) ds);
          github = (cn_provider c = ''github'');
          retrying = (if github then publication_count s w ''retryable_failed'' else 0);
          permanent = (if github then publication_count s w ''permanent_failed'' else 0);
          degraded = degraded_reasons c failure success stuck permanent;
          (verdict, reasons) =
            (if cn_state c = ''pending_verification'' then (''pending'', [''provider_verification_pending''])
             else if cn_state c = ''revoked'' then (''revoked'', [''provider_access_revoked''])
             else (if degraded \<noteq> [] then ''degraded'' else ''healthy'', degraded))
      in \<lparr> he_connection = cn_id c, he_provider = cn_provider c, he_status = verdict, he_state = cn_state c,
           he_selected = length (filter (\<lambda>r. r_workspace r = w \<and> r_provider r = cn_provider c \<and> r_selected r \<and>
             r_connection_state r = ''connected'') (repositories (base s))), he_last_synced = cn_last_synced c,
           he_last_delivery = (case rev (sort_key (\<lambda>d. (wd_created d, wd_id d)) ds) of [] \<Rightarrow> None | d # _ \<Rightarrow> Some (wd_created d, wd_status d)),
           he_last_success = success, he_last_failure = failure, he_stuck = stuck, he_retrying = retrying,
           he_permanent = permanent, he_error = cn_error c, he_reasons = reasons \<rparr>)"

definition connector_health_list :: "environment \<Rightarrow> user \<Rightarrow> string \<Rightarrow> provider \<Rightarrow> app_error + connector_health list \<times> provider" where
  "connector_health_list env usr w s =
     rbind (member_of usr w Viewer s) (\<lambda>(_, s0).
     Inr (map (health_of env w s0) (sort_key (\<lambda>c. (cn_provider c, cn_id c)) (filter (\<lambda>c. cn_workspace c = w) (connections s0))), s0))"

section \<open>Repositories\<close>

definition github_connection :: "user \<Rightarrow> string \<Rightarrow> provider \<Rightarrow> app_error + connection \<times> provider" where
  "github_connection usr w s =
     rbind (member_of usr w Viewer s) (\<lambda>(_, s0).
     case workspace_connection s0 w of
       None \<Rightarrow> Inl (not_found ''GitHub App is not connected'' ''github_connection_not_found'')
     | Some c \<Rightarrow> Inr (c, s0))"

definition visibility_of :: "github \<Rightarrow> pyval \<Rightarrow> app_error + string" where
  "visibility_of g v =
     rbind (vget v ''visibility'' PNone) (\<lambda>x. let t = py_lower (str_of g (py_or x (PStr []))) in
     if t \<in> {''public'', ''private'', ''internal''} then Inr t
     else rbind (vget v ''private'' PNone) (\<lambda>p. Inr (if truthy p then ''private'' else ''public'')))"

record candidate =
  ca_id :: string
  ca_full_name :: string
  ca_branch :: string
  ca_visibility :: string
  ca_html_url :: string
  ca_archived :: bool
  ca_selected :: bool
  ca_pushed_at :: pyval

definition branch_of :: "github \<Rightarrow> pyval \<Rightarrow> app_error + string" where
  "branch_of g v = rbind (vget v ''default_branch'' PNone) (\<lambda>x. Inr (str_of g (py_or x (PStr ''main''))))"

text \<open>\<open>item["full_name"]\<close>.\<close>

definition full_name_of :: "github \<Rightarrow> pyval \<Rightarrow> app_error + string" where
  "full_name_of g v = (case v of PDict d \<Rightarrow> (case dget d ''full_name'' of None \<Rightarrow> Inl KeyError | Some x \<Rightarrow> Inr (str_of g x)) | _ \<Rightarrow> Inl PyTypeError)"

definition candidate_of :: "github \<Rightarrow> string list \<Rightarrow> pyval \<Rightarrow> app_error + candidate list" where
  "candidate_of g selected v =
     rbind (vget v ''id'' PNone) (\<lambda>i.
     if \<not> truthy i then Inr []
     else rbind (vget v ''full_name'' PNone) (\<lambda>n.
     if \<not> truthy n then Inr []
     else rbind (branch_of g v) (\<lambda>b. rbind (visibility_of g v) (\<lambda>vis.
       rbind (vget v ''html_url'' PNone) (\<lambda>u. rbind (vget v ''archived'' (PBool False)) (\<lambda>a. rbind (vget v ''pushed_at'' PNone) (\<lambda>t.
       Inr [\<lparr> ca_id = str_of g i, ca_full_name = str_of g n, ca_branch = b, ca_visibility = vis,
             ca_html_url = str_of g (py_or u (PStr [])), ca_archived = truthy a, ca_selected = (str_of g i \<in> set selected),
             ca_pushed_at = t \<rparr>])))))))"

definition available_github_repositories ::
  "github \<Rightarrow> environment \<Rightarrow> settings \<Rightarrow> user \<Rightarrow> string \<Rightarrow> provider \<Rightarrow> (app_error + candidate list) \<times> provider" where
  "available_github_repositories g env st usr w s =
     (case github_connection usr w s of
        Inl e \<Rightarrow> (Inl e, s)
      | Inr (c, s0) \<Rightarrow>
          if cn_state c \<noteq> ''connected'' then (Inl (conflict ''GitHub connection needs attention'' ''github_connection_unavailable''), s0)
          else if \<not> github_app_available st then (Inl app_not_configured, s0)
          else (case list_installation_repositories g (new_client g st (now env)) (cn_installation c) (requests_sent s0) of
            (Inl e, sent) \<Rightarrow> (Inl e, s0 \<lparr> requests_sent := sent \<rparr>)
          | (Inr records, sent) \<Rightarrow>
              let selected = map r_provider_id (filter (\<lambda>r. r_workspace r = w \<and> r_provider r = ''github'' \<and> r_selected r)
                    (repositories (base s0)))
              in (rbind (rmap (candidate_of g selected) records) (\<lambda>xss. Inr (concat xss)), s0 \<lparr> requests_sent := sent \<rparr>)))"

definition ensure_connected_scenario :: "repository \<Rightarrow> provider \<Rightarrow> provider" where
  "ensure_connected_scenario r s =
     (if list_ex (\<lambda>x. s_workspace x = r_workspace r \<and> s_repository x = r_id r \<and> s_data_mode x = ''connected'') (scenarios (base s)) then s
      else s \<lparr> base := (base s) \<lparr> scenarios := scenarios (base s) @
        [\<lparr> s_id = ''github-'' @ r_id r, s_workspace = r_workspace r, s_repository = r_id r, s_data_mode = ''connected'', s_active = True,
           s_sort_order = 1 \<rparr>] \<rparr> \<rparr>)"

definition update_repository :: "string \<Rightarrow> (repository \<Rightarrow> repository) \<Rightarrow> provider \<Rightarrow> provider" where
  "update_repository i f s = s \<lparr> base := (base s) \<lparr> repositories := map (\<lambda>r. if r_id r = i then f r else r) (repositories (base s)) \<rparr> \<rparr>"

text \<open>One iteration of the import: the repository of a provider identifier is created or refreshed.\<close>

definition import_repository ::
  "github \<Rightarrow> environment \<Rightarrow> string \<Rightarrow> (string \<times> pyval) list \<Rightarrow> repository list \<Rightarrow> string \<Rightarrow> nat \<times> provider \<Rightarrow> app_error + nat \<times> provider" where
  "import_repository g env w by_id existing pid acc =
     (case map_of by_id pid of
        None \<Rightarrow> Inl KeyError
      | Some src \<Rightarrow>
          rbind (full_name_of g src) (\<lambda>name. rbind (branch_of g src) (\<lambda>branch. rbind (visibility_of g src) (\<lambda>vis.
          let (n, s) = acc;
              fill = (\<lambda>r. r \<lparr> r_full_name := name, r_branch := branch, r_visibility := vis, r_connection_state := ''connected'',
                r_data_mode := ''connected'', r_selected := True, r_last_synced := Some (now env) \<rparr>) in
          case find (\<lambda>r. r_provider_id r = pid) existing of
            Some r \<Rightarrow> Inr (n, ensure_connected_scenario (fill r) (update_repository (r_id r) fill s))
          | None \<Rightarrow>
              let r = fill \<lparr> r_id = fresh env (n + 1), r_workspace = w, r_provider = ''github'', r_provider_id = pid, r_full_name = [],
                    r_branch = [], r_visibility = [], r_connection_state = [], r_data_mode = [], r_selected = True,
                    r_last_synced = None, r_created = now env \<rparr>;
                  s1 = s \<lparr> base := (base s) \<lparr> repositories := repositories (base s) @ [r] \<rparr> \<rparr>
              in rbind (commit_provider s1) (\<lambda>s2. Inr (n + 1, ensure_connected_scenario r s2))))))"

text \<open>\<open>{str(item["id"]): item for item in available if item.get("id")}\<close>: the last of equal keys wins.\<close>

definition repositories_by_id :: "github \<Rightarrow> pyval list \<Rightarrow> app_error + (string \<times> pyval) list" where
  "repositories_by_id g records =
     rbind (rmap (\<lambda>v. rbind (vget v ''id'' PNone) (\<lambda>i. Inr (if truthy i then [(str_of g i, v)] else []))) records)
       (\<lambda>xss. Inr (rev (concat xss)))"

record sync_response =
  sy_imported :: nat
  sy_deselected :: nat
  sy_synced_at :: int

definition import_repositories ::
  "github \<Rightarrow> environment \<Rightarrow> user \<Rightarrow> string \<Rightarrow> string list \<Rightarrow> string \<Rightarrow> connection \<Rightarrow> pyval list \<Rightarrow> provider \<Rightarrow> app_error + sync_response \<times> provider" where
  "import_repositories g env usr w ids req c records s =
     rbind (repositories_by_id g records) (\<lambda>by_id.
     let requested = remdups ids in
     if \<not> set requested \<subseteq> fst ` set by_id
     then Inl (DomainError ''One or more repositories are not accessible to this installation'' ''github_repository_not_accessible'' 400)
     else let existing = filter (\<lambda>r. r_workspace r = w \<and> r_provider r = ''github'') (repositories (base s)) in
     rbind (rfold (import_repository g env w by_id existing) requested (0, s)) (\<lambda>(n, s1).
     let dropped = filter (\<lambda>r. r_provider_id r \<notin> set requested \<and> r_selected r) existing;
         s2 = s1 \<lparr> base := (base s1) \<lparr> repositories :=
           map (\<lambda>r. if r_id r \<in> r_id ` set dropped then r \<lparr> r_selected := False \<rparr> else r) (repositories (base s1)) \<rparr> \<rparr>;
         s3 = update_connection (cn_id c) (\<lambda>x. x \<lparr> cn_last_synced := Some (now env), cn_updated := now env \<rparr>) s2;
         s4 = audited env 0 w (Some (u_id usr)) ''provider.github.repositories_synced'' ''provider_connection'' (cn_id c) req
           [(''selected_count'', show_nat (length requested))] s3
     in rbind (commit_provider s4) (\<lambda>s5.
        Inr (\<lparr> sy_imported = n, sy_deselected = length dropped, sy_synced_at = now env \<rparr>, s5))))"

definition sync_github_repositories ::
  "github \<Rightarrow> environment \<Rightarrow> settings \<Rightarrow> user \<Rightarrow> string \<Rightarrow> string list \<Rightarrow> string \<Rightarrow> provider \<Rightarrow> (app_error + sync_response) \<times> provider" where
  "sync_github_repositories g env st usr w ids req s =
     (case rbind (member_of usr w Admin s) (\<lambda>(_, s0). github_connection usr w s0) of
        Inl e \<Rightarrow> (Inl e, s)
      | Inr (c, s0) \<Rightarrow>
          if \<not> github_app_available st then (Inl app_not_configured, s0)
          else (case list_installation_repositories g (new_client g st (now env)) (cn_installation c) (requests_sent s0) of
            (Inl e, sent) \<Rightarrow> (Inl e, s0 \<lparr> requests_sent := sent \<rparr>)
          | (Inr records, sent) \<Rightarrow>
              let s1 = s0 \<lparr> requests_sent := sent \<rparr> in
              (case import_repositories g env usr w ids req c records s1 of
                 Inl e \<Rightarrow> (Inl e, s1)
               | Inr (out, s2) \<Rightarrow> (Inr out, s2))))"

definition revoke_repositories :: "string \<Rightarrow> provider \<Rightarrow> provider" where
  "revoke_repositories w s = s \<lparr> base := (base s) \<lparr> repositories :=
     map (\<lambda>r. if r_workspace r = w \<and> r_provider r = ''github'' then r \<lparr> r_connection_state := ''revoked'', r_selected := False \<rparr> else r)
       (repositories (base s)) \<rparr> \<rparr>"

definition disconnect_github :: "environment \<Rightarrow> user \<Rightarrow> string \<Rightarrow> string \<Rightarrow> provider \<Rightarrow> app_error + connection \<times> provider" where
  "disconnect_github env usr w req s =
     rbind (member_of usr w Admin s) (\<lambda>(_, s0).
     rbind (github_connection usr w s0) (\<lambda>(c, s1).
     let revoke = (\<lambda>x. x \<lparr> cn_state := ''revoked'', cn_updated := now env \<rparr>);
         s2 = update_connection (cn_id c) revoke s1;
         s3 = revoke_repositories w s2
     in rbind (commit_provider (audited env 0 w (Some (u_id usr)) ''provider.github.disconnected'' ''provider_connection'' (cn_id c) req [] s3))
          (\<lambda>s4. Inr (revoke c, s4))))"

section \<open>Entries to the publication\<close>

definition checks_write :: "github \<Rightarrow> connection \<Rightarrow> bool" where
  "checks_write g c = (checks_permission (str_of g) c = ''write'')"

definition publish_github_change_check ::
  "github \<Rightarrow> environment \<Rightarrow> (provider \<Rightarrow> provider) \<Rightarrow> settings \<Rightarrow> user \<Rightarrow> string \<Rightarrow> string \<Rightarrow> string \<Rightarrow> string \<Rightarrow> provider \<Rightarrow>
   (app_error + check_response) \<times> provider" where
  "publish_github_change_check g env others st usr w rid cid req s =
     (case rbind (member_of usr w Responder s) (\<lambda>(_, s0).
        if \<not> github_checks_enabled st then Inl (conflict ''GitHub Check publishing is disabled'' ''github_checks_disabled'')
        else rbind (github_connection usr w s0) (\<lambda>(c, s1).
          if cn_state c \<noteq> ''connected'' then Inl (conflict ''GitHub connection needs attention'' ''github_connection_unavailable'')
          else if \<not> checks_write g c
          then Inl (conflict ''The GitHub App needs Checks: write permission'' ''github_checks_permission_missing'')
          else case find (\<lambda>r. r_id r = rid \<and> r_workspace r = w \<and> r_provider r = ''github'' \<and> r_selected r) (repositories (base s1)) of
            None \<Rightarrow> Inl (not_found ''Repository not found'' ''repository_not_found'')
          | Some r \<Rightarrow>
              (case find (\<lambda>x. ch_id x = cid \<and> ch_workspace x = w \<and> ch_repository x = rid \<and> ch_data_mode x = ''connected'') (changes s1) of
                 None \<Rightarrow> Inl (not_found ''Change not found'' ''change_not_found'')
               | Some ch \<Rightarrow> Inr (c, r, ch, s1)))) of
        Inl e \<Rightarrow> (Inl e, s)
      | Inr (c, r, ch, s1) \<Rightarrow> publish_change_check g env others st c r ch (Some (u_id usr)) req s1)"

definition publish_github_change_check_from_webhook ::
  "github \<Rightarrow> environment \<Rightarrow> (provider \<Rightarrow> provider) \<Rightarrow> settings \<Rightarrow> connection \<Rightarrow> repository \<Rightarrow> change \<Rightarrow> string \<Rightarrow> provider \<Rightarrow>
   (app_error + check_response option) \<times> provider" where
  "publish_github_change_check_from_webhook g env others st c r ch req s =
     (if \<not> github_checks_enabled st \<or> cn_state c \<noteq> ''connected'' \<or> \<not> checks_write g c then (Inr None, s)
      else case publish_change_check g env others st c r ch None req s of
        (Inl (DomainError d code n), s1) \<Rightarrow>
          (if code \<in> set GITHUB_CHECK_RETRYABLE_ERRORS then Inl (DomainError d code n) else Inr None, s1)
      | (Inl e, s1) \<Rightarrow> (Inl e, s1)
      | (Inr a, s1) \<Rightarrow> (Inr (Some a), s1))"

section \<open>Installation states\<close>

lemma commit_provider_Inr: "commit_provider s = Inr s' \<longleftrightarrow> provider_unique s \<and> s' = s"
  by (auto simp: commit_provider_def)

definition consume :: "environment \<Rightarrow> auth_state \<Rightarrow> auth_state list \<Rightarrow> auth_state list" where
  "consume env a xs = map (\<lambda>x. if st_id x = st_id a then x \<lparr> st_consumed := Some (now env) \<rparr> else x) xs"

lemma link_installation_Inr:
  assumes "link_installation env a i req ac s = Inr (c, s')"
  shows "provider_unique s' \<and> auth_states s' = consume env a (auth_states s) \<and> cn_workspace c = st_workspace a \<and>
    cn_installation c = i \<and> c \<in> set (connections s') \<and>
    (\<forall>d\<in>set (connections s). cn_installation d = i \<longrightarrow> cn_workspace d = st_workspace a \<or>
       (\<exists>e\<in>set (connections s). e \<noteq> d \<and> cn_installation e = i))"
proof -
  let ?old = "workspace_connection s (st_workspace a)"
  let ?v = "if signed_installation_event s i then ''connected'' else ''pending_verification''"
  let ?c = "linked_connection env a i ac ?v ?old"
  have old: "cn_workspace o' = st_workspace a \<and> o' \<in> set (connections s)" if "?old = Some o'" for o'
    using that by (auto simp: workspace_connection_def find_Some_iff)
  have free: "case find (\<lambda>c. cn_installation c = i) (connections s) of None \<Rightarrow> True | Some d \<Rightarrow> cn_workspace d = st_workspace a"
    and c: "c = ?c" and u: "provider_unique s'"
    and s': "auth_states s' = consume env a (auth_states s)"
      "connections s' = (case ?old of None \<Rightarrow> connections s @ [c] | Some o' \<Rightarrow> map (\<lambda>x. if cn_id x = cn_id o' then c else x) (connections s))"
    using assms
    by (auto simp: link_installation_def Let_def result_simps commit_provider_Inr audited_def update_connection_def consume_def
        split: if_splits option.splits)
  have "cn_workspace c = st_workspace a" "cn_installation c = i"
    using old c by (auto simp: linked_connection_def Let_def split: option.splits)
  moreover have "c \<in> set (connections s')" using s'(2) old by (force split: option.splits)
  moreover have "cn_workspace d = st_workspace a \<or> (\<exists>e\<in>set (connections s). e \<noteq> d \<and> cn_installation e = i)"
    if "d \<in> set (connections s)" "cn_installation d = i" for d
    using free that by (auto simp: find_None_iff find_Some_iff split: option.splits)
  ultimately show ?thesis using u s' by blast
qed

lemma complete_installation_Inr:
  assumes "complete_github_installation g env st i raw action req s = (Inr c, s')"
  shows "\<exists>a. find_auth_state s (sha env raw) = Some a \<and> st_consumed a = None \<and> now env < st_expires a \<and>
    auth_states s' = consume env a (auth_states s) \<and> provider_unique s' \<and> cn_workspace c = st_workspace a \<and> cn_installation c = i"
proof -
  obtain a where a: "find_auth_state s (sha env raw) = Some a" "st_consumed a = None" "now env < st_expires a"
    using assms by (auto simp: complete_github_installation_def split: option.splits if_splits)
  obtain b doc sent where b: "set_tenant_context (st_workspace a) (base s) = Inr b" and app: "github_app_available st"
    and act: "action \<in> {''install'', ''update''}"
    and doc: "installation g (new_client g st (now env)) i (requests_sent s) = (Inr doc, sent)"
    using assms a by (auto simp: complete_github_installation_def Let_def split: sum.splits if_splits prod.splits)
  obtain ac where link: "link_installation env a i req ac (s \<lparr> base := b, requests_sent := sent \<rparr>) = Inr (c, s')"
    using assms a b app act doc
    by (auto simp: complete_github_installation_def Let_def result_simps split: sum.splits if_splits)
  show ?thesis using a link_installation_Inr [OF link] by auto
qed

lemma consumed_state:
  assumes "find_auth_state s h = Some a" and "auth_states s' = consume env a (auth_states s)"
  shows "\<exists>x. find_auth_state s' h = Some (a \<lparr> st_consumed := Some x \<rparr>)"
proof -
  let ?P = "\<lambda>a. st_hash a = h \<and> st_provider a = ''github''"
  have "find ?P (consume env a xs) = map_option (\<lambda>x. if st_id x = st_id a then x \<lparr> st_consumed := Some (now env) \<rparr> else x) (find ?P xs)" for xs
    by (induction xs) (auto simp: consume_def)
  with assms show ?thesis by (auto simp: find_auth_state_def)
qed

text \<open>The operations of the provider routes, and anything another component does: it does not write the installation states.\<close>

datatype provider_event =
    InstallationBegun environment settings user string string
  | InstallationCompleted github environment settings string string string string
  | RepositoriesSynced github environment settings user string "string list" string
  | Disconnected environment user string string
  | ElsewhereCommitted "provider \<Rightarrow> provider"

definition kept_or :: "provider \<Rightarrow> app_error + 'a \<times> provider \<Rightarrow> provider" where
  "kept_or s r = (case r of Inl _ \<Rightarrow> s | Inr (_, s') \<Rightarrow> s')"

fun provider_step :: "provider \<Rightarrow> provider_event \<Rightarrow> provider option" where
  "provider_step s (InstallationBegun env st usr w req) = Some (kept_or s (begin_github_installation env st usr w req s))"
| "provider_step s (InstallationCompleted g env st i raw setup req) = Some (snd (complete_github_installation g env st i raw setup req s))"
| "provider_step s (RepositoriesSynced g env st usr w ids req) = Some (snd (sync_github_repositories g env st usr w ids req s))"
| "provider_step s (Disconnected env usr w req) = Some (kept_or s (disconnect_github env usr w req s))"
| "provider_step s (ElsewhereCommitted f) = (if auth_states (f s) = auth_states s then Some (f s) else None)"

lemma auth_states_kept [simp]:
  "auth_states (update_connection i f s) = auth_states s"
  "auth_states (audited env n w actor action rtype rid req md s) = auth_states s"
  "auth_states (ensure_connected_scenario r s) = auth_states s" "auth_states (update_repository i h s) = auth_states s"
  "auth_states (revoke_repositories w s) = auth_states s"
  by (simp_all add: update_connection_def audited_def ensure_connected_scenario_def update_repository_def revoke_repositories_def)

lemma member_of_auth_states: "member_of usr w r s = Inr (m, s') \<Longrightarrow> auth_states s' = auth_states s"
  by (auto simp: member_of_def result_simps)

lemma github_connection_auth_states: "github_connection usr w s = Inr (c, s') \<Longrightarrow> auth_states s' = auth_states s"
  by (auto simp: github_connection_def result_simps dest: member_of_auth_states split: option.splits)

lemma import_repository_auth_states:
  assumes "import_repository g env w by_id existing pid (n, s) = Inr (m, s')"
  shows "auth_states s' = auth_states s"
  using assms by (auto simp: import_repository_def result_simps Let_def commit_provider_Inr split: option.splits)

lemma import_repositories_auth_states:
  assumes "import_repositories g env usr w ids req c records s = Inr (out, s')"
  shows "auth_states s' = auth_states s"
proof -
  obtain by_id existing n s1 where fold: "rfold (import_repository g env w by_id existing) (remdups ids) (0, s) = Inr (n, s1)"
    and s': "auth_states s' = auth_states s1"
    using assms by (auto simp: import_repositories_def result_simps Let_def commit_provider_Inr split: if_splits)
  have "auth_states (snd (n, s1)) = auth_states s"
    by (rule rfold_invariant [OF fold]) (auto dest: import_repository_auth_states)
  with s' show ?thesis by simp
qed

lemma sync_auth_states: "auth_states (snd (sync_github_repositories g env st usr w ids req s)) = auth_states s"
  by (auto simp: sync_github_repositories_def Let_def result_simps split: sum.splits prod.splits
      dest!: member_of_auth_states github_connection_auth_states import_repositories_auth_states)

lemma disconnect_auth_states: "disconnect_github env usr w req s = Inr (c, s') \<Longrightarrow> auth_states s' = auth_states s"
  by (auto simp: disconnect_github_def result_simps Let_def commit_provider_Inr
      dest!: member_of_auth_states github_connection_auth_states)

lemma begin_auth_states:
  "begin_github_installation env st usr w req s = Inr (x, s') \<Longrightarrow> \<exists>row. auth_states s' = auth_states s @ [row]"
  by (auto simp: begin_github_installation_def result_simps Let_def commit_provider_Inr dest!: member_of_auth_states split: if_splits)

lemma complete_auth_states:
  "auth_states (snd (complete_github_installation g env st i raw sa req s)) = auth_states s \<or>
   (\<exists>a. auth_states (snd (complete_github_installation g env st i raw sa req s)) = consume env a (auth_states s))"
proof (cases "fst (complete_github_installation g env st i raw sa req s)")
  case (Inl e)
  then show ?thesis
    by (auto simp: complete_github_installation_def Let_def split: option.splits sum.splits prod.splits if_splits)
next
  case (Inr c)
  then show ?thesis using complete_installation_Inr [of g env st i raw sa req s c] by (metis prod.collapse)
qed

text \<open>A consumed state stays consumed.\<close>

definition consumed :: "string \<Rightarrow> provider \<Rightarrow> bool" where
  "consumed h s = (case find_auth_state s h of None \<Rightarrow> False | Some a \<Rightarrow> st_consumed a \<noteq> None)"

lemma consumed_rows:
  assumes "consumed h s" and "auth_states s' = auth_states s @ rows \<or> auth_states s' = consume env a (auth_states s)"
  shows "consumed h s'"
proof -
  let ?P = "\<lambda>a. st_hash a = h \<and> st_provider a = ''github''"
  have "find ?P (consume env a xs) = map_option (\<lambda>x. if st_id x = st_id a then x \<lparr> st_consumed := Some (now env) \<rparr> else x) (find ?P xs)" for xs
    by (induction xs) (auto simp: consume_def)
  with assms show ?thesis by (auto simp: consumed_def find_auth_state_def find_append split: option.splits)
qed

interpretation installations: invariant_system provider_step "consumed h" for h
proof
  fix s e s' assume "consumed h s" "provider_step s e = Some s'"
  then show "consumed h s'"
  proof (cases e)
    case (InstallationBegun env st usr w req)
    show ?thesis
    proof (cases "begin_github_installation env st usr w req s")
      case (Inl x)
      with InstallationBegun \<open>provider_step s e = Some s'\<close> \<open>consumed h s\<close> show ?thesis by (simp add: kept_or_def)
    next
      case (Inr y)
      then obtain row where "auth_states s' = auth_states s @ [row]"
        using InstallationBegun \<open>provider_step s e = Some s'\<close> begin_auth_states [of env st usr w req s "fst y" "snd y"]
        by (auto simp: kept_or_def split: prod.splits)
      with consumed_rows [OF \<open>consumed h s\<close>, of s' "[row]"] show ?thesis by blast
    qed
  next
    case (InstallationCompleted g env st i raw sa req)
    with \<open>consumed h s\<close> \<open>provider_step s e = Some s'\<close> consumed_rows [of h s s' "[]" env] complete_auth_states [of g env st i raw sa req s]
    show ?thesis by auto
  next
    case (RepositoriesSynced g env st usr w ids req)
    with \<open>consumed h s\<close> \<open>provider_step s e = Some s'\<close> consumed_rows [of h s s' "[]"] show ?thesis by (auto simp: sync_auth_states)
  next
    case (Disconnected env usr w req)
    with \<open>consumed h s\<close> \<open>provider_step s e = Some s'\<close> consumed_rows [of h s s' "[]"] disconnect_auth_states [of env usr w req s]
    show ?thesis by (cases "disconnect_github env usr w req s") (auto simp: kept_or_def)
  next
    case (ElsewhereCommitted f)
    with \<open>consumed h s\<close> \<open>provider_step s e = Some s'\<close> consumed_rows [of h s s' "[]"] show ?thesis by (auto split: if_splits)
  qed
qed

text \<open>
  C29. The state of a GitHub App installation is single use: once an installation has been completed with it, and whatever
  is done afterwards (beginning and completing installations, selecting repositories, disconnecting, and anything that
  other components commit, none of which writes the installation states), every completion that starts later with the
  same state is refused as invalid, at any time, with any installation identifier and whatever GitHub would answer;
  nothing is sent and nothing is stored.
\<close>
theorem installation_state_single_use:
  assumes "complete_github_installation g env st i raw setup req s = (Inr c, s1)"
    and "sha env2 raw = sha env raw"
  shows "complete_github_installation g2 env2 st2 i2 raw setup2 req2 (run_events provider_step s1 es) =
    (Inl invalid_state, run_events provider_step s1 es)"
proof -
  obtain a where a: "find_auth_state s (sha env raw) = Some a" "auth_states s1 = consume env a (auth_states s)"
    using complete_installation_Inr [OF assms(1)] by blast
  have "consumed (sha env raw) s1" using consumed_state [OF a] by (auto simp: consumed_def)
  then have "consumed (sha env raw) (run_events provider_step s1 es)" by (rule installations.run_inv)
  then show ?thesis using assms(2) by (auto simp: consumed_def complete_github_installation_def split: option.splits)
qed

section \<open>Disconnecting\<close>

lemma updated_where: "(\<And>x. P x \<Longrightarrow> Q (f x)) \<Longrightarrow> \<forall>y\<in>set (map (\<lambda>x. if P x then f x else x) xs). P y \<longrightarrow> Q y"
  by (auto split: if_splits)

text \<open>After a disconnect no repository of the workspace is selected and the connection is revoked, so no producer
  enqueues a check for it.\<close>

lemma disconnect_stops_checks:
  assumes "disconnect_github env usr w req s = Inr (c, s')"
  shows "cn_state c = ''revoked'' \<and> (\<forall>r\<in>set (repositories (base s')). r_workspace r = w \<and> r_provider r = ''github'' \<longrightarrow> \<not> r_selected r) \<and>
    enqueue_github_check_publication st str others uuid t c r ch rq tp ts commit db = Inr (None, db)"
proof -
  have revoked: "cn_state c = ''revoked''"
    using assms by (auto simp: disconnect_github_def result_simps Let_def)
  have kept: "repositories (base (audited env n w actor action rtype rid req md t)) = repositories (base t)"
    for n w actor action rtype rid md and t :: provider
    by (simp add: audited_def audit_def)
  obtain s1 where "repositories (base s') = repositories (base (revoke_repositories w s1))"
    using assms by (auto simp: disconnect_github_def result_simps Let_def commit_provider_Inr kept)
  then have rows: "repositories (base s') = map (\<lambda>r. if r_workspace r = w \<and> r_provider r = ''github''
      then r \<lparr> r_connection_state := ''revoked'', r_selected := False \<rparr> else r) (repositories (base s1))"
    by (simp add: revoke_repositories_def)
  have "\<forall>r\<in>set (repositories (base s')). r_workspace r = w \<and> r_provider r = ''github'' \<longrightarrow> \<not> r_selected r"
    unfolding rows by (rule updated_where) simp
  with revoked show ?thesis by (simp add: enqueue_github_check_publication_def)
qed

section \<open>Examples\<close>

definition demo_settings :: settings where
  "demo_settings = pc_settings demo_call"

definition installer :: github where
  "installer = demo_github \<lparr> gh_http := (\<lambda>sent q. Document (PDict
     (if py_endswith (hr_url q) ''/access_tokens'' then [(PStr ''token'', PStr ''t'')]
      else [(PStr ''account'', PDict [(PStr ''id'', PInt 7), (PStr ''login'', PStr ''acme'')]),
            (PStr ''permissions'', PDict [(PStr ''checks'', PStr ''write'')]),
            (PStr ''repositories'', PList [PDict [(PStr ''id'', PInt 77), (PStr ''full_name'', PStr ''acme/shop'')]])]))) \<rparr>"

definition waiting_provider :: provider where
  "waiting_provider = demo_provider \<lparr> auth_states := [\<lparr> st_id = ''s1'', st_hash = ''raw'', st_provider = ''github'', st_workspace = ''w1'',
     st_user = ''u1'', st_created = 0, st_expires = 100, st_consumed = None \<rparr>] \<rparr>"

lemma waiting_provider_completes:
  "is_ok (fst (complete_github_installation installer (demo_env 5 ''k'') demo_settings ''42'' ''raw'' ''install'' ''rq'' waiting_provider))"
  by code_simp

definition after_completion :: provider where
  "after_completion = snd (complete_github_installation installer (demo_env 5 ''k'') demo_settings ''42'' ''raw'' ''install'' ''rq'' waiting_provider)"

theorem installation_state_single_use_witness:
  "complete_github_installation installer (demo_env 9 ''m'') demo_settings ''43'' ''raw'' ''install'' ''rq2''
     (run_events provider_step after_completion [Disconnected (demo_env 7 ''l'') demo_user ''w1'' ''rq1'']) =
   (Inl invalid_state, run_events provider_step after_completion [Disconnected (demo_env 7 ''l'') demo_user ''w1'' ''rq1''])"
proof -
  obtain c where "complete_github_installation installer (demo_env 5 ''k'') demo_settings ''42'' ''raw'' ''install'' ''rq'' waiting_provider =
      (Inr c, after_completion)"
    using waiting_provider_completes unfolding after_completion_def by (metis is_ok_iff prod.collapse)
  moreover have "sha (demo_env 9 ''m'') ''raw'' = sha (demo_env 5 ''k'') ''raw''" by (simp add: demo_env_def)
  ultimately show ?thesis by (rule installation_state_single_use)
qed

text \<open>Selecting repositories does not look at the state of the connection: after a disconnect, an administrator can
  select a repository again and the repository counts as connected while the connection stays revoked.\<close>

definition revoked_provider :: provider where
  "revoked_provider = demo_provider \<lparr> connections := [demo_connection \<lparr> cn_state := ''revoked'' \<rparr>] \<rparr>"

lemma revoked_connection_syncs:
  "case sync_github_repositories installer (demo_env 5 ''k'') demo_settings demo_user ''w1'' [''77''] ''rq'' revoked_provider of
     (Inr out, s) \<Rightarrow> sy_imported out = 1 \<and> map cn_state (connections s) = [''revoked''] \<and>
       list_ex (\<lambda>r. r_selected r \<and> r_connection_state r = ''connected'') (repositories (base s))
   | _ \<Rightarrow> False"
  by code_simp

end
