(* ===== verification/Worker.thy ===== *)
theory Worker
  imports Providers
begin

text \<open>
  \<open>backend/app/worker.py\<close> and \<open>email_delivery.py\<close>: the two handlers of the allowlist, the delivery of invitations by SMTP
  and the polling loop.

  An SMTP conversation is an entry of the list of mails, made when the conversation starts: whether the provider accepts
  the message is a parameter, and a worker that dies during the conversation leaves the state it had committed before.
  What one iteration of the loop depends on (the clock, identifiers, replies of GitHub and of the SMTP server, and what
  others commit meanwhile) is a record; the loop runs over a list of them, and ends at the end of the list when it is told
  to stop.

  No constraint makes a delivery unique: the lookup for an earlier one and the commit of the new row are two steps, and
  another worker's may come between them. The deliveries therefore run over the history of their states.
\<close>

section \<open>Invitation delivery\<close>

record delivery =
  d_id :: string
  d_invitation :: string
  d_provider :: string
  d_status :: string
  d_message_id :: "string option"
  d_error :: "string option"
  d_attempted :: int

record mail =
  ml_invitation :: string
  ml_from :: string
  ml_to :: string
  ml_subject :: string
  ml_url :: string
  ml_text :: string
  ml_html :: string

record worker_state =
  wk_db :: provider
  wk_deliveries :: "delivery list"
  wk_mails :: "mail list"

datatype smtp_outcome = SmtpAccepted | SmtpFailed \<comment> \<open>\<open>OSError\<close> or \<open>SMTPException\<close>\<close>

record tick =
  tk_env :: environment
  tk_settings :: settings
  tk_github :: github
  tk_others :: "provider \<Rightarrow> provider"
  tk_requeue_others :: "jobs \<Rightarrow> jobs" \<comment> \<open>committed between the select and the commit of the requeueing\<close>
  tk_job_others :: "jobs \<Rightarrow> jobs" \<comment> \<open>between the query and the compare-and-set of the claim\<close>
  tk_job_running :: "jobs \<Rightarrow> jobs" \<comment> \<open>between the claim and the settlement\<close>
  tk_job_seen :: "jobs \<Rightarrow> jobs" \<comment> \<open>where the publisher's session has the job: the table of the claim, a later one after a rollback\<close>
  tk_mail_others :: "worker_state \<Rightarrow> worker_state" \<comment> \<open>between the reads of the delivery and its commit\<close>
  tk_talking :: "worker_state \<Rightarrow> worker_state" \<comment> \<open>during the SMTP conversation\<close>
  tk_smtp :: "mail \<Rightarrow> smtp_outcome"
  tk_text :: "app_error \<Rightarrow> string" \<comment> \<open>\<open>str\<close> of an exception that is not a domain error\<close>

definition new_delivery :: "environment \<Rightarrow> string \<Rightarrow> string \<Rightarrow> string \<Rightarrow> delivery" where
  "new_delivery env i provider state =
     \<lparr> d_id = fresh env 0, d_invitation = i, d_provider = provider, d_status = state, d_message_id = None, d_error = None,
       d_attempted = now env \<rparr>"

definition record_local_invitation_delivery :: "environment \<Rightarrow> string \<Rightarrow> string \<Rightarrow> worker_state \<Rightarrow> worker_state" where
  "record_local_invitation_delivery env i state s = s \<lparr> wk_deliveries := wk_deliveries s @
     [new_delivery env i (if state = ''development_outbox'' then ''development_outbox'' else ''disabled'') state] \<rparr>"

definition latest_delivery :: "worker_state \<Rightarrow> string \<Rightarrow> delivery option" where
  "latest_delivery s i = (case rev (sort_key d_attempted (filter (\<lambda>d. d_invitation d = i) (wk_deliveries s))) of
     [] \<Rightarrow> None | d # _ \<Rightarrow> Some d)"

definition set_token_hash :: "invitation \<Rightarrow> string \<Rightarrow> worker_state \<Rightarrow> worker_state" where
  "set_token_hash i h s = s \<lparr> wk_db := (wk_db s) \<lparr> base := update_invitation (i_id i)
     (\<lambda>x. x \<lparr> i_token_hash := dirty (i_token_hash i) h (i_token_hash x) \<rparr>) (base (wk_db s)) \<rparr> \<rparr>"

definition commit_worker :: "worker_state \<Rightarrow> app_error + worker_state" where
  "commit_worker s = (if provider_unique (wk_db s) \<and> distinct (map d_id (wk_deliveries s)) then Inr s else Inl app_error.IntegrityError)"

text \<open>The durable record made before any provider I/O.\<close>

definition begin_delivery :: "environment \<Rightarrow> invitation \<Rightarrow> string \<Rightarrow> worker_state \<Rightarrow> app_error + worker_state" where
  "begin_delivery env i token s =
     commit_worker (set_token_hash i (sha env token)
       (s \<lparr> wk_deliveries := wk_deliveries s @ [new_delivery env (i_id i) ''smtp'' ''publishing''] \<rparr>))"

definition invitation_url :: "settings \<Rightarrow> string \<Rightarrow> string" where
  "invitation_url st token = rstrip_char CHR ''/'' (frontend_public_url st) @ ''/accept-invite?token='' @ token"

definition blank_line :: string where "blank_line = replicate 2 (char_of (10 :: nat))"

text \<open>\<open>stamp\<close> is \<open>datetime.isoformat\<close>.\<close>

definition invitation_mail :: "(int \<Rightarrow> string) \<Rightarrow> settings \<Rightarrow> invitation \<Rightarrow> string \<Rightarrow> mail" where
  "invitation_mail stamp st i token =
     \<lparr> ml_invitation = i_id i, ml_from = smtp_from_email st, ml_to = i_email i,
       ml_subject = ''You were invited to a DeployGuard workspace'', ml_url = invitation_url st token,
       ml_text = ''You have been invited to a DeployGuard workspace.'' @ blank_line @ ''Accept the invitation: '' @
         invitation_url st token @ blank_line @ ''This invitation expires at '' @ stamp (i_expires i) @ ''.'',
       ml_html = ''<p>You have been invited to a DeployGuard workspace.</p><p><a href='' @ [CHR 0x22] @ invitation_url st token @
         [CHR 0x22] @ ''>Accept invitation</a></p><p>This invitation expires at '' @ stamp (i_expires i) @ ''.</p>'' \<rparr>"

definition finish_delivery :: "string \<Rightarrow> string \<Rightarrow> string option \<Rightarrow> worker_state \<Rightarrow> worker_state" where
  "finish_delivery k state err s = s \<lparr> wk_deliveries :=
     map (\<lambda>d. if d_id d = k then d \<lparr> d_status := state, d_error := err \<rparr> else d) (wk_deliveries s) \<rparr>"

definition delivered :: "string \<Rightarrow> pydict" where
  "delivered i = [(PStr ''delivery_status'', PStr ''sent''), (PStr ''invitation_id'', PStr i)]"

text \<open>\<open>deliver_invitation_smtp\<close>; \<open>InvitationDeliveryUncertain\<close> becomes a permanent failure of the job in the handler. The
  lookup and the commit of the row are not one step: the row is added to what the others have committed by then.\<close>

definition deliver_invitation_smtp :: "tick \<Rightarrow> invitation \<Rightarrow> string \<Rightarrow> worker_state \<Rightarrow> handler_outcome \<times> worker_state" where
  "deliver_invitation_smtp t i token s =
     (let cur = tk_mail_others t s in
      case latest_delivery s (i_id i) of
        Some d \<Rightarrow>
          if d_status d = ''sent'' then (Returned (Some (delivered (i_id i))), cur)
          else (RaisedPermanent (''invitation delivery is already in '' @ [CHR 0x27] @ d_status d @ [CHR 0x27] @ '' state''), cur)
      | None \<Rightarrow>
          (case begin_delivery (tk_env t) i token cur of
             Inl e \<Rightarrow> (Raised (tk_text t e), cur)
           | Inr s1 \<Rightarrow>
               let m = invitation_mail (gh_iso (tk_github t)) (tk_settings t) i token;
                   s2 = tk_talking t (s1 \<lparr> wk_mails := wk_mails s1 @ [m] \<rparr>);
                   k = fresh (tk_env t) 0 in
               (case tk_smtp t m of
                  SmtpFailed \<Rightarrow>
                    (RaisedPermanent ''SMTP delivery outcome is uncertain; issue a new invitation instead of retrying'',
                     finish_delivery k ''failed'' (Some ''provider_unavailable'') s2)
                | SmtpAccepted \<Rightarrow> (Returned (Some (delivered (i_id i))), finish_delivery k ''sent'' None s2))))"

section \<open>Handlers\<close>

text \<open>The queue's session is the handler's: it has the job's row from the claim, since only the publisher rolls it back.\<close>

text \<open>The checks of \<open>invitation_email_delivery_handler\<close> before anything is sent: the invitation and its claim token, or
  the message of the permanent error.\<close>

definition invitation_to_send :: "tick \<Rightarrow> pydict \<Rightarrow> job_context \<Rightarrow> worker_state \<Rightarrow> string + invitation \<times> string" where
  "invitation_to_send t raw ctx s =
     (case parse_invitation raw of
        Inl _ \<Rightarrow> Inl ''invitation.email.deliver payload failed contract validation''
      | Inr k \<Rightarrow>
          if email_delivery_mode (tk_settings t) \<noteq> Smtp then Inl ''SMTP invitation delivery is disabled''
          else (case ctx_workspace_id ctx of
            None \<Rightarrow> Inl ''invitation delivery job is missing workspace scope''
          | Some w \<Rightarrow>
              (case find (\<lambda>i. i_id i = k) (invitations (base (wk_db s))) of
                 None \<Rightarrow> Inl ''invitation delivery references are missing or cross-tenant''
               | Some i \<Rightarrow>
                   if i_workspace i \<noteq> w then Inl ''invitation delivery references are missing or cross-tenant''
                   else if i_status i \<noteq> Pending \<or> i_expires i \<le> now (tk_env t) then Inl ''invitation is no longer pending''
                   else (case derive_invitation_claim_token (tk_env t) (invitation_token_secret (tk_settings t)) (i_id i) of
                     Inl _ \<Rightarrow> Inl ''SMTP invitation delivery secret is not configured''
                   | Inr token \<Rightarrow> Inr (i, token)))))"

definition invitation_email_delivery_handler :: "tick \<Rightarrow> worker_state handler" where
  "invitation_email_delivery_handler t raw ctx s db =
     (case invitation_to_send t raw ctx s of
        Inl msg \<Rightarrow> (RaisedPermanent msg, tk_mail_others t s, db, tk_job_running t db)
      | Inr (i, token) \<Rightarrow> let (out, s') = deliver_invitation_smtp t i token s in (out, s', db, tk_job_running t db))"

text \<open>The checks of \<open>github_check_publish_handler\<close>.\<close>

definition check_to_publish ::
  "tick \<Rightarrow> pydict \<Rightarrow> job_context \<Rightarrow> worker_state \<Rightarrow> handler_outcome + connection \<times> repository \<times> change \<times> provider" where
  "check_to_publish t raw ctx s =
     (case parse_check raw of
        Inl _ \<Rightarrow> Inl (RaisedPermanent ''github.check.publish payload failed contract validation'')
      | Inr p \<Rightarrow>
          if \<not> github_checks_enabled (tk_settings t) then Inl (RaisedPermanent ''GitHub Check publishing is disabled'')
          else (case ctx_workspace_id ctx of
            None \<Rightarrow> Inl (RaisedPermanent ''GitHub Check job is missing workspace scope'')
          | Some w \<Rightarrow>
              (case set_tenant_context w (base (wk_db s)) of
                 Inl e \<Rightarrow> Inl (Raised (tk_text t e))
               | Inr b \<Rightarrow>
                   (case (find_connection (wk_db s) (cp_connection p), find (\<lambda>r. r_id r = cp_repository p) (repositories b),
                          find (\<lambda>x. ch_id x = cp_change p) (changes (wk_db s))) of
                      (Some c, Some r, Some ch) \<Rightarrow>
                        if cn_workspace c \<noteq> w \<or> r_workspace r \<noteq> w \<or> ch_workspace ch \<noteq> w \<or> ch_repository ch \<noteq> r_id r \<or>
                           r_provider r \<noteq> ''github'' \<or> ch_data_mode ch \<noteq> ''connected''
                        then Inl (RaisedPermanent ''GitHub Check references are invalid or cross-tenant'')
                        else if cn_state c \<noteq> ''connected'' \<or> \<not> checks_write (tk_github t) c \<or> \<not> r_selected r
                        then Inl (Raised ''github_check_provider_not_ready'')
                        else Inr (c, r, ch, (wk_db s) \<lparr> base := b \<rparr>)
                    | _ \<Rightarrow> Inl (RaisedPermanent ''GitHub Check references are missing or deleted'')))))"

definition check_result :: "check_response \<Rightarrow> pydict" where
  "check_result a = [(PStr ''provider_check_id'', PStr (cr_check_id a)), (PStr ''change_id'', PStr (cr_change a)),
     (PStr ''status'', PStr (cr_status a)), (PStr ''conclusion'', PStr (cr_conclusion a))]"

definition request_of :: "job_context \<Rightarrow> string" where
  "request_of ctx = (case ctx_request_id ctx of None \<Rightarrow> ''job:'' @ ctx_job_id ctx
     | Some r \<Rightarrow> if r = [] then ''job:'' @ ctx_job_id ctx else r)"

definition github_check_publish_handler :: "tick \<Rightarrow> worker_state handler" where
  "github_check_publish_handler t raw ctx s db =
     (case check_to_publish t raw ctx s of
        Inl out \<Rightarrow> (out, s, db, tk_job_running t db)
      | Inr (c, r, ch, p) \<Rightarrow>
          (case publish_change_check (tk_github t) (tk_env t) (tk_others t) (tk_settings t) c r ch None (request_of ctx) p of
             (Inl (DomainError d code n), p') \<Rightarrow>
               (if code \<in> set GITHUB_CHECK_RETRYABLE_ERRORS then Raised code else RaisedPermanent code, s \<lparr> wk_db := p' \<rparr>,
                tk_job_seen t db, tk_job_running t db)
           | (Inl e, p') \<Rightarrow> (Raised (tk_text t e), s \<lparr> wk_db := p' \<rparr>, tk_job_seen t db, tk_job_running t db)
           | (Inr a, p') \<Rightarrow> (Returned (Some (check_result a)), s \<lparr> wk_db := p' \<rparr>, tk_job_seen t db, tk_job_running t db)))"

text \<open>The fixed allowlist; spans and trace propagation around a handler change neither its result nor the tables.\<close>

definition registered_handlers :: "tick \<Rightarrow> string \<Rightarrow> worker_state handler option" where
  "registered_handlers t = map_of [(GITHUB_CHECK_PUBLISH_JOB, github_check_publish_handler t),
     (INVITATION_EMAIL_DELIVER_JOB, invitation_email_delivery_handler t)]"

section \<open>The loop\<close>

record worker_options =
  wo_worker_id :: string
  wo_poll_interval :: rat
  wo_lease_timeout :: int \<comment> \<open>microseconds\<close>
  wo_max_jobs :: "int option"
  wo_exit_when_idle :: bool

datatype worker_error = BadOption string | QueueFailed queue_error

definition worker_iteration :: "worker_options \<Rightarrow> tick \<Rightarrow> worker_state \<Rightarrow> jobs \<Rightarrow> queue_error + job option \<times> worker_state \<times> jobs" where
  "worker_iteration opts t s db =
     (let (_, db1) = requeue_expired_jobs (wo_lease_timeout opts) (now (tk_env t)) db (tk_requeue_others t db) in
      run_one_job (gh_str (tk_github t)) (tk_job_others t) (wo_worker_id opts) (registered_handlers t) (now (tk_env t)) s db1)"

fun worker_loop :: "worker_options \<Rightarrow> tick list \<Rightarrow> int \<Rightarrow> worker_state \<Rightarrow> jobs \<Rightarrow> queue_error + int \<times> worker_state \<times> jobs" where
  "worker_loop opts [] n s db = Inr (n, s, db)"
| "worker_loop opts (t # ts) n s db =
     rbind (worker_iteration opts t s db) (\<lambda>(j, s', db').
     let n' = (if j \<noteq> None then n + 1 else n) in
     if (case wo_max_jobs opts of None \<Rightarrow> False | Some m \<Rightarrow> n' \<ge> m) then Inr (n', s', db')
     else if j = None \<and> wo_exit_when_idle opts then Inr (n', s', db')
     else worker_loop opts ts n' s' db')"

definition run_worker :: "worker_options \<Rightarrow> tick list \<Rightarrow> worker_state \<Rightarrow> jobs \<Rightarrow> worker_error + int \<times> worker_state \<times> jobs" where
  "run_worker opts ts s db =
     (if wo_poll_interval opts < 0 then Inl (BadOption ''poll_interval_seconds cannot be negative'')
      else if wo_lease_timeout opts \<le> 0 then Inl (BadOption ''lease_timeout_seconds must be positive'')
      else if (case wo_max_jobs opts of None \<Rightarrow> False | Some m \<Rightarrow> m < 1) then Inl (BadOption ''max_jobs must be positive when provided'')
      else (case worker_loop opts ts 0 s db of Inl e \<Rightarrow> Inl (QueueFailed e) | Inr out \<Rightarrow> Inr out))"

text \<open>\<open>--once\<close> in \<open>main\<close>.\<close>

definition once_options :: "worker_options \<Rightarrow> worker_options" where
  "once_options opts = opts \<lparr> wo_max_jobs := Some 1, wo_exit_when_idle := True \<rparr>"

section \<open>Everything that touches deliveries\<close>

text \<open>The states of the delivery tables, newest first. A delivery of age \<open>n\<close> read the invitation and looked for an earlier
  delivery \<open>n\<close> commits before it commits its own row. A conversation during which others commit, or the worker dies, is one
  that has started and ends later, or never.\<close>

datatype worker_event =
    JobHandled nat tick string pydict job_context jobs
  | ConversationStarted nat tick pydict job_context
  | ConversationEnded string smtp_outcome
  | LocalRecorded environment string string

definition alone :: "worker_state \<Rightarrow> tick \<Rightarrow> tick" where
  "alone cur t = t \<lparr> tk_mail_others := (\<lambda>_. cur), tk_talking := (\<lambda>s. s) \<rparr>"

fun worker_step :: "worker_state list \<Rightarrow> worker_event \<Rightarrow> worker_state list option" where
  "worker_step hist (JobHandled age t k raw ctx db) =
     (case registered_handlers (alone (hd hist) t) k of
        None \<Rightarrow> None
      | Some h \<Rightarrow> Some (fst (snd (h raw ctx (if k = INVITATION_EMAIL_DELIVER_JOB then seen_at age hist else hd hist) db)) # hist))"
| "worker_step hist (ConversationStarted age t raw ctx) =
     (case invitation_to_send t raw ctx (seen_at age hist) of
        Inl _ \<Rightarrow> None
      | Inr (i, token) \<Rightarrow>
          if latest_delivery (seen_at age hist) (i_id i) \<noteq> None then None
          else (case begin_delivery (tk_env t) i token (hd hist) of
            Inl _ \<Rightarrow> None
          | Inr s \<Rightarrow> Some (s \<lparr> wk_mails := wk_mails s @ [invitation_mail (gh_iso (tk_github t)) (tk_settings t) i token] \<rparr> # hist)))"
| "worker_step hist (ConversationEnded k outcome) =
     Some ((case outcome of SmtpAccepted \<Rightarrow> finish_delivery k ''sent'' None (hd hist)
       | SmtpFailed \<Rightarrow> finish_delivery k ''failed'' (Some ''provider_unavailable'') (hd hist)) # hist)"
| "worker_step hist (LocalRecorded env i state) = Some (record_local_invitation_delivery env i state (hd hist) # hist)"

text \<open>The invitation an event delivers by SMTP, and the state its lookup sees.\<close>

definition addressed :: "tick \<Rightarrow> pydict \<Rightarrow> job_context \<Rightarrow> worker_state \<Rightarrow> (string \<times> worker_state) option" where
  "addressed t raw ctx seen = (case invitation_to_send t raw ctx seen of Inl _ \<Rightarrow> None | Inr (i, _) \<Rightarrow> Some (i_id i, seen))"

fun delivery_of :: "worker_state list \<Rightarrow> worker_event \<Rightarrow> (string \<times> worker_state) option" where
  "delivery_of hist (JobHandled age t k raw ctx db) =
     (if k = INVITATION_EMAIL_DELIVER_JOB then addressed t raw ctx (seen_at age hist) else None)"
| "delivery_of hist (ConversationStarted age t raw ctx) = addressed t raw ctx (seen_at age hist)"
| "delivery_of hist _ = None"

text \<open>Two deliveries of an invitation overlap when the second looked before the first committed its row, and commits after.\<close>

definition overlap :: "string \<Rightarrow> worker_state list \<Rightarrow> worker_event \<Rightarrow> bool" where
  "overlap i hist e = (case delivery_of hist e of None \<Rightarrow> False
     | Some (k, seen) \<Rightarrow> k = i \<and> latest_delivery seen i = None \<and> latest_delivery (hd hist) i \<noteq> None)"

fun overlaps :: "string \<Rightarrow> worker_state list \<Rightarrow> worker_event list \<Rightarrow> nat" where
  "overlaps i hist [] = 0"
| "overlaps i hist (e # es) =
     (case worker_step hist e of None \<Rightarrow> overlaps i hist es
      | Some hist' \<Rightarrow> (if overlap i hist e then 1 else 0) + overlaps i hist' es)"

section \<open>At most one mail per invitation\<close>

definition mails_of :: "string \<Rightarrow> worker_state \<Rightarrow> nat" where
  "mails_of i s = length (filter (\<lambda>m. ml_invitation m = i) (wk_mails s))"

lemma latest_delivery_None: "latest_delivery s i = None \<longleftrightarrow> i \<notin> set (map d_invitation (wk_deliveries s))"
proof -
  have "(case rev ys of [] \<Rightarrow> None | d # _ \<Rightarrow> Some d) = None \<longleftrightarrow> ys = []" for ys :: "delivery list"
    by (cases ys rule: rev_cases) auto
  moreover have "sort_key d_attempted (filter (\<lambda>d. d_invitation d = i) ds) = [] \<longleftrightarrow> i \<notin> set (map d_invitation ds)" for ds
  proof -
    have "sort_key d_attempted xs = [] \<longleftrightarrow> xs = []" for xs by (metis length_0_conv length_sort)
    then show ?thesis by (auto simp: filter_empty_conv)
  qed
  ultimately show ?thesis by (simp add: latest_delivery_def)
qed

lemma begin_delivery_Inr:
  assumes "begin_delivery env i token s = Inr s1"
  shows "wk_deliveries s1 = wk_deliveries s @ [new_delivery env (i_id i) ''smtp'' ''publishing'']" and "wk_mails s1 = wk_mails s"
    and "provider_unique (wk_db s1)"
    and "invitations (base (wk_db s1)) = map (\<lambda>x. if i_id x = i_id i
      then x \<lparr> i_token_hash := dirty (i_token_hash i) (sha env token) (i_token_hash x) \<rparr> else x) (invitations (base (wk_db s)))"
  using assms by (auto simp: begin_delivery_def commit_worker_def set_token_hash_def update_invitation_def split: if_splits)

lemma finish_delivery_fields [simp]:
  "map d_invitation (wk_deliveries (finish_delivery k state err s)) = map d_invitation (wk_deliveries s)"
  "wk_mails (finish_delivery k state err s) = wk_mails s" "wk_db (finish_delivery k state err s) = wk_db s"
  by (simp_all add: finish_delivery_def comp_def if_distrib cong: if_cong)

text \<open>What a commit does to the tables of deliveries: it records, and a conversation starts only with its own record.\<close>

definition logs :: "worker_state \<Rightarrow> worker_state \<Rightarrow> (string \<times> worker_state) option \<Rightarrow> bool" where
  "logs s s' d \<longleftrightarrow> set (map d_invitation (wk_deliveries s)) \<subseteq> set (map d_invitation (wk_deliveries s')) \<and>
     (wk_mails s' = wk_mails s \<or>
      (\<exists>m seen. wk_mails s' = wk_mails s @ [m] \<and> d = Some (ml_invitation m, seen) \<and> latest_delivery seen (ml_invitation m) = None \<and>
         ml_invitation m \<in> set (map d_invitation (wk_deliveries s'))))"

lemma logs_same: "map d_invitation (wk_deliveries s') = map d_invitation (wk_deliveries s) \<Longrightarrow> wk_mails s' = wk_mails s \<Longrightarrow> logs s s' d"
  by (simp add: logs_def)

lemma logs_conversation:
  assumes "begin_delivery env i token s = Inr s1" and "latest_delivery seen (i_id i) = None"
    and "map d_invitation (wk_deliveries s') = map d_invitation (wk_deliveries s1)"
    and "wk_mails s' = wk_mails s1 @ [m]" and "ml_invitation m = i_id i"
  shows "logs s s' (Some (i_id i, seen))"
  using begin_delivery_Inr [OF assms(1)] assms(2-5)
  by (auto simp: logs_def new_delivery_def simp del: set_map)

lemma invitation_mail_to [simp]: "ml_invitation (invitation_mail stamp st i token) = i_id i"
  by (simp add: invitation_mail_def)

lemma alone_fields [simp]:
  "tk_env (alone cur t) = tk_env t" "tk_settings (alone cur t) = tk_settings t" "tk_github (alone cur t) = tk_github t"
  "tk_smtp (alone cur t) = tk_smtp t" "tk_text (alone cur t) = tk_text t" "tk_mail_others (alone cur t) = (\<lambda>_. cur)"
  "tk_talking (alone cur t) = (\<lambda>s. s)"
  by (simp_all add: alone_def)

lemma deliver_logs: "logs cur (snd (deliver_invitation_smtp (alone cur t) i token seen)) (Some (i_id i, seen))"
proof (cases "latest_delivery seen (i_id i)")
  case None
  show ?thesis
  proof (cases "begin_delivery (tk_env t) i token cur")
    case (Inr s1)
    show ?thesis
      by (rule logs_conversation [OF Inr None, where m = "invitation_mail (gh_iso (tk_github t)) (tk_settings t) i token"])
        (use None Inr in \<open>simp_all add: deliver_invitation_smtp_def Let_def split: smtp_outcome.splits\<close>)
  qed (use None in \<open>simp add: deliver_invitation_smtp_def Let_def logs_same\<close>)
qed (simp add: deliver_invitation_smtp_def Let_def logs_same)

lemma invitation_handler_logs:
  "logs cur (fst (snd (invitation_email_delivery_handler (alone cur t) raw ctx seen db))) (addressed t raw ctx seen)"
proof -
  have same: "invitation_to_send (alone cur t) raw ctx seen = invitation_to_send t raw ctx seen"
    unfolding invitation_to_send_def alone_fields ..
  show ?thesis
  proof (cases "invitation_to_send t raw ctx seen")
    case (Inl msg)
    then show ?thesis by (simp add: invitation_email_delivery_handler_def same logs_same)
  next
    case (Inr x)
    then obtain i token where x: "invitation_to_send t raw ctx seen = Inr (i, token)" by (cases x) auto
    then show ?thesis
      using deliver_logs [of cur t i token seen]
      by (cases "deliver_invitation_smtp (alone cur t) i token seen") (simp add: invitation_email_delivery_handler_def same addressed_def)
  qed
qed

lemma publish_handler_logs: "logs s (fst (snd (github_check_publish_handler t raw ctx s db))) d"
proof (cases "check_to_publish t raw ctx s")
  case (Inr x)
  then obtain c r ch p where x: "check_to_publish t raw ctx s = Inr (c, r, ch, p)" by (cases x) auto
  obtain res p' where pub: "publish_change_check (tk_github t) (tk_env t) (tk_others t) (tk_settings t) c r ch None (request_of ctx) p = (res, p')"
    by fastforce
  show ?thesis
    using x pub by (cases res; cases "projl res") (simp_all add: github_check_publish_handler_def logs_same)
qed (simp add: github_check_publish_handler_def logs_same)

lemma worker_step_logs:
  assumes "worker_step hist e = Some hist'"
  shows "\<exists>s. hist' = s # hist \<and> logs (hd hist) s (delivery_of hist e)"
proof (cases e)
  case (JobHandled age t k raw ctx db)
  with assms show ?thesis
    using invitation_handler_logs [of "hd hist" t raw ctx "seen_at age hist" db]
    by (auto simp: registered_handlers_def publish_handler_logs INVITATION_EMAIL_DELIVER_JOB_def GITHUB_CHECK_PUBLISH_JOB_def
        split: if_splits)
next
  case (ConversationStarted age t raw ctx)
  with assms obtain i token s where started: "invitation_to_send t raw ctx (seen_at age hist) = Inr (i, token)"
    "latest_delivery (seen_at age hist) (i_id i) = None" "begin_delivery (tk_env t) i token (hd hist) = Inr s"
    "hist' = s \<lparr> wk_mails := wk_mails s @ [invitation_mail (gh_iso (tk_github t)) (tk_settings t) i token] \<rparr> # hist"
    by (auto split: sum.splits if_splits)
  then have "delivery_of hist e = Some (i_id i, seen_at age hist)" using ConversationStarted by (simp add: addressed_def)
  with logs_conversation [OF started(3,2), where m = "invitation_mail (gh_iso (tk_github t)) (tk_settings t) i token"] started(4)
  show ?thesis by simp
next
  case (ConversationEnded k outcome)
  with assms show ?thesis by (cases outcome) (auto simp: logs_same)
next
  case (LocalRecorded env i state)
  with assms show ?thesis by (auto simp: logs_def record_local_invitation_delivery_def)
qed

text \<open>No record of a delivery and no mail disappears.\<close>

definition log_kept :: "worker_state list \<Rightarrow> worker_state list \<Rightarrow> bool" where
  "log_kept h h' \<longleftrightarrow> set (map d_invitation (wk_deliveries (hd h))) \<subseteq> set (map d_invitation (wk_deliveries (hd h'))) \<and>
     (\<exists>ms. wk_mails (hd h') = wk_mails (hd h) @ ms)"

interpretation worker: monotone_system worker_step "\<lambda>_. True" log_kept
proof
  fix s e s' assume "worker_step s e = Some s'"
  then obtain x where "s' = x # s" "logs (hd s) x (delivery_of s e)" using worker_step_logs by blast
  then show "log_kept s s'" by (auto simp: log_kept_def logs_def)
qed (auto simp: log_kept_def)

text \<open>As many conversations as there is a record for, and one for every overlap.\<close>

lemma worker_step_mails:
  assumes "worker_step hist e = Some hist'"
    and "mails_of i (hd hist) \<le> n + (if latest_delivery (hd hist) i = None then 0 else 1)"
  shows "mails_of i (hd hist') \<le> n + (if overlap i hist e then 1 else 0) + (if latest_delivery (hd hist') i = None then 0 else 1)"
proof -
  obtain s where s: "hist' = s # hist" "logs (hd hist) s (delivery_of hist e)" using worker_step_logs [OF assms(1)] by blast
  from s(2) have "latest_delivery s i = None \<Longrightarrow> latest_delivery (hd hist) i = None"
    by (auto simp: logs_def latest_delivery_None)
  note kept = this
  show ?thesis
  proof (cases "wk_mails s = wk_mails (hd hist)")
    case True
    then have "mails_of i (hd hist') = mails_of i (hd hist)" using s(1) by (simp add: mails_of_def)
    then show ?thesis using kept assms(2) s(1) by (cases "latest_delivery (hd hist) i = None") auto
  next
    case False
    then obtain m seen where m: "wk_mails s = wk_mails (hd hist) @ [m]" "delivery_of hist e = Some (ml_invitation m, seen)"
        "latest_delivery seen (ml_invitation m) = None" "latest_delivery s (ml_invitation m) \<noteq> None"
      using s(2) unfolding logs_def latest_delivery_None by auto
    show ?thesis
    proof (cases "ml_invitation m = i")
      case True
      then show ?thesis using m assms(2) s(1) by (auto simp: mails_of_def overlap_def)
    next
      case False
      then have "mails_of i (hd hist') = mails_of i (hd hist)" using m(1) s(1) by (simp add: mails_of_def)
      then show ?thesis using kept assms(2) s(1) by (cases "latest_delivery (hd hist) i = None") auto
    qed
  qed
qed

lemma mails_of_run:
  assumes "mails_of i (hd hist) \<le> n + (if latest_delivery (hd hist) i = None then 0 else 1)"
  shows "mails_of i (hd (run_events worker_step hist es)) \<le> n + overlaps i hist es + 1"
  using assms
proof (induction es arbitrary: hist n)
  case Nil
  then show ?case by (auto split: if_splits)
next
  case (Cons e es)
  show ?case
  proof (cases "worker_step hist e")
    case (Some hist')
    from Cons.IH [OF worker_step_mails [OF Some Cons.prems]] Some show ?thesis by (simp add: ac_simps)
  qed (use Cons in simp)
qed

text \<open>
  C25. An invitation is mailed at most once, unless deliveries of it overlap: however its jobs are delivered, redelivered,
  replayed and interleaved with other deliveries, whatever the SMTP server answers, and even when a worker dies in the
  middle of a conversation and its job is taken over, the number of SMTP conversations ever started for an invitation is
  at most one more than the number of its overlaps, deliveries that looked for an earlier one before another delivery of
  the invitation had committed its record and that commit theirs after.
\<close>
theorem invitation_mailed_once:
  assumes "wk_mails s = []"
  shows "length (filter (\<lambda>m. ml_invitation m = i) (wk_mails (hd (run_events worker_step [s] es)))) \<le> 1 + overlaps i [s] es"
  using mails_of_run [of i "[s]" 0 es] assms by (simp add: mails_of_def)

section \<open>The token of a mail claims the invitation\<close>

text \<open>After a delivery that nobody disturbs the stored digest is that of the mailed token, so \<open>accept_invitation\<close> finds this
  invitation by it; the mail goes to the invited address.\<close>

lemma mailed_token_claims:
  assumes "invitation_to_send t raw ctx s = Inr (i, token)" and "latest_delivery s (i_id i) = None"
    and "deliver_invitation_smtp (alone s t) i token s = (Returned out, s')"
  shows "find (\<lambda>x. i_token_hash x = sha (tk_env t) token) (invitations (base (wk_db s'))) =
      Some (i \<lparr> i_token_hash := sha (tk_env t) token \<rparr>) \<and>
    wk_mails s' = wk_mails s @ [invitation_mail (gh_iso (tk_github t)) (tk_settings t) i token] \<and> i_status i = Pending \<and> now (tk_env t) < i_expires i"
proof -
  obtain s1 where b: "begin_delivery (tk_env t) i token s = Inr s1"
    and s': "wk_db s' = wk_db s1" "wk_mails s' = wk_mails s1 @ [invitation_mail (gh_iso (tk_github t)) (tk_settings t) i token]"
    using assms(2,3)
    by (auto simp: deliver_invitation_smtp_def Let_def split: sum.splits smtp_outcome.splits)
  have i: "i \<in> set (invitations (base (wk_db s)))" "i_status i = Pending" "now (tk_env t) < i_expires i"
    using assms(1) by (auto simp: invitation_to_send_def find_Some_iff split: sum.splits if_splits option.splits)
  note row = begin_delivery_Inr [OF b]
  have "distinct (map i_token_hash (invitations (base (wk_db s1))))"
    using row(3) by (simp add: provider_unique_def ops_unique_def unique_ok_def ops.truncate_def)
  moreover have "i \<lparr> i_token_hash := sha (tk_env t) token \<rparr> \<in> set (invitations (base (wk_db s1)))"
    using row(4) i(1) by force
  ultimately have "find (\<lambda>x. i_token_hash x = sha (tk_env t) token) (invitations (base (wk_db s1))) =
      Some (i \<lparr> i_token_hash := sha (tk_env t) token \<rparr>)"
    by (auto dest: find_unique)
  with s' row(2) i show ?thesis by simp
qed

section \<open>Bounds of the loop\<close>

lemma worker_loop_bound:
  assumes "worker_loop opts ts n s db = Inr (m, s', db')" and "wo_max_jobs opts = Some k" and "n < k"
  shows "n \<le> m \<and> m \<le> k \<and> m - n \<le> int (length ts)"
  using assms
proof (induction ts arbitrary: n s db)
  case (Cons t ts)
  then obtain j s1 db1 where it: "worker_iteration opts t s db = Inr (j, s1, db1)" by (auto simp: result_simps)
  let ?n = "if j \<noteq> None then n + 1 else n"
  show ?case
  proof (cases "?n \<ge> k \<or> (j = None \<and> wo_exit_when_idle opts)")
    case True
    with Cons.prems it have "m = ?n" by (auto simp: Let_def split: if_splits)
    with Cons.prems show ?thesis by (auto split: if_splits)
  next
    case False
    with Cons.prems it have "worker_loop opts ts ?n s1 db1 = Inr (m, s', db')" by (auto simp: Let_def split: if_splits)
    from Cons.IH [OF this Cons.prems(2)] False show ?thesis by (auto split: if_splits)
  qed
qed simp

lemma once_single_iteration: "worker_loop (once_options opts) (t # ts) 0 s db = worker_loop (once_options opts) [t] 0 s db"
proof (cases "worker_iteration (once_options opts) t s db")
  case (Inr x)
  then show ?thesis by (cases x) (simp add: once_options_def Let_def)
qed simp

text \<open>The loop keeps the job table well formed, when the other writers do.\<close>

lemma handlers_jobs:
  assumes "registered_handlers t k = Some h"
  shows "snd (snd (snd (h raw ctx s db))) = tk_job_running t db"
proof -
  have "snd (snd (snd (github_check_publish_handler t raw ctx s db))) = tk_job_running t db"
  proof (cases "check_to_publish t raw ctx s")
    case (Inr x)
    then obtain c r ch p where x: "check_to_publish t raw ctx s = Inr (c, r, ch, p)" by (cases x) auto
    obtain res p' where "publish_change_check (tk_github t) (tk_env t) (tk_others t) (tk_settings t) c r ch None (request_of ctx) p = (res, p')"
      by fastforce
    with x show ?thesis by (cases res; cases "projl res") (simp_all add: github_check_publish_handler_def)
  qed (simp add: github_check_publish_handler_def)
  moreover have "snd (snd (snd (invitation_email_delivery_handler t raw ctx s db))) = tk_job_running t db"
    by (simp add: invitation_email_delivery_handler_def split: sum.splits prod.splits)
  ultimately show ?thesis using assms by (auto simp: registered_handlers_def split: if_splits)
qed

lemma worker_loop_queue_safe:
  assumes "worker_loop opts ts n s db = Inr (m, s', db')" and "queue_safe other db"
    and "\<And>t d f. t \<in> set ts \<Longrightarrow> f \<in> {tk_requeue_others t, tk_job_others t, tk_job_running t} \<Longrightarrow> queue_safe other d \<Longrightarrow> queue_safe other (f d)"
    and "\<And>t. t \<in> set ts \<Longrightarrow> gh_str (tk_github t) = other"
  shows "queue_safe other db'"
  using assms
proof (induction ts arbitrary: n s db)
  case (Cons t ts)
  then obtain j s1 db1 where it: "worker_iteration opts t s db = Inr (j, s1, db1)" by (auto simp: result_simps)
  obtain c db0 where rq: "requeue_expired_jobs (wo_lease_timeout opts) (now (tk_env t)) db (tk_requeue_others t db) = (c, db0)" by fastforce
  have safe: "queue_safe other (f d)" if "f \<in> {tk_requeue_others t, tk_job_others t, tk_job_running t}" "queue_safe other d" for f d
    using Cons.prems(3) [of t f d] that by simp
  have "queue_safe other db0"
    using settle_safe(5) [OF safe [OF _ Cons.prems(2)], of "tk_requeue_others t"] rq by (metis insertI1 snd_conv)
  moreover have "run_one_job other (tk_job_others t) (wo_worker_id opts) (registered_handlers t) (now (tk_env t)) s db0 = Inr (j, s1, db1)"
    using it rq Cons.prems(4) by (simp add: worker_iteration_def)
  moreover have "queue_safe other (tk_job_others t db0)" using safe \<open>queue_safe other db0\<close> by simp
  ultimately have "queue_safe other db1"
    using run_one_job_safe [of other "tk_job_others t" "wo_worker_id opts" "registered_handlers t" "now (tk_env t)" s db0 j s1 db1]
      safe [of "tk_job_running t"] by (simp add: handlers_jobs)
  let ?n = "if j \<noteq> None then n + 1 else n"
  consider "db' = db1" | "worker_loop opts ts ?n s1 db1 = Inr (m, s', db')"
    using Cons.prems(1) it by (auto simp: Let_def split: if_splits)
  then show ?case
  proof cases
    case 2
    then show ?thesis using \<open>queue_safe other db1\<close> Cons.prems(3,4) by (rule Cons.IH) auto
  qed (use \<open>queue_safe other db1\<close> in simp)
qed simp


section \<open>Witness\<close>

definition demo_tick :: tick where
  "demo_tick = \<lparr> tk_env = demo_env 5 ''t'', tk_settings = default_settings \<lparr> smtp_host := ''mail'', smtp_from_email := ''dg@acme.io'',
       invitation_token_secret := replicate 32 CHR ''s'' \<rparr>,
     tk_github = demo_github, tk_others = (\<lambda>s. s), tk_requeue_others = (\<lambda>d. d), tk_job_others = (\<lambda>d. d),
     tk_job_running = (\<lambda>d. d), tk_job_seen = (\<lambda>d. d), tk_mail_others = (\<lambda>s. s), tk_talking = (\<lambda>s. s), tk_smtp = (\<lambda>m. SmtpAccepted), tk_text = (\<lambda>e. ''error'') \<rparr>"

definition demo_worker :: worker_state where
  "demo_worker = \<lparr> wk_db = demo_provider \<lparr> base := (base demo_provider) \<lparr> invitations := [\<lparr> i_id = ''inv1'', i_workspace = ''w1'',
       i_email = ''b@c.d'', i_role = Viewer, i_token_hash = ''old'', i_status = Pending, i_invited_by = ''u1'', i_created = 0,
       i_expires = 100, i_accepted = None, i_revoked = None \<rparr>] \<rparr> \<rparr>, wk_deliveries = [], wk_mails = [] \<rparr>"

definition demo_context :: job_context where
  "demo_context = \<lparr> ctx_job_id = ''j1'', ctx_job_type = INVITATION_EMAIL_DELIVER_JOB, ctx_workspace_id = Some ''w1'',
     ctx_request_id = None, ctx_attempt = 1 \<rparr>"

definition demo_takeover :: "worker_event list" where
  "demo_takeover = [ConversationStarted 0 demo_tick (dump_invitation ''inv1'') demo_context,
     JobHandled 0 (demo_tick \<lparr> tk_env := demo_env 9 ''u'' \<rparr>) INVITATION_EMAIL_DELIVER_JOB (dump_invitation ''inv1'') demo_context []]"

theorem invitation_mailed_once_witness:
  "map ml_to (wk_mails (hd (run_events worker_step [demo_worker] demo_takeover))) = [''b@c.d''] \<and>
   length (filter (\<lambda>m. ml_invitation m = ''inv1'') (wk_mails (hd (run_events worker_step [demo_worker] demo_takeover)))) \<le> 1"
proof (rule conjI)
  have none: "overlaps ''inv1'' [demo_worker] demo_takeover = 0" by code_simp
  have "wk_mails demo_worker = []" by (simp add: demo_worker_def)
  from invitation_mailed_once [OF this, of "''inv1''" demo_takeover]
  show "length (filter (\<lambda>m. ml_invitation m = ''inv1'') (wk_mails (hd (run_events worker_step [demo_worker] demo_takeover)))) \<le> 1"
    unfolding none add_0_right .
qed code_simp

text \<open>Two workers that look before either has committed mail the invitation twice. The job of an invitation is delivered to
  one worker at a time, so this takes a second worker that claims it after the lease of the first has run out.\<close>

lemma overlapping_deliveries_mail_twice:
  "map ml_to (wk_mails (hd (run_events worker_step [demo_worker] [ConversationStarted 0 demo_tick (dump_invitation ''inv1'') demo_context,
     ConversationStarted 1 (demo_tick \<lparr> tk_env := demo_env 9 ''u'' \<rparr>) (dump_invitation ''inv1'') demo_context]))) = [''b@c.d'', ''b@c.d'']"
  by code_simp

end
