(* ===== verification/Deployments.thy ===== *)
theory Deployments
  imports Providers
begin

text \<open>
  \<open>backend/app/deployment_services.py\<close>: the deployment records kept from GitHub's deployment and deployment-status
  events.

  Times are microseconds; \<open>datetime.fromisoformat\<close> is a parameter. \<open>others\<close> is what other deliveries commit between the
  read of the record and the commit: an insert that lost the race is retried once. Nothing locks the record that is updated, and
  the update writes the columns that differ from what was read.
\<close>

section \<open>Records\<close>

record deployment =
  dp_id :: string
  dp_workspace :: string
  dp_repository :: string
  dp_change :: "string option"
  dp_provider :: string
  dp_provider_id :: string
  dp_environment :: string
  dp_commit_sha :: "string option"
  dp_ref :: "string option"
  dp_status :: string
  dp_provider_url :: "string option"
  dp_services :: "string list"
  dp_provenance :: pydict
  dp_last_event :: string
  dp_provider_created :: int
  dp_provider_updated :: int
  dp_finished :: "int option"
  dp_version :: int
  dp_created :: int
  dp_updated :: int

record deploy_state =
  dy_db :: provider
  dy_rows :: "deployment list"

definition GITHUB_DEPLOYMENT_STATUS :: "(string \<times> string) list" where
  "GITHUB_DEPLOYMENT_STATUS = [(''created'', ''queued''), (''queued'', ''queued''), (''pending'', ''queued''),
     (''in_progress'', ''in_progress''), (''success'', ''succeeded''), (''failure'', ''failed''), (''error'', ''failed''),
     (''cancelled'', ''cancelled''), (''inactive'', ''inactive'')]"

definition LEGACY_DEPLOYMENT_STATUS :: "(string \<times> string) list" where
  "LEGACY_DEPLOYMENT_STATUS = [(''queued'', ''pending''), (''in_progress'', ''in_progress''), (''succeeded'', ''deployed''),
     (''failed'', ''failed''), (''cancelled'', ''cancelled''), (''inactive'', ''inactive''), (''unknown'', ''unknown'')]"

definition FINISHED :: "string list" where
  "FINISHED = [''succeeded'', ''failed'', ''cancelled'', ''inactive'']"

definition deploy_unique :: "deploy_state \<Rightarrow> bool" where
  "deploy_unique s \<longleftrightarrow> provider_unique (dy_db s) \<and> distinct (map dp_id (dy_rows s)) \<and>
     distinct (map (\<lambda>d. (dp_workspace d, dp_provider d, dp_provider_id d)) (dy_rows s))"

section \<open>Reading the payload\<close>

definition parse_timestamp :: "(string \<Rightarrow> int option) \<Rightarrow> pyval \<Rightarrow> int \<Rightarrow> int" where
  "parse_timestamp parse_iso v fallback = (case v of
     PStr s \<Rightarrow> (case parse_iso (py_replace_char CHR ''Z'' ''+00:00'' s) of None \<Rightarrow> fallback | Some t \<Rightarrow> t)
   | _ \<Rightarrow> fallback)"

text \<open>\<open>str(a or b or ... or default).strip()[:n] or None\<close>.\<close>

definition first_text :: "github \<Rightarrow> pyval list \<Rightarrow> string \<Rightarrow> string" where
  "first_text g vs d = py_strip (str_of g (foldr py_or vs (PStr d)))"

definition nonempty :: "string \<Rightarrow> string option" where
  "nonempty s = (if s = [] then None else Some s)"

record deployment_facts =
  df_provider_id :: string
  df_status :: string
  df_created :: int
  df_updated :: int
  df_commit_sha :: "string option"
  df_ref :: "string option"
  df_environment :: string
  df_url :: "string option"

definition opt_or :: "'a \<Rightarrow> 'a option \<Rightarrow> 'a" where
  "opt_or d x = (case x of None \<Rightarrow> d | Some y \<Rightarrow> y)"

definition get_field :: "pydict \<Rightarrow> string \<Rightarrow> pyval" where
  "get_field d k = dget_or d k PNone"

definition deployment_facts_of ::
  "github \<Rightarrow> (string \<Rightarrow> int option) \<Rightarrow> int \<Rightarrow> pydict \<Rightarrow> deployment_facts option" where
  "deployment_facts_of g parse_iso event_time pl =
     (case get_field pl ''deployment'' of
        PDict d \<Rightarrow>
          let pid = first_text g [get_field d ''id''] [];
              sp = (case get_field pl ''deployment_status'' of PDict x \<Rightarrow> x | _ \<Rightarrow> []);
              raw = py_lower (first_text g [get_field sp ''state'', get_field d ''state'', get_field pl ''action''] ''unknown'');
              env = py_prefix 80 (first_text g [get_field d ''environment'', get_field sp ''environment''] ''unknown'') in
          if pid = [] then None
          else Some \<lparr> df_provider_id = pid,
            df_status = (case map_of GITHUB_DEPLOYMENT_STATUS raw of None \<Rightarrow> ''unknown'' | Some x \<Rightarrow> x),
            df_created = parse_timestamp parse_iso (get_field d ''created_at'') event_time,
            df_updated = parse_timestamp parse_iso (py_or (get_field sp ''created_at'') (get_field d ''updated_at'')) event_time,
            df_commit_sha = nonempty (py_prefix 64 (first_text g [get_field d ''sha'', get_field sp ''sha''] [])),
            df_ref = nonempty (py_prefix 160 (first_text g [get_field d ''ref''] [])),
            df_environment = (if env = [] then ''unknown'' else env),
            df_url = nonempty (py_prefix 2048 (first_text g [get_field sp ''environment_url'', get_field sp ''log_url'', get_field d ''url''] [])) \<rparr>
      | _ \<Rightarrow> None)"

section \<open>Links to the change and its services\<close>

definition matched_change :: "provider \<Rightarrow> string \<Rightarrow> string \<Rightarrow> string option \<Rightarrow> int \<Rightarrow> change option" where
  "matched_change s w r commit occurred = (case commit of
     None \<Rightarrow> None
   | Some h \<Rightarrow>
       (case rev (sort_key (\<lambda>c. (ch_created c, ch_id c)) (filter (\<lambda>c. ch_workspace c = w \<and> ch_repository c = r \<and>
          py_lower (ch_commit_sha c) = py_lower h \<and> ch_created c \<le> occurred) (changes s))) of
        [] \<Rightarrow> None | c # _ \<Rightarrow> Some c))"

definition linked_services :: "provider \<Rightarrow> string \<Rightarrow> string \<Rightarrow> change option \<Rightarrow> string list" where
  "linked_services s w r ch =
     (let ids = sort (map sv_id (filter (\<lambda>x. sv_workspace x = w \<and> sv_repository x = Some r) (services s)));
          changed = filter (\<lambda>k. k \<in> set ids) (case ch of None \<Rightarrow> [] | Some c \<Rightarrow> ch_changed_services c)
      in fromkeys (if changed \<noteq> [] then changed else ids))"

section \<open>Upsert\<close>

record deployment_event =
  de_payload :: pydict
  de_workspace :: string
  de_repository :: repository
  de_event_id :: string
  de_occurred :: int
  de_installation :: pyval
  de_delivery :: string

definition find_deployment :: "deploy_state \<Rightarrow> string \<Rightarrow> string \<Rightarrow> deployment option" where
  "find_deployment s w pid = find (\<lambda>d. dp_workspace d = w \<and> dp_provider d = ''github'' \<and> dp_provider_id d = pid) (dy_rows s)"

definition finished_at :: "deployment_facts \<Rightarrow> int option" where
  "finished_at f = (if df_status f \<in> set FINISHED then Some (df_updated f) else None)"

definition new_deployment :: "environment \<Rightarrow> deployment_event \<Rightarrow> deployment_facts \<Rightarrow> change option \<Rightarrow> string list \<Rightarrow> deployment" where
  "new_deployment env e f ch svcs =
     \<lparr> dp_id = fresh env 0, dp_workspace = de_workspace e, dp_repository = r_id (de_repository e), dp_change = map_option ch_id ch,
       dp_provider = ''github'', dp_provider_id = df_provider_id f, dp_environment = df_environment f, dp_commit_sha = df_commit_sha f,
       dp_ref = df_ref f, dp_status = df_status f, dp_provider_url = df_url f, dp_services = svcs,
       dp_provenance = [(PStr ''provider'', PStr ''github''), (PStr ''installation_id'', de_installation e),
         (PStr ''provider_repository_id'', PStr (r_provider_id (de_repository e))), (PStr ''last_delivery_id'', PStr (de_delivery e))],
       dp_last_event = de_event_id e, dp_provider_created = df_created f, dp_provider_updated = df_updated f,
       dp_finished = finished_at f, dp_version = 1, dp_created = now env, dp_updated = now env \<rparr>"

definition or_else :: "'a option \<Rightarrow> 'a option \<Rightarrow> 'a option" where
  "or_else x y = (case x of None \<Rightarrow> y | Some _ \<Rightarrow> x)"

definition updated_deployment :: "environment \<Rightarrow> deployment_event \<Rightarrow> deployment_facts \<Rightarrow> change option \<Rightarrow> string list \<Rightarrow> deployment \<Rightarrow> deployment" where
  "updated_deployment env e f ch svcs d =
     d \<lparr> dp_change := or_else (map_option ch_id ch) (dp_change d), dp_environment := df_environment f,
         dp_commit_sha := or_else (df_commit_sha f) (dp_commit_sha d), dp_ref := or_else (df_ref f) (dp_ref d),
         dp_status := df_status f, dp_provider_url := or_else (df_url f) (dp_provider_url d),
         dp_services := (if svcs \<noteq> [] then svcs else dp_services d), dp_last_event := de_event_id e,
         dp_provider_updated := df_updated f, dp_finished := finished_at f, dp_version := dp_version d + 1,
         dp_provenance := AList.update (PStr ''last_delivery_id'') (PStr (de_delivery e)) (dp_provenance d), dp_updated := now env \<rparr>"

text \<open>The columns written back to the row \<open>x\<close>: those in which the new value differs from the one that was read.\<close>

definition flush_deployment :: "deployment \<Rightarrow> deployment \<Rightarrow> deployment \<Rightarrow> deployment" where
  "flush_deployment old d x =
     x \<lparr> dp_change := dirty (dp_change old) (dp_change d) (dp_change x),
         dp_environment := dirty (dp_environment old) (dp_environment d) (dp_environment x),
         dp_commit_sha := dirty (dp_commit_sha old) (dp_commit_sha d) (dp_commit_sha x),
         dp_ref := dirty (dp_ref old) (dp_ref d) (dp_ref x),
         dp_status := dirty (dp_status old) (dp_status d) (dp_status x),
         dp_provider_url := dirty (dp_provider_url old) (dp_provider_url d) (dp_provider_url x),
         dp_services := dirty (dp_services old) (dp_services d) (dp_services x),
         dp_last_event := dirty (dp_last_event old) (dp_last_event d) (dp_last_event x),
         dp_provider_updated := dirty (dp_provider_updated old) (dp_provider_updated d) (dp_provider_updated x),
         dp_finished := dirty (dp_finished old) (dp_finished d) (dp_finished x),
         dp_version := dirty (dp_version old) (dp_version d) (dp_version x),
         dp_provenance := dirty (dp_provenance old) (dp_provenance d) (dp_provenance x),
         dp_updated := dirty (dp_updated old) (dp_updated d) (dp_updated x) \<rparr>"

text \<open>The change keeps the environment and the legacy status of the deployment.\<close>

definition mark_change :: "deployment_facts \<Rightarrow> change option \<Rightarrow> provider \<Rightarrow> provider" where
  "mark_change f ch s = (case ch of None \<Rightarrow> s
     | Some c \<Rightarrow> s \<lparr> changes := map (\<lambda>x. if ch_id x = ch_id c
         then x \<lparr> ch_deployment_environment := dirty (ch_deployment_environment c) (df_environment f) (ch_deployment_environment x),
                  ch_deployment_status := dirty (ch_deployment_status c) (opt_or ''unknown'' (map_of LEGACY_DEPLOYMENT_STATUS (df_status f)))
                    (ch_deployment_status x) \<rparr>
         else x) (changes s) \<rparr>)"

definition write_deployment :: "environment \<Rightarrow> deployment_event \<Rightarrow> deployment_facts \<Rightarrow> change option \<Rightarrow> deployment option \<Rightarrow> deployment \<Rightarrow> deploy_state \<Rightarrow> deploy_state" where
  "write_deployment env e f ch old d s =
     s \<lparr> dy_rows := (case old of None \<Rightarrow> dy_rows s @ [d]
           | Some x \<Rightarrow> map (\<lambda>y. if dp_id y = dp_id x then flush_deployment x d y else y) (dy_rows s)),
         dy_db := audited env 1 (de_workspace e) None (if old = None then ''deployment.created'' else ''deployment.updated'') ''deployment''
           (dp_id d) (''github:'' @ de_delivery e)
           [(''provider'', ''github''), (''provider_deployment_id'', df_provider_id f), (''status'', df_status f),
            (''change_id'', opt_or ''None'' (dp_change d))]
           (mark_change f ch (dy_db s)) \<rparr>"

definition same_delivery :: "deployment \<Rightarrow> string \<Rightarrow> bool" where
  "same_delivery d k = (dget (dp_provenance d) ''last_delivery_id'' = Some (PStr k))"

fun upsert :: "nat \<Rightarrow> github \<Rightarrow> (string \<Rightarrow> int option) \<Rightarrow> environment \<Rightarrow> (deploy_state \<Rightarrow> deploy_state) \<Rightarrow> deployment_event \<Rightarrow>
   deploy_state \<Rightarrow> (app_error + deployment option) \<times> deploy_state" where
  "upsert retries g parse_iso env others e s =
     (case deployment_facts_of g parse_iso (de_occurred e) (de_payload e) of
        None \<Rightarrow> (Inr None, s)
      | Some f \<Rightarrow>
          let w = de_workspace e; r = r_id (de_repository e);
              ch = matched_change (dy_db s) w r (df_commit_sha f) (df_updated f);
              svcs = linked_services (dy_db s) w r ch;
              old = find_deployment s w (df_provider_id f) in
          if (case old of None \<Rightarrow> False | Some d \<Rightarrow> same_delivery d (de_delivery e) \<or> df_updated f < dp_provider_updated d)
          then (Inr old, s)
          else if (case old of None \<Rightarrow> False | Some d \<Rightarrow> dp_workspace d \<noteq> w \<or> dp_repository d \<noteq> r)
          then (Inl (conflict ''Deployment identity does not match its recorded scope'' ''deployment_identity_mismatch''), s)
          else
            let d = (case old of None \<Rightarrow> new_deployment env e f ch svcs | Some x \<Rightarrow> updated_deployment env e f ch svcs x);
                s0 = others s; s1 = write_deployment env e f ch old d s0 in
            if deploy_unique s1 then (Inr (Some d), s1)
            else if find_deployment s0 w (df_provider_id f) = None then (Inl app_error.IntegrityError, s0)
            else (case retries of 0 \<Rightarrow> (Inl app_error.IntegrityError, s0) | Suc n \<Rightarrow> upsert n g parse_iso env (\<lambda>t. t) e s0))"

definition upsert_github_deployment ::
  "github \<Rightarrow> (string \<Rightarrow> int option) \<Rightarrow> environment \<Rightarrow> (deploy_state \<Rightarrow> deploy_state) \<Rightarrow> deployment_event \<Rightarrow> deploy_state \<Rightarrow>
   (app_error + deployment option) \<times> deploy_state" where
  "upsert_github_deployment = upsert 1"

section \<open>Reading\<close>

definition list_deployments ::
  "user \<Rightarrow> string \<Rightarrow> string option \<Rightarrow> string option \<Rightarrow> string option \<Rightarrow> nat \<Rightarrow> deploy_state \<Rightarrow> app_error + deployment list \<times> deploy_state" where
  "list_deployments usr w repository target state limit s =
     rbind (member_of usr w Viewer (dy_db s)) (\<lambda>(_, db).
     Inr (take limit (rev (sort_key (\<lambda>d. (dp_provider_updated d, dp_id d)) (filter (\<lambda>d. dp_workspace d = w \<and> matches repository (dp_repository d) \<and>
       matches target (dp_environment d) \<and> matches state (dp_status d)) (dy_rows s)))), s \<lparr> dy_db := db \<rparr>))"

definition get_deployment :: "user \<Rightarrow> string \<Rightarrow> deploy_state \<Rightarrow> app_error + deployment \<times> deploy_state" where
  "get_deployment usr k s =
     (case find (\<lambda>d. dp_id d = k) (dy_rows s) of
        None \<Rightarrow> Inl (not_found ''Deployment not found'' ''deployment_not_found'')
      | Some d \<Rightarrow> rbind (member_of usr (dp_workspace d) Viewer (dy_db s)) (\<lambda>(_, db). Inr (d, s \<lparr> dy_db := db \<rparr>)))"

section \<open>Deliveries one after the other\<close>

text \<open>What an update may do to a record.\<close>

definition advances :: "deployment \<Rightarrow> deployment \<Rightarrow> bool" where
  "advances d d' \<longleftrightarrow> dp_id d' = dp_id d \<and> dp_workspace d' = dp_workspace d \<and> dp_repository d' = dp_repository d \<and>
     dp_provider d' = dp_provider d \<and> dp_provider_id d' = dp_provider_id d \<and> dp_created d' = dp_created d \<and>
     dp_provider_updated d \<le> dp_provider_updated d' \<and> dp_version d \<le> dp_version d' \<and> (dp_version d' = dp_version d \<longrightarrow> d' = d)"

definition deployments_advance :: "deploy_state \<Rightarrow> deploy_state \<Rightarrow> bool" where
  "deployments_advance s s' \<longleftrightarrow> (\<forall>d\<in>set (dy_rows s). \<exists>d'\<in>set (dy_rows s'). advances d d')"

lemma advances_refl [simp]: "advances d d"
  by (simp add: advances_def)

lemma advances_trans: "advances d e \<Longrightarrow> advances e f \<Longrightarrow> advances d f"
  by (auto simp: advances_def)

lemma updated_advances: "dp_provider_updated d \<le> df_updated f \<Longrightarrow> advances d (updated_deployment env e f ch svcs d)"
  by (simp add: advances_def updated_deployment_def)

lemma find_deployment_SomeD: "find_deployment s w k = Some d \<Longrightarrow> d \<in> set (dy_rows s) \<and> dp_workspace d = w \<and> dp_provider_id d = k"
  by (auto simp: find_deployment_def find_Some_iff)

text \<open>What one delivery commits when nothing interferes.\<close>

inductive commits :: "github \<Rightarrow> (string \<Rightarrow> int option) \<Rightarrow> environment \<Rightarrow> deployment_event \<Rightarrow> deploy_state \<Rightarrow> deploy_state \<Rightarrow> bool" where
  keep: "commits g parse_iso env e s s"
| create: "find_deployment s (de_workspace e) (df_provider_id f) = None \<Longrightarrow> deployment_facts_of g parse_iso (de_occurred e) (de_payload e) = Some f \<Longrightarrow>
    s' = write_deployment env e f ch None (new_deployment env e f ch svcs) s \<Longrightarrow> deploy_unique s' \<Longrightarrow> commits g parse_iso env e s s'"
| update: "find_deployment s (de_workspace e) (df_provider_id f) = Some d \<Longrightarrow> deployment_facts_of g parse_iso (de_occurred e) (de_payload e) = Some f \<Longrightarrow> dp_provider_updated d \<le> df_updated f \<Longrightarrow>
    s' = write_deployment env e f ch (Some d) (updated_deployment env e f ch svcs d) s \<Longrightarrow> deploy_unique s' \<Longrightarrow> commits g parse_iso env e s s'"

lemma upsert_commits: "commits g parse_iso env e s (snd (upsert n g parse_iso env (\<lambda>t. t) e s))"
proof (induction n)
  case 0
  show ?case
    by (auto simp: Let_def not_less intro: keep create update split: option.splits)
next
  case (Suc n)
  show ?case
    by (subst upsert.simps, use Suc in \<open>auto simp: Let_def not_less intro: keep create update simp del: upsert.simps split: option.splits\<close>)
qed

lemma flush_read [simp]: "flush_deployment x (updated_deployment env e f ch svcs x) x = updated_deployment env e f ch svcs x"
  by (simp add: flush_deployment_def dirty_def updated_deployment_def)

lemma commits_unique: "commits g parse_iso env e s s' \<Longrightarrow> deploy_unique s \<Longrightarrow> deploy_unique s'"
  by (cases rule: commits.cases) auto

lemma row_by_id: "deploy_unique s \<Longrightarrow> x \<in> set (dy_rows s) \<Longrightarrow> y \<in> set (dy_rows s) \<Longrightarrow> dp_id x = dp_id y \<Longrightarrow> x = y"
  by (auto simp: deploy_unique_def distinct_map inj_on_def)

lemma updated_rows:
  assumes "deploy_unique s" "find_deployment s w k = Some x"
  shows "dy_rows (write_deployment env e f ch (Some x) (updated_deployment env e f ch svcs x) s) =
    map (\<lambda>y. if y = x then updated_deployment env e f ch svcs x else y) (dy_rows s)"
proof -
  have "x \<in> set (dy_rows s)" using find_deployment_SomeD [OF assms(2)] by simp
  then have "dp_id y = dp_id x \<longleftrightarrow> y = x" if "y \<in> set (dy_rows s)" for y
    using row_by_id [OF assms(1)] that by blast
  then show ?thesis by (simp add: write_deployment_def)
qed

lemma advance_map: "(\<And>y. y \<in> set (dy_rows s) \<Longrightarrow> advances y (m y)) \<Longrightarrow> dy_rows s' = map m (dy_rows s) \<Longrightarrow> deployments_advance s s'"
  by (auto simp: deployments_advance_def)

lemma commits_advance:
  assumes "commits g parse_iso env e s s'" "deploy_unique s"
  shows "deployments_advance s s'"
  using assms(1)
proof cases
  case keep
  then show ?thesis by (auto simp: deployments_advance_def intro: advances_refl)
next
  case (create f ch svcs)
  then show ?thesis by (auto simp: deployments_advance_def write_deployment_def intro: advances_refl)
next
  case (update f x ch svcs)
  show ?thesis
    unfolding update(4) by (rule advance_map [OF _ updated_rows [OF assms(2) update(1)]])
      (simp add: updated_advances [OF update(3)])
qed

definition deploy_step :: "github \<Rightarrow> (string \<Rightarrow> int option) \<Rightarrow> deploy_state \<Rightarrow> environment \<times> deployment_event \<Rightarrow> deploy_state option" where
  "deploy_step g parse_iso s = (\<lambda>(env, e). Some (snd (upsert_github_deployment g parse_iso env (\<lambda>t. t) e s)))"

lemma deploy_step_commits: "deploy_step g parse_iso s (env, e) = Some s' \<Longrightarrow> commits g parse_iso env e s s'"
  using upsert_commits unfolding deploy_step_def upsert_github_deployment_def by (metis case_prod_conv option.inject)

lemma deployments_advance_trans: "deployments_advance s t \<Longrightarrow> deployments_advance t u \<Longrightarrow> deployments_advance s u"
  unfolding deployments_advance_def by (meson advances_trans)

text \<open>A record is finished when its status says so, at the provider's time of that status; every status has a legacy name.\<close>

definition deployment_row_ok :: "deployment \<Rightarrow> bool" where
  "deployment_row_ok d \<longleftrightarrow> dp_status d \<in> fst ` set LEGACY_DEPLOYMENT_STATUS \<and>
     dp_finished d = (if dp_status d \<in> set FINISHED then Some (dp_provider_updated d) else None)"

definition deploy_inv :: "deploy_state \<Rightarrow> bool" where
  "deploy_inv s \<longleftrightarrow> deploy_unique s \<and> (\<forall>d\<in>set (dy_rows s). deployment_row_ok d)"

lemma facts_status: "deployment_facts_of g parse_iso t pl = Some f \<Longrightarrow> df_status f \<in> fst ` set LEGACY_DEPLOYMENT_STATUS"
proof -
  have "set (map snd GITHUB_DEPLOYMENT_STATUS) \<subseteq> fst ` set LEGACY_DEPLOYMENT_STATUS" by code_simp
  then have known: "x \<in> fst ` set LEGACY_DEPLOYMENT_STATUS" if "map_of GITHUB_DEPLOYMENT_STATUS k = Some x" for k x
    using map_of_SomeD [OF that] by (metis image_eqI list.set_map snd_conv subsetD)
  have unknown: "''unknown'' \<in> fst ` set LEGACY_DEPLOYMENT_STATUS" by code_simp
  assume "deployment_facts_of g parse_iso t pl = Some f"
  then show ?thesis
    by (auto simp: deployment_facts_of_def Let_def unknown split: pyval.splits if_splits option.splits dest: known)
qed

lemma written_row_ok:
  assumes "deployment_facts_of g parse_iso t pl = Some f"
  shows "deployment_row_ok (new_deployment env e f ch svcs)" "deployment_row_ok (updated_deployment env e f ch svcs d)"
  using facts_status [OF assms] by (simp_all add: deployment_row_ok_def new_deployment_def updated_deployment_def finished_at_def)

lemma commits_inv:
  assumes "commits g parse_iso env e s s'" "deploy_inv s"
  shows "deploy_inv s'"
proof -
  have uniq: "deploy_unique s" and rows: "\<And>d. d \<in> set (dy_rows s) \<Longrightarrow> deployment_row_ok d"
    using assms(2) by (auto simp: deploy_inv_def)
  have "\<forall>d\<in>set (dy_rows s'). deployment_row_ok d"
    using assms(1)
  proof cases
    case keep
    then show ?thesis using rows by simp
  next
    case (create f ch svcs)
    then show ?thesis using rows written_row_ok(1) [OF create(2)] by (auto simp: write_deployment_def)
  next
    case (update f x ch svcs)
    show ?thesis
      unfolding update(4) updated_rows [OF uniq update(1)] using rows written_row_ok(2) [OF update(2)] by auto
  qed
  then show ?thesis using commits_unique [OF assms(1) uniq] by (simp add: deploy_inv_def)
qed

interpretation deploying: monotone_system "deploy_step g parse_iso" deploy_inv deployments_advance
  for g parse_iso
proof (unfold_locales, goal_cases)
  case (1 s e s')
  then show ?case by (cases e) (auto dest: deploy_step_commits commits_inv)
next
  case 2
  then show ?case by (auto simp: deployments_advance_def intro: advances_refl)
next
  case 3
  then show ?case by (rule deployments_advance_trans)
next
  case (4 s e s')
  then show ?case by (cases e) (auto simp: deploy_inv_def dest: deploy_step_commits commits_advance)
qed

text \<open>
  A delivery that is accepted leaves a record that is at least as new as the delivery, unless it repeats the last one.
\<close>

lemma find_present: "find_deployment s w k = Some d \<Longrightarrow> d \<in> set (dy_rows s)"
  using find_deployment_SomeD by blast

lemma delivery_recorded:
  assumes ran: "upsert n g parse_iso env (\<lambda>t. t) e s = (Inr (Some d), s')"
    and facts: "deployment_facts_of g parse_iso (de_occurred e) (de_payload e) = Some f"
  shows "df_updated f \<le> dp_provider_updated d \<or> same_delivery d (de_delivery e)"
  using ran
proof (induction n)
  case 0
  then show ?case using facts
    by (auto simp: Let_def new_deployment_def updated_deployment_def split: option.splits if_splits)
next
  case (Suc n)
  then show ?case using facts
    by (subst (asm) upsert.simps)
      (auto simp: Let_def new_deployment_def updated_deployment_def simp del: upsert.simps split: option.splits if_splits)
qed

text \<open>The delivery that wrote a record last changes nothing when it is delivered again.\<close>

lemma redelivery_ignored:
  assumes "deployment_facts_of g parse_iso (de_occurred e) (de_payload e) = Some f"
    and "find_deployment s (de_workspace e) (df_provider_id f) = Some d" "same_delivery d (de_delivery e)"
  shows "upsert_github_deployment g parse_iso env others e s = (Inr (Some d), s)"
  using assms by (simp add: upsert_github_deployment_def Let_def)

text \<open>
  C30. Whatever deliveries are processed one after the other (in any order, repeated, malformed), a stored deployment keeps its
  identity, workspace, repository, provider identity and creation time; its provider time never goes back, and neither does
  its version, which grows with every change of the record; no second record appears for the same deployment, and a record is
  finished exactly in a final status, at the provider's time of that status.
\<close>

theorem deployment_history:
  assumes inv: "deploy_inv s" and d: "d \<in> set (dy_rows s)"
    and ran: "s' = run_events (deploy_step g parse_iso) s events"
  shows "\<exists>d'\<in>set (dy_rows s'). dp_id d' = dp_id d \<and> dp_workspace d' = dp_workspace d \<and> dp_repository d' = dp_repository d \<and>
      dp_provider d' = dp_provider d \<and> dp_provider_id d' = dp_provider_id d \<and> dp_created d' = dp_created d \<and>
      dp_provider_updated d \<le> dp_provider_updated d' \<and> dp_version d \<le> dp_version d' \<and> (dp_version d' = dp_version d \<longrightarrow> d' = d) \<and>
      dp_finished d' = (if dp_status d' \<in> set FINISHED then Some (dp_provider_updated d') else None) \<and>
      (\<forall>x\<in>set (dy_rows s'). dp_workspace x = dp_workspace d \<and> dp_provider x = dp_provider d \<and> dp_provider_id x = dp_provider_id d \<longrightarrow> x = d')"
proof -
  obtain d' where d': "d' \<in> set (dy_rows s')" "advances d d'"
    using deploying.run_rel [OF inv, of g parse_iso events] d ran unfolding deployments_advance_def by blast
  have inv': "deploy_inv s'" unfolding ran by (rule deploying.run_inv [OF inv])
  have fin: "dp_finished d' = (if dp_status d' \<in> set FINISHED then Some (dp_provider_updated d') else None)"
    using inv' d'(1) by (simp only: deploy_inv_def deployment_row_ok_def)
  have uniq: "x = d'" if "x \<in> set (dy_rows s')" "dp_workspace x = dp_workspace d'" "dp_provider x = dp_provider d'"
      "dp_provider_id x = dp_provider_id d'" for x
    using inv' d'(1) that by (auto simp: deploy_inv_def deploy_unique_def distinct_map inj_on_def)
  note adv = d'(2)[unfolded advances_def]
  show ?thesis
    by (rule bexI [OF _ d'(1)], intro conjI ballI impI) (use adv fin uniq in \<open>metis\<close>)+
qed

section \<open>A concrete deployment\<close>

definition demo_iso :: "string \<Rightarrow> int option" where
  "demo_iso t = map_of [(''t1'', 100), (''t2'', 200), (''t3'', 300)] t"

definition demo_delivery :: "string \<Rightarrow> string \<Rightarrow> string \<Rightarrow> deployment_event" where
  "demo_delivery state t k = \<lparr> de_payload = [
       (PStr ''deployment'', PDict [(PStr ''id'', PStr ''900''), (PStr ''sha'', PStr ''0123abc''), (PStr ''environment'', PStr ''production'')]),
       (PStr ''deployment_status'', PDict [(PStr ''state'', PStr state), (PStr ''created_at'', PStr t)])],
     de_workspace = ''w1'', de_repository = demo_repository, de_event_id = ''ev-'' @ k, de_occurred = 5,
     de_installation = PStr ''42'', de_delivery = k \<rparr>"

definition demo_deploy_state :: deploy_state where
  "demo_deploy_state = snd (upsert_github_deployment demo_github demo_iso (demo_env 5 ''d'') (\<lambda>t. t) (demo_delivery ''pending'' ''t1'' ''k1'')
     \<lparr> dy_db = demo_provider, dy_rows = [] \<rparr>)"

definition demo_finish :: "deploy_state \<Rightarrow> deploy_state" where
  "demo_finish s = snd (upsert_github_deployment demo_github demo_iso (demo_env 7 ''f'') (\<lambda>t. t) (demo_delivery ''success'' ''t3'' ''k3'') s)"

lemma demo_deployment_inv: "deploy_inv demo_deploy_state"
  by code_simp

lemma demo_deployment_row: "map dp_provider_updated (dy_rows demo_deploy_state) = [100]"
  by code_simp

theorem deployment_history_witness:
  "\<exists>d'\<in>set (dy_rows (run_events (deploy_step demo_github demo_iso) demo_deploy_state
        [(demo_env 7 ''f'', demo_delivery ''success'' ''t3'' ''k3''), (demo_env 8 ''h'', demo_delivery ''in_progress'' ''t2'' ''k2'')])).
     dp_id d' = dp_id (hd (dy_rows demo_deploy_state)) \<and> 100 \<le> dp_provider_updated d'"
proof -
  have row: "hd (dy_rows demo_deploy_state) \<in> set (dy_rows demo_deploy_state)" "dp_provider_updated (hd (dy_rows demo_deploy_state)) = 100"
    using demo_deployment_row by (cases "dy_rows demo_deploy_state"; simp)+
  show ?thesis
    using deployment_history [OF demo_deployment_inv row(1) refl, of demo_github demo_iso
      "[(demo_env 7 ''f'', demo_delivery ''success'' ''t3'' ''k3''), (demo_env 8 ''h'', demo_delivery ''in_progress'' ''t2'' ''k2'')]"] row(2)
    by auto
qed

text \<open>
  Processed one after the other, the late \<open>in_progress\<close> status is dropped. When the \<open>success\<close> delivery commits between the read and the
  commit of the \<open>in_progress\<close> one, the older status is written over the newer one.
\<close>

lemma late_delivery_dropped:
  "map (\<lambda>d. (dp_status d, dp_provider_updated d)) (dy_rows (snd (upsert_github_deployment demo_github demo_iso (demo_env 8 ''h'') (\<lambda>t. t)
     (demo_delivery ''in_progress'' ''t2'' ''k2'') (demo_finish demo_deploy_state)))) = [(''succeeded'', 300)]"
  by code_simp

lemma concurrent_delivery_overwrites:
  "map (\<lambda>d. (dp_status d, dp_provider_updated d)) (dy_rows (snd (upsert_github_deployment demo_github demo_iso (demo_env 8 ''h'') demo_finish
     (demo_delivery ''in_progress'' ''t2'' ''k2'') demo_deploy_state))) = [(''in_progress'', 200)]"
  by code_simp

end
