(* ===== verification/Governance.thy ===== *)
theory Governance
  imports Operations EvidenceSynthesis "HOL-Library.Sublist"
begin

text \<open>
  The human verdicts, post-mortem snapshots and dataset consents of \<open>backend/app/services.py\<close>, with the request models of
  \<open>schemas.py\<close> and the routes of \<open>api.py\<close> that lead to them.

  The columns of an incident that the lifecycle operations do not use are kept in a second list of rows, \<open>case_file\<close>, under the
  identifier of the incident; its JSON columns hold the documents of the response models. The text of a time is a parameter.
  Requests are processed one after the other, and may be interleaved with every operation of \<open>Operations\<close>. Upper case is that of
  the letters below code point 128.
\<close>

section \<open>Tables\<close>

record case_hypothesis = syn_hypothesis +
  sh_next_step :: string
  sh_status :: string

record case_file =
  cf_incident :: string
  cf_data_mode :: string
  cf_schema_version :: string
  cf_engine_version :: string
  cf_started :: int
  cf_change :: "string option"
  cf_summary :: string
  cf_evidence :: "syn_evidence list"
  cf_hypotheses :: "case_hypothesis list"

record feedback =
  fb_id :: int
  fb_incident :: string
  fb_hypothesis :: string
  fb_verdict :: string
  fb_note :: string
  fb_actor :: "string option"
  fb_actor_name :: "string option"
  fb_actor_provider :: "string option"
  fb_result :: string
  fb_method :: "string option"
  fb_summary :: "string option"
  fb_evidence_ids :: "string list"
  fb_submitted :: int

record snapshot =
  sn_id :: string
  sn_workspace :: string
  sn_incident :: string
  sn_version :: string
  sn_content :: string
  sn_sha256 :: string
  sn_feedback_count :: nat
  sn_schema_version :: string
  sn_engine_version :: string
  sn_actor :: string
  sn_actor_name :: string
  sn_actor_provider :: string
  sn_created :: int

record consent =
  co_id :: string
  co_workspace :: string
  co_incident :: string
  co_snapshot :: string
  co_purpose :: string
  co_decision :: string
  co_terms :: string
  co_reason :: string
  co_attestations :: "string list"
  co_actor :: string
  co_actor_name :: string
  co_actor_provider :: string
  co_created :: int

record gov =
  gv_ops :: ops
  gv_cases :: "case_file list"
  gv_feedback :: "feedback list"
  gv_snapshots :: "snapshot list"
  gv_consents :: "consent list"

definition POSTMORTEM_SNAPSHOT_VERSION :: string where
  "POSTMORTEM_SNAPSHOT_VERSION = ''deployguard-postmortem/v1''"

definition REQUIRED_DATASET_ATTESTATIONS :: "string list" where
  "REQUIRED_DATASET_ATTESTATIONS = [''workspace_authorized'', ''secrets_reviewed'', ''privacy_reviewed'', ''license_reviewed'']"

definition gov_unique :: "gov \<Rightarrow> bool" where
  "gov_unique s \<longleftrightarrow> ops_unique (gv_ops s) \<and> distinct (map fb_id (gv_feedback s)) \<and> distinct (map sn_id (gv_snapshots s)) \<and>
     distinct (map (\<lambda>x. (sn_incident x, sn_sha256 x)) (gv_snapshots s)) \<and> distinct (map co_id (gv_consents s))"

definition commit_gov :: "gov \<Rightarrow> app_error + gov" where
  "commit_gov s = (if gov_unique s then Inr s else Inl app_error.IntegrityError)"

definition audit_gov :: "environment \<Rightarrow> nat \<Rightarrow> string \<Rightarrow> string option \<Rightarrow> string \<Rightarrow> string \<Rightarrow> string \<Rightarrow> string \<Rightarrow>
    (string \<times> string) list \<Rightarrow> gov \<Rightarrow> gov" where
  "audit_gov env n w actor act rtype rid req meta s = s \<lparr> gv_ops := audited env n w actor act rtype rid req meta (gv_ops s) \<rparr>"

section \<open>Request bodies\<close>

definition non_empty :: "int \<Rightarrow> string \<Rightarrow> app_error + string" where
  "non_empty bound t = (let v = py_strip t in if v = [] \<or> int (length v) > bound then Inl app_error.ValueError else Inr v)"

definition one_of :: "string list \<Rightarrow> string \<Rightarrow> app_error + string" where
  "one_of vs v = (if v \<in> set vs then Inr v else Inl app_error.ValueError)"

record outcome =
  oc_result :: string
  oc_method :: string
  oc_summary :: string
  oc_evidence_ids :: "string list"

record feedback_request =
  fr_hypothesis :: string
  fr_verdict :: string
  fr_note :: string
  fr_outcome :: "outcome option"

text \<open>\<open>list[NonEmptyString]\<close> bounds the length of the list and strips the elements.\<close>

definition stripped_id :: "string \<Rightarrow> app_error + string" where
  "stripped_id t = (let v = py_strip t in if v = [] then Inl app_error.ValueError else Inr v)"

definition validate_outcome :: "outcome \<Rightarrow> app_error + outcome" where
  "validate_outcome v =
     rbind (one_of [''supported'', ''contradicted'', ''inconclusive''] (oc_result v)) (\<lambda>r.
     rbind (non_empty 160 (oc_method v)) (\<lambda>m.
     rbind (non_empty 2000 (oc_summary v)) (\<lambda>t.
     if oc_evidence_ids v = [] \<or> int (length (oc_evidence_ids v)) > 100 then Inl app_error.ValueError
     else rbind (rmap stripped_id (oc_evidence_ids v)) (\<lambda>ids.
       Inr \<lparr> oc_result = r, oc_method = m, oc_summary = t, oc_evidence_ids = fromkeys ids \<rparr>))))"

definition validate_feedback_request :: "feedback_request \<Rightarrow> app_error + feedback_request" where
  "validate_feedback_request q =
     rbind (non_empty 100 (fr_hypothesis q)) (\<lambda>h.
     rbind (one_of [''confirmed'', ''rejected'', ''partial''] (fr_verdict q)) (\<lambda>v.
     rbind (non_empty 2000 (fr_note q)) (\<lambda>t.
     rbind (case fr_outcome q of None \<Rightarrow> Inr None | Some x \<Rightarrow> rbind (validate_outcome x) (\<lambda>y. Inr (Some y))) (\<lambda>o'.
     Inr \<lparr> fr_hypothesis = h, fr_verdict = v, fr_note = t, fr_outcome = o' \<rparr>))))"

record consent_request =
  cr_purpose :: string
  cr_decision :: string
  cr_terms :: string
  cr_reason :: string
  cr_attestations :: "string list"

definition validate_consent_request :: "consent_request \<Rightarrow> app_error + consent_request" where
  "validate_consent_request q =
     rbind (one_of [''evaluation'', ''training''] (cr_purpose q)) (\<lambda>p.
     rbind (one_of [''approved'', ''revoked''] (cr_decision q)) (\<lambda>d.
     rbind (non_empty 40 (cr_terms q)) (\<lambda>t.
     rbind (non_empty 2000 (cr_reason q)) (\<lambda>r.
     if length (cr_attestations q) > 4 then Inl app_error.ValueError
     else rbind (rmap (one_of REQUIRED_DATASET_ATTESTATIONS) (cr_attestations q)) (\<lambda>as.
       Inr \<lparr> cr_purpose = p, cr_decision = d, cr_terms = t, cr_reason = r, cr_attestations = fromkeys as \<rparr>)))))"

section \<open>Verdicts\<close>

definition case_of :: "gov \<Rightarrow> string \<Rightarrow> case_file option" where
  "case_of s k = find (\<lambda>c. cf_incident c = k) (gv_cases s)"

text \<open>The row of an incident: both of its parts.\<close>

definition incident_row :: "string \<Rightarrow> string option \<Rightarrow> gov \<Rightarrow> app_error + incident \<times> case_file" where
  "incident_row k w s =
     (case find (\<lambda>n. n_id n = k \<and> matches w (n_workspace n)) (incidents (gv_ops s)) of
        None \<Rightarrow> Inl incident_not_found
      | Some n \<Rightarrow> (case case_of s k of None \<Rightarrow> Inl incident_not_found | Some c \<Rightarrow> Inr (n, c)))"

definition feedback_of :: "gov \<Rightarrow> string \<Rightarrow> feedback list" where
  "feedback_of s k = sort_key (\<lambda>f. (fb_submitted f, fb_id f)) (filter (\<lambda>f. fb_incident f = k) (gv_feedback s))"

text \<open>\<open>incident_detail\<close>: the row with its verdicts, oldest first.\<close>

type_synonym detail = "incident \<times> case_file \<times> feedback list"

definition get_incident :: "string \<Rightarrow> string option \<Rightarrow> gov \<Rightarrow> app_error + detail" where
  "get_incident k w s = rbind (incident_row k w s) (\<lambda>(n, c). Inr (n, c, feedback_of s k))"

text \<open>Incidents that started at the same time come in the order of the table.\<close>

definition list_incidents :: "string option \<Rightarrow> gov \<Rightarrow> app_error + detail list" where
  "list_incidents w s =
     rbind (rmap (\<lambda>n. get_incident (n_id n) w s) (filter (\<lambda>n. matches w (n_workspace n)) (incidents (gv_ops s)))) (\<lambda>ds.
     Inr (sort_key (\<lambda>(_, c, _). - cf_started c) ds))"

record actor =
  ac_user :: "string option"
  ac_name :: "string option"
  ac_provider :: "string option"

definition next_feedback_id :: "gov \<Rightarrow> int" where
  "next_feedback_id s = foldr max (map fb_id (gv_feedback s)) 0 + 1"

definition new_feedback :: "environment \<Rightarrow> int \<Rightarrow> string \<Rightarrow> feedback_request \<Rightarrow> actor \<Rightarrow> feedback" where
  "new_feedback env i k q a =
     \<lparr> fb_id = i, fb_incident = k, fb_hypothesis = fr_hypothesis q, fb_verdict = fr_verdict q, fb_note = fr_note q,
       fb_actor = ac_user a, fb_actor_name = ac_name a, fb_actor_provider = ac_provider a,
       fb_result = (case fr_outcome q of None \<Rightarrow> ''not_recorded'' | Some v \<Rightarrow> oc_result v),
       fb_method = map_option oc_method (fr_outcome q), fb_summary = map_option oc_summary (fr_outcome q),
       fb_evidence_ids = (case fr_outcome q of None \<Rightarrow> [] | Some v \<Rightarrow> oc_evidence_ids v), fb_submitted = now env \<rparr>"

definition judge :: "feedback_request \<Rightarrow> case_file \<Rightarrow> case_file" where
  "judge q c = c \<lparr> cf_hypotheses := map (\<lambda>h. if sh_id h = fr_hypothesis q then h \<lparr> sh_status := fr_verdict q \<rparr> else h) (cf_hypotheses c) \<rparr>"

definition submit_feedback ::
  "environment \<Rightarrow> string \<Rightarrow> feedback_request \<Rightarrow> string option \<Rightarrow> actor \<Rightarrow> string \<Rightarrow> gov \<Rightarrow> app_error + detail \<times> gov" where
  "submit_feedback env k q w a req s =
     rbind (incident_row k w s) (\<lambda>(n, c).
     if fr_hypothesis q \<notin> set (map sh_id (cf_hypotheses c))
     then Inl (not_found ''Hypothesis not found for this incident'' ''hypothesis_not_found'')
     else if (case fr_outcome q of None \<Rightarrow> False | Some v \<Rightarrow> \<not> set (oc_evidence_ids v) \<subseteq> set (map se_id (cf_evidence c)))
     then Inl (conflict ''Verification references evidence outside this incident'' ''verification_evidence_not_found'')
     else
       let f = new_feedback env (next_feedback_id s) k q a;
           s1 = s \<lparr> gv_cases := map (\<lambda>x. if cf_incident x = k then judge q x else x) (gv_cases s), gv_feedback := gv_feedback s @ [f] \<rparr>;
           s2 = (case w of None \<Rightarrow> s1
                 | Some v \<Rightarrow> audit_gov env 0 v (ac_user a) ''incident.verdict.recorded'' ''incident_feedback'' (show_int (fb_id f)) req
                     [(''incident_id'', k), (''hypothesis_id'', fr_hypothesis q), (''verdict'', fr_verdict q), (''verification_result'', fb_result f)] s1)
       in rbind (commit_gov s2) (\<lambda>s3. Inr ((n, judge q c, feedback_of s3 k), s3)))"

section \<open>Post-mortem documents\<close>

definition upper_letter :: "char \<Rightarrow> char" where
  "upper_letter c = (let n = nat_of_char c in if 97 \<le> n \<and> n \<le> 122 then char_of (n - 32) else c)"

definition py_upper :: "string \<Rightarrow> string" where
  "py_upper t = map upper_letter t"

definition filled :: "string option \<Rightarrow> bool" where
  "filled x = (case x of None \<Rightarrow> False | Some t \<Rightarrow> t \<noteq> [])"

text \<open>When \<open>incident_detail\<close> shows the actor and the verification of a verdict.\<close>

definition shows_actor :: "feedback \<Rightarrow> bool" where
  "shows_actor f = (filled (fb_actor f) \<and> filled (fb_actor_name f) \<and> filled (fb_actor_provider f))"

definition shows_outcome :: "feedback \<Rightarrow> bool" where
  "shows_outcome f = (fb_result f \<noteq> ''not_recorded'' \<and> filled (fb_method f) \<and> filled (fb_summary f))"

definition quoted :: "string \<Rightarrow> string" where
  "quoted t = ''`'' @ t @ ''`''"

definition hypothesis_lines :: "case_hypothesis \<Rightarrow> string list" where
  "hypothesis_lines h =
     [''### Rank '' @ show_int (sh_rank h) @ '': '' @ sh_cause_service h @ '' - '' @ sh_cause h @ '' (Confidence: '' @
        fmt_fixed 0 (fl (sh_confidence h * 100)) @ ''%)'',
      ''- **Reasoning**: '' @ sh_reasoning h, ''- **Recommended Next Steps**: '' @ sh_next_step h, []]"

definition feedback_lines :: "(int \<Rightarrow> string) \<Rightarrow> feedback \<Rightarrow> string list" where
  "feedback_lines show_time f =
     [''- **Verdict**: '' @ quoted (py_upper (fb_verdict f)) @ '' | **Submitted At**: '' @ quoted (show_time (fb_submitted f)) @ '' | **Actor**: '' @
        (if shows_actor f then the (fb_actor_name f) @ '' ('' @ quoted (the (fb_actor f)) @ '' via '' @ quoted (the (fb_actor_provider f)) @ '')''
         else ''Legacy/unattributed actor''),
      ''  - **Note**: '' @ fb_note f] @
     (if shows_outcome f
      then [''  - **Verification**: '' @ quoted (py_upper (fb_result f)) @ '' via '' @ quoted (the (fb_method f)),
            ''  - **Observed outcome**: '' @ the (fb_summary f),
            ''  - **Evidence**: '' @ join_with '', '' (map quoted (fb_evidence_ids f))]
      else [])"

definition render_incident_postmortem :: "(int \<Rightarrow> string) \<Rightarrow> incident \<Rightarrow> case_file \<Rightarrow> feedback list \<Rightarrow> string" where
  "render_incident_postmortem show_time n c fs = join_with [char_of (10 :: nat)] (
     [''# Incident Post-Mortem: '' @ n_title n, [],
      ''- **Incident ID**: '' @ quoted (n_id n), ''- **Severity**: '' @ quoted (py_upper (n_severity n)),
      ''- **Status**: '' @ quoted (py_upper (n_status n)), ''- **Started At**: '' @ quoted (show_time (cf_started c)),
      ''- **Resolved At**: '' @ quoted (case n_resolved n of None \<Rightarrow> ''N/A'' | Some t \<Rightarrow> show_time t),
      ''- **Correlated PR**: '' @ quoted (if filled (cf_change c) then the (cf_change c) else ''None''), [],
      ''## Executive Summary'', cf_summary c, [], ''## Top RCA Hypotheses''] @
     concat (map hypothesis_lines (cf_hypotheses c)) @ [''## Human Feedback & Verification Log''] @
     concat (map (feedback_lines show_time) fs))"

definition export_incident_postmortem :: "(int \<Rightarrow> string) \<Rightarrow> string \<Rightarrow> string option \<Rightarrow> gov \<Rightarrow> app_error + string" where
  "export_incident_postmortem show_time k w s =
     rbind (get_incident k w s) (\<lambda>(n, c, fs). Inr (render_incident_postmortem show_time n c fs))"

section \<open>Snapshots\<close>

record scoped_actor =
  sa_user :: string
  sa_name :: string
  sa_provider :: string

definition new_snapshot :: "environment \<Rightarrow> string \<Rightarrow> incident \<Rightarrow> case_file \<Rightarrow> string \<Rightarrow> nat \<Rightarrow> scoped_actor \<Rightarrow> snapshot" where
  "new_snapshot env w n c content cnt a =
     \<lparr> sn_id = fresh env 0, sn_workspace = w, sn_incident = n_id n, sn_version = POSTMORTEM_SNAPSHOT_VERSION, sn_content = content,
       sn_sha256 = sha env content, sn_feedback_count = cnt, sn_schema_version = cf_schema_version c, sn_engine_version = cf_engine_version c,
       sn_actor = sa_user a, sn_actor_name = sa_name a, sn_actor_provider = sa_provider a, sn_created = now env \<rparr>"

definition is_resolved :: "incident \<Rightarrow> bool" where
  "is_resolved n = (n_status n = ''resolved'' \<and> n_resolved n \<noteq> None)"

definition create_postmortem_snapshot ::
  "environment \<Rightarrow> (int \<Rightarrow> string) \<Rightarrow> string \<Rightarrow> string \<Rightarrow> scoped_actor \<Rightarrow> string \<Rightarrow> gov \<Rightarrow> app_error + snapshot \<times> gov" where
  "create_postmortem_snapshot env show_time k w a req s =
     rbind (get_incident k (Some w) s) (\<lambda>(n, c, fs).
     if cf_data_mode c \<noteq> ''connected''
     then Inl (conflict ''Immutable dataset snapshots are only created from connected incidents'' ''connected_incident_required'')
     else if \<not> is_resolved n
     then Inl (conflict ''Resolve the incident before creating an immutable postmortem snapshot'' ''resolved_incident_required'')
     else if \<not> list_ex (\<lambda>f. shows_actor f \<and> shows_outcome f) fs
     then Inl (conflict ''Record an attributed human verdict with a structured verification outcome first'' ''verified_human_verdict_required'')
     else
       let content = render_incident_postmortem show_time n c fs; digest = sha env content in
       case find (\<lambda>x. sn_incident x = k \<and> sn_workspace x = w \<and> sn_sha256 x = digest) (gv_snapshots s) of
         Some x \<Rightarrow> Inr (x, s)
       | None \<Rightarrow>
           let x = new_snapshot env w n c content (length fs) a in
           rbind (commit_gov (audit_gov env 1 w (Some (sa_user a)) ''incident.postmortem.snapshot_created'' ''postmortem_snapshot'' (sn_id x) req
               [(''incident_id'', k), (''content_sha256'', digest), (''source_feedback_count'', show_nat (length fs))]
               (s \<lparr> gv_snapshots := gv_snapshots s @ [x] \<rparr>))) (\<lambda>s1. Inr (x, s1)))"

section \<open>Readiness\<close>

record requirement =
  rq_key :: string
  rq_satisfied :: bool
  rq_detail :: string

record readiness =
  rd_incident :: string
  rd_data_mode :: string
  rd_purpose :: string
  rd_status :: string
  rd_requirements :: "requirement list"
  rd_snapshot :: "snapshot option"
  rd_consent :: "consent option"

definition latest_snapshot :: "gov \<Rightarrow> string \<Rightarrow> string \<Rightarrow> snapshot option" where
  "latest_snapshot s w k = first_of (rev (sort_key (\<lambda>x. (sn_created x, sn_id x))
     (filter (\<lambda>x. sn_workspace x = w \<and> sn_incident x = k) (gv_snapshots s))))"

definition latest_consent :: "gov \<Rightarrow> string \<Rightarrow> string \<Rightarrow> string \<Rightarrow> consent option" where
  "latest_consent s w k p = first_of (rev (sort_key (\<lambda>x. (co_created x, co_id x))
     (filter (\<lambda>x. co_workspace x = w \<and> co_incident x = k \<and> co_purpose x = p) (gv_consents s))))"

definition consented :: "snapshot option \<Rightarrow> consent option \<Rightarrow> bool" where
  "consented sn co = (case (sn, co) of
     (Some x, Some c) \<Rightarrow> co_decision c = ''approved'' \<and> co_snapshot c = sn_id x \<and>
       set REQUIRED_DATASET_ATTESTATIONS \<subseteq> set (co_attestations c)
   | _ \<Rightarrow> False)"

definition verified_verdict :: "feedback \<Rightarrow> bool" where
  "verified_verdict f = (filled (fb_actor f) \<and> fb_result f \<noteq> ''not_recorded'' \<and> fb_evidence_ids f \<noteq> [])"

definition requirements_of :: "incident \<Rightarrow> case_file \<Rightarrow> feedback list \<Rightarrow> snapshot option \<Rightarrow> consent option \<Rightarrow> requirement list" where
  "requirements_of n c fs sn co = [
     \<lparr> rq_key = ''connected_incident'', rq_satisfied = (cf_data_mode c = ''connected''),
       rq_detail = ''The incident originated from a connected workspace.'' \<rparr>,
     \<lparr> rq_key = ''resolved_incident'', rq_satisfied = is_resolved n,
       rq_detail = ''The incident is resolved with a recorded resolution time.'' \<rparr>,
     \<lparr> rq_key = ''attributed_human_verdict'', rq_satisfied = list_ex (\<lambda>f. filled (fb_actor f)) fs,
       rq_detail = ''A verdict is attributed to an authenticated workspace member.'' \<rparr>,
     \<lparr> rq_key = ''structured_verification'', rq_satisfied = list_ex verified_verdict fs,
       rq_detail = ''A verdict records method, outcome, and cited evidence IDs.'' \<rparr>,
     \<lparr> rq_key = ''immutable_postmortem'', rq_satisfied = (sn \<noteq> None),
       rq_detail = ''A content-addressed postmortem snapshot is immutable in storage.'' \<rparr>,
     \<lparr> rq_key = ''audited_consent'', rq_satisfied = consented sn co,
       rq_detail = ''The latest consent decision approves this exact snapshot and purpose.'' \<rparr>]"

definition get_dataset_readiness :: "string \<Rightarrow> string \<Rightarrow> string \<Rightarrow> gov \<Rightarrow> app_error + readiness" where
  "get_dataset_readiness k w p s =
     rbind (get_incident k (Some w) s) (\<lambda>(n, c, fs).
     let sn = latest_snapshot s w k; co = latest_consent s w k p; rs = requirements_of n c fs sn co in
     Inr \<lparr> rd_incident = k, rd_data_mode = cf_data_mode c, rd_purpose = p,
           rd_status = (if cf_data_mode c \<noteq> ''connected'' then ''not_applicable''
             else if list_all rq_satisfied rs then ''ready_for_review'' else ''blocked''),
           rd_requirements = rs, rd_snapshot = sn, rd_consent = co \<rparr>)"

section \<open>Consent\<close>

definition new_consent :: "environment \<Rightarrow> string \<Rightarrow> string \<Rightarrow> snapshot \<Rightarrow> consent_request \<Rightarrow> scoped_actor \<Rightarrow> consent" where
  "new_consent env k w x q a =
     \<lparr> co_id = fresh env 0, co_workspace = w, co_incident = k, co_snapshot = sn_id x, co_purpose = cr_purpose q, co_decision = cr_decision q,
       co_terms = cr_terms q, co_reason = cr_reason q, co_attestations = cr_attestations q, co_actor = sa_user a, co_actor_name = sa_name a,
       co_actor_provider = sa_provider a, co_created = now env \<rparr>"

definition incomplete :: "readiness \<Rightarrow> string list" where
  "incomplete r = map rq_key (filter (\<lambda>x. rq_key x \<noteq> ''audited_consent'' \<and> \<not> rq_satisfied x) (rd_requirements r))"

definition consent_refused :: "consent_request \<Rightarrow> readiness \<Rightarrow> app_error option" where
  "consent_refused q r =
     (if cr_decision q = ''approved'' then
        if incomplete r \<noteq> []
        then Some (conflict (''Dataset consent prerequisites are incomplete: '' @ join_with '', '' (incomplete r)) ''dataset_consent_prerequisites_incomplete'')
        else if \<not> set REQUIRED_DATASET_ATTESTATIONS \<subseteq> set (cr_attestations q)
        then Some (conflict ''Dataset approval requires all privacy, secret, license, and authority attestations'' ''dataset_consent_attestations_incomplete'')
        else None
      else if rd_consent r = None
      then Some (conflict ''There is no prior dataset consent to revoke'' ''dataset_consent_not_found'')
      else None)"

definition record_dataset_consent ::
  "environment \<Rightarrow> string \<Rightarrow> consent_request \<Rightarrow> string \<Rightarrow> scoped_actor \<Rightarrow> string \<Rightarrow> gov \<Rightarrow> app_error + consent \<times> gov" where
  "record_dataset_consent env k q w a req s =
     rbind (get_dataset_readiness k w (cr_purpose q) s) (\<lambda>r.
     if rd_data_mode r \<noteq> ''connected''
     then Inl (conflict ''Dataset consent only applies to connected incidents'' ''connected_incident_required'')
     else case rd_snapshot r of
       None \<Rightarrow> Inl (conflict ''Create an immutable postmortem snapshot before recording consent'' ''postmortem_snapshot_required'')
     | Some x \<Rightarrow>
         (case consent_refused q r of
            Some e \<Rightarrow> Inl e
          | None \<Rightarrow>
              let c = new_consent env k w x q a in
              rbind (commit_gov (audit_gov env 1 w (Some (sa_user a)) (''dataset.consent.'' @ cr_decision q) ''dataset_consent_decision'' (co_id c) req
                  [(''incident_id'', k), (''postmortem_snapshot_id'', sn_id x), (''purpose'', cr_purpose q), (''terms_version'', cr_terms q),
                   (''attestations'', join_with '','' (cr_attestations q))]
                  (s \<lparr> gv_consents := gv_consents s @ [c] \<rparr>))) (\<lambda>s1. Inr (c, s1))))"

section \<open>Explanations\<close>

definition syn_incident_of :: "detail \<Rightarrow> syn_incident" where
  "syn_incident_of d = (case d of (n, c, _) \<Rightarrow>
     \<lparr> si_id = n_id n, si_evidence = cf_evidence c, si_hypotheses = map syn_hypothesis.truncate (cf_hypotheses c) \<rparr>)"

definition synthesis_metadata :: "(rat \<Rightarrow> string) \<Rightarrow> synthesis \<Rightarrow> (string \<times> string) list" where
  "synthesis_metadata flt y =
     [(''synthesis_mode'', ''deterministic_evidence_template''), (''model_used'', ''deterministic-evidence-template-v1''),
      (''contract_version'', sy_contract_version y), (''validator_version'', sy_validator_version y),
      (''evidence_bundle_sha256'', sy_digest y), (''citation_coverage'', flt (sy_citation_coverage y)),
      (''unsupported_claims_count'', show_int (sy_unsupported_claims_count y))]"

definition synthesize_evidence_hypotheses ::
  "environment \<Rightarrow> (rat \<Rightarrow> string) \<Rightarrow> (syn_incident \<Rightarrow> string) \<Rightarrow> string \<Rightarrow> string \<Rightarrow> string option \<Rightarrow> string \<Rightarrow> gov \<Rightarrow> app_error + synthesis \<times> gov" where
  "synthesize_evidence_hypotheses env flt digest k w usr req s =
     rbind (get_incident k (Some w) s) (\<lambda>d.
     case build_evidence_synthesis digest (syn_incident_of d) of
       Inl (CitationValidationError _) \<Rightarrow>
         Inl (conflict ''Incident synthesis requires valid cited evidence and hypotheses'' ''incident_synthesis_requires_citations'')
     | Inl ValidationError \<Rightarrow> Inl app_error.ValueError
     | Inr y \<Rightarrow> rbind (commit_gov (audit_gov env 0 w usr ''incident.synthesis.generated'' ''incident'' k req (synthesis_metadata flt y) s))
         (\<lambda>s1. Inr (y, s1)))"

section \<open>Routes\<close>

definition actor_of :: "tenant_scope \<Rightarrow> scoped_actor" where
  "actor_of sc = \<lparr> sa_user = u_id (sc_user sc), sa_name = u_display_name (sc_user sc), sa_provider = u_provider (sc_user sc) \<rparr>"

definition incident_feedback :: "environment \<Rightarrow> tenant_scope \<Rightarrow> string \<Rightarrow> feedback_request \<Rightarrow> string \<Rightarrow> gov \<Rightarrow> app_error + detail \<times> gov" where
  "incident_feedback env sc k body req s =
     rbind (require_responder_scope sc) (\<lambda>_.
     rbind (validate_feedback_request body) (\<lambda>q.
     submit_feedback env k q (Some (sc_workspace sc))
       \<lparr> ac_user = Some (u_id (sc_user sc)), ac_name = Some (u_display_name (sc_user sc)), ac_provider = Some (u_provider (sc_user sc)) \<rparr> req s))"

definition incident_postmortem_snapshot_create ::
  "environment \<Rightarrow> (int \<Rightarrow> string) \<Rightarrow> tenant_scope \<Rightarrow> string \<Rightarrow> string \<Rightarrow> gov \<Rightarrow> app_error + snapshot \<times> gov" where
  "incident_postmortem_snapshot_create env show_time sc k req s =
     rbind (require_responder_scope sc) (\<lambda>_. create_postmortem_snapshot env show_time k (sc_workspace sc) (actor_of sc) req s)"

definition incident_dataset_consent_record ::
  "environment \<Rightarrow> tenant_scope \<Rightarrow> string \<Rightarrow> consent_request \<Rightarrow> string \<Rightarrow> gov \<Rightarrow> app_error + consent \<times> gov" where
  "incident_dataset_consent_record env sc k body req s =
     rbind (require_admin_scope sc) (\<lambda>_.
     rbind (validate_consent_request body) (\<lambda>q. record_dataset_consent env k q (sc_workspace sc) (actor_of sc) req s))"

datatype gov_event =
    OperationsEvent ops_event
  | FeedbackGiven environment tenant_scope string feedback_request string
  | SnapshotMade environment tenant_scope string string
  | ConsentGiven environment tenant_scope string consent_request string
  | Explained environment tenant_scope string string

record gov_text =
  gt_time :: "int \<Rightarrow> string"
  gt_float :: "pyfloat \<Rightarrow> string"
  gt_rate :: "rat \<Rightarrow> string"
  gt_digest :: "syn_incident \<Rightarrow> string"

definition committed :: "'e + 'x \<times> 's \<Rightarrow> 's option" where
  "committed r = (case r of Inl _ \<Rightarrow> None | Inr (_, s') \<Rightarrow> Some s')"

definition gov_step :: "gov_text \<Rightarrow> gov \<Rightarrow> gov_event \<Rightarrow> gov option" where
  "gov_step t s e = (case e of
     OperationsEvent x \<Rightarrow> map_option (\<lambda>o'. s \<lparr> gv_ops := o' \<rparr>) (ops_step (gt_float t) (gv_ops s) x)
   | FeedbackGiven env sc k q req \<Rightarrow> committed (incident_feedback env sc k q req s)
   | SnapshotMade env sc k req \<Rightarrow> committed (incident_postmortem_snapshot_create env (gt_time t) sc k req s)
   | ConsentGiven env sc k q req \<Rightarrow> committed (incident_dataset_consent_record env sc k q req s)
   | Explained env sc k req \<Rightarrow> committed (
       synthesize_evidence_hypotheses env (gt_rate t) (gt_digest t) k (sc_workspace sc) (Some (u_id (sc_user sc))) req s))"

section \<open>The audit trail only grows\<close>

definition audit_grows :: "ops \<Rightarrow> ops \<Rightarrow> bool" where
  "audit_grows o' o'' \<longleftrightarrow> set (audits (base o')) \<subseteq> set (audits (base o''))"

lemma audited_audits [simp]: "set (audits (base o')) \<subseteq> set (audits (base (audited env n w a b c d e f o')))"
  by (auto simp: audited_def audit_def)

lemma member_of_audits: "member_of usr w minimum o' = Inr (m, o'') \<Longrightarrow> audits (base o'') = audits (base o')"
  by (auto simp: member_of_def membership_for_def set_tenant_context_def returning_def result_simps split: option.splits if_splits)

lemma audited_audit_eq: "audits (base (audited env n w a b c d e f o')) = audits (base o') @
    [\<lparr> a_id = fresh env n, a_workspace = w, a_actor = a, a_action = b, a_resource_type = c, a_resource_id = d, a_request_id = e,
       a_metadata = f, a_created = now env \<rparr>]"
  by (simp add: audited_def audit_def)

lemma create_service_audits: "create_service env usr w body req (o' :: ops) = Inr (x, o'') \<Longrightarrow> audit_grows o' o''"
  by (auto simp: create_service_def Let_def result_simps commit_catalog_def audit_grows_def audited_audit_eq split: if_splits dest!: member_of_audits)

lemma update_service_audits: "update_service env usr k up req (o' :: ops) = Inr (x, o'') \<Longrightarrow> audit_grows o' o''"
  by (auto simp: update_service_def Let_def result_simps commit_catalog_def replace_service_def audit_grows_def audited_audit_eq
      split: if_splits option.splits dest!: member_of_audits)

lemma get_risk_policy_audits: "get_risk_policy env id usr w o' = Inr (p, o'') \<Longrightarrow> audit_grows o' o''"
  by (auto simp: get_risk_policy_def Let_def result_simps tenancy_simps audit_grows_def split: option.splits sum.splits dest!: member_of_audits)

lemma update_risk_policy_audits: "update_risk_policy env id usr w u req o' = Inr (p, o'') \<Longrightarrow> audit_grows o' o''"
  by (erule update_risk_policy_cases)
    (auto simp: audit_grows_def audited_audit_eq policy_or_default_def Let_def split: option.splits dest!: member_of_audits)

lemma record_event_audits: "record_normalized_operational_event flt env id w ev req a pr o' = Inr (e, o'') \<Longrightarrow> audit_grows o' o''"
  by (auto simp: record_normalized_operational_event_def insert_event_def Let_def result_simps tenancy_simps same_or_conflict_Inr
      audit_grows_def audited_audit_eq split: option.splits sum.splits)

lemma ingest_event_audits: "ingest_operational_event flt env id usr w ev req o' = Inr (e, o'') \<Longrightarrow> audit_grows o' o''"
  by (auto simp: ingest_operational_event_def result_simps audit_grows_def split: if_splits
      dest!: member_of_audits record_event_audits)

lemma mark_read_audits: "mark_notification_read env usr k o' = Inr (x, o'') \<Longrightarrow> audit_grows o' o''"
  by (auto simp: mark_notification_read_def Let_def result_simps tenancy_simps audit_grows_def split: option.splits if_splits)

lemma note_audits: "add_incident_note env usr w k t req o' = Inr (x, o'') \<Longrightarrow> audit_grows o' o''"
  by (auto simp: add_incident_note_def replace_incident_def Let_def result_simps tenancy_simps audit_grows_def audited_audit_eq
      split: option.splits dest!: member_of_audits)

lemma lifecycle_audits: "lifecycle_commit env usr w k lu req o' = Inr (n, o'') \<Longrightarrow> audit_grows o' o''"
  by (auto simp: lifecycle_commit_def replace_incident_def Let_def result_simps tenancy_simps audit_grows_def audited_audit_eq
      split: option.splits if_splits prod.splits dest!: member_of_audits)

lemma keep_or_audits: "(\<And>x o1. r = Inr (x, o1) \<Longrightarrow> audit_grows o' o1) \<Longrightarrow> audit_grows o' (keep_or o' r)"
  by (auto simp: keep_or_def audit_grows_def split: sum.splits)

lemma ops_step_audits:
  assumes "ops_step flt o' e = Some o''"
  shows "audit_grows o' o''"
proof (cases e)
  case (LifecycleUpdate env usr w k lu req)
  show ?thesis
  proof (cases "lifecycle_commit env usr w k lu req o'")
    case (Inl x)
    then show ?thesis using assms LifecycleUpdate by (auto simp: ops_step_def update_incident_lifecycle_def audit_grows_def split: if_splits)
  next
    case (Inr y)
    then obtain n o1 where y: "lifecycle_commit env usr w k lu req o' = Inr (n, o1)" by (cases y) simp
    show ?thesis
      using assms LifecycleUpdate lifecycle_audits [OF y] y by (auto simp: ops_step_def update_incident_lifecycle_def audit_grows_def split: if_splits)
  qed
next
  case (CatalogEvent c)
  then show ?thesis using assms
    by (cases c) (auto simp: ops_step_def intro!: keep_or_audits intro: create_service_audits update_service_audits)
qed (use assms in \<open>auto simp: ops_step_def record_trusted_operational_event_def intro!: keep_or_audits
      intro: get_risk_policy_audits update_risk_policy_audits record_event_audits ingest_event_audits mark_read_audits note_audits\<close>)

section \<open>What the tables keep\<close>

text \<open>Every verdict cites evidence of its incident; every snapshot belongs to a connected incident that is resolved for good;
  every consent names a snapshot of its incident, has the four attestations when it approves, and is in the audit trail.\<close>

definition verdict_ok :: "gov \<Rightarrow> feedback \<Rightarrow> bool" where
  "verdict_ok s f \<longleftrightarrow> (\<forall>c\<in>set (gv_cases s). cf_incident c = fb_incident f \<longrightarrow> set (fb_evidence_ids f) \<subseteq> set (map se_id (cf_evidence c)))"

definition snapshot_ok :: "gov \<Rightarrow> snapshot \<Rightarrow> bool" where
  "snapshot_ok s x \<longleftrightarrow> (\<exists>t. spec_of (gv_ops s) (sn_incident x) = Some (Resolved, Some t)) \<and>
     (\<forall>c\<in>set (gv_cases s). cf_incident c = sn_incident x \<longrightarrow> cf_data_mode c = ''connected'')"

definition consent_audit :: "consent \<Rightarrow> audit_event \<Rightarrow> bool" where
  "consent_audit c a \<longleftrightarrow> a_workspace a = co_workspace c \<and> a_actor a = Some (co_actor c) \<and> a_action a = ''dataset.consent.'' @ co_decision c \<and>
     a_resource_type a = ''dataset_consent_decision'' \<and> a_resource_id a = co_id c \<and> a_created a = co_created c"

definition consent_ok :: "gov \<Rightarrow> consent \<Rightarrow> bool" where
  "consent_ok s c \<longleftrightarrow>
     (\<exists>x\<in>set (gv_snapshots s). sn_id x = co_snapshot c \<and> sn_incident x = co_incident c \<and> sn_workspace x = co_workspace c) \<and>
     (co_decision c = ''approved'' \<longrightarrow> set REQUIRED_DATASET_ATTESTATIONS \<subseteq> set (co_attestations c)) \<and>
     (\<exists>a\<in>set (audits (base (gv_ops s))). consent_audit c a)"

definition gov_inv :: "gov \<Rightarrow> bool" where
  "gov_inv s \<longleftrightarrow> distinct (map n_id (incidents (gv_ops s))) \<and> distinct (map cf_incident (gv_cases s)) \<and>
     (\<forall>f\<in>set (gv_feedback s). verdict_ok s f) \<and> (\<forall>x\<in>set (gv_snapshots s). snapshot_ok s x) \<and> (\<forall>c\<in>set (gv_consents s). consent_ok s c)"

text \<open>What every step leaves: the rows of these tables, the evidence and the mode of each incident, the audit trail, resolved incidents.\<close>

definition gov_keeps :: "gov \<Rightarrow> gov \<Rightarrow> bool" where
  "gov_keeps s s' \<longleftrightarrow> prefix (gv_feedback s) (gv_feedback s') \<and> prefix (gv_snapshots s) (gv_snapshots s') \<and> prefix (gv_consents s) (gv_consents s') \<and>
     map (\<lambda>c. (cf_incident c, cf_data_mode c, cf_evidence c)) (gv_cases s') = map (\<lambda>c. (cf_incident c, cf_data_mode c, cf_evidence c)) (gv_cases s) \<and>
     audit_grows (gv_ops s) (gv_ops s') \<and> spec_step\<^sup>*\<^sup>* (spec_of (gv_ops s)) (spec_of (gv_ops s'))"

lemma gov_keeps_refl [simp]: "gov_keeps s s"
  by (simp add: gov_keeps_def audit_grows_def)

lemma gov_keeps_trans:
  assumes "gov_keeps s t" "gov_keeps t u"
  shows "gov_keeps s u"
proof -
  note st = assms(1)[unfolded gov_keeps_def audit_grows_def] and tu = assms(2)[unfolded gov_keeps_def audit_grows_def]
  show ?thesis
    unfolding gov_keeps_def audit_grows_def
    by (intro conjI) (use st tu in \<open>(blast intro: prefix_order.trans rtranclp_trans | simp)\<close>)+
qed

lemma kept_case:
  assumes "gov_keeps s s'" "c' \<in> set (gv_cases s')"
  obtains c where "c \<in> set (gv_cases s)" "cf_incident c = cf_incident c'" "cf_data_mode c = cf_data_mode c'" "cf_evidence c = cf_evidence c'"
proof -
  let ?key = "\<lambda>c. (cf_incident c, cf_data_mode c, cf_evidence c)"
  have "map ?key (gv_cases s') = map ?key (gv_cases s)" using assms(1) by (simp only: gov_keeps_def)
  moreover have "?key c' \<in> set (map ?key (gv_cases s'))" using assms(2) by simp
  ultimately have "?key c' \<in> set (map ?key (gv_cases s))" by (simp only:)
  then obtain c where "c \<in> set (gv_cases s)" "?key c' = ?key c" by (auto simp only: list.set_map)
  then show thesis by (intro that [of c]) simp_all
qed

lemma kept_rows:
  assumes "gov_keeps s s'"
  shows "verdict_ok s f \<Longrightarrow> verdict_ok s' f" "snapshot_ok s x \<Longrightarrow> snapshot_ok s' x" "consent_ok s c \<Longrightarrow> consent_ok s' c"
proof -
  show "verdict_ok s f \<Longrightarrow> verdict_ok s' f" unfolding verdict_ok_def using kept_case [OF assms] by metis
  have "spec_step\<^sup>*\<^sup>* (spec_of (gv_ops s)) (spec_of (gv_ops s'))" using assms by (simp add: gov_keeps_def)
  note resolved = spec_resolved [OF this]
  show "snapshot_ok s x \<Longrightarrow> snapshot_ok s' x" unfolding snapshot_ok_def using resolved kept_case [OF assms] by metis
  have "set (gv_snapshots s) \<subseteq> set (gv_snapshots s')" "set (audits (base (gv_ops s))) \<subseteq> set (audits (base (gv_ops s')))"
    using assms by (auto simp: gov_keeps_def audit_grows_def dest: set_mono_prefix)
  then show "consent_ok s c \<Longrightarrow> consent_ok s' c" unfolding consent_ok_def by blast
qed

lemma commit_gov_Inr: "commit_gov s = Inr s' \<longleftrightarrow> gov_unique s \<and> s' = s"
  by (auto simp: commit_gov_def)

lemma audit_gov_fields [simp]:
  "gv_cases (audit_gov env n w a b c d e f s) = gv_cases s" "gv_feedback (audit_gov env n w a b c d e f s) = gv_feedback s"
  "gv_snapshots (audit_gov env n w a b c d e f s) = gv_snapshots s" "gv_consents (audit_gov env n w a b c d e f s) = gv_consents s"
  "incidents (gv_ops (audit_gov env n w a b c d e f s)) = incidents (gv_ops s)"
  "gv_ops (audit_gov env n w a b c d e f s) = audited env n w a b c d e f (gv_ops s)"
  by (simp_all add: audit_gov_def)

lemma audited_spec [simp]: "spec_of (audited env n w a b c d e f o') = spec_of o'"
  by (rule spec_of_cong) simp

lemma audited_grows [simp]: "audit_grows o' (audited env n w a b c d e f o')"
  by (simp add: audit_grows_def)

lemma judge_fields [simp]:
  "cf_incident (judge q c) = cf_incident c" "cf_data_mode (judge q c) = cf_data_mode c" "cf_evidence (judge q c) = cf_evidence c"
  by (simp_all add: judge_def)

lemma case_of_SomeD: "case_of s k = Some c \<Longrightarrow> c \<in> set (gv_cases s) \<and> cf_incident c = k"
  by (auto simp: case_of_def dest: find_SomeD)

lemma incident_row_Inr:
  assumes "incident_row k w s = Inr (n, c)"
  shows "n \<in> set (incidents (gv_ops s))" "n_id n = k" "matches w (n_workspace n)" "c \<in> set (gv_cases s)" "cf_incident c = k"
  using assms case_of_SomeD by (auto simp: incident_row_def split: option.splits dest!: find_SomeD)

lemma the_case: "gov_inv s \<Longrightarrow> c \<in> set (gv_cases s) \<Longrightarrow> d \<in> set (gv_cases s) \<Longrightarrow> cf_incident c = cf_incident d \<Longrightarrow> c = d"
  by (auto simp: gov_inv_def distinct_map inj_on_def)

text \<open>A step that appends rows that are well formed keeps the invariant.\<close>

lemma appended_inv:
  assumes "gov_inv s" "gov_keeps s s'" "distinct (map n_id (incidents (gv_ops s')))"
    and "gv_feedback s' = gv_feedback s @ fs" "\<And>f. f \<in> set fs \<Longrightarrow> verdict_ok s' f"
    and "gv_snapshots s' = gv_snapshots s @ xs" "\<And>x. x \<in> set xs \<Longrightarrow> snapshot_ok s' x"
    and "gv_consents s' = gv_consents s @ cs" "\<And>c. c \<in> set cs \<Longrightarrow> consent_ok s' c"
  shows "gov_inv s'"
proof -
  have "map fst (map (\<lambda>c. (cf_incident c, cf_data_mode c, cf_evidence c)) (gv_cases s')) =
      map fst (map (\<lambda>c. (cf_incident c, cf_data_mode c, cf_evidence c)) (gv_cases s))"
    using assms(2) by (simp only: gov_keeps_def)
  then have "map cf_incident (gv_cases s') = map cf_incident (gv_cases s)" by (simp add: comp_def)
  moreover note old = assms(1)[unfolded gov_inv_def]
  ultimately have d: "distinct (map cf_incident (gv_cases s'))" by simp
  have f: "\<forall>f\<in>set (gv_feedback s'). verdict_ok s' f" using old assms(4,5) kept_rows(1) [OF assms(2)] by auto
  have x: "\<forall>x\<in>set (gv_snapshots s'). snapshot_ok s' x" using old assms(6,7) kept_rows(2) [OF assms(2)] by auto
  have c: "\<forall>c\<in>set (gv_consents s'). consent_ok s' c" using old assms(8,9) kept_rows(3) [OF assms(2)] by auto
  from d f x c assms(3) show ?thesis by (simp add: gov_inv_def)
qed

lemma submit_feedback_appends:
  assumes "submit_feedback env k q (Some w) a req s = Inr (d, s')" "gov_inv s"
  obtains f where "gov_keeps s s'" "gv_feedback s' = gv_feedback s @ [f]" "verdict_ok s' f" "gv_snapshots s' = gv_snapshots s"
    "gv_consents s' = gv_consents s" "incidents (gv_ops s') = incidents (gv_ops s)"
proof -
  obtain n c where row: "incident_row k (Some w) s = Inr (n, c)"
    using assms(1) by (auto simp: submit_feedback_def result_simps)
  let ?f = "new_feedback env (next_feedback_id s) k q a"
  let ?s1 = "s \<lparr> gv_cases := map (\<lambda>x. if cf_incident x = k then judge q x else x) (gv_cases s), gv_feedback := gv_feedback s @ [?f] \<rparr>"
  have cites: "set (fb_evidence_ids ?f) \<subseteq> set (map se_id (cf_evidence c))"
    using assms(1) row by (auto simp: submit_feedback_def Let_def result_simps new_feedback_def split: if_splits option.splits)
  have s': "s' = audit_gov env 0 w (ac_user a) ''incident.verdict.recorded'' ''incident_feedback'' (show_int (fb_id ?f)) req
      [(''incident_id'', k), (''hypothesis_id'', fr_hypothesis q), (''verdict'', fr_verdict q), (''verification_result'', fb_result ?f)] ?s1"
    using assms(1) row by (auto simp: submit_feedback_def Let_def result_simps commit_gov_Inr split: if_splits)
  have keeps: "gov_keeps s s'"
    unfolding s' gov_keeps_def by (simp add: comp_def)
  have ok: "verdict_ok s' ?f"
    unfolding verdict_ok_def
  proof (intro ballI impI)
    fix c'
    assume "c' \<in> set (gv_cases s')" "cf_incident c' = fb_incident ?f"
    moreover from this obtain b where "b \<in> set (gv_cases s)" "cf_incident b = cf_incident c'" "cf_evidence b = cf_evidence c'"
      using kept_case [OF keeps] by metis
    moreover from this have "b = c"
      using the_case [OF assms(2)] incident_row_Inr [OF row] calculation by (auto simp: new_feedback_def)
    ultimately show "set (fb_evidence_ids ?f) \<subseteq> set (map se_id (cf_evidence c'))" using cites by simp
  qed
  show thesis by (rule that [OF keeps _ ok]) (simp_all add: s')
qed

lemma resolved_spec:
  assumes "gov_inv s" "n \<in> set (incidents (gv_ops s))" "is_resolved n"
  shows "\<exists>t. spec_of (gv_ops s) (n_id n) = Some (Resolved, Some t)"
proof -
  have "find (\<lambda>x. n_id x = n_id n) (incidents (gv_ops s)) = Some n"
    using assms(1,2) by (intro find_unique) (auto simp: gov_inv_def)
  moreover have "phase_of ''resolved'' = Some Resolved" by code_simp
  ultimately show ?thesis using assms(3) by (auto simp: spec_of_def is_resolved_def)
qed

lemma snapshot_appends:
  assumes "create_postmortem_snapshot env show_time k w a req s = Inr (y, s')" "gov_inv s"
  obtains xs where "gov_keeps s s'" "gv_snapshots s' = gv_snapshots s @ xs" "\<forall>x\<in>set xs. snapshot_ok s' x"
    "gv_feedback s' = gv_feedback s" "gv_consents s' = gv_consents s" "incidents (gv_ops s') = incidents (gv_ops s)"
proof -
  obtain n c where row: "incident_row k (Some w) s = Inr (n, c)" and mode: "cf_data_mode c = ''connected''" and res: "is_resolved n"
    using assms(1) by (auto simp: create_postmortem_snapshot_def get_incident_def result_simps split: if_splits)
  note n = incident_row_Inr [OF row]
  let ?content = "render_incident_postmortem show_time n c (feedback_of s k)"
  show thesis
  proof (cases "find (\<lambda>x. sn_incident x = k \<and> sn_workspace x = w \<and> sn_sha256 x = sha env ?content) (gv_snapshots s)")
    case (Some z)
    then have "s' = s"
      using assms(1) row by (auto simp: create_postmortem_snapshot_def get_incident_def result_simps Let_def split: if_splits)
    then show thesis by (intro that [of "[]"]) simp_all
  next
    case None
    let ?x = "new_snapshot env w n c ?content (length (feedback_of s k)) a"
    have s': "s' = audit_gov env 1 w (Some (sa_user a)) ''incident.postmortem.snapshot_created'' ''postmortem_snapshot'' (sn_id ?x) req
        [(''incident_id'', k), (''content_sha256'', sha env ?content), (''source_feedback_count'', show_nat (length (feedback_of s k)))]
        (s \<lparr> gv_snapshots := gv_snapshots s @ [?x] \<rparr>)"
      using assms(1) row None
      by (auto simp: create_postmortem_snapshot_def get_incident_def result_simps Let_def commit_gov_Inr split: if_splits)
    have "snapshot_ok s ?x"
      unfolding snapshot_ok_def
    proof (intro conjI ballI impI)
      have inc: "sn_incident ?x = n_id n" by (simp add: new_snapshot_def)
      show "\<exists>t. spec_of (gv_ops s) (sn_incident ?x) = Some (Resolved, Some t)"
        unfolding inc by (rule resolved_spec [OF assms(2) n(1) res])
      fix b
      assume "b \<in> set (gv_cases s)" "cf_incident b = sn_incident ?x"
      with the_case [OF assms(2) _ n(4)] have "b = c" by (simp add: inc n)
      then show "cf_data_mode b = ''connected''" using mode by simp
    qed
    moreover have keeps: "gov_keeps s s'" unfolding s' gov_keeps_def by simp
    ultimately have "snapshot_ok s' ?x" using kept_rows(2) by blast
    then show thesis by (intro that [OF keeps, of "[?x]"]) (simp_all add: s')
  qed
qed

lemma latest_key:
  assumes "first_of (rev (sort_key f xs)) = Some x"
  shows "x \<in> set xs \<and> (\<forall>y\<in>set xs. f y \<le> f x)"
proof -
  obtain zs where zs: "sort_key f xs = zs @ [x]"
    using assms by (cases "rev (sort_key f xs)") (auto simp: first_of_def)
  have "sorted (map f (zs @ [x]))" using sorted_sort_key [of f xs] by (simp only: zs)
  moreover have "set xs = set (zs @ [x])" using zs by (metis set_sort)
  ultimately show ?thesis by (auto simp: sorted_append)
qed

lemma latest_snapshot_SomeD: "latest_snapshot s w k = Some x \<Longrightarrow> x \<in> set (gv_snapshots s) \<and> sn_workspace x = w \<and> sn_incident x = k"
  unfolding latest_snapshot_def by (drule latest_key) simp

lemma latest_consent_SomeD:
  "latest_consent s w k p = Some c \<Longrightarrow> c \<in> set (gv_consents s) \<and> co_workspace c = w \<and> co_incident c = k \<and> co_purpose c = p"
  unfolding latest_consent_def by (drule latest_key) simp

lemma consent_committed:
  assumes "record_dataset_consent env k q w a req s = Inr (c, s')"
  obtains r x where "get_dataset_readiness k w (cr_purpose q) s = Inr r" "rd_data_mode r = ''connected''" "latest_snapshot s w k = Some x"
    "consent_refused q r = None" "c = new_consent env k w x q a"
    "s' = audit_gov env 1 w (Some (sa_user a)) (''dataset.consent.'' @ cr_decision q) ''dataset_consent_decision'' (co_id c) req
       [(''incident_id'', k), (''postmortem_snapshot_id'', sn_id x), (''purpose'', cr_purpose q), (''terms_version'', cr_terms q),
        (''attestations'', join_with '','' (cr_attestations q))] (s \<lparr> gv_consents := gv_consents s @ [c] \<rparr>)"
proof -
  obtain r where r: "get_dataset_readiness k w (cr_purpose q) s = Inr r"
    using assms by (auto simp: record_dataset_consent_def result_simps)
  then have sn: "rd_snapshot r = latest_snapshot s w k"
    by (auto simp: get_dataset_readiness_def result_simps Let_def)
  from assms r have "rd_data_mode r = ''connected''" by (auto simp: record_dataset_consent_def split: if_splits)
  moreover from assms r this obtain x where x: "rd_snapshot r = Some x" by (auto simp: record_dataset_consent_def split: option.splits)
  moreover from assms r calculation have "consent_refused q r = None" by (auto simp: record_dataset_consent_def split: option.splits)
  ultimately show thesis
    using assms r sn by (intro that [OF r]) (auto simp: record_dataset_consent_def Let_def result_simps commit_gov_Inr)
qed

lemma consent_appends:
  assumes "record_dataset_consent env k q w a req s = Inr (c, s')" "gov_inv s"
  shows "gov_keeps s s'" "consent_ok s' c" "gv_consents s' = gv_consents s @ [c]" "gv_feedback s' = gv_feedback s"
    "gv_snapshots s' = gv_snapshots s" "incidents (gv_ops s') = incidents (gv_ops s)"
proof -
  obtain r x where *: "latest_snapshot s w k = Some x" "consent_refused q r = None" "c = new_consent env k w x q a"
    and s': "s' = audit_gov env 1 w (Some (sa_user a)) (''dataset.consent.'' @ cr_decision q) ''dataset_consent_decision'' (co_id c) req
       [(''incident_id'', k), (''postmortem_snapshot_id'', sn_id x), (''purpose'', cr_purpose q), (''terms_version'', cr_terms q),
        (''attestations'', join_with '','' (cr_attestations q))] (s \<lparr> gv_consents := gv_consents s @ [c] \<rparr>)"
    using assms(1) by (rule consent_committed)
  show "gov_keeps s s'" unfolding s' gov_keeps_def by simp
  show "gv_consents s' = gv_consents s @ [c]" "gv_feedback s' = gv_feedback s" "gv_snapshots s' = gv_snapshots s"
    "incidents (gv_ops s') = incidents (gv_ops s)" by (simp_all add: s')
  have fields: "co_snapshot c = sn_id x" "co_incident c = k" "co_workspace c = w" "co_actor c = sa_user a" "co_decision c = cr_decision q"
      "co_attestations c = cr_attestations q" "co_created c = now env"
    by (simp_all add: *(3) new_consent_def)
  have "\<exists>a\<in>set (audits (base (gv_ops s'))). consent_audit c a"
    by (simp add: s' audited_audit_eq consent_audit_def fields)
  moreover have "\<exists>y\<in>set (gv_snapshots s'). sn_id y = co_snapshot c \<and> sn_incident y = co_incident c \<and> sn_workspace y = co_workspace c"
    using latest_snapshot_SomeD [OF *(1)] by (auto simp: s' fields)
  moreover have "co_decision c = ''approved'' \<longrightarrow> set REQUIRED_DATASET_ATTESTATIONS \<subseteq> set (co_attestations c)"
    using *(2) by (auto simp: consent_refused_def fields split: if_splits)
  ultimately show "consent_ok s' c" unfolding consent_ok_def by blast
qed

lemma synthesis_keeps:
  assumes "synthesize_evidence_hypotheses env flt digest k w usr req s = Inr (y, s')"
  shows "gov_keeps s s'" "gv_feedback s' = gv_feedback s" "gv_snapshots s' = gv_snapshots s" "gv_consents s' = gv_consents s"
    "incidents (gv_ops s') = incidents (gv_ops s)"
proof -
  obtain m where "s' = audit_gov env 0 w usr ''incident.synthesis.generated'' ''incident'' k req m s"
  proof (cases "get_incident k (Some w) s")
    case (Inr d)
    with assms that show ?thesis
      by (cases "build_evidence_synthesis digest (syn_incident_of d)")
        (auto simp: synthesize_evidence_hypotheses_def result_simps commit_gov_Inr split: synthesis_error.splits)
  qed (use assms in \<open>simp add: synthesize_evidence_hypotheses_def\<close>)
  then show "gov_keeps s s'" "gv_feedback s' = gv_feedback s" "gv_snapshots s' = gv_snapshots s" "gv_consents s' = gv_consents s"
    "incidents (gv_ops s') = incidents (gv_ops s)"
    by (simp_all add: gov_keeps_def)
qed

lemma committed_Some: "committed r = Some s' \<longleftrightarrow> (\<exists>x. r = Inr (x, s'))"
  by (auto simp: committed_def split: sum.splits)

lemma gov_step_keeps:
  assumes "gov_step t s e = Some s'" "gov_inv s"
  shows "gov_keeps s s' \<and> gov_inv s'"
proof (cases e)
  case (OperationsEvent x)
  then obtain o' where o': "ops_step (gt_float t) (gv_ops s) x = Some o'" and s': "s' = s \<lparr> gv_ops := o' \<rparr>"
    using assms(1) by (auto simp: gov_step_def)
  have d: "distinct (map n_id (incidents (gv_ops s)))" using assms(2) by (simp add: gov_inv_def)
  have "spec_step (spec_of (gv_ops s)) (spec_of o')" "distinct (map n_id (incidents o'))" using ops_step_refines [OF o' d] by simp_all
  moreover from this have "gov_keeps s s'" using ops_step_audits [OF o'] by (simp add: s' gov_keeps_def r_into_rtranclp)
  ultimately show ?thesis using appended_inv [OF assms(2), of s' "[]" "[]" "[]"] by (simp add: s')
next
  case (FeedbackGiven env sc k q req)
  then obtain q' a d where "submit_feedback env k q' (Some (sc_workspace sc)) a req s = Inr (d, s')"
    using assms(1) by (auto simp: gov_step_def committed_Some incident_feedback_def result_simps)
  then obtain f where "gov_keeps s s'" "gv_feedback s' = gv_feedback s @ [f]" "verdict_ok s' f" "gv_snapshots s' = gv_snapshots s"
      "gv_consents s' = gv_consents s" "incidents (gv_ops s') = incidents (gv_ops s)"
    using assms(2) by (rule submit_feedback_appends)
  then show ?thesis using assms(2) appended_inv [OF assms(2), of s' "[f]" "[]" "[]"] by (simp add: gov_inv_def)
next
  case (SnapshotMade env sc k req)
  then obtain y where "create_postmortem_snapshot env (gt_time t) k (sc_workspace sc) (actor_of sc) req s = Inr (y, s')"
    using assms(1) by (auto simp: gov_step_def committed_Some incident_postmortem_snapshot_create_def result_simps)
  then obtain xs where "gov_keeps s s'" "gv_snapshots s' = gv_snapshots s @ xs" "\<forall>x\<in>set xs. snapshot_ok s' x"
      "gv_feedback s' = gv_feedback s" "gv_consents s' = gv_consents s" "incidents (gv_ops s') = incidents (gv_ops s)"
    using assms(2) by (rule snapshot_appends)
  then show ?thesis using assms(2) appended_inv [OF assms(2), of s' "[]" xs "[]"] by (simp add: gov_inv_def)
next
  case (ConsentGiven env sc k q req)
  then obtain q' c where "record_dataset_consent env k q' (sc_workspace sc) (actor_of sc) req s = Inr (c, s')"
    using assms(1) by (auto simp: gov_step_def committed_Some incident_dataset_consent_record_def result_simps)
  note * = consent_appends [OF this assms(2)]
  then show ?thesis using assms(2) appended_inv [OF assms(2), of s' "[]" "[]" "[c]"] by (simp add: gov_inv_def)
next
  case (Explained env sc k req)
  then obtain y where "synthesize_evidence_hypotheses env (gt_rate t) (gt_digest t) k (sc_workspace sc) (Some (u_id (sc_user sc))) req s = Inr (y, s')"
    using assms(1) by (auto simp: gov_step_def committed_Some)
  note * = synthesis_keeps [OF this]
  then show ?thesis using assms(2) appended_inv [OF assms(2), of s' "[]" "[]" "[]"] by (simp add: gov_inv_def)
qed

interpretation governance: monotone_system "gov_step t" gov_inv gov_keeps for t
  by unfold_locales (use gov_step_keeps gov_keeps_refl gov_keeps_trans in blast)+

section \<open>Approval and revocation\<close>

definition gov_start :: "gov \<Rightarrow> bool" where
  "gov_start s \<longleftrightarrow> distinct (map n_id (incidents (gv_ops s))) \<and> distinct (map cf_incident (gv_cases s)) \<and>
     gv_feedback s = [] \<and> gv_snapshots s = [] \<and> gv_consents s = []"

lemma gov_start_inv: "gov_start s \<Longrightarrow> gov_inv s"
  by (simp add: gov_start_def gov_inv_def)

lemma ready_requirements:
  assumes "get_dataset_readiness k w p s = Inr r" "rd_status r = ''ready_for_review''"
  obtains n c where "incident_row k (Some w) s = Inr (n, c)" "cf_data_mode c = ''connected''" "is_resolved n"
    "list_ex verified_verdict (feedback_of s k)" "consented (latest_snapshot s w k) (latest_consent s w k p)"
proof -
  obtain n c where row: "incident_row k (Some w) s = Inr (n, c)"
    using assms(1) by (auto simp: get_dataset_readiness_def get_incident_def result_simps)
  then show thesis
    using assms by (intro that [OF row])
      (auto simp: get_dataset_readiness_def get_incident_def Let_def requirements_of_def split: if_splits)
qed

text \<open>
  C31. Data of an incident is offered for review only with an audited approval: whenever the readiness of an incident, after any
  sequence of requests on tables without verdicts, snapshots and consents, is \<open>ready_for_review\<close>, the incident is a connected and
  resolved incident of the workspace; a verdict by an identified person cites evidence of this incident; the newest consent for
  the purpose approves the newest snapshot of the incident with all four attestations; and the audit trail holds that decision with its actor.
\<close>

theorem dataset_ready_approved:
  assumes start: "gov_start s0" and ran: "s = run_events (gov_step t) s0 events"
    and r: "get_dataset_readiness k w p s = Inr r" and ready: "rd_status r = ''ready_for_review''"
  shows "\<exists>n c f x co a. n \<in> set (incidents (gv_ops s)) \<and> n_id n = k \<and> n_workspace n = w \<and> n_status n = ''resolved'' \<and>
      c \<in> set (gv_cases s) \<and> cf_incident c = k \<and> cf_data_mode c = ''connected'' \<and>
      f \<in> set (gv_feedback s) \<and> fb_incident f = k \<and> filled (fb_actor f) \<and> fb_evidence_ids f \<noteq> [] \<and>
      set (fb_evidence_ids f) \<subseteq> set (map se_id (cf_evidence c)) \<and>
      x \<in> set (gv_snapshots s) \<and> sn_incident x = k \<and> sn_workspace x = w \<and>
      (\<forall>y\<in>set (gv_snapshots s). sn_workspace y = w \<and> sn_incident y = k \<longrightarrow> sn_created y \<le> sn_created x) \<and>
      co \<in> set (gv_consents s) \<and> co_incident co = k \<and> co_workspace co = w \<and> co_purpose co = p \<and> co_decision co = ''approved'' \<and>
      co_snapshot co = sn_id x \<and> set REQUIRED_DATASET_ATTESTATIONS \<subseteq> set (co_attestations co) \<and>
      (\<forall>y\<in>set (gv_consents s). co_workspace y = w \<and> co_incident y = k \<and> co_purpose y = p \<longrightarrow> co_created y \<le> co_created co) \<and>
      a \<in> set (audits (base (gv_ops s))) \<and> a_action a = ''dataset.consent.approved'' \<and> a_resource_id a = co_id co \<and> a_actor a = Some (co_actor co)"
proof -
  have inv: "gov_inv s" unfolding ran by (rule governance.run_inv [OF gov_start_inv [OF start]])
  obtain n c where row: "incident_row k (Some w) s = Inr (n, c)" and mode: "cf_data_mode c = ''connected''" and res: "is_resolved n"
    and ver: "list_ex verified_verdict (feedback_of s k)" and cons: "consented (latest_snapshot s w k) (latest_consent s w k p)"
    using r ready by (rule ready_requirements)
  note n = incident_row_Inr [OF row]
  obtain f where f: "f \<in> set (gv_feedback s)" "fb_incident f = k" "filled (fb_actor f)" "fb_evidence_ids f \<noteq> []"
    using ver by (auto simp: feedback_of_def list_ex_iff verified_verdict_def)
  have "verdict_ok s f" using inv f(1) by (simp add: gov_inv_def)
  then have cites: "set (fb_evidence_ids f) \<subseteq> set (map se_id (cf_evidence c))" using n(4,5) f(2) by (simp add: verdict_ok_def)
  obtain x co where x: "latest_snapshot s w k = Some x" and co: "latest_consent s w k p = Some co"
    and app: "co_decision co = ''approved''" "co_snapshot co = sn_id x" "set REQUIRED_DATASET_ATTESTATIONS \<subseteq> set (co_attestations co)"
    using cons by (auto simp: consented_def split: option.splits)
  note x' = latest_snapshot_SomeD [OF x] and co' = latest_consent_SomeD [OF co]
  have newest_x: "\<forall>y\<in>set (gv_snapshots s). sn_workspace y = w \<and> sn_incident y = k \<longrightarrow> sn_created y \<le> sn_created x"
    using latest_key [OF x [unfolded latest_snapshot_def]] by (auto simp: less_eq_prod_def)
  have newest_co: "\<forall>y\<in>set (gv_consents s). co_workspace y = w \<and> co_incident y = k \<and> co_purpose y = p \<longrightarrow> co_created y \<le> co_created co"
    using latest_key [OF co [unfolded latest_consent_def]] by (auto simp: less_eq_prod_def)
  have "consent_ok s co" using inv co' by (simp add: gov_inv_def)
  then obtain a where a: "a \<in> set (audits (base (gv_ops s)))" "consent_audit co a" by (auto simp: consent_ok_def)
  have a': "a_action a = ''dataset.consent.approved''" "a_resource_id a = co_id co" "a_actor a = Some (co_actor co)"
    using a(2) app(1) by (simp_all add: consent_audit_def)
  show ?thesis
    by (intro exI [of _ n] exI [of _ c] exI [of _ f] exI [of _ x] exI [of _ co] exI [of _ a] conjI)
      (use n mode res f cites x' newest_x co' app newest_co a(1) a' in \<open>simp_all only: matches_def option.case is_resolved_def not_False_eq_True\<close>)
qed

definition approvals :: "gov \<Rightarrow> string \<Rightarrow> string \<Rightarrow> string \<Rightarrow> consent list" where
  "approvals s w k p = filter (\<lambda>c. co_workspace c = w \<and> co_incident c = k \<and> co_purpose c = p \<and> co_decision c = ''approved'') (gv_consents s)"

definition approves :: "string \<Rightarrow> string \<Rightarrow> string \<Rightarrow> gov_event \<Rightarrow> bool" where
  "approves w k p e = (case e of ConsentGiven env sc k' q req \<Rightarrow> sc_workspace sc = w \<and> k' = k \<and> cr_purpose q = p \<and> cr_decision q = ''approved'' | _ \<Rightarrow> False)"

lemma validated_consent: "validate_consent_request q = Inr q' \<Longrightarrow> cr_purpose q' = cr_purpose q \<and> cr_decision q' = cr_decision q"
  by (auto simp: validate_consent_request_def one_of_def result_simps split: if_splits)

lemma consent_route:
  assumes "gov_step t s (ConsentGiven env sc k q req) = Some s'" "gov_inv s"
  obtains c where "gv_consents s' = gv_consents s @ [c]" "co_workspace c = sc_workspace sc" "co_incident c = k" "co_purpose c = cr_purpose q"
    "co_decision c = cr_decision q" "co_created c = now env"
proof -
  obtain q' c where q': "validate_consent_request q = Inr q'"
    and c: "record_dataset_consent env k q' (sc_workspace sc) (actor_of sc) req s = Inr (c, s')"
    using assms(1) by (auto simp: gov_step_def committed_Some incident_dataset_consent_record_def result_simps)
  obtain x where "c = new_consent env k (sc_workspace sc) x q' (actor_of sc)" using c by (rule consent_committed)
  then show thesis using validated_consent [OF q'] consent_appends(3) [OF c assms(2)] by (intro that [of c]) (simp_all add: new_consent_def)
qed

lemma other_consents:
  assumes "gov_step t s e = Some s'" "gov_inv s" "\<And>env sc k q req. e \<noteq> ConsentGiven env sc k q req"
  shows "gv_consents s' = gv_consents s"
proof (cases e)
  case (FeedbackGiven env sc k q req)
  then show ?thesis using assms(1,2)
    by (auto simp: gov_step_def committed_Some incident_feedback_def result_simps elim: submit_feedback_appends)
next
  case (SnapshotMade env sc k req)
  then show ?thesis using assms(1,2)
    by (auto simp: gov_step_def committed_Some incident_postmortem_snapshot_create_def result_simps elim: snapshot_appends)
next
  case (Explained env sc k req)
  then show ?thesis using assms(1) by (auto simp: gov_step_def committed_Some dest: synthesis_keeps(4))
qed (use assms in \<open>auto simp: gov_step_def\<close>)

lemma step_approvals:
  assumes "gov_step t s e = Some s'" "gov_inv s" "\<not> approves w k p e"
  shows "approvals s' w k p = approvals s w k p"
proof (cases e)
  case (ConsentGiven env sc k' q req)
  obtain c where "gv_consents s' = gv_consents s @ [c]" "co_workspace c = sc_workspace sc" "co_incident c = k'" "co_purpose c = cr_purpose q"
      "co_decision c = cr_decision q" "co_created c = now env"
    using assms(1)[unfolded ConsentGiven] assms(2) by (rule consent_route)
  then show ?thesis using assms(3) ConsentGiven by (auto simp: approvals_def approves_def)
qed (use other_consents [OF assms(1,2)] in \<open>simp_all add: approvals_def\<close>)

lemma run_approvals:
  "gov_inv s \<Longrightarrow> \<forall>e\<in>set events. \<not> approves w k p e \<Longrightarrow> approvals (run_events (gov_step t) s events) w k p = approvals s w k p"
proof (induction events arbitrary: s)
  case (Cons e events)
  show ?case
  proof (cases "gov_step t s e")
    case (Some s1)
    have "gov_inv s1" using gov_step_keeps [OF Some Cons.prems(1)] by simp
    with Cons.IH [of s1] Cons.prems step_approvals [OF Some Cons.prems(1)] show ?thesis by (simp add: Some)
  qed (use Cons in simp)
qed simp

text \<open>
  A revocation holds: once a revocation of a consent is recorded later than every approval for the same incident and purpose, the
  readiness for that purpose is not \<open>ready_for_review\<close>, whatever requests follow, until a new approval is requested.
\<close>

theorem consent_revoked:
  assumes inv: "gov_inv s" and step: "gov_step t s (ConsentGiven env sc k q req) = Some s1" and revoked: "cr_decision q = ''revoked''"
    and later: "\<forall>c\<in>set (gv_consents s). co_decision c = ''approved'' \<longrightarrow> co_created c < now env"
    and quiet: "\<forall>e\<in>set events. \<not> approves (sc_workspace sc) k (cr_purpose q) e"
    and r: "get_dataset_readiness k (sc_workspace sc) (cr_purpose q) (run_events (gov_step t) s1 events) = Inr r"
  shows "rd_status r \<noteq> ''ready_for_review''"
proof
  let ?w = "sc_workspace sc" and ?p = "cr_purpose q" and ?s2 = "run_events (gov_step t) s1 events"
  assume "rd_status r = ''ready_for_review''"
  with r have "consented (latest_snapshot ?s2 ?w k) (latest_consent ?s2 ?w k ?p)" by (rule ready_requirements)
  then obtain co where co: "latest_consent ?s2 ?w k ?p = Some co" and app: "co_decision co = ''approved''"
    by (auto simp: consented_def split: option.splits)
  have inv1: "gov_inv s1" using gov_step_keeps [OF step inv] by simp
  obtain c where c: "gv_consents s1 = gv_consents s @ [c]" "co_workspace c = ?w" "co_incident c = k" "co_purpose c = ?p"
      "co_decision c = cr_decision q" "co_created c = now env"
    using step inv by (rule consent_route)
  have "co \<in> set (approvals ?s2 ?w k ?p)" using latest_consent_SomeD [OF co] app by (simp add: approvals_def)
  moreover have "approvals s1 ?w k ?p = approvals s ?w k ?p" using c revoked by (simp add: approvals_def)
  ultimately have "co \<in> set (approvals s ?w k ?p)" using run_approvals [OF inv1 quiet, of t] by (simp only:)
  then have old: "co_created co < now env" using later by (simp add: approvals_def)
  have "prefix (gv_consents s1) (gv_consents ?s2)" using governance.run_rel [OF inv1, of t events] by (simp add: gov_keeps_def)
  then have "c \<in> set (gv_consents ?s2)" using c(1) by (auto dest: set_mono_prefix)
  then have "co_created c \<le> co_created co"
    using latest_key [OF co [unfolded latest_consent_def]] c by (auto simp: less_eq_prod_def)
  with old c(6) show False by simp
qed

section \<open>A concrete incident\<close>

definition demo_case :: case_file where
  "demo_case = \<lparr> cf_incident = ''i1'', cf_data_mode = ''connected'', cf_schema_version = ''v1'', cf_engine_version = ''v1'', cf_started = 1,
     cf_change = None, cf_summary = ''Down'', cf_evidence = [\<lparr> se_id = ''ev1'', se_source = ''logs'', se_quality = 1 \<rparr>],
     cf_hypotheses = [\<lparr> sh_id = ''h1'', sh_rank = 1, sh_cause_service = ''api'', sh_cause = ''retry'', sh_confidence = 1,
       sh_evidence_ids = [''ev1''], sh_counter_evidence_ids = [], sh_reasoning = ''x'', sh_next_step = ''y'', sh_status = ''open'' \<rparr>] \<rparr>"

definition demo_gov :: gov where
  "demo_gov = \<lparr> gv_ops = demo_ops, gv_cases = [demo_case], gv_feedback = [], gv_snapshots = [], gv_consents = [] \<rparr>"

definition demo_text :: gov_text where
  "demo_text = \<lparr> gt_time = show_int, gt_float = (\<lambda>_. []), gt_rate = (\<lambda>_. []), gt_digest = (\<lambda>_. []) \<rparr>"

definition demo_scope :: tenant_scope where
  "demo_scope = \<lparr> sc_user = demo_user, sc_workspace = ''w1'', sc_repository = None, sc_scenario = None, sc_role = Owner \<rparr>"

definition demo_consent :: "string \<Rightarrow> consent_request" where
  "demo_consent d = \<lparr> cr_purpose = ''evaluation'', cr_decision = d, cr_terms = ''1'', cr_reason = ''ok'',
     cr_attestations = REQUIRED_DATASET_ATTESTATIONS \<rparr>"

definition demo_governed :: "gov_event list" where
  "demo_governed = [
     OperationsEvent (LifecycleUpdate (demo_env 7 ''a'') demo_user ''w1'' ''i1''
       \<lparr> lu_status = Some ''resolved'', lu_assignee = None, lu_severity = None \<rparr> ''r1''),
     FeedbackGiven (demo_env 8 ''b'') demo_scope ''i1'' \<lparr> fr_hypothesis = ''h1'', fr_verdict = ''confirmed'', fr_note = ''seen'',
       fr_outcome = Some \<lparr> oc_result = ''supported'', oc_method = ''replay'', oc_summary = ''same'', oc_evidence_ids = [''ev1''] \<rparr> \<rparr> ''r2'',
     SnapshotMade (demo_env 9 ''c'') demo_scope ''i1'' ''r3'',
     ConsentGiven (demo_env 10 ''d'') demo_scope ''i1'' (demo_consent ''approved'') ''r4'']"

definition demo_approved :: gov where
  "demo_approved = run_events (gov_step demo_text) demo_gov demo_governed"

definition demo_revoked :: gov where
  "demo_revoked = (case gov_step demo_text demo_approved (ConsentGiven (demo_env 12 ''e'') demo_scope ''i1'' (demo_consent ''revoked'') ''r5'') of
     None \<Rightarrow> demo_gov | Some s \<Rightarrow> s)"

definition readiness_status :: "app_error + readiness \<Rightarrow> string option" where
  "readiness_status r = (case r of Inl _ \<Rightarrow> None | Inr x \<Rightarrow> Some (rd_status x))"

lemma demo_start: "gov_start demo_gov"
  by code_simp

lemma demo_ready: "readiness_status (get_dataset_readiness ''i1'' ''w1'' ''evaluation'' demo_approved) = Some ''ready_for_review''"
  by code_simp

lemma demo_revocation:
  "gov_step demo_text demo_approved (ConsentGiven (demo_env 12 ''e'') demo_scope ''i1'' (demo_consent ''revoked'') ''r5'') \<noteq> None"
  by code_simp

lemma demo_approved_times: "list_all (\<lambda>c. co_created c = 10) (gv_consents demo_approved)"
  by code_simp

lemma demo_revoked_read: "readiness_status (get_dataset_readiness ''i1'' ''w1'' ''evaluation'' demo_revoked) = Some ''blocked''"
  by code_simp

theorem dataset_ready_approved_witness:
  "\<exists>co a. co \<in> set (gv_consents demo_approved) \<and> co_decision co = ''approved'' \<and> set REQUIRED_DATASET_ATTESTATIONS \<subseteq> set (co_attestations co) \<and>
     a \<in> set (audits (base (gv_ops demo_approved))) \<and> a_resource_id a = co_id co \<and> a_actor a = Some (co_actor co)"
proof -
  obtain r where "get_dataset_readiness ''i1'' ''w1'' ''evaluation'' demo_approved = Inr r" "rd_status r = ''ready_for_review''"
    using demo_ready by (auto simp: readiness_status_def split: sum.splits)
  from dataset_ready_approved [OF demo_start demo_approved_def this] show ?thesis by blast
qed

theorem consent_revoked_witness:
  "readiness_status (get_dataset_readiness ''i1'' ''w1'' ''evaluation'' demo_revoked) \<noteq> Some ''ready_for_review''"
proof -
  have inv: "gov_inv demo_approved"
    unfolding demo_approved_def by (rule governance.run_inv [OF gov_start_inv [OF demo_start]])
  have step: "gov_step demo_text demo_approved (ConsentGiven (demo_env 12 ''e'') demo_scope ''i1'' (demo_consent ''revoked'') ''r5'') = Some demo_revoked"
    using demo_revocation unfolding demo_revoked_def by (simp split: option.splits)
  have later: "\<forall>c\<in>set (gv_consents demo_approved). co_decision c = ''approved'' \<longrightarrow> co_created c < now (demo_env 12 ''e'')"
    using demo_approved_times by (simp add: list_all_iff demo_env_def)
  have "rd_status r \<noteq> ''ready_for_review''" if "get_dataset_readiness ''i1'' ''w1'' ''evaluation'' demo_revoked = Inr r" for r
    by (rule consent_revoked [OF inv step _ later, of "[]"]) (use that in \<open>simp_all add: demo_consent_def demo_scope_def\<close>)
  then show ?thesis by (auto simp: readiness_status_def split: sum.splits)
qed

end
