(* ===== verification/ChangeAnalysis.thy ===== *)
theory ChangeAnalysis
  imports GithubChecks RiskEngine BlastRadius Governance
begin

text \<open>
  The analysis of a change in \<open>backend/app/services.py\<close>: the topology of a scenario overlaid with the service catalogue of its
  workspace, the digest that identifies an analysis, and the stored change with the results of the risk and blast-radius engines.

  The service graph of a scenario is typed as the engine reads it. Nodes and edges whose identifiers are empty are the ones the
  source drops. SHA-256, the text of a float and the power function of the platform are parameters; \<open>others\<close> is what other requests
  commit before the insert. \<open>str.casefold\<close> is only compared: on the characters below code point 256 it lowers the letters and expands the
  sharp s.
\<close>

section \<open>Requests\<close>

record analysis_request =
  aq_title :: string
  aq_repository :: string
  aq_author :: string
  aq_commit_sha :: "string option"
  aq_branch :: "string option"
  aq_environment :: string
  aq_files :: int
  aq_added :: int
  aq_deleted :: int
  aq_services :: "string list"
  aq_flags :: "string list"
  aq_coverage :: "rat option"
  aq_rollback :: "bool option"
  aq_observability :: "rat option"
  aq_failures :: "int option"

definition hex_letter :: "char \<Rightarrow> bool" where
  "hex_letter c = is_lower_hex (lower_char c)"

definition require :: "bool \<Rightarrow> app_error + unit" where
  "require b = rguard b app_error.ValueError"

definition opt_all :: "('a \<Rightarrow> bool) \<Rightarrow> 'a option \<Rightarrow> bool" where
  "opt_all P v = (case v of None \<Rightarrow> True | Some x \<Rightarrow> P x)"

definition text_len :: "int \<Rightarrow> int \<Rightarrow> string \<Rightarrow> bool" where
  "text_len lo hi t = (lo \<le> int (length t) \<and> int (length t) \<le> hi)"

text \<open>\<open>AnalyzeChangeRequest\<close>.\<close>

definition validate_analysis_request :: "analysis_request \<Rightarrow> app_error + analysis_request" where
  "validate_analysis_request q =
     rbind (non_empty 240 (aq_title q)) (\<lambda>t.
     rbind (non_empty 240 (aq_repository q)) (\<lambda>r.
     rbind (non_empty 160 (aq_author q)) (\<lambda>a.
     rbind (require (opt_all (\<lambda>h. text_len 7 64 h \<and> list_all hex_letter h) (aq_commit_sha q))) (\<lambda>_.
     rbind (require (opt_all (text_len 1 160) (aq_branch q))) (\<lambda>_.
     rbind (require (text_len 1 80 (aq_environment q))) (\<lambda>_.
     rbind (require (between 0 100000 (aq_files q) \<and> between 0 10000000 (aq_added q) \<and> between 0 10000000 (aq_deleted q))) (\<lambda>_.
     rbind (require (aq_services q \<noteq> [] \<and> int (length (aq_services q)) \<le> 100 \<and> int (length (aq_flags q)) \<le> 100)) (\<lambda>_.
     rbind (rmap stripped_id (aq_services q)) (\<lambda>ss.
     rbind (rmap stripped_id (aq_flags q)) (\<lambda>fs.
     rbind (require (opt_all (\<lambda>c. 0 \<le> c \<and> c \<le> 1) (aq_coverage q) \<and> opt_all (\<lambda>c. 0 \<le> c \<and> c \<le> 1) (aq_observability q) \<and>
       opt_all (between 0 10000) (aq_failures q))) (\<lambda>_.
     Inr (q \<lparr> aq_title := t, aq_repository := r, aq_author := a, aq_services := fromkeys ss, aq_flags := fromkeys fs \<rparr>))))))))))))"

section \<open>Topology\<close>

record topology =
  tg_nodes :: "node list"
  tg_edges :: "edge list"

definition py_casefold :: "string \<Rightarrow> string" where
  "py_casefold t = concat (map (\<lambda>c. if nat_of_char c = 223 then ''ss'' else [lower_char c]) t)"

fun tier_label :: "tier \<Rightarrow> string" where
  "tier_label Tier1 = ''tier-1''" | "tier_label Tier2 = ''tier-2''" | "tier_label Tier3 = ''tier-3''" | "tier_label Tier4 = ''tier-4''"

definition service_node :: "service \<Rightarrow> node" where
  "service_node s = \<lparr> node.n_id = sv_id s, n_label = Some (sv_name s), n_kind = Some ''service'', n_team = Some (sv_owner_team s),
     n_tier = Some (tier_label (sv_tier s)), n_health = Some ''unknown'' \<rparr>"

definition dependency_edge :: "service \<Rightarrow> string \<Rightarrow> edge" where
  "dependency_edge s d = \<lparr> edge.e_source = d, e_target = sv_id s, e_relation = Some ''catalog-dependency'', e_confidence = Some 1, e_active = Some True \<rparr>"

type_synonym edge_key = "string \<times> string \<times> string"

definition edge_identity :: "edge \<Rightarrow> edge_key" where
  "edge_identity e = (edge.e_source e, e_target e,
     (case e_relation e of None \<Rightarrow> ''runtime-dependency'' | Some r \<Rightarrow> if r = [] then ''runtime-dependency'' else r))"

definition put_all :: "('a \<Rightarrow> 'k) \<Rightarrow> 'a list \<Rightarrow> ('k, 'a) dict \<Rightarrow> ('k, 'a) dict" where
  "put_all key xs d = fold (\<lambda>x. AList.update (key x) x) xs d"

definition base_nodes :: "topology \<Rightarrow> node list" where
  "base_nodes g = filter (\<lambda>n. node.n_id n \<noteq> []) (tg_nodes g)"

definition base_edges :: "topology \<Rightarrow> edge list" where
  "base_edges g = filter (\<lambda>e. edge.e_source e \<noteq> [] \<and> e_target e \<noteq> []) (tg_edges g)"

definition catalog_edges :: "service list \<Rightarrow> edge list" where
  "catalog_edges catalog = concat (map (\<lambda>s. map (dependency_edge s) (sort (remdups (sv_dependencies s)))) catalog)"

definition overlay :: "topology \<Rightarrow> service list \<Rightarrow> topology" where
  "overlay g catalog =
     \<lparr> tg_nodes = map snd (sort_key fst (put_all node.n_id (base_nodes g @ map service_node catalog) [])),
       tg_edges = map snd (sort_key fst (put_all edge_identity (base_edges g @ catalog_edges catalog) [])) \<rparr>"

definition references :: "service list \<Rightarrow> (string, service) dict" where
  "references catalog = fold (\<lambda>s. fold (\<lambda>r. AList.update (py_casefold r) s) [sv_id s, sv_slug s, sv_name s]) catalog []"

definition resolved_roots :: "service list \<Rightarrow> string option \<Rightarrow> string list \<Rightarrow> string list" where
  "resolved_roots catalog repository requested =
     map sv_id (List.map_filter (\<lambda>r. map_of (references catalog) (py_casefold r)) requested) @
     (case repository of None \<Rightarrow> [] | Some k \<Rightarrow> map sv_id (filter (\<lambda>s. sv_repository s = Some k) catalog))"

definition workspace_catalog :: "service list \<Rightarrow> string \<Rightarrow> service list" where
  "workspace_catalog svs w = sort_key sv_id (filter (\<lambda>s. sv_workspace s = w) svs)"

definition analysis_graph :: "service list \<Rightarrow> topology \<Rightarrow> string option \<Rightarrow> string list \<Rightarrow> app_error + topology \<times> string list" where
  "analysis_graph catalog g repository requested =
     (if catalog = [] then Inr (g, requested)
      else let roots = resolved_roots catalog repository requested;
               effective = (if roots \<noteq> [] then sort (remdups roots) else fromkeys requested) in
        if int (length effective) > 100
        then Inl (unprocessable ''Repository maps to more than 100 changed services'' ''analysis_service_limit'')
        else Inr (overlay g catalog, effective))"

fun maybe_str :: "string option \<Rightarrow> pyval" where
  "maybe_str None = PNone" | "maybe_str (Some t) = PStr t"

fun maybe_num :: "rat option \<Rightarrow> pyval" where
  "maybe_num None = PNone" | "maybe_num (Some x) = PFloat (Fin x)"

fun maybe_bool :: "bool option \<Rightarrow> pyval" where
  "maybe_bool None = PNone" | "maybe_bool (Some b) = PBool b"

definition node_dict :: "node \<Rightarrow> pyval" where
  "node_dict n = PDict [(PStr ''id'', PStr (node.n_id n)), (PStr ''label'', maybe_str (n_label n)), (PStr ''kind'', maybe_str (n_kind n)),
     (PStr ''team'', maybe_str (n_team n)), (PStr ''tier'', maybe_str (n_tier n)), (PStr ''health'', maybe_str (n_health n))]"

definition edge_dict :: "edge \<Rightarrow> pyval" where
  "edge_dict e = PDict [(PStr ''source'', PStr (edge.e_source e)), (PStr ''target'', PStr (e_target e)), (PStr ''relation'', maybe_str (e_relation e)),
     (PStr ''confidence'', maybe_num (e_confidence e)), (PStr ''active'', maybe_bool (e_active e))]"

text \<open>\<open>str\<close> of a missing relation is \<open>"None"\<close>.\<close>

definition edge_order :: "edge \<Rightarrow> edge_key" where
  "edge_order e = (edge.e_source e, e_target e, str_of_tier (e_relation e))"

definition canonical_topology :: "topology \<Rightarrow> pyval" where
  "canonical_topology g = PDict
     [(PStr ''nodes'', PList (map node_dict (sort_key node.n_id (base_nodes g)))),
      (PStr ''edges'', PList (map edge_dict (sort_key edge_order (base_edges g))))]"

section \<open>Scenarios\<close>

definition active_scenario :: "app \<Rightarrow> string option \<Rightarrow> string option \<Rightarrow> string option \<Rightarrow> app_error + scenario" where
  "active_scenario db w r k =
     (let ordered = sort_key (\<lambda>s. (s_sort_order s, s_id s)) (scenarios db);
          inside = (\<lambda>s. opt_all (\<lambda>x. s_workspace s = x) w \<and> opt_all (\<lambda>x. s_repository s = x) r) in
      case find (\<lambda>s. inside s \<and> (case k of None \<Rightarrow> s_active s | Some x \<Rightarrow> s_id s = x)) ordered of
        Some s \<Rightarrow> Inr s
      | None \<Rightarrow> (case (if k = None \<and> w \<noteq> None then find inside ordered else None) of
          Some s \<Rightarrow> Inr s
        | None \<Rightarrow> Inl (conflict ''No active scenario is configured'' ''active_scenario_not_found'')))"

text \<open>The tables, with the column \<open>service_graph\<close> of the scenarios by the identifier of the scenario.\<close>

record analysis_state =
  ay_db :: provider
  ay_graphs :: "(string, topology) dict"

definition graph_of :: "analysis_state \<Rightarrow> scenario \<Rightarrow> topology" where
  "graph_of s sc = dict_get (ay_graphs s) (s_id sc) \<lparr> tg_nodes = [], tg_edges = [] \<rparr>"

section \<open>The digest\<close>

text \<open>\<open>json.dumps\<close> escapes every character outside the printable ASCII range. \<open>ascii_only\<close> turns the UTF-8 text of
  \<open>json_dumps\<close> into that form.\<close>

definition u_escape :: "nat \<Rightarrow> string" where
  "u_escape n = char_of (92 :: nat) # ''u00'' @ [hex_digit (n div 16), hex_digit (n mod 16)]"

fun ascii_only :: "string \<Rightarrow> string" where
  "ascii_only [] = []"
| "ascii_only [c] = (if nat_of_char c = 127 then u_escape 127 else [c])"
| "ascii_only (c # d # cs) =
     (if nat_of_char c = 127 then u_escape 127 @ ascii_only (d # cs)
      else if nat_of_char c < 128 then c # ascii_only (d # cs)
      else u_escape ((nat_of_char c - 192) * 64 + (nat_of_char d - 128)) @ ascii_only cs)"

definition ANALYSIS_SCHEMA_VERSION :: string where "ANALYSIS_SCHEMA_VERSION = ''1.0.0''"
definition ENGINE_VERSION :: string where "ENGINE_VERSION = ''1.0.0''"
definition RISK_SCORING_POLICY_VERSION :: string where "RISK_SCORING_POLICY_VERSION = ''risk-weighted-v1''"
definition GRAPH_VERSION :: string where "GRAPH_VERSION = ''dependency-bfs-v1''"

definition str_list :: "string list \<Rightarrow> pyval" where
  "str_list vs = PList (map PStr vs)"

definition request_dict :: "analysis_request \<Rightarrow> pyval" where
  "request_dict q = PDict
     [(PStr ''title'', PStr (aq_title q)), (PStr ''repository'', PStr (aq_repository q)), (PStr ''author'', PStr (aq_author q)),
      (PStr ''commit_sha'', maybe_str (aq_commit_sha q)), (PStr ''branch'', maybe_str (aq_branch q)),
      (PStr ''deployment_environment'', PStr (aq_environment q)), (PStr ''files_changed'', PInt (aq_files q)),
      (PStr ''lines_added'', PInt (aq_added q)), (PStr ''lines_deleted'', PInt (aq_deleted q)),
      (PStr ''changed_services'', str_list (aq_services q)), (PStr ''flags'', str_list (aq_flags q)),
      (PStr ''test_coverage'', maybe_num (aq_coverage q)),
      (PStr ''rollback_ready'', maybe_bool (aq_rollback q)),
      (PStr ''observability_score'', maybe_num (aq_observability q)),
      (PStr ''previous_failures'', (case aq_failures q of None \<Rightarrow> PNone | Some n \<Rightarrow> PInt n))]"

definition analysis_versions :: pyval where
  "analysis_versions = PDict
     [(PStr ''analysis_schema_version'', PStr ANALYSIS_SCHEMA_VERSION), (PStr ''engine_version'', PStr ENGINE_VERSION),
      (PStr ''scoring_policy_version'', PStr RISK_SCORING_POLICY_VERSION), (PStr ''graph_version'', PStr GRAPH_VERSION)]"

definition canonical_analysis :: "(pyfloat \<Rightarrow> string) \<Rightarrow> scenario \<Rightarrow> analysis_request \<Rightarrow> topology \<Rightarrow> string list \<Rightarrow> string" where
  "canonical_analysis flt sc q g roots = ascii_only (json_dumps flt (PDict
     [(PStr ''workspace_id'', PStr (s_workspace sc)), (PStr ''repository_id'', PStr (s_repository sc)),
      (PStr ''request'', request_dict q), (PStr ''effective_changed_services'', str_list roots),
      (PStr ''topology'', canonical_topology g), (PStr ''analysis_versions'', analysis_versions)]))"

definition analysis_id :: "string \<Rightarrow> string" where
  "analysis_id digest = ''chg-analysis-'' @ take 12 digest"

section \<open>The stored documents\<close>

definition dimension_dict :: "dimension \<Rightarrow> pyval" where
  "dimension_dict d = PDict [(PStr ''key'', PStr (dim_key d)), (PStr ''label'', PStr (dim_label d)), (PStr ''score'', PInt (dim_score d)),
     (PStr ''weight'', PFloat (Fin (dim_weight d))), (PStr ''reason'', PStr (dim_reason d)), (PStr ''evidence_ids'', str_list (dim_evidence_ids d))]"

definition risk_document :: "risk_report \<Rightarrow> pydict" where
  "risk_document r = [(PStr ''overall_score'', PInt (overall_score r)), (PStr ''level'', PStr (level r)),
     (PStr ''data_quality'', PFloat (Fin (data_quality r))), (PStr ''dimensions'', PList (map dimension_dict (dimensions r))),
     (PStr ''recommendations'', str_list (recommendations r))]"

definition blast_node_dict :: "blast_node \<Rightarrow> pyval" where
  "blast_node_dict n = PDict [(PStr ''id'', PStr (b_id n)), (PStr ''label'', PStr (b_label n)), (PStr ''kind'', PStr (b_kind n)),
     (PStr ''team'', PStr (b_team n)), (PStr ''tier'', PStr (b_tier n)), (PStr ''health'', PStr (b_health n)),
     (PStr ''impact_score'', PInt (b_impact_score n)), (PStr ''hop_distance'', PInt (int (b_hop_distance n))),
     (PStr ''evidence_ids'', str_list (b_evidence_ids n))]"

definition blast_edge_dict :: "blast_edge \<Rightarrow> pyval" where
  "blast_edge_dict e = PDict [(PStr ''source'', PStr (b_source e)), (PStr ''target'', PStr (b_target e)), (PStr ''relation'', PStr (b_relation e)),
     (PStr ''confidence'', PFloat (Fin (b_confidence e))), (PStr ''active'', PBool (b_active e))]"

definition blast_document :: "blast_node list \<times> blast_edge list \<Rightarrow> pydict" where
  "blast_document b = [(PStr ''nodes'', PList (map blast_node_dict (fst b))), (PStr ''edges'', PList (map blast_edge_dict (snd b)))]"

definition tiers_of :: "topology \<Rightarrow> string \<rightharpoonup> string" where
  "tiers_of g = map_of (rev (map (\<lambda>n. (node.n_id n, opt_or (n_tier n) ''tier-3'')) (tg_nodes g)))"

definition analysis_risk :: "analysis_request \<Rightarrow> topology \<Rightarrow> string list \<Rightarrow> string \<Rightarrow> risk_report" where
  "analysis_risk q g roots change_id = calculate_change_risk
     \<lparr> files_changed = aq_files q, lines_added = aq_added q, lines_deleted = aq_deleted q, changed_services = roots, flags = aq_flags q,
       test_coverage = aq_coverage q, rollback_ready = aq_rollback q, observability_score = aq_observability q,
       previous_failures = aq_failures q, service_tiers = tiers_of g, evidence_prefix = change_id \<rparr>"

definition analysis_blast :: "(rat \<Rightarrow> nat \<Rightarrow> rat) \<Rightarrow> topology \<Rightarrow> string list \<Rightarrow> string \<Rightarrow> blast_node list \<times> blast_edge list" where
  "analysis_blast pow g roots change_id = calculate_blast_radius pow (tg_nodes g) (tg_edges g) roots change_id 4 (fl (72 / 100))"

section \<open>The analysis\<close>

text \<open>What the source takes from outside: SHA-256, the text of a float and the power function.\<close>

record analyzer =
  az_sha256 :: "string \<Rightarrow> string"
  az_float :: "pyfloat \<Rightarrow> string"
  az_pow :: "rat \<Rightarrow> nat \<Rightarrow> rat"

definition or_text :: "string option \<Rightarrow> string \<Rightarrow> string" where
  "or_text v d = (case v of None \<Rightarrow> d | Some t \<Rightarrow> if t = [] then d else t)"

definition analyzed_change :: "analyzer \<Rightarrow> int \<Rightarrow> scenario \<Rightarrow> analysis_request \<Rightarrow> topology \<Rightarrow> string list \<Rightarrow> string \<Rightarrow> change" where
  "analyzed_change az t sc q g roots digest = (let cid = analysis_id digest in
     \<lparr> ch_id = cid, ch_workspace = s_workspace sc, ch_repository = s_repository sc, ch_scenario = s_id sc, ch_data_mode = s_data_mode sc,
       ch_commit_sha = or_text (aq_commit_sha q) (take 12 digest), ch_test_coverage = map_option Fin (aq_coverage q),
       ch_rollback_ready = aq_rollback q, ch_risk = risk_document (analysis_risk q g roots cid),
       ch_blast_radius = blast_document (analysis_blast (az_pow az) g roots cid), ch_created = t, ch_changed_services = roots,
       ch_deployment_status = ''not_deployed'', ch_deployment_environment = aq_environment q, ch_title = aq_title q,
       ch_repository_name = aq_repository q, ch_author = aq_author q, ch_branch = or_text (aq_branch q) ''analysis/manual'',
       ch_files_changed = aq_files q, ch_lines_added = aq_added q, ch_lines_deleted = aq_deleted q, ch_flags = aq_flags q,
       ch_observability = map_option Fin (aq_observability q), ch_previous_failures = aq_failures q,
       ch_schema_version = ANALYSIS_SCHEMA_VERSION, ch_engine_version = ENGINE_VERSION,
       ch_policy_version = RISK_SCORING_POLICY_VERSION, ch_graph_version = GRAPH_VERSION \<rparr>)"

definition stored_change :: "provider \<Rightarrow> string \<Rightarrow> change option" where
  "stored_change s k = find (\<lambda>c. ch_id c = k) (changes s)"

definition insert_change :: "change \<Rightarrow> provider \<Rightarrow> app_error + provider" where
  "insert_change c s = commit_provider (s \<lparr> changes := changes s @ [c] \<rparr>)"

definition analyze_change ::
  "analyzer \<Rightarrow> int \<Rightarrow> (provider \<Rightarrow> provider) \<Rightarrow> string option \<Rightarrow> string option \<Rightarrow> string option \<Rightarrow> analysis_request \<Rightarrow>
   analysis_state \<Rightarrow> app_error + change \<times> analysis_state" where
  "analyze_change az t others w r k q s =
     rbind (active_scenario (base (ay_db s)) w r k) (\<lambda>sc.
     rbind (analysis_graph (workspace_catalog (services (ay_db s)) (s_workspace sc)) (graph_of s sc) r (aq_services q)) (\<lambda>(g, roots).
     let digest = az_sha256 az (canonical_analysis (az_float az) sc q g roots) in
     case stored_change (ay_db s) (analysis_id digest) of
       Some c \<Rightarrow> Inr (c, s)
     | None \<Rightarrow>
         let c = analyzed_change az t sc q g roots digest in
         rbind (insert_change c (others (ay_db s))) (\<lambda>db. Inr (c, s \<lparr> ay_db := db \<rparr>))))"

text \<open>\<open>POST /changes/analyze\<close>: the caller must be a responder, and the body is validated.\<close>

definition change_analyze ::
  "analyzer \<Rightarrow> int \<Rightarrow> (provider \<Rightarrow> provider) \<Rightarrow> tenant_scope \<Rightarrow> analysis_request \<Rightarrow> analysis_state \<Rightarrow> app_error + change \<times> analysis_state" where
  "change_analyze az t others scope q s =
     rbind (require_responder_scope scope) (\<lambda>_. rbind (validate_analysis_request q) (\<lambda>v.
       analyze_change az t others (Some (sc_workspace scope)) (sc_repository scope) (sc_scenario scope) v s))"

section \<open>Overlaid tables\<close>

lemma map_of_put_all:
  "map_of (put_all key xs d) k = (case find (\<lambda>x. key x = k) (rev xs) of None \<Rightarrow> map_of d k | Some x \<Rightarrow> Some x)"
proof (induction xs rule: rev_induct)
  case (snoc x xs)
  then show ?case by (simp add: put_all_def update_conv')
qed (simp add: put_all_def)

lemma distinct_put_all: "distinct (map fst d) \<Longrightarrow> distinct (map fst (put_all key xs d))"
  unfolding put_all_def by (induction xs arbitrary: d) (simp_all add: distinct_update)

lemma put_all_value:
  assumes "x \<in> set xs" and "\<And>y. y \<in> set xs \<Longrightarrow> key y = key x \<Longrightarrow> P y"
  obtains y where "map_of (put_all key (ys @ xs) d) (key x) = Some y" and "key y = key x" and "P y"
proof -
  obtain y where y: "find (\<lambda>z. key z = key x) (rev xs) = Some y"
    using assms(1) by (cases "find (\<lambda>z. key z = key x) (rev xs)") (auto simp: find_None_iff)
  then have "y \<in> set xs" "key y = key x" using find_SomeD [OF y] by simp_all
  moreover have "find (\<lambda>z. key z = key x) (rev xs @ rev ys) = Some y"
    using y by (simp add: find_append)
  ultimately show ?thesis using that assms(2) by (simp add: map_of_put_all)
qed

lemma overlay_node:
  assumes "s \<in> set catalog"
  shows "nodes_by_id (tg_nodes (overlay g catalog)) changed (sv_id s) \<noteq> None"
proof -
  obtain n where n: "map_of (put_all node.n_id (base_nodes g @ map service_node catalog) []) (node.n_id (service_node s)) = Some n"
      "node.n_id n = node.n_id (service_node s)"
    using assms by (rule_tac put_all_value [of "service_node s" "map service_node catalog" node.n_id "\<lambda>_. True"]) auto
  then have "n \<in> set (tg_nodes (overlay g catalog))" "node.n_id n = sv_id s"
    by (auto simp: overlay_def service_node_def dest!: map_of_SomeD intro: rev_image_eqI)
  then show ?thesis by (auto simp: nodes_by_id_def map_of_eq_None_iff image_iff split: option.splits)
qed

lemma catalog_edges_set: "set (catalog_edges catalog) = {dependency_edge s d | s d. s \<in> set catalog \<and> d \<in> set (sv_dependencies s)}"
  by (auto simp: catalog_edges_def)

lemma dependency_edge_eq: "edge_identity (dependency_edge s d) = edge_identity (dependency_edge s' d') \<Longrightarrow> dependency_edge s d = dependency_edge s' d'"
  by (simp add: edge_identity_def dependency_edge_def)

lemma overlay_edge:
  assumes "s \<in> set catalog" and "d \<in> set (sv_dependencies s)"
  shows "dependency_edge s d \<in> set (tg_edges (overlay g catalog))"
proof -
  let ?e = "dependency_edge s d"
  have "?e \<in> set (catalog_edges catalog)" using assms by (auto simp: catalog_edges_set)
  then obtain e where "map_of (put_all edge_identity (base_edges g @ catalog_edges catalog) []) (edge_identity ?e) = Some e" "e = ?e"
    by (rule put_all_value [where key = edge_identity and ys = "base_edges g" and d = "[]" and P = "\<lambda>e. e = ?e"]) (auto simp: catalog_edges_set dest: dependency_edge_eq)
  then show ?thesis by (auto simp: overlay_def dest!: map_of_SomeD intro: rev_image_eqI)
qed

lemma analysis_graph_overlay:
  "analysis_graph catalog g r requested = Inr (g', roots) \<Longrightarrow> catalog \<noteq> [] \<Longrightarrow> g' = overlay g catalog"
  by (auto simp: analysis_graph_def Let_def split: if_splits)

section \<open>Properties of the analysis\<close>

text \<open>
  C34. A change to a service reaches its dependents: when the service catalogue of the workspace records that \<open>s\<close> depends on a service that
  the analysis takes as changed, the blast radius of the analysis reports \<open>s\<close>, at most one hop away, whatever the provider's topology says.
\<close>
theorem catalog_dependents_reached:
  assumes "analysis_graph catalog g r requested = Inr (g', roots)"
    and "s \<in> set catalog" and "d \<in> set (sv_dependencies s)" and "d \<in> set roots"
  shows "\<exists>h\<le>1. (sv_id s, h) \<in> (\<lambda>n. (b_id n, b_hop_distance n)) ` set (fst (analysis_blast pow g' roots change_id))"
proof -
  have g': "g' = overlay g catalog" by (rule analysis_graph_overlay [OF assms(1)]) (use assms(2) in auto)
  let ?known = "\<lambda>s. nodes_by_id (tg_nodes g') roots s \<noteq> None" and ?e = "dependency_edge s d"
  have "route ?known (tg_edges g') roots d \<lparr> distance = 0, path_confidence = 1, origin = d \<rparr>" using assms(4) by (rule route.start)
  then have "route ?known (tg_edges g') roots (e_target ?e) (next_label \<lparr> distance = 0, path_confidence = 1, origin = d \<rparr> ?e)"
    using overlay_edge [OF assms(2,3)] overlay_node [OF assms(2)]
    by (intro route.hop) (simp_all add: g' dependency_edge_def edge_active_def opt_or_def)
  from route_reported [OF this, of 4 pow change_id "fl (72 / 100)"] show ?thesis
    by (simp add: analysis_blast_def dependency_edge_def next_label_def)
qed

lemma active_scenario_inside:
  assumes "active_scenario db w r k = Inr sc"
  shows "sc \<in> set (scenarios db) \<and> opt_all (\<lambda>x. s_workspace sc = x) w \<and> opt_all (\<lambda>x. s_repository sc = x) r"
proof -
  define inside where "inside s = (opt_all (\<lambda>x. s_workspace s = x) w \<and> opt_all (\<lambda>x. s_repository s = x) r)" for s :: scenario
  have "\<exists>P. find P (sort_key (\<lambda>s. (s_sort_order s, s_id s)) (scenarios db)) = Some sc \<and> (\<forall>s. P s \<longrightarrow> inside s)"
    using assms unfolding active_scenario_def Let_def inside_def [symmetric]
    by (simp split: option.splits if_splits) blast+
  then obtain P where "find P (sort_key (\<lambda>s. (s_sort_order s, s_id s)) (scenarios db)) = Some sc" "\<forall>s. P s \<longrightarrow> inside s" by blast
  then have "sc \<in> set (scenarios db) \<and> inside sc" by (auto dest: find_SomeD)
  then show ?thesis by (simp only: inside_def)
qed

lemma stored_change_eq: "distinct (map ch_id (changes s)) \<Longrightarrow> c \<in> set (changes s) \<Longrightarrow> stored_change s (ch_id c) = Some c"
  unfolding stored_change_def by (rule find_unique)

lemma analyzed_change_simps:
  "ch_id (analyzed_change az t sc q g roots digest) = analysis_id digest"
  "ch_workspace (analyzed_change az t sc q g roots digest) = s_workspace sc"
  "ch_repository (analyzed_change az t sc q g roots digest) = s_repository sc"
  "ch_scenario (analyzed_change az t sc q g roots digest) = s_id sc"
  "ch_data_mode (analyzed_change az t sc q g roots digest) = s_data_mode sc"
  "ch_deployment_status (analyzed_change az t sc q g roots digest) = ''not_deployed''"
  "ch_risk (analyzed_change az t sc q g roots digest) = risk_document (analysis_risk q g roots (analysis_id digest))"
  by (simp_all add: analyzed_change_def Let_def)

lemma analyze_change_cases:
  assumes "analyze_change az t others w r k q s = Inr (c, s')"
  obtains sc g roots where
    "active_scenario (base (ay_db s)) w r k = Inr sc"
    "analysis_graph (workspace_catalog (services (ay_db s)) (s_workspace sc)) (graph_of s sc) r (aq_services q) = Inr (g, roots)"
    "ch_id c = analysis_id (az_sha256 az (canonical_analysis (az_float az) sc q g roots))"
    "(c \<in> set (changes (ay_db s)) \<and> s' = s) \<or>
     (c = analyzed_change az t sc q g roots (az_sha256 az (canonical_analysis (az_float az) sc q g roots)) \<and>
      stored_change (ay_db s) (ch_id c) = None \<and> insert_change c (others (ay_db s)) = Inr (ay_db s') \<and> ay_graphs s' = ay_graphs s)"
proof -
  obtain sc g roots where
    sc: "active_scenario (base (ay_db s)) w r k = Inr sc"
    and g: "analysis_graph (workspace_catalog (services (ay_db s)) (s_workspace sc)) (graph_of s sc) r (aq_services q) = Inr (g, roots)"
    using assms by (auto simp: analyze_change_def result_simps)
  let ?digest = "az_sha256 az (canonical_analysis (az_float az) sc q g roots)"
  show thesis
  proof (cases "stored_change (ay_db s) (analysis_id ?digest)")
    case None
    with assms sc g obtain db where "c = analyzed_change az t sc q g roots ?digest" "insert_change c (others (ay_db s)) = Inr db"
        "s' = s \<lparr> ay_db := db \<rparr>"
      by (auto simp: analyze_change_def result_simps Let_def)
    moreover have "ch_id (analyzed_change az t sc q g roots ?digest) = analysis_id ?digest" by (rule analyzed_change_simps)
    ultimately show ?thesis using that [OF sc g] None by simp
  next
    case (Some x)
    with assms sc g have "c = x" "s' = s" by (simp_all add: analyze_change_def)
    moreover have "x \<in> set (changes (ay_db s))" "ch_id x = analysis_id ?digest"
      using find_SomeD [OF Some [unfolded stored_change_def]] by simp_all
    ultimately show ?thesis using that [OF sc g] by simp
  qed
qed

lemma analyze_change_again:
  assumes "active_scenario (base (ay_db s)) w r k = Inr sc"
    and "analysis_graph (workspace_catalog (services (ay_db s)) (s_workspace sc)) (graph_of s sc) r (aq_services q) = Inr (g, roots)"
    and "stored_change (ay_db s) (analysis_id (az_sha256 az (canonical_analysis (az_float az) sc q g roots))) = Some c"
  shows "analyze_change az t others w r k q s = Inr (c, s)"
  using assms by (simp add: analyze_change_def)

lemma insert_change_Inr: "insert_change c s = Inr s' \<longleftrightarrow> provider_unique s' \<and> s' = s \<lparr> changes := changes s @ [c] \<rparr>"
  by (auto simp: insert_change_def commit_provider_def)

text \<open>
  C35. An analysis is idempotent: the change it returns is stored, and on any later state with the same scenarios, catalogue and topology that
  still holds the change, the same request returns that change and writes nothing, at any time and whatever other requests commit.
\<close>
theorem analysis_idempotent:
  assumes "analyze_change az t others w r k q s = Inr (c, s')"
  shows "c \<in> set (changes (ay_db s')) \<and>
    (\<forall>u. scenarios (base (ay_db u)) = scenarios (base (ay_db s)) \<longrightarrow> services (ay_db u) = services (ay_db s) \<longrightarrow>
       ay_graphs u = ay_graphs s \<longrightarrow> c \<in> set (changes (ay_db u)) \<longrightarrow> distinct (map ch_id (changes (ay_db u))) \<longrightarrow>
       analyze_change az t' others' w r k q u = Inr (c, u))"
proof -
  obtain sc g roots where
    sc: "active_scenario (base (ay_db s)) w r k = Inr sc"
    and g: "analysis_graph (workspace_catalog (services (ay_db s)) (s_workspace sc)) (graph_of s sc) r (aq_services q) = Inr (g, roots)"
    and c: "ch_id c = analysis_id (az_sha256 az (canonical_analysis (az_float az) sc q g roots))"
    and stored: "c \<in> set (changes (ay_db s))  \<and> s' = s \<or> insert_change c (others (ay_db s)) = Inr (ay_db s')"
    using assms by (rule analyze_change_cases) blast
  have "analyze_change az t' others' w r k q u = Inr (c, u)"
    if u: "scenarios (base (ay_db u)) = scenarios (base (ay_db s))" "services (ay_db u) = services (ay_db s)" "ay_graphs u = ay_graphs s"
      and in_u: "c \<in> set (changes (ay_db u))" "distinct (map ch_id (changes (ay_db u)))" for u
  proof (rule analyze_change_again)
    show "active_scenario (base (ay_db u)) w r k = Inr sc" using sc u(1) by (simp add: active_scenario_def)
    show "analysis_graph (workspace_catalog (services (ay_db u)) (s_workspace sc)) (graph_of u sc) r (aq_services q) = Inr (g, roots)"
      using g u(2,3) by (simp add: graph_of_def)
    show "stored_change (ay_db u) (analysis_id (az_sha256 az (canonical_analysis (az_float az) sc q g roots))) = Some c"
      using stored_change_eq [OF in_u(2,1)] c by simp
  qed
  moreover have "c \<in> set (changes (ay_db s'))" using stored by (auto simp: insert_change_Inr)
  ultimately show ?thesis by blast
qed

lemma risk_document_score: "\<exists>n. dget (risk_document (analysis_risk q g roots cid)) ''overall_score'' = Some (PInt n) \<and> 0 \<le> n \<and> n \<le> 100"
  by (simp add: risk_document_def dget_def analysis_risk_def calculate_change_risk_def Let_def weighted_score_def round_clamp_100)

text \<open>
  C36. The analysis route writes inside the caller's workspace: the caller is at least a responder, and either a stored change is returned and
  nothing is written, or exactly one change is appended to what other requests committed, for a scenario of the caller's workspace (and of
  the caller's repository, if one is selected), not deployed, with a risk score between 0 and 100; all keys stay unique.
\<close>
theorem analysis_confined:
  assumes "change_analyze az t others scope q s = Inr (c, s')"
  shows "ROLE_LEVEL Responder \<le> ROLE_LEVEL (sc_role scope) \<and>
    ((s' = s \<and> c \<in> set (changes (ay_db s))) \<or>
     (provider_unique (ay_db s') \<and> ay_graphs s' = ay_graphs s \<and>
      ay_db s' = (others (ay_db s)) \<lparr> changes := changes (others (ay_db s)) @ [c] \<rparr> \<and>
      ch_workspace c = sc_workspace scope \<and> opt_all (\<lambda>x. ch_repository c = x) (sc_repository scope) \<and>
      (\<exists>sc\<in>set (scenarios (base (ay_db s))). s_workspace sc = sc_workspace scope \<and> ch_scenario c = s_id sc \<and> ch_data_mode c = s_data_mode sc) \<and>
      ch_deployment_status c = ''not_deployed'' \<and>
      (\<exists>n. dget (ch_risk c) ''overall_score'' = Some (PInt n) \<and> 0 \<le> n \<and> n \<le> 100)))"
proof -
  obtain v where role: "ROLE_LEVEL Responder \<le> ROLE_LEVEL (sc_role scope)"
    and run: "analyze_change az t others (Some (sc_workspace scope)) (sc_repository scope) (sc_scenario scope) v s = Inr (c, s')"
    using assms by (auto simp: change_analyze_def result_simps require_responder_Inr)
  from run obtain sc g roots digest where
    sc: "active_scenario (base (ay_db s)) (Some (sc_workspace scope)) (sc_repository scope) (sc_scenario scope) = Inr sc"
    and res: "c \<in> set (changes (ay_db s)) \<and> s' = s \<or>
      (c = analyzed_change az t sc v g roots digest \<and> insert_change c (others (ay_db s)) = Inr (ay_db s') \<and> ay_graphs s' = ay_graphs s)"
    by (rule analyze_change_cases) (simp only:, blast)
  have inside: "sc \<in> set (scenarios (base (ay_db s)))" "s_workspace sc = sc_workspace scope" "opt_all (\<lambda>x. s_repository sc = x) (sc_repository scope)"
    using active_scenario_inside [OF sc] by (simp_all add: opt_all_def)
  show ?thesis
  proof (cases "c \<in> set (changes (ay_db s)) \<and> s' = s")
    case False
    with res have "c = analyzed_change az t sc v g roots digest \<and> insert_change c (others (ay_db s)) = Inr (ay_db s') \<and> ay_graphs s' = ay_graphs s"
      by (elim disjE) (rule notE, assumption+)
    then have fresh: "c = analyzed_change az t sc v g roots digest"
      and ins: "provider_unique (ay_db s')" "ay_db s' = (others (ay_db s)) \<lparr> changes := changes (others (ay_db s)) @ [c] \<rparr>"
      and graphs: "ay_graphs s' = ay_graphs s" unfolding insert_change_Inr by blast+
    have "\<exists>n. dget (ch_risk c) ''overall_score'' = Some (PInt n) \<and> 0 \<le> n \<and> n \<le> 100"
      unfolding fresh analyzed_change_simps by (rule risk_document_score)
    moreover have "ch_workspace c = sc_workspace scope" "ch_repository c = s_repository sc" "ch_scenario c = s_id sc" "ch_data_mode c = s_data_mode sc"
        "ch_deployment_status c = ''not_deployed''"
      unfolding fresh analyzed_change_simps by (simp_all only: inside)
    ultimately show ?thesis using role inside ins graphs by (intro conjI disjI2) (simp_all only:, blast)
  qed (use role in simp)
qed


lemma map_of_put_all_distinct:
  assumes "mset xs = mset ys" and "distinct (map key xs)"
  shows "map_of (put_all key xs []) = map_of (put_all key ys [])"
proof
  fix k
  have "distinct (map key ys)" using assms by (metis mset_map mset_eq_imp_distinct_iff)
  have pick: "find (\<lambda>x. key x = k) (rev zs) = (if k \<in> key ` set zs then Some (the_inv_into (set zs) key k) else None)"
    if "distinct (map key zs)" for zs
  proof (cases "k \<in> key ` set zs")
    case True
    then obtain x where x: "x \<in> set zs" "key x = k" by auto
    then have "find (\<lambda>z. key z = key x) (rev zs) = Some x" using that by (intro find_unique) (simp_all add: rev_map [symmetric])
    moreover have "the_inv_into (set zs) key k = x" using that x by (auto simp: distinct_map the_inv_into_f_f)
    ultimately show ?thesis using x True by simp
  qed (auto simp: find_None_iff)
  have "set xs = set ys" using assms(1) by (rule mset_eq_setD)
  with pick [OF assms(2)] pick [OF \<open>distinct (map key ys)\<close>]
  show "map_of (put_all key xs []) k = map_of (put_all key ys []) k" by (simp add: map_of_put_all)
qed

lemma put_all_append: "put_all key (xs @ ys) d = put_all key ys (put_all key xs d)"
  by (simp add: put_all_def)

lemma sorted_put_all_perm:
  assumes "mset xs = mset ys" and "distinct (map key xs)"
  shows "sort_key fst (put_all key (xs @ zs) []) = sort_key fst (put_all key (ys @ zs) [])"
proof (rule sort_key_perm_eq)
  let ?a = "put_all key (xs @ zs) []" and ?b = "put_all key (ys @ zs) []"
  have d: "distinct (map fst ?a)" "distinct (map fst ?b)" by (simp_all add: distinct_put_all)
  have "map_of ?a = map_of ?b"
    by (rule ext) (simp only: put_all_append map_of_put_all [of key zs] map_of_put_all_distinct [OF assms])
  then have "set ?a = set ?b" using d by (metis map_of_inject_set)
  then show "mset ?a = mset ?b" using d by (metis distinct_map set_eq_iff_mset_eq_distinct)
  show "inj_on fst (set ?a)" using d(1) by (simp add: distinct_map)
qed

lemma mset_base:
  assumes "mset (tg_nodes g) = mset (tg_nodes h)" and "mset (tg_edges g) = mset (tg_edges h)"
  shows "mset (base_nodes g) = mset (base_nodes h)" and "mset (base_edges g) = mset (base_edges h)"
  using assms by (simp_all add: base_nodes_def base_edges_def)

lemma distinct_base:
  "distinct (map node.n_id (tg_nodes g)) \<Longrightarrow> distinct (map node.n_id (base_nodes g))"
  "distinct (map f (tg_edges g)) \<Longrightarrow> distinct (map f (base_edges g))"
  by (simp_all add: base_nodes_def base_edges_def distinct_map_filter)

lemma canonical_topology_perm:
  assumes "mset (tg_nodes g) = mset (tg_nodes h)" and "mset (tg_edges g) = mset (tg_edges h)"
    and "distinct (map node.n_id (tg_nodes g))" and "distinct (map edge_order (tg_edges g))"
  shows "canonical_topology g = canonical_topology h"
proof -
  have "sort_key node.n_id (base_nodes g) = sort_key node.n_id (base_nodes h)"
    using mset_base(1) [OF assms(1,2)] distinct_base(1) [OF assms(3)] by (intro sort_key_perm_eq) (simp_all add: distinct_map)
  moreover have "sort_key edge_order (base_edges g) = sort_key edge_order (base_edges h)"
    using mset_base(2) [OF assms(1,2)] distinct_base(2) [OF assms(4)] by (intro sort_key_perm_eq) (simp_all add: distinct_map)
  ultimately show ?thesis by (simp add: canonical_topology_def)
qed

lemma overlay_perm:
  assumes "mset (tg_nodes g) = mset (tg_nodes h)" and "mset (tg_edges g) = mset (tg_edges h)"
    and "distinct (map node.n_id (tg_nodes g))" and "distinct (map edge_identity (tg_edges g))"
  shows "overlay g catalog = overlay h catalog"
  unfolding overlay_def
  using sorted_put_all_perm [OF mset_base(1) [OF assms(1,2)] distinct_base(1) [OF assms(3)]]
    sorted_put_all_perm [OF mset_base(2) [OF assms(1,2)] distinct_base(2) [OF assms(4)]] by simp

text \<open>The text that is digested for a request, after the overlay.\<close>

definition analysis_text ::
  "(pyfloat \<Rightarrow> string) \<Rightarrow> service list \<Rightarrow> scenario \<Rightarrow> string option \<Rightarrow> analysis_request \<Rightarrow> topology \<Rightarrow> app_error + string" where
  "analysis_text flt catalog sc r q g =
     rbind (analysis_graph catalog g r (aq_services q)) (\<lambda>(h, roots). Inr (canonical_analysis flt sc q h roots))"

text \<open>
  The identity of an analysis does not depend on the order in which the provider reports its topology: if two topologies hold the same nodes
  and edges and no two of them share a key, every request has the same digested text on both, or the same error.
\<close>
theorem analysis_order_independent:
  assumes "mset (tg_nodes g) = mset (tg_nodes h)" and "mset (tg_edges g) = mset (tg_edges h)"
    and "distinct (map node.n_id (tg_nodes g))" and "distinct (map edge_identity (tg_edges g))" and "distinct (map edge_order (tg_edges g))"
  shows "analysis_text flt catalog sc r q g = analysis_text flt catalog sc r q h"
proof (cases "catalog = []")
  case True
  with canonical_topology_perm [OF assms(1-3,5)] show ?thesis
    by (simp add: analysis_text_def analysis_graph_def canonical_analysis_def)
next
  case False
  with overlay_perm [OF assms(1-4)] show ?thesis by (simp add: analysis_text_def analysis_graph_def Let_def)
qed

section \<open>A concrete analysis\<close>

definition demo_entry :: "string \<Rightarrow> string list \<Rightarrow> service" where
  "demo_entry k deps = \<lparr> sv_id = k, sv_workspace = ''w1'', sv_name = k, sv_slug = k, sv_description = [], sv_tier = Tier1, sv_lifecycle = Active,
     sv_owner_team = ''core'', sv_repository = None, sv_dependencies = deps, sv_runbook_url = None, sv_tags = [], sv_created = 0, sv_updated = 0 \<rparr>"

definition demo_entries :: "service list" where
  "demo_entries = [demo_entry ''api'' [], demo_entry ''web'' [''api'']]"

definition demo_topology :: "bool \<Rightarrow> topology" where
  "demo_topology flip = 
     \<lparr> tg_nodes = (if flip then rev else id) [default_node ''db'', default_node ''api''],
       tg_edges = (if flip then rev else id) [\<lparr> edge.e_source = ''db'', e_target = ''api'', e_relation = None, e_confidence = None, e_active = None \<rparr>,
         \<lparr> edge.e_source = ''db'', e_target = ''web'', e_relation = Some ''reads'', e_confidence = Some 1, e_active = None \<rparr>] \<rparr>"

definition demo_analyzer :: analyzer where
  "demo_analyzer = \<lparr> az_sha256 = (\<lambda>_. ''0123456789abcdef''), az_float = (\<lambda>_. ''0.5''), az_pow = (\<lambda>x n. x ^ n) \<rparr>"

definition demo_body :: analysis_request where
  "demo_body = \<lparr> aq_title = ''Retry'', aq_repository = ''shop'', aq_author = ''ann'', aq_commit_sha = None, aq_branch = None,
     aq_environment = ''staging'', aq_files = 1, aq_added = 1, aq_deleted = 0, aq_services = [''API''], aq_flags = [], aq_coverage = None,
     aq_rollback = None, aq_observability = None, aq_failures = None \<rparr>"

definition demo_scenario :: scenario where
  "demo_scenario = \<lparr> s_id = ''s1'', s_workspace = ''w1'', s_repository = ''r1'', s_data_mode = ''connected'', s_active = True, s_sort_order = 1 \<rparr>"

definition demo_analysis_state :: analysis_state where
  "demo_analysis_state = \<lparr> ay_db = demo_provider \<lparr> services := demo_entries, base := (base demo_provider) \<lparr> scenarios :=
       [demo_scenario] \<rparr> \<rparr>,
     ay_graphs = [(''s1'', demo_topology False)] \<rparr>"

definition demo_scope_responder :: tenant_scope where
  "demo_scope_responder = \<lparr> sc_user = demo_user, sc_workspace = ''w1'', sc_repository = None, sc_scenario = None, sc_role = Responder \<rparr>"

lemma demo_graph: "analysis_graph demo_entries (demo_topology False) None [''API''] = Inr (overlay (demo_topology False) demo_entries, [''api''])"
  by code_simp

theorem catalog_dependents_reached_witness:
  "\<exists>h\<le>1. (''web'', h) \<in> (\<lambda>n. (b_id n, b_hop_distance n)) `
     set (fst (analysis_blast (\<lambda>x n. x ^ n) (overlay (demo_topology False) demo_entries) [''api''] ''c''))"
proof -
  let ?web = "demo_entry ''web'' [''api'']"
  have "?web \<in> set demo_entries" by (simp add: demo_entries_def)
  moreover have "''api'' \<in> set (sv_dependencies ?web)" and web: "sv_id ?web = ''web''" by (simp_all add: demo_entry_def)
  ultimately show ?thesis using catalog_dependents_reached [OF demo_graph, of ?web "''api''" "\<lambda>x n. x ^ n" "''c''"] unfolding web by simp
qed

lemma insert_change_fresh:
  "provider_unique s \<Longrightarrow> ch_id c \<notin> ch_id ` set (changes s) \<Longrightarrow> insert_change c s = Inr (s \<lparr> changes := changes s @ [c] \<rparr>)"
  by (simp add: insert_change_Inr provider_unique_def ops.truncate_def)

lemma demo_state_unique: "provider_unique (ay_db demo_analysis_state)"
  by code_simp

lemma demo_scenario_found: "active_scenario (base (ay_db demo_analysis_state)) (Some ''w1'') None None = Inr demo_scenario"
  by code_simp

lemma demo_catalog_graph:
  "analysis_graph (workspace_catalog (services (ay_db demo_analysis_state)) (s_workspace demo_scenario)) (graph_of demo_analysis_state demo_scenario)
     None (aq_services demo_body) = Inr (overlay (demo_topology False) demo_entries, [''api''])"
  by code_simp

lemma demo_changes: "map ch_id (changes (ay_db demo_analysis_state)) = [''ch1'']"
  by code_simp

definition demo_result :: change where
  "demo_result = analyzed_change demo_analyzer 5 demo_scenario demo_body (overlay (demo_topology False) demo_entries) [''api''] ''0123456789abcdef''"

lemma demo_result_id: "ch_id demo_result = ''chg-analysis-0123456789ab''"
  unfolding demo_result_def analyzed_change_simps by (simp add: analysis_id_def)

lemma demo_result_new: "ch_id demo_result \<notin> ch_id ` set (changes (ay_db demo_analysis_state))"
  unfolding set_map [symmetric] demo_changes demo_result_id by simp

lemma demo_digest: "az_sha256 demo_analyzer = (\<lambda>_. ''0123456789abcdef'')"
  by (simp add: demo_analyzer_def)

definition demo_analyzed :: analysis_state where
  "demo_analyzed = demo_analysis_state \<lparr> ay_db := (ay_db demo_analysis_state) \<lparr> changes := changes (ay_db demo_analysis_state) @ [demo_result] \<rparr> \<rparr>"

lemma demo_run:
  "analyze_change demo_analyzer 5 (\<lambda>s. s) (Some ''w1'') None None demo_body demo_analysis_state = Inr (demo_result, demo_analyzed)"
proof -
  have "stored_change (ay_db demo_analysis_state) (analysis_id ''0123456789abcdef'') = None"
    using demo_result_new unfolding stored_change_def find_None_iff demo_result_def analyzed_change_simps by (force simp: image_iff)
  then show ?thesis
    unfolding analyze_change_def demo_scenario_found demo_catalog_graph demo_digest
    using insert_change_fresh [OF demo_state_unique demo_result_new] by (simp add: Let_def demo_catalog_graph demo_result_def demo_analyzed_def)
qed

theorem analysis_idempotent_witness:
  "analyze_change demo_analyzer 9 (\<lambda>s. s) (Some ''w1'') None None demo_body demo_analyzed = Inr (demo_result, demo_analyzed)"
proof -
  have "distinct (map ch_id (changes (ay_db demo_analyzed)))"
    using demo_changes by (simp add: demo_analyzed_def demo_result_id)
  moreover have "demo_result \<in> set (changes (ay_db demo_analyzed))" "ay_graphs demo_analyzed = ay_graphs demo_analysis_state"
      "services (ay_db demo_analyzed) = services (ay_db demo_analysis_state)"
      "scenarios (base (ay_db demo_analyzed)) = scenarios (base (ay_db demo_analysis_state))"
    by (simp_all add: demo_analyzed_def)
  ultimately show ?thesis using analysis_idempotent [OF demo_run, of 9 "\<lambda>s. s"] by blast
qed

lemma demo_body_valid: "validate_analysis_request demo_body = Inr demo_body"
  by code_simp

lemma demo_route_run:
  "change_analyze demo_analyzer 5 (\<lambda>s. s) demo_scope_responder demo_body demo_analysis_state = Inr (demo_result, demo_analyzed)"
  unfolding change_analyze_def demo_body_valid
  using demo_run by (simp add: demo_scope_responder_def require_responder_scope_def)

theorem analysis_confined_witness:
  "ch_workspace demo_result = ''w1'' \<and> changes (ay_db demo_analyzed) = changes (ay_db demo_analysis_state) @ [demo_result]"
proof -
  have "demo_result \<notin> set (changes (ay_db demo_analysis_state))" using demo_result_new by blast
  with analysis_confined [OF demo_route_run] show ?thesis by (simp add: demo_scope_responder_def)
qed

theorem analysis_order_independent_witness:
  "analysis_text (\<lambda>_. ''0.5'') demo_entries demo_scenario None demo_body (demo_topology False) =
   analysis_text (\<lambda>_. ''0.5'') demo_entries demo_scenario None demo_body (demo_topology True)"
  by (rule analysis_order_independent)
    (simp_all add: demo_topology_def default_node_def edge_identity_def edge_order_def str_of_tier_def add_mset_commute)

end
