(* ===== verification/Webhooks.thy ===== *)
theory Webhooks
  imports Deployments ChangeAnalysis Telemetry
begin

text \<open>
  The webhooks of GitHub (\<open>github_webhook\<close> in \<open>backend/app/api.py\<close>, \<open>process_github_webhook\<close> in \<open>services.py\<close>): the signature, the delivery
  ledger, the analysis of pull requests with the queued check publication, and the operational events and deployment records of
  workflow runs and deployments.

  An operation returns its result and the committed state: what was not committed when an exception leaves it is rolled back.
  HMAC-SHA256, \<open>datetime.fromisoformat\<close> and the size of a serialised document are parameters, as are the commits of other requests
  before each insert.
\<close>

section \<open>State\<close>

text \<open>The tables, with the columns \<open>service_graph\<close> and \<open>active_change_id\<close> of the scenarios by the identifier of the scenario.\<close>

record hook_state =
  hk_deploy :: deploy_state
  hk_jobs :: jobs
  hk_graphs :: "(string, topology) dict"
  hk_active :: "(string, string) dict"

record hook_world =
  hw_github :: github
  hw_hmac :: "string \<Rightarrow> string \<Rightarrow> string"
  hw_iso :: "string \<Rightarrow> int option"
  hw_size :: "pydict \<Rightarrow> int"
  hw_analyzer :: analyzer
  hw_delivery_others :: "provider \<Rightarrow> provider"
  hw_change_others :: "provider \<Rightarrow> provider"
  hw_event_others :: "ops \<Rightarrow> ops"
  hw_deploy_others :: "deploy_state \<Rightarrow> deploy_state"
  hw_job_others :: "jobs \<Rightarrow> jobs"

record hook_call =
  hc_event :: string
  hc_delivery :: string
  hc_payload :: pydict
  hc_signature :: string
  hc_body :: string
  hc_secret :: string
  hc_fallback :: bool
  hc_settings :: "settings option"
  hc_request_id :: "string option"
  hc_traceparent :: "string option"
  hc_tracestate :: "string option"

record hook_response =
  hr_status :: string
  hr_event :: string
  hr_delivery :: string
  hr_change :: "string option"
  hr_detail :: string

type_synonym hook_result = "(producer_error + hook_response) \<times> hook_state"

definition db_of :: "hook_state \<Rightarrow> provider" where
  "db_of s = dy_db (hk_deploy s)"

definition put_db :: "provider \<Rightarrow> hook_state \<Rightarrow> hook_state" where
  "put_db db s = s \<lparr> hk_deploy := (hk_deploy s) \<lparr> dy_db := db \<rparr> \<rparr>"

definition respond :: "hook_call \<Rightarrow> string \<Rightarrow> string option \<Rightarrow> string \<Rightarrow> hook_response" where
  "respond c status_value change_id text =
     \<lparr> hr_status = status_value, hr_event = hc_event c, hr_delivery = hc_delivery c, hr_change = change_id, hr_detail = text \<rparr>"

definition shifted :: "nat \<Rightarrow> environment \<Rightarrow> environment" where
  "shifted n env = env \<lparr> fresh := (\<lambda>k. fresh env (n + k)) \<rparr>"

section \<open>The signature\<close>

definition verify_github_signature :: "(string \<Rightarrow> string \<Rightarrow> string) \<Rightarrow> string \<Rightarrow> string \<Rightarrow> string \<Rightarrow> app_error + bool" where
  "verify_github_signature hmac secret body signature =
     (if signature = [] \<or> secret = [] then Inr False
      else if \<not> py_startswith signature ''sha256='' then Inr False
      else compare_digest (hmac secret body) (drop 7 signature))"

section \<open>Operational events\<close>

text \<open>\<open>payload.get(key) or {}\<close>, and \<open>value.get(key)\<close>.\<close>

definition section_of :: "pydict \<Rightarrow> string \<Rightarrow> pyval" where
  "section_of pl k = py_or (get_field pl k) (PDict [])"

definition vfield :: "pyval \<Rightarrow> string \<Rightarrow> app_error + pyval" where
  "vfield v k = vget v k PNone"

definition timeline_timestamp :: "(string \<Rightarrow> int option) \<Rightarrow> pyval \<Rightarrow> int option" where
  "timeline_timestamp parse_iso v = (case v of PStr t \<Rightarrow> parse_iso (py_replace_char CHR ''Z'' ''+00:00'' t) | _ \<Rightarrow> None)"

definition event_time :: "(string \<Rightarrow> int option) \<Rightarrow> int \<Rightarrow> pyval list \<Rightarrow> int" where
  "event_time parse_iso t vs = (case List.map_filter (timeline_timestamp parse_iso) vs of
     [] \<Rightarrow> t | x # _ \<Rightarrow> if x > t + minutes 5 then t else x)"

definition event_severity :: "string \<Rightarrow> string" where
  "event_severity v = (if v \<in> {''failure'', ''failed'', ''error'', ''timed_out''} then ''error''
     else if v \<in> {''cancelled'', ''stale'', ''inactive''} then ''warning'' else ''info'')"

text \<open>The filter \<open>value not in {None, ""}\<close> hashes the value.\<close>

definition kept_attributes :: "(string \<times> pyval) list \<Rightarrow> app_error + pydict" where
  "kept_attributes kvs =
     rbind (rmap (\<lambda>(k, v). if hashable v then Inr (PStr k, v) else Inl PyTypeError) kvs) (\<lambda>ps.
       Inr (filter (\<lambda>(k, v). v \<noteq> PNone \<and> v \<noteq> PStr []) ps))"

definition optional_text :: "string \<Rightarrow> pyval" where
  "optional_text t = (if t = [] then PNone else PStr t)"

definition github_event ::
  "hook_world \<Rightarrow> int \<Rightarrow> hook_call \<Rightarrow> connection \<Rightarrow> repository \<Rightarrow> app_error + event_create" where
  "github_event w t c cn r =
     (let g = hw_github w; pl = hc_payload c; act = str_of g (py_or (get_field pl ''action'') (PStr [])) in
      rbind (rmap (vfield (section_of pl ''workflow_run''))
        [''updated_at'', ''run_started_at'', ''conclusion'', ''status'', ''name'', ''id'', ''html_url'', ''head_sha'', ''head_branch'']) (\<lambda>wf.
      rbind (rmap (vfield (section_of pl ''deployment'')) [''created_at'', ''environment'', ''id'', ''sha'']) (\<lambda>dp.
      rbind (rmap (vfield (section_of pl ''deployment_status'')) [''created_at'', ''state'']) (\<lambda>ds.
      rbind (rmap (vfield (section_of pl ''pull_request'')) [''updated_at'', ''head'']) (\<lambda>pr.
      rbind (vfield (section_of pl ''repository'') ''full_name'') (\<lambda>full.
      rbind (rmap (vfield (py_or (pr ! 1) (PDict []))) [''sha'', ''ref'']) (\<lambda>head.
      let state = py_lower (str_of g (foldr py_or [wf ! 2, wf ! 3, ds ! 1, PStr act] (PStr ''received'')));
          shown = py_prefix 240 (str_of g (foldr py_or [wf ! 4, dp ! 1, full] (PStr (r_full_name r)))) in
      rbind (kept_attributes
        [(''action'', optional_text act), (''status'', PStr state), (''workflow_id'', wf ! 5), (''workflow_name'', wf ! 4),
         (''workflow_url'', wf ! 6), (''deployment_id'', dp ! 2), (''environment'', dp ! 1),
         (''commit_sha'', py_or (wf ! 7) (py_or (dp ! 3) (head ! 0))), (''branch'', py_or (wf ! 8) (head ! 1))]) (\<lambda>attributes.
      Inr \<lparr> ec_provider_id = hc_delivery c, ec_repository = Some (r_id r), ec_service = None, ec_incident = None, ec_source = ''github'',
        ec_type = hc_event c, ec_occurred = event_time (hw_iso w) t [wf ! 0, wf ! 1, ds ! 0, dp ! 0, pr ! 0],
        ec_severity = event_severity state,
        ec_summary = py_prefix 1000 (''GitHub '' @ py_replace_char CHR ''_'' '' '' (hc_event c) @ (if act = [] then [] else '' '' @ act) @
          '': '' @ shown @ '' ('' @ state @ '').''),
        ec_attributes = attributes,
        ec_provenance = [(PStr ''provider'', PStr ''github''), (PStr ''delivery_id'', PStr (hc_delivery c)),
          (PStr ''installation_id'', PStr (cn_installation cn)), (PStr ''signature_verified'', PBool True),
          (PStr ''provider_repository_id'', PStr (r_provider_id r))] \<rparr>))))))))"

text \<open>\<open>OperationalEventCreate\<close>.\<close>

definition validate_event :: "(pydict \<Rightarrow> int) \<Rightarrow> int \<Rightarrow> event_create \<Rightarrow> app_error + event_create" where
  "validate_event size_of t ev =
     rbind (non_empty 160 (ec_provider_id ev)) (\<lambda>k.
     rbind (require (opt_all (text_len 0 36) (ec_repository ev))) (\<lambda>_.
     rbind (non_empty 100 (ec_source ev)) (\<lambda>src.
     rbind (non_empty 100 (ec_type ev)) (\<lambda>typ.
     rbind (require (occurred_at_ok t (ec_occurred ev))) (\<lambda>_.
     rbind (non_empty 1000 (ec_summary ev)) (\<lambda>text.
     rbind (bound_structured_payload size_of (ec_attributes ev)) (\<lambda>_.
     rbind (bound_structured_payload size_of (ec_provenance ev)) (\<lambda>_.
     Inr (ev \<lparr> ec_provider_id := k, ec_source := src, ec_type := typ, ec_summary := text \<rparr>)))))))))"

definition with_ops :: "(ops \<Rightarrow> app_error + 'a \<times> ops) \<Rightarrow> provider \<Rightarrow> app_error + 'a \<times> provider" where
  "with_ops f s = rbind (f (ops.truncate s)) (\<lambda>(x, o'). Inr (x, ops.extend o' (ops.more s)))"

definition github_operational_event ::
  "hook_world \<Rightarrow> environment \<Rightarrow> hook_call \<Rightarrow> connection \<Rightarrow> repository \<Rightarrow> provider \<Rightarrow> app_error + op_event \<times> provider" where
  "github_operational_event w env c cn r s =
     rbind (github_event w (now env) c cn r) (\<lambda>raw.
     rbind (validate_event (hw_size w) (now env) raw) (\<lambda>ev.
     with_ops (record_trusted_operational_event (az_float (hw_analyzer w)) env (hw_event_others w) (cn_workspace cn) ev
       (''github:'' @ hc_delivery c)) s))"

section \<open>Deliveries\<close>

definition find_delivery :: "provider \<Rightarrow> string \<Rightarrow> webhook_delivery option" where
  "find_delivery db k = find (\<lambda>d. wd_provider d = ''github'' \<and> wd_delivery d = k) (webhooks db)"

definition RECONCILABLE_EVENTS :: "string list" where
  "RECONCILABLE_EVENTS = [''pull_request'', ''workflow_run'', ''deployment'', ''deployment_status'']"

definition payload_action :: "github \<Rightarrow> hook_call \<Rightarrow> string" where
  "payload_action g c = str_of g (py_or (get_field (hc_payload c) ''action'') (PStr []))"

text \<open>The installation and the repository the payload names.\<close>

definition payload_scope :: "github \<Rightarrow> pydict \<Rightarrow> app_error + string \<times> string" where
  "payload_scope g pl =
     rbind (vfield (section_of pl ''installation'') ''id'') (\<lambda>i.
     rbind (vfield (section_of pl ''repository'') ''id'') (\<lambda>r.
     Inr (str_of g (py_or i (PStr [])), str_of g (py_or r (PStr [])))))"

definition linked_connection :: "provider \<Rightarrow> string \<Rightarrow> connection option" where
  "linked_connection db i = (if i = [] then None
     else find (\<lambda>c. cn_provider c = ''github'' \<and> cn_installation c = i) (connections db))"

definition selected_repository :: "provider \<Rightarrow> string \<Rightarrow> string \<Rightarrow> repository option" where
  "selected_repository db w p = (if p = [] then None
     else find (\<lambda>r. r_workspace r = w \<and> r_provider r = ''github'' \<and> r_provider_id r = p \<and> r_selected r) (repositories (base db)))"

definition new_delivery :: "environment \<Rightarrow> hook_call \<Rightarrow> string \<Rightarrow> string option \<Rightarrow> string option \<Rightarrow> string \<Rightarrow> webhook_delivery" where
  "new_delivery env c i w r v =
     \<lparr> wd_id = fresh env 0, wd_provider = ''github'', wd_delivery = hc_delivery c, wd_event = hc_event c, wd_installation = nonempty i,
       wd_workspace = w, wd_repository = r, wd_status = v, wd_created = now env \<rparr>"

definition set_delivery_status :: "string \<Rightarrow> string \<Rightarrow> provider \<Rightarrow> provider" where
  "set_delivery_status k v db = db \<lparr> webhooks := map (\<lambda>d. if wd_id d = k then d \<lparr> wd_status := v \<rparr> else d) (webhooks db) \<rparr>"

definition bound_tenant :: "string \<Rightarrow> provider \<Rightarrow> app_error + provider" where
  "bound_tenant w db = rbind (set_tenant_context w (base db)) (\<lambda>b. Inr (db \<lparr> base := b \<rparr>))"

text \<open>An installation event sets the state of the connection.\<close>

definition record_installation :: "hook_world \<Rightarrow> environment \<Rightarrow> hook_call \<Rightarrow> string \<Rightarrow> connection option \<Rightarrow> hook_state \<Rightarrow> hook_result" where
  "record_installation w env c i cn s =
     (let d = new_delivery env c i (map_option cn_workspace cn) None (if cn = None then ''verified_unmapped'' else ''verified'');
          state = (if payload_action (hw_github w) c \<in> {''deleted'', ''suspend''} then ''revoked'' else ''connected'');
          db0 = hw_delivery_others w (db_of s);
          db1 = db0 \<lparr> webhooks := webhooks db0 @ [d], connections := (case cn of None \<Rightarrow> connections db0
            | Some x \<Rightarrow> map (\<lambda>y. if cn_id y = cn_id x then y \<lparr> cn_state := state, cn_updated := now env \<rparr> else y) (connections db0)) \<rparr> in
      case commit_provider db1 of
        Inl e \<Rightarrow> (Inl (Contract e), put_db db0 s)
      | Inr db2 \<Rightarrow> (Inr (respond c ''accepted'' None ''Signed GitHub installation state was recorded.''), put_db db2 s))"

section \<open>Pull requests\<close>

definition MONITORED_ACTIONS :: "string list" where
  "MONITORED_ACTIONS = [''opened'', ''reopened'', ''synchronize'', ''ready_for_review'']"

definition monitored_pull_request :: "github \<Rightarrow> hook_call \<Rightarrow> bool" where
  "monitored_pull_request g c = (hc_event c = ''pull_request'' \<and> payload_action g c \<in> set MONITORED_ACTIONS)"

definition DEPLOYMENT_EVENTS :: "string list" where
  "DEPLOYMENT_EVENTS = [''deployment'', ''deployment_status'']"

definition monitored_event :: "github \<Rightarrow> hook_call \<Rightarrow> bool" where
  "monitored_event g c = (monitored_pull_request g c \<or> hc_event c \<in> set (''workflow_run'' # DEPLOYMENT_EVENTS))"

definition label_names :: "github \<Rightarrow> pyval \<Rightarrow> app_error + string list" where
  "label_names g v = rbind (iter_of v) (\<lambda>xs. Inr (concat (map (\<lambda>x. case x of
     PDict d \<Rightarrow> let n = get_field d ''name'' in if truthy n then [str_of g n] else [] | _ \<Rightarrow> []) xs)))"

definition truncated :: "github \<Rightarrow> int \<Rightarrow> pyval \<Rightarrow> string option" where
  "truncated g n v = (if truthy v then Some (py_prefix n (str_of g v)) else None)"

definition pull_request_body :: "github \<Rightarrow> repository \<Rightarrow> pydict \<Rightarrow> app_error + analysis_request" where
  "pull_request_body g r pl =
     (let pr = section_of pl ''pull_request'' in
      rbind (vfield pr ''head'') (\<lambda>h.
      rbind (vget pr ''labels'' (PList [])) (\<lambda>ls.
      rbind (label_names g ls) (\<lambda>labels.
      rbind (vfield pr ''title'') (\<lambda>t.
      rbind (vfield pr ''user'') (\<lambda>u.
      rbind (vfield (py_or u (PDict [])) ''login'') (\<lambda>author.
      rbind (vfield (py_or h (PDict [])) ''sha'') (\<lambda>sha_value.
      rbind (vfield (py_or h (PDict [])) ''ref'') (\<lambda>ref_value.
      rbind (rmap (\<lambda>k. rbind (vfield pr k) (\<lambda>v. int_of (py_or v (PInt 0)))) [''changed_files'', ''additions'', ''deletions'']) (\<lambda>ns.
      Inr \<lparr> aq_title = py_prefix 240 (str_of g (py_or t (PStr ''Untitled pull request''))), aq_repository = r_full_name r,
        aq_author = py_prefix 160 (str_of g (py_or author (PStr ''unknown''))), aq_commit_sha = truncated g 64 sha_value,
        aq_branch = truncated g 160 ref_value, aq_environment = ''staging'', aq_files = ns ! 0, aq_added = ns ! 1, aq_deleted = ns ! 2,
        aq_services = [r_full_name r], aq_flags = take 99 labels @ [''provider-metadata-only''], aq_coverage = None, aq_rollback = None,
        aq_observability = None, aq_failures = None \<rparr>))))))))))"

definition analysis_view :: "hook_state \<Rightarrow> analysis_state" where
  "analysis_view s = \<lparr> ay_db = db_of s, ay_graphs = hk_graphs s \<rparr>"

definition queue_check ::
  "hook_world \<Rightarrow> environment \<Rightarrow> hook_call \<Rightarrow> connection \<Rightarrow> repository \<Rightarrow> string \<Rightarrow> hook_state \<Rightarrow> producer_error + job option \<times> jobs" where
  "queue_check w env c cn r change_id s =
     (case (hc_settings c, stored_change (db_of s) change_id) of
        (Some st, Some ch) \<Rightarrow>
          enqueue_github_check_publication st (gh_str (hw_github w)) (hw_job_others w) (fresh env 5) (now env) cn r ch
            (case hc_request_id c of Some q \<Rightarrow> if q = [] then ''github:'' @ hc_delivery c else q | None \<Rightarrow> ''github:'' @ hc_delivery c)
            (hc_traceparent c) (hc_tracestate c) False (hk_jobs s)
      | _ \<Rightarrow> Inr (None, hk_jobs s))"

text \<open>The body of the \<open>try\<close>: the analysis, the active change, the event, and in one commit the queued check and the status of the delivery.\<close>

definition analyze_pull_request ::
  "hook_world \<Rightarrow> environment \<Rightarrow> hook_call \<Rightarrow> connection \<Rightarrow> repository \<Rightarrow> string \<Rightarrow> hook_state \<Rightarrow> (producer_error + string \<times> job option) \<times> hook_state" where
  "analyze_pull_request w env c cn r k s =
     (case rbind (pull_request_body (hw_github w) r (hc_payload c)) validate_analysis_request of Inl e \<Rightarrow> (Inl (Contract e), s)
      | Inr q \<Rightarrow>
        (case analyze_change (hw_analyzer w) (now env) (hw_change_others w) (Some (cn_workspace cn)) (Some (r_id r)) None q (analysis_view s) of
           Inl e \<Rightarrow> (Inl (Contract e), s)
         | Inr (ch, a) \<Rightarrow>
           let s1 = put_db (ay_db a) s in
           (case active_scenario (base (db_of s1)) (Some (cn_workspace cn)) (Some (r_id r)) None of Inl e \<Rightarrow> (Inl (Contract e), s1)
            | Inr sc \<Rightarrow>
              let s2 = s1 \<lparr> hk_active := AList.update (s_id sc) (ch_id ch) (hk_active s1) \<rparr> in
              (case github_operational_event w (shifted 1 env) c cn r (db_of s2) of Inl e \<Rightarrow> (Inl (Contract e), s2)
               | Inr (_, db3) \<Rightarrow>
                 let s3 = put_db db3 s2 in
                 (case queue_check w env c cn r (ch_id ch) s3 of Inl e \<Rightarrow> (Inl e, s3)
                  | Inr (j, js) \<Rightarrow>
                    (Inr (ch_id ch, j), put_db (set_delivery_status k ''processed'' (db_of s3)) (s3 \<lparr> hk_jobs := js \<rparr>)))))))"

definition pull_request_text :: "job option \<Rightarrow> string" where
  "pull_request_text j = ''Pull request metadata was analyzed in its connected repository context. Verification evidence remains unknown '' @
     ''until a SHA-matched DeployGuard receipt exists.'' @ (if j = None then [] else '' GitHub Check publication was durably queued.'')"

definition process_pull_request :: "hook_world \<Rightarrow> environment \<Rightarrow> hook_call \<Rightarrow> connection \<Rightarrow> repository \<Rightarrow> string \<Rightarrow> hook_state \<Rightarrow> hook_result" where
  "process_pull_request w env c cn r k s =
     (let s0 = put_db (set_delivery_status k ''processing'' (db_of s)) s in
      case analyze_pull_request w env c cn r k s0 of
        (Inl e, s1) \<Rightarrow> (Inl e, put_db (set_delivery_status k ''failed'' (db_of s1)) s1)
      | (Inr (cid, j), s1) \<Rightarrow> (Inr (respond c ''accepted'' (Some cid) (pull_request_text j)), s1))"

section \<open>Workflow runs and deployments\<close>

definition process_provider_event ::
  "hook_world \<Rightarrow> environment \<Rightarrow> hook_call \<Rightarrow> connection \<Rightarrow> repository \<Rightarrow> bool \<Rightarrow> string \<Rightarrow> hook_state \<Rightarrow> hook_result" where
  "process_provider_event w env c cn r duplicate k s =
     (case github_operational_event w (shifted 1 env) c cn r (db_of s) of Inl e \<Rightarrow> (Inl (Contract e), s)
      | Inr (ev, db1) \<Rightarrow>
        let s1 = put_db db1 s;
            res = (if hc_event c \<in> set DEPLOYMENT_EVENTS
              then upsert_github_deployment (hw_github w) (hw_iso w) (shifted 3 env) (hw_deploy_others w)
                \<lparr> de_payload = hc_payload c, de_workspace = cn_workspace cn, de_repository = r, de_event_id = e_id ev,
                  de_occurred = e_occurred ev, de_installation = get_field (e_provenance ev) ''installation_id'', de_delivery = hc_delivery c \<rparr>
                (hk_deploy s1)
              else (Inr None, hk_deploy s1));
            s2 = s1 \<lparr> hk_deploy := snd res \<rparr> in
        case fst res of Inl e \<Rightarrow> (Inl (Contract e), s2)
        | Inr _ \<Rightarrow>
          (Inr (respond c ''accepted'' None (if duplicate then ''Duplicate delivery was reconciled with the event ledger.''
             else ''Verified provider event was durably recorded.'')),
           put_db (set_delivery_status k ''processed'' (db_of s2)) s2))"

section \<open>Linked installations\<close>

definition identity_mismatch :: "webhook_delivery \<Rightarrow> string \<Rightarrow> repository option \<Rightarrow> bool" where
  "identity_mismatch d i r \<longleftrightarrow> wd_installation d \<noteq> nonempty i \<or>
     (case (wd_repository d, r) of (Some x, Some y) \<Rightarrow> x \<noteq> r_id y | _ \<Rightarrow> False)"

definition process_recorded ::
  "hook_world \<Rightarrow> environment \<Rightarrow> hook_call \<Rightarrow> connection \<Rightarrow> repository option \<Rightarrow> bool \<Rightarrow> string \<Rightarrow> hook_state \<Rightarrow> hook_result" where
  "process_recorded w env c cn repo duplicate k s =
     (case repo of None \<Rightarrow> (Inr (respond c ''ignored'' None ''Repository is not selected for this workspace.''), s)
      | Some r \<Rightarrow>
        if monitored_pull_request (hw_github w) c then process_pull_request w env c cn r k s
        else if hc_event c \<in> set (''workflow_run'' # DEPLOYMENT_EVENTS) then process_provider_event w env c cn r duplicate k s
        else (Inr (respond c ''accepted'' None (if duplicate then ''Duplicate delivery was already recorded.''
               else ''Verified provider event was durably recorded.'')), s))"

definition delivery_status :: "github \<Rightarrow> hook_call \<Rightarrow> repository option \<Rightarrow> string" where
  "delivery_status g c repo = (if repo = None then ''ignored'' else if monitored_event g c then ''processing'' else ''verified'')"

definition process_linked ::
  "hook_world \<Rightarrow> environment \<Rightarrow> hook_call \<Rightarrow> string \<Rightarrow> connection \<Rightarrow> repository option \<Rightarrow> webhook_delivery option \<Rightarrow> hook_state \<Rightarrow> hook_result" where
  "process_linked w env c i cn repo existing s =
     (case existing of
        Some d \<Rightarrow>
          if identity_mismatch d i repo
          then (Inl (Contract (conflict ''GitHub delivery identity does not match the recorded event'' ''github_delivery_identity_mismatch'')), s)
          else if monitored_pull_request (hw_github w) c \<and> wd_status d = ''processed''
          then (Inr (respond c ''accepted'' None ''Duplicate delivery was already processed.''), s)
          else process_recorded w env c cn repo True (wd_id d) s
      | None \<Rightarrow>
          let d = new_delivery env c i (Some (cn_workspace cn)) (map_option r_id repo) (delivery_status (hw_github w) c repo);
              db0 = hw_delivery_others w (db_of s) in
          case commit_provider (db0 \<lparr> webhooks := webhooks db0 @ [d] \<rparr>) of
            Inl e \<Rightarrow> (Inl (Contract e), put_db db0 s)
          | Inr db1 \<Rightarrow> process_recorded w env c cn repo False (wd_id d) (put_db db1 s))"

section \<open>Unlinked installations\<close>

text \<open>\<open>value[:n]\<close> as a string field of a request.\<close>

definition sliced :: "int \<Rightarrow> pyval \<Rightarrow> app_error + string" where
  "sliced n v = (case v of PStr t \<Rightarrow> Inr (py_prefix n t) | PList _ \<Rightarrow> Inl app_error.ValueError | _ \<Rightarrow> Inl PyTypeError)"

definition synthetic_body :: "pydict \<Rightarrow> app_error + analysis_request" where
  "synthetic_body pl =
     (let pr = dget_or pl ''pull_request'' (PDict pl) in
      rbind (vget pr ''title'' (PStr ''GitHub Webhook Event'')) (\<lambda>title_value.
      rbind (vget (dget_or pl ''repository'' (PDict [])) ''full_name'' (PStr ''acme/checkout-platform'')) (\<lambda>repo.
      rbind (vget pr ''user'' (PDict [])) (\<lambda>u.
      rbind (vget u ''login'' (PStr ''github-app'')) (\<lambda>author.
      rbind (sliced 240 title_value) (\<lambda>t.
      rbind (sliced 240 repo) (\<lambda>r.
      rbind (sliced 160 author) (\<lambda>a.
      rbind (rmap (\<lambda>(k, d). rbind (vget pr k (PInt d)) int_of) [(''changed_files'', 5), (''additions'', 120), (''deletions'', 30)]) (\<lambda>ns.
      Inr \<lparr> aq_title = t, aq_repository = r, aq_author = a, aq_commit_sha = None, aq_branch = None, aq_environment = ''staging'',
        aq_files = ns ! 0, aq_added = ns ! 1, aq_deleted = ns ! 2, aq_services = [''checkout-api'', ''payment-adapter''],
        aq_flags = [''config-change'', ''retry-policy''], aq_coverage = Some (fl (75 / 100)), aq_rollback = Some True,
        aq_observability = Some (fl (90 / 100)), aq_failures = Some 1 \<rparr>)))))))))"

definition SYNTHETIC_EVENTS :: "string list" where
  "SYNTHETIC_EVENTS = [''pull_request'', ''workflow_run'', ''deployment_status'']"

definition installation_not_linked :: app_error where
  "installation_not_linked = not_found ''GitHub installation is not linked to a workspace'' ''github_installation_not_linked''"

definition process_unlinked :: "hook_world \<Rightarrow> environment \<Rightarrow> hook_call \<Rightarrow> hook_state \<Rightarrow> hook_result" where
  "process_unlinked w env c s =
     (if \<not> hc_fallback c then (Inl (Contract installation_not_linked), s)
      else if hc_event c \<notin> set SYNTHETIC_EVENTS
      then (Inr (respond c ''ignored'' None (''Event type '' @ [CHR 0x27] @ hc_event c @ [CHR 0x27] @ '' is not monitored.'')), s)
      else (case rbind (bound_tenant LEGACY_WORKSPACE_ID (db_of s)) (\<lambda>db.
            rbind (active_scenario (base db) None None None) (\<lambda>_.
            rbind (synthetic_body (hc_payload c)) (\<lambda>raw.
            rbind (validate_analysis_request raw) (\<lambda>q.
            analyze_change (hw_analyzer w) (now env) (hw_change_others w) None None None q \<lparr> ay_db = db, ay_graphs = hk_graphs s \<rparr>)))) of
          Inl e \<Rightarrow> (Inl (Contract e), s)
        | Inr (ch, a) \<Rightarrow>
            (Inr (respond c ''accepted'' (Some (ch_id ch)) (''Webhook processed and change risk analyzed (Score: '' @
               str_of (hw_github w) (dget_or (ch_risk ch) ''overall_score'' (PInt 0)) @ ''/100).'')), put_db (ay_db a) s)))"

section \<open>A delivery\<close>

definition not_configured :: app_error where
  "not_configured = DomainError ''GitHub webhook ingestion is not configured'' ''github_webhook_not_configured'' 503"

definition invalid_signature :: app_error where
  "invalid_signature = unauthorized ''Invalid GitHub Webhook HMAC Signature'' ''invalid_signature''"

text \<open>What follows the signature check.\<close>

definition process_verified :: "hook_world \<Rightarrow> environment \<Rightarrow> hook_call \<Rightarrow> hook_state \<Rightarrow> hook_result" where
  "process_verified w env c s =
     (let existing = find_delivery (db_of s) (hc_delivery c) in
      if existing \<noteq> None \<and> hc_event c \<notin> set RECONCILABLE_EVENTS
      then (Inr (respond c ''accepted'' None ''Duplicate delivery was already recorded.''), s)
      else (case payload_scope (hw_github w) (hc_payload c) of Inl e \<Rightarrow> (Inl (Contract e), s)
        | Inr (i, p) \<Rightarrow>
          (case linked_connection (db_of s) i of
             None \<Rightarrow> if hc_event c \<in> {''installation'', ''installation_repositories''} then record_installation w env c i None s
               else process_unlinked w env c s
           | Some cn \<Rightarrow>
             (case bound_tenant (cn_workspace cn) (db_of s) of Inl e \<Rightarrow> (Inl (Contract e), s)
              | Inr db \<Rightarrow>
                let s0 = put_db db s in
                if hc_event c \<in> {''installation'', ''installation_repositories''} then record_installation w env c i (Some cn) s0
                else process_linked w env c i cn (selected_repository db (cn_workspace cn) p) existing s0))))"

definition process_github_webhook :: "hook_world \<Rightarrow> environment \<Rightarrow> hook_call \<Rightarrow> hook_state \<Rightarrow> hook_result" where
  "process_github_webhook w env c s =
     (if hc_secret c = [] then (Inl (Contract not_configured), s)
      else if hc_signature c = [] then (Inl (Contract invalid_signature), s)
      else (case verify_github_signature (hw_hmac w) (hc_secret c) (hc_body c) (hc_signature c) of
          Inl e \<Rightarrow> (Inl (Contract e), s)
        | Inr False \<Rightarrow> (Inl (Contract invalid_signature), s)
        | Inr True \<Rightarrow> process_verified w env c s))"

section \<open>The route\<close>

record hook_request =
  hq_event :: string
  hq_delivery :: string
  hq_signature :: string
  hq_body :: string
  hq_json :: "pyval option" \<comment> \<open>the body as \<open>request.json\<close> reads it; \<open>None\<close> when it is not JSON\<close>
  hq_request_id :: "string option"
  hq_traceparent :: "string option"
  hq_tracestate :: "string option"

definition bad_request :: "string \<Rightarrow> string \<Rightarrow> app_error" where
  "bad_request d code = DomainError d code 400"

definition allow_synthetic_fallback :: "settings \<Rightarrow> bool" where
  "allow_synthetic_fallback st = (py_lower (Config.environment st) \<noteq> ''production'')"

definition github_webhook :: "hook_world \<Rightarrow> settings \<Rightarrow> environment \<Rightarrow> hook_request \<Rightarrow> hook_state \<Rightarrow> hook_result" where
  "github_webhook w st env q s =
     (let event = py_strip (hq_event q); delivery = py_strip (hq_delivery q) in
      if github_webhook_secret st = [] then (Inl (Contract not_configured), s)
      else if event = [] \<or> int (length event) > 100
      then (Inl (Contract (bad_request ''GitHub event header is missing or invalid'' ''invalid_github_event_header'')), s)
      else if delivery = [] \<or> int (length delivery) > 120
      then (Inl (Contract (bad_request ''GitHub delivery header is missing or invalid'' ''invalid_github_delivery_header'')), s)
      else if int (length (hq_body q)) > github_webhook_max_body_bytes st
      then (Inl (Contract (DomainError ''GitHub webhook body exceeds the configured limit'' ''github_webhook_body_too_large'' 413)), s)
      else (case hq_json q of
          None \<Rightarrow> (Inl (Contract (bad_request ''GitHub webhook body is not valid JSON'' ''invalid_github_webhook_json'')), s)
        | Some (PDict pl) \<Rightarrow> process_github_webhook w env
            \<lparr> hc_event = event, hc_delivery = delivery, hc_payload = pl, hc_signature = hq_signature q, hc_body = hq_body q,
              hc_secret = github_webhook_secret st, hc_fallback = allow_synthetic_fallback st, hc_settings = Some st,
              hc_request_id = hq_request_id q, hc_traceparent = hq_traceparent q, hc_tracestate = hq_tracestate q \<rparr> s
        | Some _ \<Rightarrow> (Inl (Contract (bad_request ''GitHub webhook body must be a JSON object'' ''invalid_github_webhook_payload'')), s)))"

section \<open>What a delivery leaves alone\<close>

lemmas hook_record_simps = put_db_def db_of_def analysis_view_def

lemma db_of_put_db [simp]: "db_of (put_db db s) = db" "hk_jobs (put_db db s) = hk_jobs s" "hk_graphs (put_db db s) = hk_graphs s"
  "hk_active (put_db db s) = hk_active s" "put_db db (put_db db' s) = put_db db s" "put_db (db_of s) s = s"
  by (simp_all add: put_db_def db_of_def)

lemma put_jobs: "db_of (s \<lparr> hk_jobs := js \<rparr>) = db_of s" "db_of (put_db db (s \<lparr> hk_jobs := js \<rparr>)) = db"
  by (simp_all add: db_of_def put_db_def)

lemma put_active: "db_of (s \<lparr> hk_active := d \<rparr>) = db_of s" "db_of (put_db db (s \<lparr> hk_active := d \<rparr>)) = db"
  "hk_jobs (put_db db (s \<lparr> hk_active := d \<rparr>)) = hk_jobs s"
  by (simp_all add: db_of_def put_db_def)

text \<open>No other request commits while this one runs.\<close>

definition quiet :: "hook_world \<Rightarrow> bool" where
  "quiet w \<longleftrightarrow> hw_delivery_others w = (\<lambda>s. s) \<and> hw_change_others w = (\<lambda>s. s) \<and> hw_event_others w = (\<lambda>s. s)"

definition same_links :: "provider \<Rightarrow> provider \<Rightarrow> bool" where
  "same_links db db' \<longleftrightarrow> connections db' = connections db \<and> repositories (base db') = repositories (base db) \<and>
     tenant (base db') = tenant (base db)"

lemma same_links_refl [simp]: "same_links db db"
  by (simp add: same_links_def)

lemma same_links_trans: "same_links a b \<Longrightarrow> same_links b c \<Longrightarrow> same_links a c"
  by (simp add: same_links_def)

lemma same_links_webhooks [simp]: "same_links a (b \<lparr> webhooks := x \<rparr>) = same_links a b"
  by (simp add: same_links_def)

lemma status_same_links [simp]: "same_links db (set_delivery_status k v db)"
  by (simp add: same_links_def set_delivery_status_def)

definition delivery_marked :: "string \<Rightarrow> string \<Rightarrow> webhook_delivery \<Rightarrow> webhook_delivery" where
  "delivery_marked k v d = (if wd_id d = k then d \<lparr> wd_status := v \<rparr> else d)"

lemma find_map: "(\<And>x. P (f x) = P x) \<Longrightarrow> find P (map f xs) = map_option f (find P xs)"
  by (induction xs) auto

lemma find_delivery_status: "find_delivery (set_delivery_status k v db) x = map_option (delivery_marked k v) (find_delivery db x)"
  unfolding find_delivery_def set_delivery_status_def delivery_marked_def provider.select_convs
  by (simp add: find_map)

lemma event_keeps_links:
  assumes "record_trusted_operational_event flt env (\<lambda>t. t) w ev req o' = Inr (e, o'')"
  shows "repositories (base o'') = repositories (base o') \<and> tenant (base o'') = tenant (base o')"
  using assms
  by (auto simp: record_trusted_operational_event_def record_normalized_operational_event_def insert_event_def Let_def result_simps
      commit_ops_def same_or_conflict_Inr audited_def audit_def split: if_splits option.splits)

lemma with_ops_parts:
  assumes "with_ops f s = Inr (x, s')"
  obtains o' where "f (ops.truncate s) = Inr (x, o')" "s' = ops.extend o' (ops.more s)"
    "connections s' = connections s" "webhooks s' = webhooks s" "changes s' = changes s" "base s' = base o'"
proof -
  obtain o' where o': "f (ops.truncate s) = Inr (x, o')" "s' = ops.extend o' (ops.more s)"
    using assms by (auto simp: with_ops_def result_simps)
  moreover have "connections s' = connections s" "webhooks s' = webhooks s" "changes s' = changes s" "base s' = base o'"
    unfolding o'(2) by (cases s, cases o', simp add: ops.defs)+
  ultimately show thesis by (rule that)
qed

lemma github_event_frame:
  assumes "github_operational_event w env c cn r db = Inr (e, db')"
  shows "webhooks db' = webhooks db \<and> changes db' = changes db" and "quiet w \<Longrightarrow> same_links db db'"
proof -
  obtain ev where "with_ops (record_trusted_operational_event (az_float (hw_analyzer w)) env (hw_event_others w) (cn_workspace cn) ev
      (''github:'' @ hc_delivery c)) db = Inr (e, db')"
    using assms by (auto simp: github_operational_event_def result_simps)
  then obtain o' where run: "record_trusted_operational_event (az_float (hw_analyzer w)) env (hw_event_others w) (cn_workspace cn) ev
      (''github:'' @ hc_delivery c) (ops.truncate db) = Inr (e, o')"
    and db': "connections db' = connections db" "webhooks db' = webhooks db" "changes db' = changes db" "base db' = base o'"
    by (rule with_ops_parts) blast
  show "webhooks db' = webhooks db \<and> changes db' = changes db" using db' by simp
  show "same_links db db'" if "quiet w"
    using event_keeps_links [of _ _ _ _ _ "ops.truncate db"] run that db' by (auto simp: quiet_def same_links_def ops.truncate_def)
qed

lemma analyzed_frame:
  assumes "analyze_change az t (\<lambda>s. s) wk rk k q s = Inr (c, s')"
  shows "same_links (ay_db s) (ay_db s') \<and> webhooks (ay_db s') = webhooks (ay_db s)"
proof -
  have "s' = s \<or> insert_change c (ay_db s) = Inr (ay_db s')" using assms by (rule analyze_change_cases) blast
  then show ?thesis by (auto simp: insert_change_Inr same_links_def)
qed

text \<open>A pull request that is analysed to the end leaves its delivery processed; one that fails queues nothing.\<close>

lemma analyze_pull_request_frame:
  assumes "quiet w" and "analyze_pull_request w env c cn r k s = (res, s')"
  shows "same_links (db_of s) (db_of s')"
    and "res = Inr x \<Longrightarrow> webhooks (db_of s') = map (delivery_marked k ''processed'') (webhooks (db_of s))"
    and "res = Inl e \<Longrightarrow> webhooks (db_of s') = webhooks (db_of s) \<and> hk_jobs s' = hk_jobs s"
proof -
  have quiet: "hw_change_others w = (\<lambda>s. s)" using assms(1) by (simp add: quiet_def)
  have analysed: "same_links (db_of s) (ay_db a) \<and> webhooks (ay_db a) = webhooks (db_of s)"
    if "analyze_change az t (\<lambda>s. s) wk rk None q (analysis_view s) = Inr (ch, a)" for az t wk rk q ch a
    using analyzed_frame [OF that] by (simp add: analysis_view_def)
  have recorded: "same_links db db' \<and> webhooks db' = webhooks db"
    if "github_operational_event w env c cn r db = Inr (ev, db')" for env ev db db'
    using github_event_frame [OF that] assms(1) by simp
  have "same_links (db_of s) (db_of s') \<and> (case res of
      Inr _ \<Rightarrow> webhooks (db_of s') = map (delivery_marked k ''processed'') (webhooks (db_of s))
    | Inl _ \<Rightarrow> webhooks (db_of s') = webhooks (db_of s) \<and> hk_jobs s' = hk_jobs s)"
    using assms(2) unfolding analyze_pull_request_def quiet Let_def
    by (auto simp: put_jobs put_active set_delivery_status_def delivery_marked_def cong: map_cong intro: same_links_trans
        dest!: analysed recorded split: sum.splits prod.splits)
  then show "same_links (db_of s) (db_of s')"
    "res = Inr x \<Longrightarrow> webhooks (db_of s') = map (delivery_marked k ''processed'') (webhooks (db_of s))"
    "res = Inl e \<Longrightarrow> webhooks (db_of s') = webhooks (db_of s) \<and> hk_jobs s' = hk_jobs s" by auto
qed

section \<open>Properties of the webhook\<close>

lemma verify_signature_True:
  "verify_github_signature hmac secret body signature = Inr True \<longleftrightarrow>
     secret \<noteq> [] \<and> signature = ''sha256='' @ hmac secret body \<and> list_all (\<lambda>c. nat_of_char c < 128) (hmac secret body)"
  (is "?l \<longleftrightarrow> ?r")
proof
  assume ?l
  then have "secret \<noteq> []" "py_startswith signature ''sha256=''" "compare_digest (hmac secret body) (drop 7 signature) = Inr True"
    by (simp_all add: verify_github_signature_def split: if_splits)
  moreover from this have "hmac secret body = drop 7 signature" "list_all (\<lambda>c. nat_of_char c < 128) (hmac secret body)"
    by (simp_all add: compare_digest_def split: if_splits)
  ultimately show ?r by (auto simp: py_startswith_iff)
next
  assume ?r
  then show ?l by (simp add: verify_github_signature_def compare_digest_def py_startswith_iff)
qed

text \<open>
  C37. Nothing happens without the signature: if the route answers a delivery with anything but an error, or changes any row, then a secret is
  configured, the header is exactly \<open>sha256=\<close> and the HMAC of the received bytes under that secret, the body is within the configured size and is a
  JSON object.
\<close>
theorem webhook_authenticated:
  assumes "github_webhook w st env q s = (res, s')" and "s' \<noteq> s \<or> res = Inr r"
  shows "github_webhook_secret st \<noteq> [] \<and> hq_signature q = ''sha256='' @ hw_hmac w (github_webhook_secret st) (hq_body q) \<and>
    int (length (hq_body q)) \<le> github_webhook_max_body_bytes st \<and> (\<exists>pl. hq_json q = Some (PDict pl))"
proof -
  obtain c where run: "process_github_webhook w env c s = (res, s')" and c: "hc_signature c = hq_signature q" "hc_body c = hq_body q"
      "hc_secret c = github_webhook_secret st" and q: "int (length (hq_body q)) \<le> github_webhook_max_body_bytes st" "\<exists>pl. hq_json q = Some (PDict pl)"
    using assms by (auto simp: github_webhook_def Let_def split: if_splits option.splits pyval.splits)
  have "verify_github_signature (hw_hmac w) (hc_secret c) (hc_body c) (hc_signature c) = Inr True"
    using run assms(2) by (auto simp: process_github_webhook_def split: if_splits sum.splits bool.splits)
  then show ?thesis using c q by (simp add: verify_signature_True)
qed

lemma find_delivery_marked:
  "webhooks db' = map (delivery_marked k v) (webhooks db) \<Longrightarrow> find_delivery db' x = map_option (delivery_marked k v) (find_delivery db x)"
  unfolding find_delivery_def by (simp add: find_map delivery_marked_def)

lemma process_pull_request_done:
  assumes "quiet w" and "process_pull_request w env c cn r k s = (res, s')" and "find_delivery (db_of s) x = Some d" and "wd_id d = k"
  shows "res = Inr y \<Longrightarrow> same_links (db_of s) (db_of s') \<and> find_delivery (db_of s') x = Some (d \<lparr> wd_status := ''processed'' \<rparr>) \<and> hr_change y \<noteq> None"
    and "res = Inl e \<Longrightarrow> find_delivery (db_of s') x = Some (d \<lparr> wd_status := ''failed'' \<rparr>) \<and> hk_jobs s' = hk_jobs s"
proof -
  let ?db0 = "set_delivery_status k ''processing'' (db_of s)"
  obtain out s1 where run: "analyze_pull_request w env c cn r k (put_db ?db0 s) = (out, s1)" by fastforce
  note frame = analyze_pull_request_frame [OF assms(1) run, unfolded db_of_put_db]
  have first: "find_delivery ?db0 x = Some (d \<lparr> wd_status := ''processing'' \<rparr>)"
    using assms(3,4) by (simp add: find_delivery_status delivery_marked_def)
  show "same_links (db_of s) (db_of s') \<and> find_delivery (db_of s') x = Some (d \<lparr> wd_status := ''processed'' \<rparr>) \<and> hr_change y \<noteq> None" if ok: "res = Inr y"
  proof -
    obtain cid j where out: "out = Inr (cid, j)" "s' = s1" "hr_change y = Some cid"
      using assms(2) ok run by (cases out) (auto simp: process_pull_request_def Let_def respond_def)
    have "same_links (db_of s) (db_of s1)" using frame(1) status_same_links same_links_trans by blast
    moreover have "find_delivery (db_of s1) x = Some (d \<lparr> wd_status := ''processed'' \<rparr>)"
      using find_delivery_marked [OF frame(2) [OF out(1)]] first assms(4) by (simp add: delivery_marked_def)
    ultimately show ?thesis using out by simp
  qed
  show "find_delivery (db_of s') x = Some (d \<lparr> wd_status := ''failed'' \<rparr>) \<and> hk_jobs s' = hk_jobs s" if "res = Inl e"
  proof -
    have out: "out = Inl e" "s' = put_db (set_delivery_status k ''failed'' (db_of s1)) s1"
      using assms(2) that run by (cases out; auto simp: process_pull_request_def Let_def)+
    have "find_delivery (db_of s1) x = Some (d \<lparr> wd_status := ''processing'' \<rparr>)"
      using frame(3) [OF out(1)] first by (simp only: find_delivery_def)
    then show ?thesis using out(2) assms(4) frame(3) [OF out(1)] by (simp only: db_of_put_db find_delivery_status) (simp add: delivery_marked_def)
  qed
qed

lemma new_delivery_found:
  "find_delivery db (hc_delivery c) = None \<Longrightarrow> find_delivery (db \<lparr> webhooks := webhooks db @ [new_delivery env c i v r st] \<rparr>) (hc_delivery c) =
     Some (new_delivery env c i v r st)"
  by (simp add: find_delivery_def find_append new_delivery_def)

text \<open>What is recorded once a monitored pull request of a linked installation is handled.\<close>

lemma process_linked_recorded:
  assumes "quiet w" and "monitored_pull_request (hw_github w) c"
    and "process_linked w env c i cn (Some r) (find_delivery (db_of s) (hc_delivery c)) s = (res, s')"
  obtains d s0 where "find_delivery (db_of s0) (hc_delivery c) = Some d" "\<not> identity_mismatch d i (Some r)" "same_links (db_of s) (db_of s0)"
      "hk_jobs s0 = hk_jobs s" "process_pull_request w env c cn r (wd_id d) s0 = (res, s')"
    | e where "res = Inl e" "hk_jobs s' = hk_jobs s"
    | rsp where "res = Inr rsp" "hr_change rsp = None" "hk_jobs s' = hk_jobs s"
proof (cases "find_delivery (db_of s) (hc_delivery c)")
  case None
  let ?d = "new_delivery env c i (Some (cn_workspace cn)) (Some (r_id r)) (delivery_status (hw_github w) c (Some r))"
  let ?db = "(db_of s) \<lparr> webhooks := webhooks (db_of s) @ [?d] \<rparr>"
  have "hw_delivery_others w = (\<lambda>s. s)" using assms(1) by (simp add: quiet_def)
  note run = assms(3) [unfolded process_linked_def None this Let_def, simplified]
  show ?thesis
  proof (cases "provider_unique ?db")
    case True
    show ?thesis
    proof (rule that(1) [of "put_db ?db s" ?d])
      show "process_pull_request w env c cn r (wd_id ?d) (put_db ?db s) = (res, s')"
        using run True assms(2) by (simp add: commit_provider_def process_recorded_def)
      show "find_delivery (db_of (put_db ?db s)) (hc_delivery c) = Some ?d" using new_delivery_found [OF None] by simp
    qed (simp_all add: identity_mismatch_def new_delivery_def)
  next
    case False
    with run that(2) show ?thesis by (auto simp: commit_provider_def)
  qed
next
  case (Some d)
  note run = assms(3) [unfolded process_linked_def Some option.case]
  consider "identity_mismatch d i (Some r)" | "\<not> identity_mismatch d i (Some r)" "wd_status d = ''processed''"
    | "\<not> identity_mismatch d i (Some r)" "wd_status d \<noteq> ''processed''" by blast
  then show ?thesis
  proof cases
    case 1
    with run that(2) show ?thesis by auto
  next
    case 2
    with run assms(2) that(3) show ?thesis by (auto simp: respond_def)
  next
    case 3
    with run assms(2) that(1) [of s d] Some show ?thesis by (simp add: process_recorded_def)
  qed
qed

lemma bound_tenant_Inr: "bound_tenant v db = Inr db' \<longleftrightarrow> is_ok (validate_workspace_id v) \<and> db' = db \<lparr> base := (base db) \<lparr> tenant := Some (py_strip v) \<rparr> \<rparr>"
  by (auto simp: bound_tenant_def set_tenant_context_def validate_workspace_id_def result_simps Let_def is_ok_def)

lemma bound_tenant_again: "bound_tenant v db = Inr db0 \<Longrightarrow> same_links db0 db1 \<Longrightarrow> bound_tenant v db1 = Inr db1"
  by (simp add: bound_tenant_Inr same_links_def)

lemma same_links_reads:
  assumes "same_links db db'"
  shows "linked_connection db' i = linked_connection db i" "selected_repository db' v p = selected_repository db v p"
  using assms by (simp_all add: same_links_def linked_connection_def selected_repository_def)

lemma bound_tenant_reads:
  assumes "bound_tenant v db = Inr db0"
  shows "find_delivery db0 k = find_delivery db k" "linked_connection db0 i = linked_connection db i"
  using assms by (auto simp: bound_tenant_Inr find_delivery_def linked_connection_def)

text \<open>The path of a pull request of a linked installation.\<close>

lemma process_verified_pull_request:
  assumes "monitored_pull_request (hw_github w) c" and "payload_scope (hw_github w) (hc_payload c) = Inr (i, p)"
    and "linked_connection (db_of s) i = Some cn" and "bound_tenant (cn_workspace cn) (db_of s) = Inr db"
  shows "process_verified w env c s = process_linked w env c i cn (selected_repository db (cn_workspace cn) p)
    (find_delivery (db_of s) (hc_delivery c)) (put_db db s)"
  using assms by (simp add: process_verified_def Let_def monitored_pull_request_def RECONCILABLE_EVENTS_def)

text \<open>
  C38. A pull request is handled once: after a delivery for a linked installation was answered with the change it was analysed into, the same
  delivery, sent again at any later time, is answered as a duplicate and changes nothing: no second change, event or check publication.
  (No other request commits while either is handled, or between the two.)
\<close>
theorem pull_request_redelivery:
  assumes "quiet w" and "monitored_pull_request (hw_github w) c" and "process_github_webhook w env c s = (Inr rsp, s')"
    and "hr_change rsp = Some cid" and "payload_scope (hw_github w) (hc_payload c) = Inr (i, p)" and "linked_connection (db_of s) i = Some cn"
  shows "process_github_webhook w env' c s' = (Inr (respond c ''accepted'' None ''Duplicate delivery was already processed.''), s')"
proof -
  have entry: "process_github_webhook w e c x = process_verified w e c x" for e x
    using assms(3) by (simp add: process_github_webhook_def split: if_splits sum.splits bool.splits)
  obtain db where db: "bound_tenant (cn_workspace cn) (db_of s) = Inr db"
    using assms(2,3,5,6) unfolding entry
    by (auto simp: process_verified_def Let_def monitored_pull_request_def RECONCILABLE_EVENTS_def split: sum.splits)
  let ?s0 = "put_db db s" and ?repo = "selected_repository db (cn_workspace cn) p"
  have run: "process_linked w env c i cn ?repo (find_delivery (db_of ?s0) (hc_delivery c)) ?s0 = (Inr rsp, s')"
    using assms(3) unfolding entry process_verified_pull_request [OF assms(2,5,6) db] by (simp add: bound_tenant_reads [OF db])
  obtain r where r: "?repo = Some r" using run assms(4)
    by (auto simp: process_linked_def process_recorded_def respond_def Let_def split: option.splits if_splits sum.splits)
  obtain d where d: "find_delivery (db_of s') (hc_delivery c) = Some d" "wd_status d = ''processed''" "\<not> identity_mismatch d i (Some r)"
    and links: "same_links db (db_of s')"
    using assms(1,2) run [unfolded r]
  proof (rule process_linked_recorded)
    fix d s1
    assume s1: "find_delivery (db_of s1) (hc_delivery c) = Some d" "\<not> identity_mismatch d i (Some r)" "same_links (db_of ?s0) (db_of s1)"
      and pr: "process_pull_request w env c cn r (wd_id d) s1 = (Inr rsp, s')"
    from process_pull_request_done(1) [OF assms(1) pr s1(1) refl refl] s1 show ?thesis
      by (intro that [of "d \<lparr> wd_status := ''processed'' \<rparr>"]) (auto simp: identity_mismatch_def elim: same_links_trans)
  qed (use assms(4) in auto)
  have cn': "linked_connection (db_of s') i = Some cn" and repo': "selected_repository (db_of s') (cn_workspace cn) p = Some r"
    using same_links_reads [OF links] assms(6) r bound_tenant_reads(2) [OF db] by simp_all
  have "bound_tenant (cn_workspace cn) (db_of s') = Inr (db_of s')" using db links by (rule bound_tenant_again)
  then have "process_github_webhook w env' c s' = process_linked w env' c i cn (Some r) (Some d) s'"
    unfolding entry using process_verified_pull_request [OF assms(2,5) cn'] repo' d(1) by simp
  then show ?thesis using d(2,3) assms(2) by (simp add: process_linked_def)
qed

lemma installation_keeps_jobs: "record_installation w env c i cn s = (res, s') \<Longrightarrow> hk_jobs s' = hk_jobs s"
  by (auto simp: record_installation_def Let_def split: sum.splits)

lemma unlinked_keeps_jobs: "process_unlinked w env c s = (res, s') \<Longrightarrow> hk_jobs s' = hk_jobs s"
  by (auto simp: process_unlinked_def split: sum.splits if_splits)

lemma provider_event_keeps_jobs: "process_provider_event w env c cn r dup k s = (res, s') \<Longrightarrow> hk_jobs s' = hk_jobs s"
  by (auto simp: process_provider_event_def Let_def put_db_def split: sum.splits)

lemma linked_keeps_jobs:
  assumes "process_linked w env c i cn repo existing s = (res, s')" and "\<not> monitored_pull_request (hw_github w) c \<or> repo = None"
  shows "hk_jobs s' = hk_jobs s"
proof -
  have recorded: "hk_jobs t' = hk_jobs t" if "process_recorded w env c cn repo dup k t = (res, t')" for dup k t t'
    using that assms(2) by (auto simp: process_recorded_def dest: provider_event_keeps_jobs split: option.splits if_splits)
  show ?thesis using assms(1)
    by (auto simp: process_linked_def Let_def dest!: recorded split: option.splits if_splits sum.splits)
qed

text \<open>
  C39. When no other request commits while a delivery is handled (\<open>quiet\<close>, as for C38), a check publication is queued only together with the
  processed mark: if the delivery changes the job queue at all, it is a monitored pull request, it is answered with a change, and its row in the
  delivery ledger is processed in the same committed state. So a delivery that is answered with an error has queued nothing.
\<close>
theorem check_queued_when_processed:
  assumes "quiet w" and "process_github_webhook w env c s = (res, s')" and "hk_jobs s' \<noteq> hk_jobs s"
  shows "monitored_pull_request (hw_github w) c \<and> (\<exists>rsp. res = Inr rsp \<and> hr_change rsp \<noteq> None) \<and>
    map_option wd_status (find_delivery (db_of s') (hc_delivery c)) = Some ''processed''"
proof -
  have "process_verified w env c s = (res, s')"
    using assms(2,3) by (auto simp: process_github_webhook_def split: if_splits sum.splits bool.splits)
  then obtain i cn db p where db: "bound_tenant (cn_workspace cn) (db_of s) = Inr db"
    and run: "process_linked w env c i cn (selected_repository db (cn_workspace cn) p) (find_delivery (db_of s) (hc_delivery c)) (put_db db s) = (res, s')"
    using assms(3)
    by (auto simp: process_verified_def Let_def dest!: installation_keeps_jobs unlinked_keeps_jobs split: if_splits sum.splits option.splits)
  have jobs: "hk_jobs s' \<noteq> hk_jobs (put_db db s)" using assms(3) by simp
  obtain r where pr: "monitored_pull_request (hw_github w) c" and r: "selected_repository db (cn_workspace cn) p = Some r"
    using linked_keeps_jobs [OF run] jobs by blast
  have "process_linked w env c i cn (Some r) (find_delivery (db_of (put_db db s)) (hc_delivery c)) (put_db db s) = (res, s')"
    using run r bound_tenant_reads(1) [OF db] by simp
  with assms(1) pr show ?thesis
  proof (rule process_linked_recorded)
    fix d s1
    assume s1: "find_delivery (db_of s1) (hc_delivery c) = Some d" "hk_jobs s1 = hk_jobs (put_db db s)"
      and step: "process_pull_request w env c cn r (wd_id d) s1 = (res, s')"
    then obtain rsp where "res = Inr rsp"
      using process_pull_request_done(2) [OF assms(1) step s1(1) refl] jobs by (cases res) auto
    with process_pull_request_done(1) [OF assms(1) step s1(1) refl] pr show ?thesis by simp
  qed (use jobs in auto)
qed

section \<open>A concrete delivery\<close>

lemma analyze_change_fresh:
  assumes "active_scenario (base (ay_db s)) wk rk k = Inr sc"
    and "analysis_graph (workspace_catalog (services (ay_db s)) (s_workspace sc)) (graph_of s sc) rk (aq_services q) = Inr (g, roots)"
    and "digest = az_sha256 az (canonical_analysis (az_float az) sc q g roots)"
    and "provider_unique (ay_db s)" and "analysis_id digest \<notin> ch_id ` set (changes (ay_db s))"
  shows "analyze_change az t (\<lambda>s. s) wk rk k q s = Inr (analyzed_change az t sc q g roots digest,
    s \<lparr> ay_db := (ay_db s) \<lparr> changes := changes (ay_db s) @ [analyzed_change az t sc q g roots digest] \<rparr> \<rparr>)"
proof -
  have "stored_change (ay_db s) (analysis_id digest) = None" using assms(5) by (force simp: stored_change_def find_None_iff)
  then show ?thesis
    using assms insert_change_fresh [of "ay_db s" "analyzed_change az t sc q g roots digest"]
    by (simp add: analyze_change_def Let_def analyzed_change_simps)
qed

lemma with_ops_changes: "isl (with_ops f (s \<lparr> changes := x \<rparr>)) = isl (with_ops f s)"
  by (cases "f (ops.truncate s)") (auto simp: with_ops_def ops.truncate_def)

lemma isl_rbind: "isl (rbind r f) = (case r of Inl _ \<Rightarrow> True | Inr x \<Rightarrow> isl (f x))"
  by (cases r) simp_all

lemma event_changes: "isl (github_operational_event w env c cn r (s \<lparr> changes := x \<rparr>)) = isl (github_operational_event w env c cn r s)"
  by (simp only: github_operational_event_def isl_rbind with_ops_changes)

definition demo_world :: hook_world where
  "demo_world = \<lparr> hw_github = demo_github, hw_hmac = (\<lambda>k b. ''beef''), hw_iso = demo_iso, hw_size = (\<lambda>_. 100), hw_analyzer = demo_analyzer,
     hw_delivery_others = (\<lambda>s. s), hw_change_others = (\<lambda>s. s), hw_event_others = (\<lambda>s. s), hw_deploy_others = (\<lambda>s. s), hw_job_others = (\<lambda>s. s) \<rparr>"

definition demo_hook_settings :: settings where
  "demo_hook_settings = default_settings \<lparr> github_webhook_secret := ''s'', github_checks_enabled := True \<rparr>"

definition demo_pull_request :: hook_call where
  "demo_pull_request = \<lparr> hc_event = ''pull_request'', hc_delivery = ''d1'', hc_payload = [(PStr ''action'', PStr ''opened''),
       (PStr ''installation'', PDict [(PStr ''id'', PInt 42)]), (PStr ''repository'', PDict [(PStr ''id'', PInt 77)]),
       (PStr ''pull_request'', PDict [(PStr ''title'', PStr ''Retry''), (PStr ''changed_files'', PInt 2)])],
     hc_signature = ''sha256=beef'', hc_body = ''b'', hc_secret = ''s'', hc_fallback = True, hc_settings = Some demo_hook_settings,
     hc_request_id = None, hc_traceparent = None, hc_tracestate = None \<rparr>"

definition demo_hook_db :: provider where
  "demo_hook_db = demo_provider \<lparr> base := (base demo_provider) \<lparr> scenarios := [demo_scenario], repositories := [demo_repository], tenant := Some ''w1'' \<rparr> \<rparr>"

definition demo_hook :: hook_state where
  "demo_hook = \<lparr> hk_deploy = \<lparr> dy_db = demo_hook_db, dy_rows = [] \<rparr>, hk_jobs = [], hk_graphs = [(''s1'', demo_topology False)], hk_active = [] \<rparr>"

definition demo_row :: webhook_delivery where
  "demo_row = new_delivery (demo_env 5 ''h'') demo_pull_request ''42'' (Some ''w1'') (Some ''r1'') ''processing''"

definition demo_recorded :: hook_state where
  "demo_recorded = put_db (set_delivery_status (wd_id demo_row) ''processing'' (demo_hook_db \<lparr> webhooks := [demo_row] \<rparr>)) demo_hook"

lemma demo_quiet: "quiet demo_world"
  by (simp add: quiet_def demo_world_def)

lemma demo_monitored: "monitored_pull_request (hw_github demo_world) demo_pull_request"
  by code_simp

lemma demo_links:
  "payload_scope (hw_github demo_world) (hc_payload demo_pull_request) = Inr (''42'', ''77'')"
  "linked_connection (db_of demo_hook) ''42'' = Some demo_connection"
  "bound_tenant (cn_workspace demo_connection) (db_of demo_hook) = Inr demo_hook_db"
  "selected_repository demo_hook_db (cn_workspace demo_connection) ''77'' = Some demo_repository"
  by code_simp+

lemma demo_signed: "verify_github_signature (hw_hmac demo_world) (hc_secret demo_pull_request) (hc_body demo_pull_request) (hc_signature demo_pull_request) = Inr True"
  by code_simp

definition demo_pr_body :: analysis_request where
  "demo_pr_body = (case rbind (pull_request_body (hw_github demo_world) demo_repository (hc_payload demo_pull_request)) validate_analysis_request of
     Inr q \<Rightarrow> q | Inl _ \<Rightarrow> demo_body)"

lemma demo_pr_valid: "rbind (pull_request_body (hw_github demo_world) demo_repository (hc_payload demo_pull_request)) validate_analysis_request = Inr demo_pr_body"
  by code_simp

lemma demo_recorded_facts:
  "active_scenario (base (db_of demo_recorded)) (Some ''w1'') (Some ''r1'') None = Inr demo_scenario"
  "analysis_graph (workspace_catalog (services (db_of demo_recorded)) (s_workspace demo_scenario)) (graph_of (analysis_view demo_recorded) demo_scenario)
     (Some ''r1'') (aq_services demo_pr_body) = Inr (demo_topology False, [''acme/shop''])"
  "provider_unique (db_of demo_recorded)"
  "map ch_id (changes (db_of demo_recorded)) = [''ch1'']"
  "\<not> isl (github_operational_event demo_world (shifted 1 (demo_env 5 ''h'')) demo_pull_request demo_connection demo_repository (db_of demo_recorded))"
  by code_simp+

definition demo_pr_change :: change where
  "demo_pr_change = analyzed_change demo_analyzer 5 demo_scenario demo_pr_body (demo_topology False) [''acme/shop''] ''0123456789abcdef''"

lemma demo_pr_change_fields:
  "ch_id demo_pr_change = ''chg-analysis-0123456789ab''" "ch_workspace demo_pr_change = ''w1''" "ch_repository demo_pr_change = ''r1''"
  "ch_data_mode demo_pr_change = ''connected''"
  unfolding demo_pr_change_def analyzed_change_simps by (simp_all add: analysis_id_def demo_scenario_def)

lemma demo_pr_analysed:
  "analyze_change (hw_analyzer demo_world) 5 (\<lambda>s. s) (Some ''w1'') (Some ''r1'') None demo_pr_body (analysis_view demo_recorded) =
     Inr (demo_pr_change, \<lparr> ay_db = (db_of demo_recorded) \<lparr> changes := changes (db_of demo_recorded) @ [demo_pr_change] \<rparr>, ay_graphs = hk_graphs demo_recorded \<rparr>)"
proof -
  have world: "hw_analyzer demo_world = demo_analyzer" by (simp add: demo_world_def)
  have view: "ay_db (analysis_view demo_recorded) = db_of demo_recorded" by (simp add: analysis_view_def)
  have "analysis_id ''0123456789abcdef'' \<notin> ch_id ` set (changes (db_of demo_recorded))"
    unfolding set_map [symmetric] demo_recorded_facts(4) by (simp add: analysis_id_def)
  then have "analyze_change demo_analyzer 5 (\<lambda>s. s) (Some ''w1'') (Some ''r1'') None demo_pr_body (analysis_view demo_recorded) =
     Inr (demo_pr_change, (analysis_view demo_recorded) \<lparr> ay_db := (db_of demo_recorded) \<lparr> changes := changes (db_of demo_recorded) @ [demo_pr_change] \<rparr> \<rparr>)"
    unfolding demo_pr_change_def
    using analyze_change_fresh [of "analysis_view demo_recorded", unfolded view, OF demo_recorded_facts(1,2) _ demo_recorded_facts(3),
        of "''0123456789abcdef''" demo_analyzer] demo_digest by simp
  then show ?thesis by (simp add: analysis_view_def world)
qed

definition job_queued :: "producer_error + job option \<times> jobs \<Rightarrow> bool" where
  "job_queued r = (case r of Inr (Some j, js) \<Rightarrow> js \<noteq> [] | _ \<Rightarrow> False)"

text \<open>The queued job depends on four columns of the change.\<close>

lemma demo_job_queued:
  "job_queued (enqueue_github_check_publication demo_hook_settings (gh_str demo_github) (\<lambda>s. s) u 5 demo_connection demo_repository demo_pr_change
     ''github:d1'' None None False [])"
proof -
  let ?ch = "demo_change \<lparr> ch_id := ''chg-analysis-0123456789ab'' \<rparr>"
  let ?queue = "\<lambda>ch. enqueue_github_check_publication demo_hook_settings (gh_str demo_github) (\<lambda>s. s) u 5 demo_connection demo_repository ch ''github:d1'' None None False []"
  have "job_queued (?queue ?ch)" by code_simp
  moreover have "?queue demo_pr_change = ?queue ?ch"
    by (simp only: enqueue_github_check_publication_def check_job_def demo_pr_change_fields change.simps demo_change_def)
  ultimately show ?thesis by simp
qed

lemma demo_pr_runs:
  "\<exists>j s'. analyze_pull_request demo_world (demo_env 5 ''h'') demo_pull_request demo_connection demo_repository (wd_id demo_row) demo_recorded =
     (Inr (ch_id demo_pr_change, j), s') \<and> hk_jobs s' \<noteq> []"
proof -
  let ?db = "(db_of demo_recorded) \<lparr> changes := changes (db_of demo_recorded) @ [demo_pr_change] \<rparr>"
  let ?event = "github_operational_event demo_world (shifted 1 (demo_env 5 ''h'')) demo_pull_request demo_connection demo_repository"
  have "\<not> isl (?event ?db)" using demo_recorded_facts(5) by (simp only: event_changes simp_thms)
  then obtain ev db3 where ev: "?event ?db = Inr (ev, db3)" by (cases "?event ?db") auto
  have "stored_change db3 (ch_id demo_pr_change) = Some demo_pr_change"
    using github_event_frame(1) [OF ev] demo_recorded_facts(4)
    by (intro stored_change_eq) (simp_all add: demo_pr_change_fields)
  then have queue: "queue_check demo_world (demo_env 5 ''h'') demo_pull_request demo_connection demo_repository (ch_id demo_pr_change) (put_db db3 s) =
      enqueue_github_check_publication demo_hook_settings (gh_str demo_github) (\<lambda>s. s) (fresh (demo_env 5 ''h'') 5) 5 demo_connection demo_repository demo_pr_change
        ''github:d1'' None None False (hk_jobs s)" for s
    by (simp add: queue_check_def demo_pull_request_def demo_world_def demo_env_def)
  obtain j js where job: "enqueue_github_check_publication demo_hook_settings (gh_str demo_github) (\<lambda>s. s) (fresh (demo_env 5 ''h'') 5) 5 demo_connection
      demo_repository demo_pr_change ''github:d1'' None None False [] = Inr (Some j, js)" "js \<noteq> []"
    using demo_job_queued [of "fresh (demo_env 5 ''h'') 5"] by (auto simp: job_queued_def split: sum.splits option.splits)
  have names: "cn_workspace demo_connection = ''w1''" "r_id demo_repository = ''r1''" "now (demo_env 5 ''h'') = 5" "hw_change_others demo_world = (\<lambda>s. s)"
    "hk_jobs demo_recorded = []" "base ?db = base (db_of demo_recorded)"
    by (simp_all add: demo_connection_def demo_repository_def demo_env_def demo_world_def demo_recorded_def demo_hook_def put_db_def)
  show ?thesis
    unfolding analyze_pull_request_def demo_pr_valid names demo_pr_analysed sum.case prod.case analysis_state.select_convs Let_def
    using ev queue job demo_recorded_facts(1) by (simp add: put_active names)
qed

lemma demo_hook_run:
  obtains rsp s' where "process_github_webhook demo_world (demo_env 5 ''h'') demo_pull_request demo_hook = (Inr rsp, s')"
    "hr_change rsp = Some ''chg-analysis-0123456789ab''" "hk_jobs s' \<noteq> []"
proof -
  obtain j s' where run: "analyze_pull_request demo_world (demo_env 5 ''h'') demo_pull_request demo_connection demo_repository (wd_id demo_row) demo_recorded =
      (Inr (ch_id demo_pr_change, j), s')" and jobs: "hk_jobs s' \<noteq> []" using demo_pr_runs by blast
  have fields: "find_delivery (db_of demo_hook) (hc_delivery demo_pull_request) = None" "webhooks demo_hook_db = []"
      "provider_unique (demo_hook_db \<lparr> webhooks := [demo_row] \<rparr>)" "delivery_status (hw_github demo_world) demo_pull_request (Some demo_repository) = ''processing''"
      "cn_workspace demo_connection = ''w1''" "r_id demo_repository = ''r1''"
    by code_simp+
  have db: "db_of (put_db demo_hook_db demo_hook) = demo_hook_db" by simp
  have "process_linked demo_world (demo_env 5 ''h'') demo_pull_request ''42'' demo_connection (Some demo_repository) None (put_db demo_hook_db demo_hook) =
      process_pull_request demo_world (demo_env 5 ''h'') demo_pull_request demo_connection demo_repository (wd_id demo_row) (put_db (demo_hook_db \<lparr> webhooks := [demo_row] \<rparr>) demo_hook)"
    using fields(2-6) demo_quiet demo_monitored
    by (simp add: process_linked_def process_recorded_def quiet_def Let_def commit_provider_def demo_row_def)
  also have "\<dots> = (Inr (respond demo_pull_request ''accepted'' (Some (ch_id demo_pr_change)) (pull_request_text j)), s')"
    using run by (simp add: process_pull_request_def demo_recorded_def)
  finally have "process_verified demo_world (demo_env 5 ''h'') demo_pull_request demo_hook =
      (Inr (respond demo_pull_request ''accepted'' (Some (ch_id demo_pr_change)) (pull_request_text j)), s')"
    using process_verified_pull_request [OF demo_monitored demo_links(1-3), of "demo_env 5 ''h''"] demo_links(4) fields(1) by simp
  then have "process_github_webhook demo_world (demo_env 5 ''h'') demo_pull_request demo_hook =
      (Inr (respond demo_pull_request ''accepted'' (Some (ch_id demo_pr_change)) (pull_request_text j)), s')"
    using demo_signed by (simp add: process_github_webhook_def demo_pull_request_def)
  moreover have "hr_change (respond demo_pull_request ''accepted'' (Some (ch_id demo_pr_change)) (pull_request_text j)) = Some ''chg-analysis-0123456789ab''"
    unfolding respond_def demo_pr_change_fields by (rule hook_response.select_convs)
  ultimately show thesis using jobs by (rule that)
qed

theorem pull_request_redelivery_witness:
  "\<exists>rsp s'. process_github_webhook demo_world (demo_env 5 ''h'') demo_pull_request demo_hook = (Inr rsp, s') \<and>
     process_github_webhook demo_world (demo_env 9 ''i'') demo_pull_request s' =
       (Inr (respond demo_pull_request ''accepted'' None ''Duplicate delivery was already processed.''), s')"
  using demo_hook_run pull_request_redelivery [OF demo_quiet demo_monitored _ _ demo_links(1,2)] by metis

theorem check_queued_when_processed_witness:
  "\<exists>rsp s'. process_github_webhook demo_world (demo_env 5 ''h'') demo_pull_request demo_hook = (Inr rsp, s') \<and>
     map_option wd_status (find_delivery (db_of s') ''d1'') = Some ''processed''"
proof -
  obtain rsp s' where run: "process_github_webhook demo_world (demo_env 5 ''h'') demo_pull_request demo_hook = (Inr rsp, s')" and jobs: "hk_jobs s' \<noteq> []"
    by (rule demo_hook_run)
  moreover have "hk_jobs demo_hook = []" "hc_delivery demo_pull_request = ''d1''" by (simp_all add: demo_hook_def demo_pull_request_def)
  ultimately show ?thesis using check_queued_when_processed [OF demo_quiet run] by auto
qed

text \<open>A signed event that the application does not act on.\<close>

definition demo_ping :: hook_request where
  "demo_ping = \<lparr> hq_event = ''ping'', hq_delivery = ''d2'', hq_signature = ''sha256=beef'', hq_body = ''b'', hq_json = Some (PDict []),
     hq_request_id = None, hq_traceparent = None, hq_tracestate = None \<rparr>"

lemma demo_ping_answered: "\<exists>r s'. github_webhook demo_world demo_hook_settings (demo_env 5 ''h'') demo_ping demo_hook = (Inr r, s')"
proof -
  have "\<not> isl (fst (github_webhook demo_world demo_hook_settings (demo_env 5 ''h'') demo_ping demo_hook))" by code_simp
  then show ?thesis by (cases "github_webhook demo_world demo_hook_settings (demo_env 5 ''h'') demo_ping demo_hook"; cases "fst (github_webhook demo_world demo_hook_settings (demo_env 5 ''h'') demo_ping demo_hook)") auto
qed

theorem webhook_authenticated_witness:
  "hq_signature demo_ping = ''sha256='' @ hw_hmac demo_world (github_webhook_secret demo_hook_settings) (hq_body demo_ping)"
  using demo_ping_answered webhook_authenticated by blast

text \<open>\<open>hmac.compare_digest\<close> raises for a signature with a character outside ASCII: such a request fails instead of being refused.\<close>

lemma non_ascii_signature_raises:
  assumes "secret \<noteq> []" and "signature = ''sha256='' @ t" and "\<not> list_all (\<lambda>c. nat_of_char c < 128) t"
  shows "verify_github_signature hmac secret body signature = Inl PyTypeError"
  using assms by (simp add: verify_github_signature_def compare_digest_def)

text \<open>The fallback for installations that are not linked is switched off by the exact name only: the surrounding blanks that the configuration
  strips before it compares the environment are not stripped here.\<close>

lemma fallback_in_production:
  "Config.environment st = ''production '' \<Longrightarrow> is_production st \<and> allow_synthetic_fallback st"
  by (simp add: is_production_def allow_synthetic_fallback_def) code_simp

end
