(* ===== verification/DeliveryMetrics.thy ===== *)
theory DeliveryMetrics
  imports Webhooks
begin

text \<open>
  What the dashboard reads of changes and their delivery in \<open>backend/app/services.py\<close>: the lists of changes and the DORA metrics of the last
  thirty days. Nothing is written. Floats are rounded after every operation, and the means use the compensated \<open>sum\<close> of Python.
\<close>

section \<open>Changes\<close>

definition change_in :: "string option \<Rightarrow> string option \<Rightarrow> change \<Rightarrow> bool" where
  "change_in w r c = (opt_all (\<lambda>x. ch_workspace c = x) w \<and> opt_all (\<lambda>x. ch_repository c = x) r)"

definition list_changes :: "string option \<Rightarrow> string option \<Rightarrow> provider \<Rightarrow> change list" where
  "list_changes w r s = sort_key (\<lambda>c. - ch_created c) (filter (change_in w r) (changes s))"

definition get_change :: "string \<Rightarrow> string option \<Rightarrow> provider \<Rightarrow> app_error + change" where
  "get_change k w s = (case find (\<lambda>c. ch_id c = k \<and> change_in w None c) (changes s) of
     None \<Rightarrow> Inl (not_found ''Change not found'' ''change_not_found'') | Some c \<Rightarrow> Inr c)"

section \<open>DORA metrics\<close>

text \<open>The columns of \<open>incidents\<close> the metrics read.\<close>

record metric_incident =
  mi_workspace :: string
  mi_data_mode :: string
  mi_started :: int
  mi_resolved :: "int option"
  mi_change :: "string option"
  mi_timeline :: "pydict list"

record dora_metrics =
  dm_period :: string
  dm_frequency :: rat
  dm_lead_time :: rat
  dm_failure_rate :: rat
  dm_restore_time :: rat
  dm_rework_rate :: rat
  dm_deployments :: nat
  dm_incidents :: nat

text \<open>The field constraints of \<open>DoraMetricsResponse\<close>.\<close>

definition validate_dora :: "dora_metrics \<Rightarrow> app_error + dora_metrics" where
  "validate_dora m = rbind (require (0 \<le> dm_frequency m \<and> 0 \<le> dm_lead_time m \<and> 0 \<le> dm_failure_rate m \<and> dm_failure_rate m \<le> 1 \<and>
     0 \<le> dm_restore_time m \<and> 0 \<le> dm_rework_rate m \<and> dm_rework_rate m \<le> 1)) (\<lambda>_. Inr m)"

definition WINDOW_DAYS :: int where "WINDOW_DAYS = 30"

definition window_end :: "int \<Rightarrow> change list \<Rightarrow> metric_incident list \<Rightarrow> int" where
  "window_end t cs ins =
     (if (cs \<noteq> [] \<or> ins \<noteq> []) \<and> list_all (\<lambda>c. ch_data_mode c = ''synthetic'') cs \<and> list_all (\<lambda>i. mi_data_mode i = ''synthetic'') ins
      then foldr max (map ch_created cs @ map mi_started ins) (hd (map ch_created cs @ map mi_started ins)) else t)"

definition deployed_in :: "int \<Rightarrow> change \<Rightarrow> bool" where
  "deployed_in cutoff c = (py_lower (ch_deployment_status c) \<in> {''deployed'', ''rolled_back''} \<and> cutoff \<le> ch_created c)"

definition failed_deployments :: "change list \<Rightarrow> metric_incident list \<Rightarrow> string list" where
  "failed_deployments cs ins = remdups (filter (\<lambda>k. k \<in> ch_id ` set cs) (List.map_filter mi_change ins))"

definition rate :: "nat \<Rightarrow> nat \<Rightarrow> rat" where
  "rate part whole = (if whole = 0 then 0 else fl (of_nat part / of_nat whole))"

text \<open>\<open>(later - earlier).total_seconds() / 60\<close>.\<close>

definition minutes_between :: "int \<Rightarrow> int \<Rightarrow> rat" where
  "minutes_between earlier later = fl (fl (of_int (later - earlier) / 1000000) / 60)"

definition markers :: "github \<Rightarrow> (string \<Rightarrow> int option) \<Rightarrow> string list \<Rightarrow> int \<Rightarrow> metric_incident \<Rightarrow> int list" where
  "markers g parse_iso kinds earliest i = filter (\<lambda>t. earliest \<le> t) (List.map_filter (\<lambda>e. timeline_timestamp parse_iso (get_field e ''timestamp''))
     (filter (\<lambda>e. py_lower (str_of g (dget_or e ''type'' (PStr []))) \<in> set kinds) (mi_timeline i)))"

definition lead_times :: "github \<Rightarrow> (string \<Rightarrow> int option) \<Rightarrow> change list \<Rightarrow> metric_incident list \<Rightarrow> rat list" where
  "lead_times g parse_iso cs ins = List.map_filter (\<lambda>c.
     case concat (map (markers g parse_iso [''deploy'', ''deployment''] (ch_created c)) (filter (\<lambda>i. mi_change i = Some (ch_id c)) ins)) of
       [] \<Rightarrow> None | t # ts \<Rightarrow> Some (minutes_between (ch_created c) (foldr min ts t))) cs"

definition restored_at :: "github \<Rightarrow> (string \<Rightarrow> int option) \<Rightarrow> metric_incident \<Rightarrow> int option" where
  "restored_at g parse_iso i = (case mi_resolved i of Some t \<Rightarrow> Some t
     | None \<Rightarrow> (case markers g parse_iso [''recovery''] (mi_started i) i of [] \<Rightarrow> None | t # ts \<Rightarrow> Some (foldr max ts t)))"

definition restore_times :: "github \<Rightarrow> (string \<Rightarrow> int option) \<Rightarrow> metric_incident list \<Rightarrow> rat list" where
  "restore_times g parse_iso ins = List.map_filter (\<lambda>i. case restored_at g parse_iso i of
     None \<Rightarrow> None | Some t \<Rightarrow> if mi_started i \<le> t then Some (minutes_between (mi_started i) t) else None) ins"

definition mean_or_zero :: "rat list \<Rightarrow> rat" where
  "mean_or_zero vs = (if vs = [] then 0 else fl (py_sum vs / of_nat (length vs)))"

text \<open>The deployed changes and the incidents of the window.\<close>

definition dora_window :: "int \<Rightarrow> string option \<Rightarrow> provider \<Rightarrow> metric_incident list \<Rightarrow> change list \<times> metric_incident list" where
  "dora_window t w s rows =
     (let all_changes = filter (change_in w None) (changes s);
          all_incidents = filter (\<lambda>i. opt_all (\<lambda>x. mi_workspace i = x) w) rows;
          cutoff = window_end t all_changes all_incidents - days WINDOW_DAYS in
      (filter (deployed_in cutoff) all_changes, filter (\<lambda>i. cutoff \<le> mi_started i) all_incidents))"

definition get_dora_metrics ::
  "github \<Rightarrow> (string \<Rightarrow> int option) \<Rightarrow> int \<Rightarrow> string option \<Rightarrow> provider \<Rightarrow> metric_incident list \<Rightarrow> app_error + dora_metrics" where
  "get_dora_metrics g parse_iso t w s rows = (case dora_window t w s rows of (cs, ins) \<Rightarrow>
     let whole = length cs in
     validate_dora
       \<lparr> dm_period = ''Last 30 Days'', dm_frequency = py_round 1 (fl (of_nat whole / fl (of_int WINDOW_DAYS / 7))),
         dm_lead_time = py_round 1 (mean_or_zero (lead_times g parse_iso cs ins)),
         dm_failure_rate = py_round 3 (rate (length (failed_deployments cs ins)) whole),
         dm_restore_time = py_round 1 (mean_or_zero (restore_times g parse_iso ins)),
         dm_rework_rate = py_round 3 (rate (length (filter (\<lambda>c. py_lower (ch_deployment_status c) = ''rolled_back'') cs)) whole),
         dm_deployments = whole, dm_incidents = length ins \<rparr>)"

section \<open>Bounds\<close>

lemma py_round_nonneg: "0 \<le> x \<Longrightarrow> 0 \<le> py_round n x"
  using round_half_even_ge [of 0 "x * 10 ^ n"] by (simp add: py_round_def fl_nonneg)

lemma rate_unit: "part \<le> whole \<Longrightarrow> 0 \<le> py_round n (rate part whole) \<and> py_round n (rate part whole) \<le> 1"
  by (intro py_round_unit) (auto simp: rate_def divide_le_eq intro: b64.rnd_unit [THEN conjunct1] b64.rnd_unit [THEN conjunct2])

lemma failed_le_total: "length (failed_deployments cs ins) \<le> length cs"
proof -
  have "length (failed_deployments cs ins) = card (set (failed_deployments cs ins))"
    by (rule distinct_card [symmetric]) (simp add: failed_deployments_def)
  also have "\<dots> \<le> card (ch_id ` set cs)" by (intro card_mono) (auto simp: failed_deployments_def)
  also have "\<dots> \<le> length cs" by (rule order_trans [OF card_image_le card_length]) simp
  finally show ?thesis .
qed

lemma minutes_nonneg: "earlier \<le> later \<Longrightarrow> 0 \<le> minutes_between earlier later"
  by (simp add: minutes_between_def fl_nonneg)

text \<open>A compensated sum of times may fall short of the exact sum, but not so far that the rounded mean is negative.\<close>

lemma small_negative_mean: "0 \<le> round_half_even (fl (- 3 / 256) * 10 ^ 1)"
  by code_simp

lemma lower_from_error: "\<bar>a - e\<bar> \<le> b \<Longrightarrow> b \<le> c \<Longrightarrow> 0 \<le> e \<Longrightarrow> - c \<le> (a :: rat)"
  by linarith

lemma rounded_mean_nonneg:
  assumes "list_all (\<lambda>x. 0 \<le> x) vs" and "sum_list vs + (5 * of_nat (length vs)) / 256 \<le> 2 ^ 45"
  shows "0 \<le> py_round 1 (mean_or_zero vs)"
proof (cases vs)
  case Nil
  then show ?thesis by (simp add: mean_or_zero_def py_round_nonneg)
next
  case (Cons x xs)
  let ?n = "of_nat (length vs) :: rat"
  have "0 \<le> sum_list vs" using assms(1) by (intro sum_list_nonneg) (simp add: list_all_iff)
  moreover have "sum_list (map abs xs) = sum_list xs" "\<bar>x\<bar> = x"
    using assms(1) Cons by (auto simp: list_all_iff intro!: arg_cong [where f = sum_list] map_idI)
  ultimately have abs: "sum_list (map abs xs) = sum_list xs" "\<bar>x\<bar> = x" "0 \<le> sum_list vs" by simp_all
  have "\<bar>neumaier fl x 0 xs - (x + 0 + sum_list xs)\<bar> \<le> (3 * of_nat (length xs) + 1) * (2 ^ 45 / 2 ^ 53)"
    using assms(2) abs Cons by (intro b64.neumaier_err) (simp add: field_simps)
  moreover have "(3 * of_nat (length xs) + 1) * (2 ^ 45 / 2 ^ 53) \<le> 3 * ?n / 256" using Cons by simp
  ultimately have "- (3 * ?n / 256) \<le> neumaier fl x 0 xs"
    by (rule lower_from_error) (use abs(3) Cons in simp)
  then have "- 3 / 256 * ?n \<le> py_sum vs" using Cons by (simp add: py_sum_def)
  then have "- 3 / 256 \<le> py_sum vs / ?n" using Cons by (subst pos_le_divide_eq) simp_all
  then have "round_half_even (fl (- 3 / 256) * 10 ^ 1) \<le> round_half_even (mean_or_zero vs * 10 ^ 1)"
    using Cons fl_mono by (intro round_half_even_mono mult_right_mono) (simp_all add: mean_or_zero_def)
  with small_negative_mean have "0 \<le> round_half_even (mean_or_zero vs * 10 ^ 1)" by linarith
  then show ?thesis unfolding py_round_def by (intro fl_nonneg) simp
qed

lemma foldr_min_ge: "\<forall>u\<in>set (t # ts). c \<le> u \<Longrightarrow> c \<le> foldr min ts (t :: int)"
  by (induction ts) auto

lemma markers_ge: "u \<in> set (concat (map (markers g parse_iso kinds c) xs)) \<Longrightarrow> c \<le> u"
  by (auto simp: markers_def)

lemma all_map_filter: "(\<And>x y. f x = Some y \<Longrightarrow> P y) \<Longrightarrow> list_all P (List.map_filter f xs)"
  by (induction xs) (auto simp: List.map_filter_def split: option.splits)

lemma first_marker_nonneg:
  assumes "(case concat (map (markers g parse_iso kinds c) xs) of [] \<Rightarrow> None | t # ts \<Rightarrow> Some (minutes_between c (foldr min ts t))) = Some x"
  shows "0 \<le> x"
proof (cases "concat (map (markers g parse_iso kinds c) xs)")
  case Nil
  with assms show ?thesis unfolding Nil by simp
next
  case (Cons t ts)
  then have "\<forall>u\<in>set (t # ts). c \<le> u" using markers_ge [of _ g parse_iso kinds c xs] by metis
  then have "c \<le> foldr min ts t" by (rule foldr_min_ge)
  with assms Cons show ?thesis by (auto intro: minutes_nonneg)
qed

lemma lead_times_nonneg: "list_all (\<lambda>x. 0 \<le> x) (lead_times g parse_iso cs ins)"
  unfolding lead_times_def by (rule all_map_filter) (rule first_marker_nonneg)

lemma restore_times_nonneg: "list_all (\<lambda>x. 0 \<le> x) (restore_times g parse_iso ins)"
  unfolding restore_times_def by (rule all_map_filter) (auto split: option.splits if_splits intro: minutes_nonneg)

lemma length_map_filter: "length (List.map_filter f xs) \<le> length xs"
  by (simp add: List.map_filter_def)

lemma short_times:
  assumes "sum_list vs + of_nat (length xs) / 32 \<le> 2 ^ 45" and "length vs \<le> length xs"
  shows "sum_list vs + (5 * of_nat (length vs)) / 256 \<le> (2 ^ 45 :: rat)"
proof -
  have "(of_nat (length vs) :: rat) \<le> of_nat (length xs)" using assms(2) by simp
  then have "(5 * of_nat (length vs)) / 256 \<le> (of_nat (length xs) / 32 :: rat)" by (simp add: field_simps)
  with assms(1) show ?thesis by linarith
qed

text \<open>
  C40. The delivery metrics are always answered: as long as the times observed in the window add up to less than about \<open>2\<^sup>4\<^sup>5\<close> minutes, every field of
  the response is within the range its schema demands, so that the response is never refused. Both rates lie between 0 and 1 after rounding,
  and the errors of the compensated sum never make a rounded mean negative.
\<close>
theorem dora_metrics_answered:
  assumes "dora_window t w s rows = (cs, ins)"
    and "sum_list (lead_times g parse_iso cs ins) + of_nat (length cs) / 32 \<le> 2 ^ 45"
    and "sum_list (restore_times g parse_iso ins) + of_nat (length ins) / 32 \<le> 2 ^ 45"
  shows "\<exists>m. get_dora_metrics g parse_iso t w s rows = Inr m \<and> dm_deployments m = length cs \<and> dm_incidents m = length ins \<and>
    0 \<le> dm_failure_rate m \<and> dm_failure_rate m \<le> 1 \<and> 0 \<le> dm_rework_rate m \<and> dm_rework_rate m \<le> 1 \<and>
    0 \<le> dm_frequency m \<and> 0 \<le> dm_lead_time m \<and> 0 \<le> dm_restore_time m"
proof -
  have lead: "0 \<le> py_round 1 (mean_or_zero (lead_times g parse_iso cs ins))"
    by (rule rounded_mean_nonneg [OF lead_times_nonneg short_times [OF assms(2)]]) (simp add: lead_times_def length_map_filter)
  have restore: "0 \<le> py_round 1 (mean_or_zero (restore_times g parse_iso ins))"
    by (rule rounded_mean_nonneg [OF restore_times_nonneg short_times [OF assms(3)]]) (simp add: restore_times_def length_map_filter)
  have "0 \<le> py_round 1 (fl (of_nat (length cs) / fl (of_int WINDOW_DAYS / 7)))"
    by (intro py_round_nonneg fl_nonneg divide_nonneg_nonneg) (simp_all add: WINDOW_DAYS_def)
  then show ?thesis
    using lead restore rate_unit [OF failed_le_total [of cs ins], of 3] rate_unit [OF length_filter_le [of _ cs], of 3]
    by (simp add: get_dora_metrics_def assms(1) Let_def validate_dora_def require_def rguard_def)
qed

definition demo_metric_incident :: metric_incident where
  "demo_metric_incident = \<lparr> mi_workspace = ''w1'', mi_data_mode = ''connected'', mi_started = 60000000, mi_resolved = Some 180000000, mi_change = Some ''ch1'',
     mi_timeline = [[(PStr ''type'', PStr ''deploy''), (PStr ''timestamp'', PStr ''t1'')]] \<rparr>"

definition demo_deployed :: provider where
  "demo_deployed = demo_provider \<lparr> changes := [demo_change \<lparr> ch_deployment_status := ''deployed'' \<rparr>] \<rparr>"

lemma demo_metrics_window:
  "dora_window 200000000 (Some ''w1'') demo_deployed [demo_metric_incident] = (changes demo_deployed, [demo_metric_incident])"
  "sum_list (lead_times demo_github demo_iso (changes demo_deployed) [demo_metric_incident]) + of_nat (length (changes demo_deployed)) / 32 \<le> 2 ^ 45"
  "sum_list (restore_times demo_github demo_iso [demo_metric_incident]) + of_nat (length [demo_metric_incident]) / 32 \<le> 2 ^ 45"
  by code_simp+

theorem dora_metrics_answered_witness:
  "\<exists>m. get_dora_metrics demo_github demo_iso 200000000 (Some ''w1'') demo_deployed [demo_metric_incident] = Inr m \<and> dm_incidents m = 1 \<and> dm_failure_rate m \<le> 1"
  using dora_metrics_answered [OF demo_metrics_window] by auto

text \<open>A change is read only inside the workspace that is asked for, and every listed change can be read.\<close>

lemma listed_change_readable:
  assumes "distinct (map ch_id (changes s))" and "c \<in> set (list_changes w r s)"
  shows "get_change (ch_id c) w s = Inr c"
proof -
  have c: "c \<in> set (changes s)" "change_in w None c" using assms(2) by (auto simp: list_changes_def change_in_def opt_all_def)
  have "\<exists>x. find (\<lambda>x. ch_id x = ch_id c \<and> change_in w None x) (changes s) = Some x"
    using c by (cases "find (\<lambda>x. ch_id x = ch_id c \<and> change_in w None x) (changes s)") (auto simp: find_None_iff)
  then obtain x where x: "find (\<lambda>x. ch_id x = ch_id c \<and> change_in w None x) (changes s) = Some x" ..
  then have "x = c" using find_SomeD [OF x] c(1) assms(1) by (auto simp: distinct_map inj_on_def)
  with x show ?thesis by (simp add: get_change_def)
qed

end
