(* ===== verification/Spec2Isabelle.thy ===== *)
theory Spec2Isabelle
  imports VerifyCli RcaRanker EvidenceSynthesis RequestGuard Worker DeliveryMetrics
begin

text \<open>
  \<^bold>\<open>DeployGuard AI.\<close>

  The repository holds two Python programs. \<^emph>\<open>DeployGuard Verify\<close> (\<open>verify/deployguard_verify\<close>) is a command line gate: it reads a change
  from Git, the policy from the protected base commit and evidence artifacts from the workspace, decides PASS, REVIEW, BLOCK or
  ERROR, writes a receipt and exits with a code. The \<^emph>\<open>backend\<close> (\<open>backend/app\<close>) is a multi-tenant service: it scores changes, ranks
  causes of incidents, keeps a catalogue of services and a ledger of events, talks to GitHub through a job queue and a worker, and
  governs what incident data may be released.

  \<^bold>\<open>Conventions.\<close> A raised exception is \<open>Inl\<close> of an error value. A database is a record of tables, each a list of rows in insertion
  order; an operation takes the committed tables and returns the next ones, and a commit that would violate a primary key or a unique
  constraint is \<open>IntegrityError\<close>. An operation that commits before it raises returns its exception next to the state. What other
  transactions commit between a read and a write is a function on the tables (\<open>others\<close>), an argument of the operation. Times are
  microseconds. The clock, \<open>uuid4\<close>, random tokens, digests, HMAC, the YAML, XML and JSON parsers, Git, the file system, HTTP and SMTP
  are arguments. Where the code settles a row it loaded earlier without locking it, the operation takes the table it was loaded from and the
  table it is written to (\<open>JobQueue\<close>, \<open>Worker\<close>), and a run keeps the history of the tables. A property that needs requests to be served one
  after the other says so. Python floats are rationals with the rounding \<open>fl\<close> of binary64 after every operation.

  \<^bold>\<open>Shared theories.\<close>
  \<^item> \<open>Prelude\<close>: results, the fragment of Python's string library, dictionaries, and the locales \<open>invariant_system\<close> and
    \<open>monotone_system\<close>, which the stateful components interpret (job queue, tenancy requests, catalogue, operations, publications,
    worker, deployments, governance, installations).
  \<^item> \<open>Binary64\<close>: binary64 rounding and the locale \<open>float_rounding\<close> that \<open>fl\<close> interprets. \<open>PyValue\<close>: dynamically typed values and
    the exceptions of the Verify package. \<open>Glob\<close>: \<open>fnmatch\<close>.

  \<^bold>\<open>Verify.\<close>
  \<^item> \<open>Policy\<close> (\<open>policy.py\<close>): validation, path rules, canonical JSON. A validated policy has the type the engine reads.
  \<^item> \<open>VerifyEngine\<close> (\<open>models.py\<close>, \<open>engine.py\<close>): the decision, shown equivalent to declarative conditions, explained by its reasons,
    and independent of the order of evidence.
  \<^item> \<open>VerifyEvidence\<close> (\<open>evidence.py\<close>): artifact selection stays inside the workspace; what each parser reports.
  \<^item> \<open>VerifyCli\<close> (\<open>git_change.py\<close>, \<open>cli.py\<close>): the commands with their exit codes. The gate fails closed, and evidence of another commit
    neither blocks nor lets pass anything that asks for evidence.

  \<^bold>\<open>Engines of the backend.\<close>
  \<^item> \<open>RiskEngine\<close>, \<open>BlastRadius\<close>, \<open>RcaRanker\<close> (\<open>engines.py\<close>): the rounded score is a nearest integer of the decimal score and monotone
    in each dimension; the traversal labels exactly the services in reach with least distance and best confidence; the ranking is a
    sorted list of the candidates.
  \<^item> \<open>EvidenceSynthesis\<close> (\<open>evidence_synthesis.py\<close>): explanations cite only the incident's evidence, and are produced for every incident
    with citable hypotheses.

  \<^bold>\<open>Tenancy and requests.\<close>
  \<^item> \<open>Config\<close> (\<open>config.py\<close>), \<open>Tenancy\<close> (\<open>workspace_services.py\<close>, \<open>rls.py\<close>, \<open>errors.py\<close>), \<open>TenantScope\<close> (\<open>tenant.py\<close>, \<open>auth/\<close>,
    \<open>workspace_api.py\<close>): requests to the workspace routes, served one after the other, keep the tenancy invariant; such a request changes
    only the rows of workspaces its user may write; and production admits only verified identities. An acceptance that a revocation overtakes is
    shown to break the invariant. Other routes that write audit rows belong to the components that own them; \<open>POST /reset-database\<close>, which
    deletes the scenarios of every workspace where it is enabled, is not modelled.
  \<^item> \<open>RequestGuard\<close> (\<open>request_guard.py\<close>, \<open>metrics.py\<close>): body limit and the sliding window of the rate limiter.

  \<^bold>\<open>Operations.\<close>
  \<^item> \<open>ServiceCatalog\<close>, \<open>Operations\<close> (\<open>operations_services.py\<close>): the dependency check is exact and terminates, the catalogue stays
    acyclic, and incidents refine an abstract state machine.
  \<^item> \<open>Governance\<close> (\<open>services.py\<close>: feedback, post-mortems, dataset readiness and consent): data is ready for review only with an audited
    approval of the newest snapshot, and a revocation holds. Its runs interleave with every operation of \<open>Operations\<close>.
  \<^item> \<open>Telemetry\<close> (\<open>services.py\<close>, \<open>api.py\<close>): a collector writes only to the workspace of its token; a retry under the same identifier conflicts,
    at any later time.

  \<^bold>\<open>Jobs and GitHub.\<close>
  \<^item> \<open>JobQueue\<close> (\<open>job_queue.py\<close>): safe tables in every reachable state, exclusive claims and idempotent enqueueing, however operations are
    overtaken; well-formed rows, final successes and deliveries within the attempt limit for a job without late settlements (committed over
    a row that changed after it was loaded), and one delivery more for each of these. \<open>JobContracts\<close> (\<open>job_contracts.py\<close>, \<open>job_producers.py\<close>, \<open>job_services.py\<close>): payloads survive the round trip.
  \<^item> \<open>GithubClient\<close> (\<open>github_client.py\<close>), \<open>GithubChecks\<close> and \<open>Providers\<close> (\<open>provider_services.py\<close>): a check is created once, later
    only that one is updated, and it is neutral without a receipt; an installation state is used once, whatever is done afterwards.
  \<^item> \<open>Worker\<close> (\<open>worker.py\<close>, \<open>email_delivery.py\<close>): an invitation is mailed once, also when a worker dies in between, except that each
    delivery overlapping another one may mail it again.
  \<^item> \<open>Deployments\<close> (\<open>deployment_services.py\<close>): deliveries processed one after the other never take a deployment back; the theory also
    shows the interleaving in which an older delivery overwrites a newer one.

  \<^bold>\<open>Change analysis and webhooks\<close>, where the components above meet.
  \<^item> \<open>ChangeAnalysis\<close> (\<open>services.py\<close>: \<open>active_scenario\<close>, \<open>_analysis_graph\<close>, \<open>_canonical_topology\<close>, \<open>analyze_change\<close>): the catalogue is laid over the
    topology of a scenario, the request and the topology are digested, and a new digest stores a change with the documents of the risk
    and blast-radius engines. A change reaches the catalogued dependents of its services, an analysis is idempotent and stays in the
    workspace of its caller, and its identity does not depend on the order of the topology.
  \<^item> \<open>Webhooks\<close> (\<open>api.py\<close>: \<open>github_webhook\<close>, \<open>services.py\<close>: \<open>process_github_webhook\<close>): a delivery runs the analysis, the event ledger of \<open>Operations\<close>, the
    producer of \<open>JobContracts\<close> and the upsert of \<open>Deployments\<close>. Nothing happens without the signature; a processed pull request is not handled
    again; a check is queued in the commit that marks its delivery processed, and a failed delivery queues nothing.
  \<^item> \<open>DeliveryMetrics\<close> (\<open>services.py\<close>: \<open>get_dora_metrics\<close>, \<open>list_changes\<close>, \<open>get_change\<close>): the metrics are within the bounds of their response model
    in spite of rounding.

  \<^bold>\<open>Loops and bounds.\<close> Every recursive definition terminates with a measure or structurally. The pages of a GitHub listing are
  bounded by 100 as in the code, the deployment upsert retries once, and the worker loop runs over the list of its iterations, so that
  a worker that is never told to stop is every prefix of an endless list. Nothing else uses fuel.

  \<^bold>\<open>Not modelled.\<close> The FastAPI routers that only pass arguments on, SQLAlchemy set-up and migrations, OpenTelemetry, the seed
  data, the overview and the scenario and incident lists assembled in \<open>services.py\<close>, the maintenance scripts, the control plane in C\# and the web
  front end: declarations, input/output or other languages. The parts of modelled files that are left out are named at the head
  of their theory.
\<close>

end
